(* ===== verification/Prelude.thy ===== *)
theory Prelude
  imports "HOL-Library.Word" "HOL-Library.Monad_Syntax"
begin

text \<open>
  The vocabulary every component shares: machine bytes, Go slices with their bounds
  checks, little-endian encoding (\<open>encoding/binary\<close>), and the generic facts about lists,
  maps and words that the component proofs use. A Go panic is the value \<open>None\<close> of an
  option; a Go \<open>error\<close> result is the left side of a sum.
\<close>

unbundle bit_operations_syntax

named_theorems go_simps "evaluation rules of the modelled Go primitives"
named_theorems inv_intros "preservation lemmas of the components' invariants"

type_synonym byte = "8 word"
type_synonym u16 = "16 word"
type_synonym u32 = "32 word"
type_synonym u64 = "64 word"

lemma bind_NoneI: "(\<And>y. x = Some y \<Longrightarrow> f y = None) \<Longrightarrow> x \<bind> f = None"
  by (cases x) auto

lemma filter_split_length:
  "length (filter (\<lambda>x. P x \<and> \<not> Q x) xs) + length (filter (\<lambda>x. P x \<and> Q x) xs) = length (filter P xs)"
  by (induction xs) auto

section \<open>Slices\<close>

text \<open>
  \<open>b[i:j]\<close> panics unless \<open>0 \<le> i \<le> j \<le> cap(b)\<close>. Every slice the modelled code
  re-slices has its capacity equal to its length, so the length is the bound here.
\<close>

definition go_slice :: "'a list \<Rightarrow> nat \<Rightarrow> nat \<Rightarrow> 'a list option" where
  "go_slice b i j = (if i \<le> j \<and> j \<le> length b then Some (take (j - i) (drop i b)) else None)"

definition go_index :: "'a list \<Rightarrow> nat \<Rightarrow> 'a option" where
  "go_index b i = (if i < length b then Some (b ! i) else None)"

text \<open>Writing a run of elements into the slice \<open>b[i:j]\<close>: Go's \<open>copy(b[i:j], src)\<close>.\<close>

definition overwrite :: "nat \<Rightarrow> 'a list \<Rightarrow> 'a list \<Rightarrow> 'a list" where
  "overwrite i src b = take i b @ src @ drop (i + length src) b"

definition go_copy :: "'a list \<Rightarrow> nat \<Rightarrow> nat \<Rightarrow> 'a list \<Rightarrow> 'a list option" where
  "go_copy b i j src =
     (if i \<le> j \<and> j \<le> length b then Some (overwrite i (take (j - i) src) b) else None)"

definition go_store :: "'a list \<Rightarrow> nat \<Rightarrow> 'a \<Rightarrow> 'a list option" where
  "go_store b i x = (if i < length b then Some (b[i := x]) else None)"

lemma length_overwrite [simp]: "i + length src \<le> length b \<Longrightarrow> length (overwrite i src b) = length b"
  by (simp add: overwrite_def)

lemma go_copy_Some:
  "i \<le> j \<Longrightarrow> j \<le> length b \<Longrightarrow> go_copy b i j src = Some (overwrite i (take (j - i) src) b)"
  by (simp add: go_copy_def)

lemma go_copy_length: "go_copy b i j src = Some b' \<Longrightarrow> length b' = length b"
  by (auto simp: go_copy_def split: if_splits)

lemma go_store_length: "go_store b i x = Some b' \<Longrightarrow> length b' = length b"
  by (auto simp: go_store_def split: if_splits)

text \<open>Overwriting the middle part of a list that is known in three parts.\<close>

lemma overwrite_middle:
  "length xs = i \<Longrightarrow> length ys = length src \<Longrightarrow> overwrite i src (xs @ ys @ zs) = xs @ src @ zs"
  by (simp add: overwrite_def)

lemma go_copy_middle:
  "length xs = i \<Longrightarrow> length ys = j - i \<Longrightarrow> i \<le> j \<Longrightarrow> length src = j - i \<Longrightarrow>
   go_copy (xs @ ys @ zs) i j src = Some (xs @ src @ zs)"
  by (simp add: go_copy_def overwrite_middle)

lemma go_store_middle:
  "length xs = i \<Longrightarrow> go_store (xs @ y # zs) i x = Some (xs @ x # zs)"
  by (auto simp: go_store_def list_update_append)

lemma go_slice_middle:
  "length xs = i \<Longrightarrow> length ys = j - i \<Longrightarrow> i \<le> j \<Longrightarrow> go_slice (xs @ ys @ zs) i j = Some ys"
  by (simp add: go_slice_def)

lemma go_index_middle: "length xs = i \<Longrightarrow> go_index (xs @ y # zs) i = Some y"
  by (auto simp: go_index_def)

lemma go_slice_Some_iff:
  "go_slice b i j = Some s \<longleftrightarrow> i \<le> j \<and> j \<le> length b \<and> s = take (j - i) (drop i b)"
  by (auto simp: go_slice_def)

lemma go_slice_length: "go_slice b i j = Some s \<Longrightarrow> length s = j - i"
  by (auto simp: go_slice_Some_iff)

section \<open>Little-endian words\<close>

text \<open>
  \<open>binary.LittleEndian.PutUint16/32/64\<close> write the low byte first; \<open>Uint16/32/64\<close> read
  it back by shifting. Both are one recursion over the number of bytes.
\<close>

fun le_put :: "nat \<Rightarrow> 'a::len word \<Rightarrow> byte list" where
  "le_put 0 v = []"
| "le_put (Suc n) v = ucast v # le_put n (drop_bit 8 v)"

fun le_get :: "byte list \<Rightarrow> 'a::len word" where
  "le_get [] = 0"
| "le_get (b # bs) = ucast b OR push_bit 8 (le_get bs)"

lemma length_le_put [simp]: "length (le_put n v) = n"
  by (induction n arbitrary: v) auto

lemma le_get_put_take_bit: "le_get (le_put n v) = take_bit (8 * n) v"
proof (induction n arbitrary: v)
  case 0
  then show ?case by simp
next
  case (Suc n)
  show ?case
    by (rule bit_word_eqI)
      (auto simp: Suc.IH bit_simps not_less less_diff_conv2)
qed

lemma le_get_put: "LENGTH('a) \<le> 8 * n \<Longrightarrow> le_get (le_put n v) = (v :: 'a::len word)"
  by (simp add: le_get_put_take_bit take_bit_word_eq_self)

lemma le_put_get:
  "8 * length bs \<le> LENGTH('a) \<Longrightarrow> le_put (length bs) (le_get bs :: 'a::len word) = bs"
proof (induction bs)
  case Nil
  then show ?case by simp
next
  case (Cons b bs)
  let ?w = "le_get bs :: 'a word"
  have IH: "le_put (length bs) ?w = bs" using Cons by simp
  have small: "take_bit (LENGTH('a) - 8) ?w = ?w"
  proof -
    have "?w = take_bit (8 * length bs) ?w"
      by (metis IH le_get_put_take_bit)
    moreover have "8 * length bs \<le> LENGTH('a) - 8" using Cons.prems by simp
    ultimately show ?thesis
      by (metis min.absorb2 take_bit_take_bit)
  qed
  have hi: "drop_bit 8 (ucast b OR push_bit 8 ?w) = ?w"
  proof (rule bit_word_eqI)
    fix n assume n: "n < LENGTH('a)"
    have "bit ?w n \<Longrightarrow> n < LENGTH('a) - 8"
      by (subst (asm) small [symmetric]) (simp add: bit_simps)
    then show "bit (drop_bit 8 (ucast b OR push_bit 8 ?w)) n = bit ?w n"
      using n Cons.prems by (auto simp: bit_simps dest: bit_imp_le_length)
  qed
  have lo: "ucast (ucast b OR push_bit 8 ?w) = b"
    by (rule bit_word_eqI) (use Cons.prems in \<open>auto simp: bit_simps\<close>)
  show ?case by (simp only: length_Cons le_put.simps le_get.simps lo hi IH)
qed

lemma u16_bound: "unat (w :: u16) < 65536"
  by (rule order.strict_trans2 [OF unsigned_less]) simp

lemma unat_of_nat_u16: "n < 65536 \<Longrightarrow> unat (of_nat n :: u16) = n"
  by (simp add: unsigned_of_nat take_bit_eq_mod)

end
