(* ===== verification/GoStrings.thy ===== *)
theory GoStrings
  imports Prelude
begin

text \<open>
  The part of Go's \<open>strings\<close>, \<open>strconv\<close> and \<open>unicode\<close> packages the modelled code uses,
  on ASCII text: a string is a list of characters below 128, where bytes and runes agree.
  Characters from 128 on are neither letters, digits nor spaces here, and are their own lower
  case; text that needs more of Unicode is outside the model.
\<close>

section \<open>Characters\<close>

definition code_of :: "char \<Rightarrow> nat" where
  "code_of c = of_char c"

definition IsSpace :: "char \<Rightarrow> bool" where
  "IsSpace c \<longleftrightarrow> code_of c \<in> {9, 10, 11, 12, 13, 32}"

definition IsDigit :: "char \<Rightarrow> bool" where
  "IsDigit c \<longleftrightarrow> 48 \<le> code_of c \<and> code_of c \<le> 57"

definition IsUpper :: "char \<Rightarrow> bool" where
  "IsUpper c \<longleftrightarrow> 65 \<le> code_of c \<and> code_of c \<le> 90"

definition IsLower :: "char \<Rightarrow> bool" where
  "IsLower c \<longleftrightarrow> 97 \<le> code_of c \<and> code_of c \<le> 122"

definition IsLetter :: "char \<Rightarrow> bool" where
  "IsLetter c \<longleftrightarrow> IsUpper c \<or> IsLower c"

definition to_lower :: "char \<Rightarrow> char" where
  "to_lower c = (if IsUpper c then char_of (code_of c + 32) else c)"

definition to_upper :: "char \<Rightarrow> char" where
  "to_upper c = (if IsLower c then char_of (code_of c - 32) else c)"

lemmas char_class_defs = IsSpace_def IsDigit_def IsUpper_def IsLower_def IsLetter_def

lemma code_of_less [simp]: "code_of c < 256"
  by (simp add: code_of_def)

lemma code_of_char_of: "n < 256 \<Longrightarrow> code_of (char_of n) = n"
  by (simp add: code_of_def)

lemma code_of_eq_iff: "code_of c = code_of d \<longleftrightarrow> c = d"
  by (simp add: code_of_def)

lemma code_of_space [simp]: "code_of (CHR '' '') = 32"
  by (simp add: code_of_def)

lemma space_is_space [simp]: "IsSpace (CHR '' '')" "\<not> IsDigit (CHR '' '')" "\<not> IsLetter (CHR '' '')"
  by (simp_all add: char_class_defs)

lemma digit_not_space: "IsDigit c \<Longrightarrow> \<not> IsSpace c"
  by (auto simp: char_class_defs)

lemma letter_not_space: "IsLetter c \<Longrightarrow> \<not> IsSpace c"
  by (auto simp: char_class_defs)

lemma letter_not_digit: "IsLetter c \<Longrightarrow> \<not> IsDigit c"
  by (auto simp: char_class_defs)

lemma code_of_to_lower: "code_of (to_lower c) = (if IsUpper c then code_of c + 32 else code_of c)"
proof (cases "IsUpper c")
  case True
  then have "code_of c + 32 < 256" by (simp add: IsUpper_def)
  with True show ?thesis by (simp only: to_lower_def if_True code_of_char_of)
next
  case False
  then show ?thesis by (simp add: to_lower_def)
qed

lemma to_lower_class [simp]:
  "IsSpace (to_lower c) = IsSpace c"
  "IsDigit (to_lower c) = IsDigit c"
  "IsLetter (to_lower c) = IsLetter c"
  "\<not> IsUpper (to_lower c)"
  by (auto simp: char_class_defs code_of_to_lower)

lemma to_lower_id: "\<not> IsUpper c \<Longrightarrow> to_lower c = c"
  by (simp add: to_lower_def)

section \<open>Whole strings\<close>

definition ToLower :: "string \<Rightarrow> string" where
  "ToLower s = map to_lower s"

definition ToUpper :: "string \<Rightarrow> string" where
  "ToUpper s = map to_upper s"

definition TrimSpace :: "string \<Rightarrow> string" where
  "TrimSpace s = rev (dropWhile IsSpace (rev (dropWhile IsSpace s)))"

definition HasPrefix :: "string \<Rightarrow> string \<Rightarrow> bool" where
  "HasPrefix s p \<longleftrightarrow> take (length p) s = p"

definition HasSuffix :: "string \<Rightarrow> string \<Rightarrow> bool" where
  "HasSuffix s p \<longleftrightarrow> length p \<le> length s \<and> drop (length s - length p) s = p"

definition TrimPrefix :: "string \<Rightarrow> string \<Rightarrow> string" where
  "TrimPrefix s p = (if HasPrefix s p then drop (length p) s else s)"

text \<open>\<open>strings.Fields\<close>: the maximal runs of non-space characters.\<close>

fun fields_aux :: "string \<Rightarrow> string \<Rightarrow> string list" where
  "fields_aux acc [] = (if acc = [] then [] else [rev acc])"
| "fields_aux acc (c # cs) =
     (if IsSpace c then (if acc = [] then fields_aux [] cs else rev acc # fields_aux [] cs)
      else fields_aux (c # acc) cs)"

definition Fields :: "string \<Rightarrow> string list" where
  "Fields s = fields_aux [] s"

fun Join :: "string list \<Rightarrow> string \<Rightarrow> string" where
  "Join [] sep = []"
| "Join [x] sep = x"
| "Join (x # y # zs) sep = x @ sep @ Join (y # zs) sep"

text \<open>Index of the first occurrence of a substring, as \<open>strings.Index\<close> (which gives -1).\<close>

fun Index :: "string \<Rightarrow> string \<Rightarrow> nat option" where
  "Index [] p = (if p = [] then Some 0 else None)"
| "Index (c # cs) p = (if HasPrefix (c # cs) p then Some 0 else map_option Suc (Index cs p))"

definition Contains :: "string \<Rightarrow> string \<Rightarrow> bool" where
  "Contains s p \<longleftrightarrow> Index s p \<noteq> None"

text \<open>\<open>strings.ReplaceAll\<close> for a non-empty \<open>old\<close>: leftmost, non-overlapping occurrences.\<close>

function ReplaceAll :: "string \<Rightarrow> string \<Rightarrow> string \<Rightarrow> string" where
  "ReplaceAll [] old new = []"
| "ReplaceAll (c # cs) old new =
     (if old \<noteq> [] \<and> HasPrefix (c # cs) old then new @ ReplaceAll (drop (length old) (c # cs)) old new
      else c # ReplaceAll cs old new)"
  by pat_completeness auto
termination
  by (relation "measure (\<lambda>(s, old, new). length s)") (auto simp: neq_Nil_conv)

text \<open>\<open>strings.Cut\<close> (before, after, found) and \<open>strings.Split\<close> for a non-empty separator.\<close>

definition Cut :: "string \<Rightarrow> string \<Rightarrow> string \<times> string \<times> bool" where
  "Cut s sep = (case Index s sep of None \<Rightarrow> (s, [], False)
                | Some i \<Rightarrow> (take i s, drop (i + length sep) s, True))"

lemma Index_bound: "Index s p = Some i \<Longrightarrow> i + length p \<le> length s"
proof (induction s p arbitrary: i rule: Index.induct)
  case (2 c cs p)
  then show ?case
    by (auto simp: HasPrefix_def split: if_splits) (metis length_Cons length_take min.cobounded1)
qed (auto split: if_splits)

function Split :: "string \<Rightarrow> string \<Rightarrow> string list" where
  "Split s sep =
     (case (if sep = [] then None else Index s sep) of None \<Rightarrow> [s]
      | Some i \<Rightarrow> take i s # Split (drop (i + length sep) s) sep)"
  by pat_completeness auto
termination
proof (relation "measure (\<lambda>(s, sep). length s)", goal_cases)
  case (2 s sep i)
  then have "Index s sep = Some i" "sep \<noteq> []" by (auto split: if_splits)
  then show ?case using Index_bound [of s sep i] by (cases sep) auto
qed simp

declare Split.simps [simp del]

section \<open>Numbers\<close>

definition digit_char :: "nat \<Rightarrow> char" where
  "digit_char d = char_of (48 + d mod 10)"

definition digit_value :: "char \<Rightarrow> nat" where
  "digit_value c = code_of c - 48"

function Itoa_nat :: "nat \<Rightarrow> string" where
  "Itoa_nat n = (if n < 10 then [digit_char n] else Itoa_nat (n div 10) @ [digit_char n])"
  by pat_completeness auto
termination by (relation "measure id") auto

declare Itoa_nat.simps [simp del]

definition Itoa :: "int \<Rightarrow> string" where
  "Itoa i = (if i < 0 then CHR ''-'' # Itoa_nat (nat (- i)) else Itoa_nat (nat i))"

definition decimal_value :: "string \<Rightarrow> nat" where
  "decimal_value s = foldl (\<lambda>n c. 10 * n + digit_value c) 0 s"

text \<open>
  \<open>strconv.Atoi\<close>: an optional sign and at least one digit, in the range of a 64-bit int.
\<close>

definition Atoi :: "string \<Rightarrow> int option" where
  "Atoi s =
     (let (neg, ds) = (case s of [] \<Rightarrow> (False, s)
                       | c # cs \<Rightarrow> if c = CHR ''-'' then (True, cs)
                                  else if c = CHR ''+'' then (False, cs) else (False, s))
      in if ds = [] \<or> \<not> list_all IsDigit ds then None
         else let v = (if neg then - int (decimal_value ds) else int (decimal_value ds))
              in if - (2 ^ 63) \<le> v \<and> v < 2 ^ 63 then Some v else None)"

lemma IsDigit_digit_char [simp]: "IsDigit (digit_char d)"
proof -
  have "48 + d mod 10 < (256 :: nat)" using mod_less_divisor [of 10 d] by linarith
  then have "code_of (digit_char d) = 48 + d mod 10" by (simp only: digit_char_def code_of_char_of)
  then show ?thesis by (simp add: IsDigit_def)
qed

lemma digit_value_digit_char [simp]: "digit_value (digit_char d) = d mod 10"
proof -
  have "48 + d mod 10 < (256 :: nat)" using mod_less_divisor [of 10 d] by linarith
  then have "code_of (digit_char d) = 48 + d mod 10" by (simp only: digit_char_def code_of_char_of)
  then show ?thesis by (simp add: digit_value_def)
qed

lemma Itoa_nat_digits: "list_all IsDigit (Itoa_nat n) \<and> Itoa_nat n \<noteq> []"
proof (induction n rule: Itoa_nat.induct)
  case (1 n)
  then show ?case by (subst (1 2) Itoa_nat.simps) simp
qed

lemma decimal_value_Itoa_nat: "decimal_value (Itoa_nat n) = n"
proof (induction n rule: Itoa_nat.induct)
  case (1 n)
  then show ?case
    by (subst Itoa_nat.simps) (simp add: decimal_value_def)
qed

lemma Atoi_Itoa_nat: "n < 2 ^ 63 \<Longrightarrow> Atoi (Itoa_nat n) = Some (int n)"
proof -
  assume n: "n < 2 ^ 63"
  obtain c cs where c: "Itoa_nat n = c # cs" "IsDigit c" "list_all IsDigit cs"
    using Itoa_nat_digits [of n] by (cases "Itoa_nat n") auto
  have "c \<noteq> CHR ''-''" "c \<noteq> CHR ''+''" using c(2) by (auto simp: IsDigit_def code_of_def)
  moreover have "int n < 2 ^ 63" using n by (metis of_nat_less_iff of_nat_numeral of_nat_power)
  ultimately show ?thesis
    using c decimal_value_Itoa_nat [of n] by (auto simp: Atoi_def Let_def)
qed

section \<open>Words\<close>

text \<open>
  A word is a non-empty string without spaces; \<open>Fields\<close> returns words, and on words joined
  by single spaces it is the inverse of \<open>Join\<close>.
\<close>

definition is_word :: "string \<Rightarrow> bool" where
  "is_word w \<longleftrightarrow> w \<noteq> [] \<and> list_all (\<lambda>c. \<not> IsSpace c) w"

abbreviation sp :: string where "sp \<equiv> '' ''"

lemma fields_aux_words: "list_all (\<lambda>c. \<not> IsSpace c) acc \<Longrightarrow> list_all is_word (fields_aux acc s)"
  by (induction acc s rule: fields_aux.induct) (simp_all add: is_word_def)

lemma Fields_words: "list_all is_word (Fields s)"
  by (simp add: Fields_def fields_aux_words)

lemma fields_aux_nonspace:
  "list_all (\<lambda>c. \<not> IsSpace c) w \<Longrightarrow> fields_aux acc (w @ s) = fields_aux (rev w @ acc) s"
  by (induction w arbitrary: acc) auto

lemma Fields_Cons_space: "IsSpace c \<Longrightarrow> Fields (c # s) = Fields s"
  by (simp add: Fields_def)

lemma Fields_word_space: "is_word w \<Longrightarrow> IsSpace c \<Longrightarrow> Fields (w @ c # s) = w # Fields s"
  by (simp add: Fields_def is_word_def fields_aux_nonspace)

lemma Fields_word: "is_word w \<Longrightarrow> Fields w = [w]"
  using fields_aux_nonspace [of w "[]" "[]"] by (simp add: Fields_def is_word_def)

lemma Fields_Nil [simp]: "Fields [] = []"
  by (simp add: Fields_def)

lemma Fields_Join: "list_all is_word ws \<Longrightarrow> Fields (Join ws sp) = ws"
  by (induction ws sp rule: Join.induct) (auto simp: Fields_word Fields_word_space)

lemma Join_Cons: "ws \<noteq> [] \<Longrightarrow> Join (w # ws) sep = w @ sep @ Join ws sep"
  by (cases ws) auto

lemma Join_eq_Nil_iff: "list_all is_word ws \<Longrightarrow> Join ws sp = [] \<longleftrightarrow> ws = []"
  by (induction ws sp rule: Join.induct) (auto simp: is_word_def)

end
