(* ===== verification/Bearings.thy ===== *)
theory Bearings
  imports GoStrings Complex_Main
begin

text \<open>
  Compass bearings (\<open>pkg/bearings\<close>). Angles are real numbers of degrees: rounding of
  \<open>float64\<close>, NaN and infinities are outside the model. The IGRF field model that gives the
  magnetic declination is a parameter.
\<close>

section \<open>Rounding\<close>

text \<open>\<open>math.Round\<close> rounds half away from zero; \<open>math.Mod\<close> keeps the sign of its first argument.\<close>

definition go_round :: "real \<Rightarrow> int" where
  "go_round x = (if x < 0 then - \<lfloor>- x + 1 / 2\<rfloor> else \<lfloor>x + 1 / 2\<rfloor>)"

definition go_trunc :: "real \<Rightarrow> int" where
  "go_trunc x = (if x < 0 then - \<lfloor>- x\<rfloor> else \<lfloor>x\<rfloor>)"

definition fmod :: "real \<Rightarrow> real \<Rightarrow> real" where
  "fmod x y = x - y * of_int (go_trunc (x / y))"

lemma go_round_of_int [simp]: "go_round (of_int n) = n"
  by (auto simp: go_round_def floor_eq_iff)

lemma go_round_mono: "x \<le> y \<Longrightarrow> go_round x \<le> go_round y"
proof -
  assume "x \<le> y"
  consider "y < 0" | "x < 0" "0 \<le> y" | "0 \<le> x" by linarith
  then show ?thesis
  proof cases
    case 1
    then show ?thesis using \<open>x \<le> y\<close> by (simp add: go_round_def floor_mono)
  next
    case 2
    then have "0 \<le> \<lfloor>- x + 1 / 2\<rfloor>" "0 \<le> \<lfloor>y + 1 / 2\<rfloor>" by (simp_all add: le_floor_iff)
    then show ?thesis using 2 unfolding go_round_def by (simp only: if_True if_not_P not_less)
  next
    case 3
    then show ?thesis using \<open>x \<le> y\<close> by (simp add: go_round_def floor_mono)
  qed
qed

section \<open>Normalization\<close>

text \<open>The loop that adds full turns to a negative angle.\<close>

function add_turns :: "real \<Rightarrow> real" where
  "add_turns t = (if t < 0 then add_turns (t + 360) else t)"
  by pat_completeness auto
termination
proof (relation "measure (\<lambda>t. nat \<lceil>- t / 360\<rceil>)", goal_cases)
  case (2 t)
  have "- t / 360 = - (t + 360) / 360 + of_int 1" by (simp add: field_simps)
  then have "\<lceil>- t / 360\<rceil> = \<lceil>- (t + 360) / 360\<rceil> + 1" by (simp only: ceiling_add_of_int)
  moreover have "0 < \<lceil>- t / 360\<rceil>" using 2 by simp
  ultimately have "nat \<lceil>- (t + 360) / 360\<rceil> < nat \<lceil>- t / 360\<rceil>" by linarith
  then show ?case by (simp only: in_measure)
qed simp

declare add_turns.simps [simp del]

definition normalize_angle :: "real \<Rightarrow> real" where
  "normalize_angle a =
     (let t = fmod (add_turns a) 360
      in if t = 0 then 360 else t)"

lemma add_turns_turns: "\<exists>k :: int. add_turns t = t + 360 * of_int k \<and> 0 \<le> add_turns t"
proof (induction t rule: add_turns.induct)
  case (1 t)
  show ?case
  proof (cases "t < 0")
    case True
    then obtain k :: int where "add_turns (t + 360) = t + 360 + 360 * of_int k" "0 \<le> add_turns (t + 360)"
      using 1 by blast
    then show ?thesis using True
      by (intro exI [of _ "k + 1"]) (simp add: add_turns.simps [of t] algebra_simps)
  next
    case False
    then show ?thesis by (intro exI [of _ 0]) (simp add: add_turns.simps [of t])
  qed
qed

lemma fmod_range: "0 \<le> x \<Longrightarrow> 0 \<le> fmod x 360 \<and> fmod x 360 < 360"
  using floor_correct [of "x / 360"] by (simp add: fmod_def go_trunc_def field_simps)

lemma normalize_turns: "\<exists>k :: int. normalize_angle t = t + 360 * of_int k"
proof -
  obtain k :: int where k: "add_turns t = t + 360 * of_int k" using add_turns_turns [of t] by blast
  have "fmod (add_turns t) 360 = t + 360 * of_int (k - go_trunc (add_turns t / 360))"
    unfolding fmod_def by (subst k) (simp add: algebra_simps)
  moreover from this have "fmod (add_turns t) 360 = 0 \<Longrightarrow>
      360 = t + 360 * of_int (k - go_trunc (add_turns t / 360) + 1)"
    by (simp add: algebra_simps)
  ultimately show ?thesis unfolding normalize_angle_def Let_def by (metis (full_types))
qed

lemma normalize_range: "0 < normalize_angle t \<and> normalize_angle t \<le> 360"
proof -
  have "0 \<le> add_turns t" using add_turns_turns by blast
  then have "0 \<le> fmod (add_turns t) 360 \<and> fmod (add_turns t) 360 < 360" by (rule fmod_range)
  then show ?thesis by (auto simp: normalize_angle_def Let_def)
qed

text \<open>There is only one angle of a class modulo full turns in \<open>(0, 360]\<close>.\<close>

lemma turn_unique:
  fixes x y :: real
  assumes "0 < x" "x \<le> 360" "0 < y" "y \<le> 360" and "x = y + 360 * of_int (k :: int)"
  shows "x = y"
proof -
  have "-1 < (of_int k :: real)" "(of_int k :: real) < 1" using assms by auto
  then have "k = 0" by linarith
  then show ?thesis using assms(5) by simp
qed

lemma normalize_unique: "0 < x \<Longrightarrow> x \<le> 360 \<Longrightarrow> x = t + 360 * of_int (k :: int) \<Longrightarrow> normalize_angle t = x"
proof -
  assume x: "0 < x" "x \<le> 360" "x = t + 360 * of_int k"
  obtain j :: int where j: "normalize_angle t = t + 360 * of_int j" using normalize_turns by blast
  have "normalize_angle t = x + 360 * of_int (j - k)" using x(3) j by (simp add: algebra_simps)
  then show ?thesis using normalize_range [of t] x(1, 2) turn_unique by blast
qed

lemma normalize_id: "0 < x \<Longrightarrow> x \<le> 360 \<Longrightarrow> normalize_angle x = x"
  by (rule normalize_unique [where k = 0]) simp_all

lemma normalize_normalize [simp]: "normalize_angle (normalize_angle t) = normalize_angle t"
  by (simp add: normalize_id normalize_range)

lemma normalize_add_turn: "normalize_angle (t + 360 * of_int k) = normalize_angle t"
proof -
  obtain j :: int where "normalize_angle t = t + 360 * of_int j" using normalize_turns by blast
  then have "normalize_angle t = (t + 360 * of_int k) + 360 * of_int (j - k)" by (simp add: algebra_simps)
  then show ?thesis using normalize_range [of t] normalize_unique by blast
qed

lemma normalize_cong_turn: "s = t + 360 * of_int k \<Longrightarrow> normalize_angle s = normalize_angle t"
  by (simp only: normalize_add_turn)

section \<open>Bearings\<close>

datatype Bearing = TrueBearing real | MagneticBearing real

fun bearing_angle :: "Bearing \<Rightarrow> real" where
  "bearing_angle (TrueBearing a) = a"
| "bearing_angle (MagneticBearing a) = a"

definition NewTrueBearing :: "real \<Rightarrow> Bearing" where
  "NewTrueBearing value = TrueBearing (normalize_angle value)"

definition NewMagneticBearing :: "real \<Rightarrow> Bearing" where
  "NewMagneticBearing value = MagneticBearing (normalize_angle value)"

definition bearing_Value :: "Bearing \<Rightarrow> real" where
  "bearing_Value b = normalize_angle (bearing_angle b)"

definition Degrees :: "Bearing \<Rightarrow> real" where
  "Degrees b = bearing_Value b"

definition RoundedDegrees :: "Bearing \<Rightarrow> int" where
  "RoundedDegrees b = go_round (Degrees b)"

fun IsTrue :: "Bearing \<Rightarrow> bool" where
  "IsTrue (TrueBearing _) = True"
| "IsTrue (MagneticBearing _) = False"

fun IsMagnetic :: "Bearing \<Rightarrow> bool" where
  "IsMagnetic (TrueBearing _) = False"
| "IsMagnetic (MagneticBearing _) = True"

fun to_True :: "Bearing \<Rightarrow> real \<Rightarrow> Bearing" where
  "to_True (TrueBearing a) declination = TrueBearing a"
| "to_True (MagneticBearing a) declination = NewTrueBearing (bearing_Value (MagneticBearing a) + declination)"

fun to_Magnetic :: "Bearing \<Rightarrow> real \<Rightarrow> Bearing" where
  "to_Magnetic (TrueBearing a) declination = NewMagneticBearing (bearing_Value (TrueBearing a) - declination)"
| "to_Magnetic (MagneticBearing a) declination = MagneticBearing a"

fun Reciprocal :: "Bearing \<Rightarrow> Bearing" where
  "Reciprocal (TrueBearing a) = NewTrueBearing (bearing_Value (TrueBearing a) + 180)"
| "Reciprocal (MagneticBearing a) = NewMagneticBearing (bearing_Value (MagneticBearing a) + 180)"

text \<open>\<open>%03.0f\<close> of a number from 0 to 360.\<close>

definition bearing_String :: "Bearing \<Rightarrow> string" where
  "bearing_String b = (let s = Itoa (RoundedDegrees b) in replicate (3 - length s) (CHR ''0'') @ s)"

definition AngularDistance :: "Bearing \<Rightarrow> Bearing \<Rightarrow> real" where
  "AngularDistance a b =
     (let diff = \<bar>Degrees a - Degrees b\<bar> in if diff > 180 then 360 - diff else diff)"

text \<open>
  \<open>Declination\<close>: the year of the mission decides the date given to the field model
  (\<open>igrf\<close>, a parameter: latitude, longitude and fractional year to declination in degrees).
\<close>

definition Declination ::
  "(real \<Rightarrow> real \<Rightarrow> real \<Rightarrow> string + real) \<Rightarrow> real \<times> real \<Rightarrow> int \<Rightarrow> int \<Rightarrow> string + real" where
  "Declination igrf p year yearDay =
     (let (year, yearDay) = (if 1900 > year \<or> year > 2023 then (2023, 1) else (year, yearDay))
      in case igrf (snd p) (fst p) (of_int year + of_int yearDay / 366) of
           Inl err \<Rightarrow> Inl err
         | Inr declination \<Rightarrow> Inr (normalize_angle declination))"

section \<open>Lemmas\<close>

definition bearing_ok :: "Bearing \<Rightarrow> bool" where
  "bearing_ok b \<longleftrightarrow> 0 < bearing_angle b \<and> bearing_angle b \<le> 360"

lemma bearing_ok_intros [inv_intros]:
  "bearing_ok (NewTrueBearing a)" "bearing_ok (NewMagneticBearing a)"
  "bearing_ok b \<Longrightarrow> bearing_ok (to_True b d)" "bearing_ok b \<Longrightarrow> bearing_ok (to_Magnetic b d)"
  "bearing_ok (Reciprocal b)"
  by (cases b; simp add: bearing_ok_def NewTrueBearing_def NewMagneticBearing_def normalize_range)+

lemma Degrees_range: "0 < Degrees b \<and> Degrees b \<le> 360"
  by (simp add: Degrees_def bearing_Value_def normalize_range)

lemma Degrees_simps [simp]:
  "Degrees (NewTrueBearing a) = normalize_angle a" "Degrees (NewMagneticBearing a) = normalize_angle a"
  "bearing_Value (NewTrueBearing a) = normalize_angle a" "bearing_Value (NewMagneticBearing a) = normalize_angle a"
  by (simp_all add: Degrees_def bearing_Value_def NewTrueBearing_def NewMagneticBearing_def)

lemma Degrees_Reciprocal: "Degrees (Reciprocal b) = normalize_angle (Degrees b + 180)"
  by (cases b) (simp_all add: Degrees_def [of "TrueBearing _"] Degrees_def [of "MagneticBearing _"])

lemma Degrees_Reciprocal_cases:
  "Degrees (Reciprocal b) = (if Degrees b \<le> 180 then Degrees b + 180 else Degrees b - 180)"
proof -
  have "normalize_angle (Degrees b + 180) = (if Degrees b \<le> 180 then Degrees b + 180 else Degrees b - 180)"
    using Degrees_range [of b]
    by (intro normalize_unique [where k = "if Degrees b \<le> 180 then 0 else -1"]) auto
  then show ?thesis by (simp only: Degrees_Reciprocal)
qed

lemma bearing_eq_iff:
  "bearing_ok b \<Longrightarrow> bearing_ok c \<Longrightarrow> IsTrue b = IsTrue c \<Longrightarrow> Degrees b = Degrees c \<Longrightarrow> b = c"
  by (cases b; cases c) (auto simp: bearing_ok_def Degrees_def bearing_Value_def normalize_id)

lemma AngularDistance_range: "0 \<le> AngularDistance a b \<and> AngularDistance a b \<le> 180"
  using Degrees_range [of a] Degrees_range [of b]
  by (auto simp: AngularDistance_def Let_def abs_if)

text \<open>Every bearing reads back in \<open>(0, 360]\<close>, and differs from the angle it was made of by
  whole turns, whatever that angle.\<close>

theorem bearing_normalized:
  "0 < Degrees (NewTrueBearing a) \<and> Degrees (NewTrueBearing a) \<le> 360 \<and>
   (\<exists>k :: int. Degrees (NewTrueBearing a) = a + 360 * of_int k) \<and>
   Degrees (NewMagneticBearing a) = Degrees (NewTrueBearing a)"
  using normalize_range [of a] normalize_turns [of a] by simp

text \<open>The angular distance is symmetric, lies between 0 and 180 degrees, is 0 exactly for
  equal headings, and distances to a heading and to its reciprocal add up to 180 degrees.\<close>

theorem AngularDistance_metric:
  "AngularDistance a b = AngularDistance b a \<and>
   0 \<le> AngularDistance a b \<and> AngularDistance a b \<le> 180 \<and>
   (AngularDistance a b = 0 \<longleftrightarrow> Degrees a = Degrees b) \<and>
   AngularDistance a b + AngularDistance a (Reciprocal b) = 180"
  using Degrees_range [of a] Degrees_range [of b]
  by (auto simp: AngularDistance_def Let_def Degrees_Reciprocal_cases abs_if)

text \<open>Declination is undone exactly: converting a bearing to magnetic and back (or to true
  and back) with the same declination gives the bearing again, and the reciprocal of the
  reciprocal is the bearing.\<close>

theorem bearing_conversions:
  assumes "bearing_ok b"
  shows "(IsTrue b \<longrightarrow> to_True (to_Magnetic b d) d = b) \<and>
    (IsMagnetic b \<longrightarrow> to_Magnetic (to_True b d) d = b) \<and> Reciprocal (Reciprocal b) = b"
proof -
  have there: "normalize_angle (normalize_angle (normalize_angle a + e) - e) = normalize_angle a" for a e
  proof -
    obtain k :: int where k: "normalize_angle (normalize_angle a + e) = normalize_angle a + e + 360 * of_int k"
      using normalize_turns by blast
    have "normalize_angle (normalize_angle (normalize_angle a + e) - e) = normalize_angle (normalize_angle a)"
      by (rule normalize_cong_turn [where k = k]) (simp add: k)
    then show ?thesis by simp
  qed
  have there': "normalize_angle (normalize_angle (normalize_angle a - e) + e) = normalize_angle a" for a e
    using there [of a "- e"] by simp
  have ok: "normalize_angle (bearing_angle b) = bearing_angle b"
    using assms by (simp add: bearing_ok_def normalize_id)
  have r: "Degrees (Reciprocal (Reciprocal b)) = Degrees b"
    using Degrees_range [of b] by (simp add: Degrees_Reciprocal_cases)
  have k: "IsTrue (Reciprocal c) = IsTrue c" for c
    by (cases c) (simp_all add: NewTrueBearing_def NewMagneticBearing_def)
  have "Reciprocal (Reciprocal b) = b"
    by (rule bearing_eq_iff [OF bearing_ok_intros(5) assms]) (simp_all add: r k)
  then show ?thesis
    using ok there [of "bearing_angle b"] there' [of "bearing_angle b"]
    by (cases b) (simp_all add: NewTrueBearing_def NewMagneticBearing_def bearing_Value_def)
qed

theorem bearing_conversions_witness:
  "to_True (to_Magnetic (TrueBearing 5) 12) 12 = TrueBearing 5"
  using bearing_conversions [of "TrueBearing 5" 12] by (simp add: bearing_ok_def)

text \<open>A bearing below half a degree is rounded to 0, outside the range \<open>(0, 360]\<close> the interface
  promises for rounded values, and is spoken as heading 000 instead of 360.\<close>

theorem RoundedDegrees_zero:
  "RoundedDegrees (NewTrueBearing (1 / 4)) = 0 \<and> bearing_String (NewTrueBearing (1 / 4)) = ''000''"
proof -
  have "RoundedDegrees (NewTrueBearing (1 / 4)) = 0"
    by (simp add: RoundedDegrees_def normalize_id go_round_def)
  moreover have "Itoa 0 = ''0''" by code_simp
  ultimately show ?thesis by (simp add: bearing_String_def numeral_2_eq_2)
qed

end
