(* ===== verification/Brevity.thy ===== *)
theory Brevity
  imports Bearings
begin

text \<open>
  The vocabulary of tactical communication (\<open>pkg/brevity\<close>) and the part of \<open>pkg/spatial\<close>
  it uses: units, altitude stacks, aspect, track, vectors, requests. The unit library is a
  parameter: a record of the sizes of its units.
\<close>

section \<open>Units\<close>

text \<open>
  The constants of \<open>github.com/martinlindhe/unit\<close> the code uses. A length is a real number in
  the library's base unit; its documentation promises that every unit is positive.
\<close>

record units =
  Meter :: real
  Foot :: real
  NauticalMile :: real
  Mile :: real
  Kilometer :: real
  Knot :: real
  MetersPerSecond :: real

definition units_ok :: "units \<Rightarrow> bool" where
  "units_ok u \<longleftrightarrow> 0 < Meter u \<and> 0 < Foot u \<and> 0 < NauticalMile u \<and> 0 < Mile u \<and> 0 < Kilometer u
     \<and> 0 < Knot u \<and> 0 < MetersPerSecond u"

definition Feet :: "units \<Rightarrow> real \<Rightarrow> real" where
  "Feet u l = l / Foot u"

definition NauticalMiles :: "units \<Rightarrow> real \<Rightarrow> real" where
  "NauticalMiles u l = l / NauticalMile u"

text \<open>The international definitions, which instantiate the parameter in the witnesses.\<close>

definition si_units :: units where
  "si_units = \<lparr>Meter = 1, Foot = 3048 / 10000, NauticalMile = 1852, Mile = 1609344 / 1000,
     Kilometer = 1000, Knot = 1852 / 3600, MetersPerSecond = 1\<rparr>"

lemma si_units_ok: "units_ok si_units"
  by (simp add: units_ok_def si_units_def)

section \<open>Altitude\<close>

definition NormalizeAltitude :: "units \<Rightarrow> real \<Rightarrow> real" where
  "NormalizeAltitude u altitude =
     (let altitude = (if altitude < 0 then - altitude else altitude);
          bucketWidth = (if altitude < 1000 * Foot u then 100 * Foot u else 1000 * Foot u);
          bucket = go_round (Feet u altitude / Feet u bucketWidth);
          rounded = go_trunc (Feet u bucketWidth) * bucket
      in of_int rounded * Foot u)"

record Stack =
  stack_Altitude :: real
  stack_Count :: int

text \<open>The body of the loop of \<open>Stacks\<close>, for one altitude.\<close>

definition stack_step :: "units \<Rightarrow> real \<Rightarrow> Stack list \<Rightarrow> Stack list" where
  "stack_step u a stacks =
     (if a = 0 then stacks
      else if stacks = [] then [\<lparr>stack_Altitude = a, stack_Count = 1\<rparr>]
      else let j = length stacks - 1;
               highest = stack_Altitude (stacks ! j)
           in if a \<le> highest - 9900 * Foot u
              then stacks @ [\<lparr>stack_Altitude = a, stack_Count = 1\<rparr>]
              else stacks[j := (stacks ! j)\<lparr>stack_Count := stack_Count (stacks ! j) + 1\<rparr>])"

definition Stacks :: "units \<Rightarrow> real list \<Rightarrow> Stack list" where
  "Stacks u a = fold (stack_step u) (rev (sort (map (NormalizeAltitude u) a))) []"

lemma NormalizeAltitude_cases:
  assumes "units_ok u"
  shows "NormalizeAltitude u a =
    (if Feet u \<bar>a\<bar> < 1000 then of_int (100 * go_round (Feet u \<bar>a\<bar> / 100)) * Foot u
     else of_int (1000 * go_round (Feet u \<bar>a\<bar> / 1000)) * Foot u)"
proof -
  have f: "0 < Foot u" using assms by (simp add: units_ok_def)
  have abs: "(if a < 0 then - a else a) = \<bar>a\<bar>" by simp
  have "go_trunc 100 = 100" "go_trunc 1000 = 1000" by (simp_all add: go_trunc_def)
  moreover have "\<bar>a\<bar> < 1000 * Foot u \<longleftrightarrow> Feet u \<bar>a\<bar> < 1000" using f by (simp add: Feet_def divide_less_eq)
  ultimately show ?thesis using f
    by (simp only: NormalizeAltitude_def abs Let_def) (simp add: Feet_def mult.commute)
qed

lemma NormalizeAltitude_nonneg: "units_ok u \<Longrightarrow> 0 \<le> NormalizeAltitude u a"
proof -
  assume u: "units_ok u"
  then have f: "0 < Foot u" by (simp add: units_ok_def)
  then have "0 \<le> Feet u \<bar>a\<bar>" by (simp add: Feet_def)
  then have "0 \<le> go_round (Feet u \<bar>a\<bar> / 100)" "0 \<le> go_round (Feet u \<bar>a\<bar> / 1000)"
    using go_round_mono [of 0] go_round_of_int [of 0] by fastforce+
  then show ?thesis using f u by (simp add: NormalizeAltitude_cases)
qed

section \<open>Stacks count every altitude once\<close>

definition stacks_ok :: "units \<Rightarrow> real \<Rightarrow> Stack list \<Rightarrow> bool" where
  "stacks_ok u low stacks \<longleftrightarrow>
     list_all (\<lambda>s. 0 < stack_Count s \<and> low \<le> stack_Altitude s \<and> 0 < stack_Altitude s) stacks \<and>
     sorted_wrt (\<lambda>s t. stack_Altitude t \<le> stack_Altitude s - 9900 * Foot u) stacks"

definition stacks_total :: "Stack list \<Rightarrow> int" where
  "stacks_total stacks = sum_list (map stack_Count stacks)"

lemma stacks_snoc_cases:
  obtains "stacks = []" | ss s where "stacks = ss @ [s]"
  by (cases stacks rule: rev_cases) auto

lemma stack_step_snoc:
  "a \<noteq> 0 \<Longrightarrow> stack_step u a (ss @ [s]) =
    (if a \<le> stack_Altitude s - 9900 * Foot u then ss @ [s] @ [\<lparr>stack_Altitude = a, stack_Count = 1\<rparr>]
     else ss @ [s\<lparr>stack_Count := stack_Count s + 1\<rparr>])"
  by (simp add: stack_step_def Let_def nth_append list_update_append)

lemma stack_step_ok:
  assumes u: "units_ok u" and ok: "stacks_ok u low stacks" and a: "a \<le> low" "0 \<le> a"
  shows "stacks_ok u a (stack_step u a stacks) \<and>
    stacks_total (stack_step u a stacks) = stacks_total stacks + (if a = 0 then 0 else 1)"
proof (cases "a = 0")
  case True
  then show ?thesis using ok a
    by (auto simp: stack_step_def stacks_ok_def list_all_iff)
next
  case False
  show ?thesis
  proof (cases rule: stacks_snoc_cases [of stacks])
    case 1
    then show ?thesis using False a(2) by (simp add: stack_step_def stacks_ok_def stacks_total_def)
  next
    case (2 ss s)
    have f: "0 < Foot u" using u by (simp add: units_ok_def)
    have s: "low \<le> stack_Altitude s" "0 < stack_Count s"
      and ss: "list_all (\<lambda>t. 0 < stack_Count t \<and> low \<le> stack_Altitude t \<and> 0 < stack_Altitude t) ss"
        "sorted_wrt (\<lambda>s t. stack_Altitude t \<le> stack_Altitude s - 9900 * Foot u) ss"
        "\<forall>t \<in> set ss. stack_Altitude s \<le> stack_Altitude t - 9900 * Foot u"
      using ok by (auto simp: 2 stacks_ok_def sorted_wrt_append)
    show ?thesis
    proof (cases "a \<le> stack_Altitude s - 9900 * Foot u")
      case True
      have "\<forall>t \<in> set ss. a \<le> stack_Altitude t - 9900 * Foot u"
        using ss(3) True f by (smt (verit))
      then show ?thesis
        using True False ok a s ss unfolding 2 stack_step_snoc [OF False]
        by (auto simp: stacks_ok_def stacks_total_def sorted_wrt_append list_all_iff)
    next
      case no: False
      show ?thesis
        using no False ok a s ss unfolding 2 stack_step_snoc [OF False]
        by (auto simp: stacks_ok_def stacks_total_def sorted_wrt_append list_all_iff)
    qed
  qed
qed

lemma fold_stack_step_ok:
  assumes "units_ok u" "sorted_wrt (\<ge>) as" "\<forall>a \<in> set as. 0 \<le> a \<and> a \<le> low" "stacks_ok u low stacks"
  shows "(\<exists>l. stacks_ok u l (fold (stack_step u) as stacks)) \<and>
    stacks_total (fold (stack_step u) as stacks) = stacks_total stacks + int (length (filter (\<lambda>a. a \<noteq> 0) as))"
  using assms
proof (induction as arbitrary: low stacks)
  case (Cons a as)
  have st: "stacks_ok u a (stack_step u a stacks) \<and>
    stacks_total (stack_step u a stacks) = stacks_total stacks + (if a = 0 then 0 else 1)"
    using stack_step_ok [of u low stacks a] Cons.prems by auto
  then show ?case
    using Cons.IH [of a "stack_step u a stacks"] Cons.prems by auto
qed auto

text \<open>The altitude stacks of a group count every contact exactly once (contacts whose
  altitude rounds to zero are left out), from the highest to the lowest, with at least
  9900 feet between any two stacks.\<close>

theorem Stacks_count_contacts:
  assumes "units_ok u"
  shows "sum_list (map stack_Count (Stacks u altitudes)) =
      int (length (filter (\<lambda>a. NormalizeAltitude u a \<noteq> 0) altitudes))
    \<and> sorted_wrt (\<lambda>s t. stack_Altitude t \<le> stack_Altitude s - 9900 * Foot u) (Stacks u altitudes)
    \<and> list_all (\<lambda>s. 0 < stack_Count s) (Stacks u altitudes)"
proof -
  let ?as = "rev (sort (map (NormalizeAltitude u) altitudes))"
  define low where "low = Max (insert 0 (set ?as))"
  have s: "sorted_wrt (\<ge>) ?as" by (simp add: sorted_wrt_rev)
  have b: "\<forall>a \<in> set ?as. 0 \<le> a \<and> a \<le> low"
    using NormalizeAltitude_nonneg [OF assms] by (auto simp: low_def)
  have ok: "stacks_ok u low []" by (simp add: stacks_ok_def)
  obtain l where l: "stacks_ok u l (Stacks u altitudes)"
    and t: "stacks_total (Stacks u altitudes) = int (length (filter (\<lambda>a. a \<noteq> 0) ?as))"
    using fold_stack_step_ok [OF assms s b ok] by (auto simp: Stacks_def stacks_total_def)
  have "length (filter (\<lambda>a. a \<noteq> 0) ?as) = length (filter (\<lambda>a. NormalizeAltitude u a \<noteq> 0) altitudes)"
    by (simp only: rev_filter [symmetric] length_rev filter_sort length_sort filter_map length_map comp_def)
  with l t show ?thesis by (auto simp: stacks_ok_def stacks_total_def list_all_iff)
qed

theorem Stacks_count_contacts_witness:
  "sum_list (map stack_Count (Stacks si_units [7620, 0, 1524])) =
   int (length (filter (\<lambda>a. NormalizeAltitude si_units a \<noteq> 0) [7620, 0, 1524]))"
  using Stacks_count_contacts [OF si_units_ok] by blast

section \<open>Aspect\<close>

datatype Aspect = NoAspect | UnknownAspect | Hot | Flank | Beam | Drag

fun aspect_string :: "Aspect \<Rightarrow> string" where
  "aspect_string NoAspect = []"
| "aspect_string UnknownAspect = ''maneuver''"
| "aspect_string Hot = ''hot''"
| "aspect_string Flank = ''flank''"
| "aspect_string Beam = ''beam''"
| "aspect_string Drag = ''drag''"

definition AspectFromAngle :: "Bearing \<Rightarrow> Bearing \<Rightarrow> Aspect" where
  "AspectFromAngle bearing track =
     (let t = (if bearing_Value (Reciprocal bearing) > bearing_Value track
               then Degrees (Reciprocal bearing) - Degrees track
               else Degrees (Reciprocal track) - Degrees bearing);
          t = Degrees (NewMagneticBearing t)
      in if 0 \<le> t \<and> t \<le> 35 then Hot
         else if 35 < t \<and> t \<le> 75 then Flank
         else if 75 < t \<and> t \<le> 115 then Beam
         else if 115 < t \<and> t \<le> 245 then Drag
         else if 245 < t \<and> t \<le> 285 then Beam
         else if 285 < t \<and> t \<le> 325 then Flank
         else if 325 < t \<and> t \<le> 360 then Hot
         else UnknownAspect)"

definition IsCardinal :: "Aspect \<Rightarrow> bool" where
  "IsCardinal a \<longleftrightarrow> a = Flank \<or> a = Beam \<or> a = Drag"

text \<open>The angle the aspect is classified by: the target aspect, or 360 degrees minus it.\<close>

lemma aspect_angle:
  "\<exists>t. 0 < t \<and> t \<le> 360 \<and> (t = AngularDistance (Reciprocal b) track \<or> t = 360 - AngularDistance (Reciprocal b) track) \<and>
    normalize_angle (if bearing_Value (Reciprocal b) > bearing_Value track
      then Degrees (Reciprocal b) - Degrees track else Degrees (Reciprocal track) - Degrees b) = t"
proof -
  let ?r = "Degrees (Reciprocal b)" and ?t = "Degrees track"
  have v: "bearing_Value c = Degrees c" for c by (simp add: Degrees_def)
  note ranges = Degrees_range [of b] Degrees_range [of track] Degrees_range [of "Reciprocal b"]
  show ?thesis
  proof (cases "?r > ?t")
    case True
    then have "normalize_angle (?r - ?t) = ?r - ?t" using ranges by (intro normalize_id) auto
    then show ?thesis using True ranges
      by (intro exI [of _ "?r - ?t"]) (auto simp: v AngularDistance_def Let_def)
  next
    case False
    have e: "Degrees (Reciprocal track) - Degrees b = (?t - ?r) + 360 * of_int
        ((if Degrees track \<le> 180 then 0 else -1) + (if Degrees b \<le> 180 then 1 else 0))"
      by (simp add: Degrees_Reciprocal_cases)
    have n: "normalize_angle (Degrees (Reciprocal track) - Degrees b) = normalize_angle (?t - ?r)"
      by (rule normalize_cong_turn [OF e])
    show ?thesis
    proof (cases "?t = ?r")
      case True
      then have "normalize_angle (?t - ?r) = 360" by (intro normalize_unique [where k = 1]) auto
      then show ?thesis using True n by (intro exI [of _ 360]) (auto simp: v AngularDistance_def Let_def)
    next
      case ne: False
      then have "normalize_angle (?t - ?r) = ?t - ?r" using False ranges by (intro normalize_id) auto
      then show ?thesis using False ne n ranges
        by (intro exI [of _ "?t - ?r"]) (auto simp: v AngularDistance_def Let_def)
    qed
  qed
qed

text \<open>Aspect is decided by the target aspect alone, the angle between the contact's track
  and the direction from the contact back to the fighter, whichever of the two formulas of
  the code applies: hot below 35 degrees, flank to 75, beam to 115, drag above.\<close>

theorem AspectFromAngle_target_aspect:
  assumes "angle = AngularDistance (Reciprocal bearing) track" and "angle \<notin> {35, 75, 115}"
  shows "AspectFromAngle bearing track =
    (if angle < 35 then Hot else if angle < 75 then Flank else if angle < 115 then Beam else Drag)"
proof -
  obtain t where t: "0 < t" "t \<le> 360" "t = angle \<or> t = 360 - angle"
    and n: "normalize_angle (if bearing_Value (Reciprocal bearing) > bearing_Value track
      then Degrees (Reciprocal bearing) - Degrees track else Degrees (Reciprocal track) - Degrees bearing) = t"
    using aspect_angle [of bearing track] assms(1) by blast
  have "0 \<le> angle \<and> angle \<le> 180"
    using AngularDistance_range [of "Reciprocal bearing" track] assms(1) by blast
  then show ?thesis using t assms(2)
    unfolding AspectFromAngle_def Let_def Degrees_simps n by auto
qed

theorem AspectFromAngle_target_aspect_witness:
  "AspectFromAngle (NewMagneticBearing 90) (NewMagneticBearing 280) = Hot"
proof -
  have "AngularDistance (Reciprocal (NewMagneticBearing 90)) (NewMagneticBearing 280) = 10"
    by (simp add: AngularDistance_def Degrees_Reciprocal_cases normalize_id)
  then show ?thesis using AspectFromAngle_target_aspect [of 10 "NewMagneticBearing 90" "NewMagneticBearing 280"] by simp
qed

section \<open>Track\<close>

text \<open>\<open>NoTrack\<close> is the empty string, the zero value of the type.\<close>

datatype Track = NoTrack | UnknownDirection | North | Northeast | East | Southeast | South | Southwest
  | West | Northwest

fun track_string :: "Track \<Rightarrow> string" where
  "track_string NoTrack = []"
| "track_string UnknownDirection = ''unknown''"
| "track_string North = ''north''"
| "track_string Northeast = ''northeast''"
| "track_string East = ''east''"
| "track_string Southeast = ''southeast''"
| "track_string South = ''south''"
| "track_string Southwest = ''southwest''"
| "track_string West = ''west''"
| "track_string Northwest = ''northwest''"

definition TrackFromBearing :: "Bearing \<Rightarrow> Track" where
  "TrackFromBearing bearing =
     (let t = Degrees bearing
      in if t \<ge> 3375 / 10 \<or> t < 225 / 10 then North
         else if t < 675 / 10 then Northeast
         else if t < 1125 / 10 then East
         else if t < 1575 / 10 then Southeast
         else if t < 2025 / 10 then South
         else if t < 2475 / 10 then Southwest
         else if t < 2925 / 10 then West
         else if t < 3375 / 10 then Northwest
         else UnknownDirection)"

fun track_centre :: "Track \<Rightarrow> real" where
  "track_centre North = 360"
| "track_centre Northeast = 45"
| "track_centre East = 90"
| "track_centre Southeast = 135"
| "track_centre South = 180"
| "track_centre Southwest = 225"
| "track_centre West = 270"
| "track_centre Northwest = 315"
| "track_centre _ = 0"

text \<open>Every bearing has a track, and it is the compass point nearest to the bearing: within
  22.5 degrees of it.\<close>

theorem TrackFromBearing_nearest:
  "TrackFromBearing b \<noteq> UnknownDirection \<and> TrackFromBearing b \<noteq> NoTrack \<and>
   AngularDistance b (NewMagneticBearing (track_centre (TrackFromBearing b))) \<le> 225 / 10"
  using Degrees_range [of b]
  by (auto simp: TrackFromBearing_def Let_def AngularDistance_def normalize_id abs_if)

section \<open>Vectors and requests\<close>

record Vector =
  v_bearing :: Bearing
  v_distance :: real

record BRA = Vector +
  bra_stacks :: "Stack list"

record BRAA = BRA +
  braa_aspect :: Aspect

type_synonym Bullseye = Vector

definition NewVector :: "Bearing \<Rightarrow> real \<Rightarrow> Vector" where
  "NewVector bearing distance = \<lparr>v_bearing = bearing, v_distance = distance\<rparr>"

definition NewBullseye :: "Bearing \<Rightarrow> real \<Rightarrow> Bullseye" where
  "NewBullseye bearing distance = \<lparr>v_bearing = bearing, v_distance = distance\<rparr>"

definition NewBRA :: "units \<Rightarrow> Bearing \<Rightarrow> real \<Rightarrow> real list \<Rightarrow> BRA" where
  "NewBRA u b r a = \<lparr>v_bearing = b, v_distance = r, bra_stacks = Stacks u a\<rparr>"

definition NewBRAA :: "units \<Rightarrow> Bearing \<Rightarrow> real \<Rightarrow> real list \<Rightarrow> Aspect \<Rightarrow> BRAA" where
  "NewBRAA u b r altitudes aspect =
     \<lparr>v_bearing = b, v_distance = r, bra_stacks = Stacks u altitudes, braa_aspect = aspect\<rparr>"

definition Range :: "units \<Rightarrow> 'a Vector_scheme \<Rightarrow> real" where
  "Range u v = of_int (go_round (NauticalMiles u (v_distance v))) * NauticalMile u"

definition BRA_Altitude :: "units \<Rightarrow> 'a BRA_scheme \<Rightarrow> real" where
  "BRA_Altitude u b = (if length (bra_stacks b) = 0 then 0
     else NormalizeAltitude u (stack_Altitude (bra_stacks b ! 0)))"

datatype ContactCategory = Aircraft | FixedWing | RotaryWing

datatype Declaration = Bogey | Friendly | Neutral | Bandit | Hostile | Furball | Unable | Clean

fun declaration_string :: "Declaration \<Rightarrow> string" where
  "declaration_string Bogey = ''bogey''"
| "declaration_string Friendly = ''friendly''"
| "declaration_string Neutral = ''neutral''"
| "declaration_string Bandit = ''bandit''"
| "declaration_string Hostile = ''hostile''"
| "declaration_string Furball = ''furball''"
| "declaration_string Unable = ''unable''"
| "declaration_string Clean = ''clean''"

record DeclareRequest =
  declare_Callsign :: string
  declare_Sour :: bool
  IsBRAA :: bool
  IsAmbiguous :: bool
  declare_Bullseye :: "Bullseye option"
  declare_Bearing :: "Bearing option"
  declare_Range :: real
  declare_Altitude :: real
  declare_Track :: Track

datatype Request =
    AlphaCheckRequest (request_Callsign: string)
  | RadioCheckRequest (request_Callsign: string)
  | BogeyDopeRequest (request_Callsign: string) (request_Filter: ContactCategory)
  | Declare DeclareRequest
  | PictureRequest (request_Callsign: string)
  | SpikedRequest (request_Callsign: string) (request_Bearing: Bearing)
  | StrobeRequest (request_Callsign: string) (request_Bearing: Bearing)
  | SnaplockRequest (request_Callsign: string) (request_BRA: BRA)
  | TripwireRequest (request_Callsign: string)
  | ShoppingRequest (request_Callsign: string)
  | VectorRequest (request_Callsign: string) (request_Location: string)
  | CheckInRequest (request_Callsign: string)
  | UnableToUnderstandRequest (request_Callsign: string)

definition LocationTanker :: string where "LocationTanker = ''tanker''"

definition MergeEntryDistance :: "units \<Rightarrow> real" where "MergeEntryDistance u = 3 * NauticalMile u"
definition MergeExitDistance :: "units \<Rightarrow> real" where "MergeExitDistance u = 5 * NauticalMile u"

end
