(* ===== verification/Spatial.thy ===== *)
theory Spatial
  imports Brevity
begin

text \<open>
  Geospatial functions (\<open>pkg/spatial\<close>), the Transverse Mercator projection
  (\<open>pkg/spatial/projections\<close>) and the terrains (\<open>pkg/encyclopedia/terrains\<close>). A point is a
  pair of longitude and latitude in degrees, or of easting and northing in meters. The
  spherical geometry of \<open>orb/geo\<close> and the field model of \<open>igrf\<close> are third-party: parameters.
\<close>

type_synonym point = "real \<times> real"

record geo_lib =
  geo_Distance :: "point \<Rightarrow> point \<Rightarrow> real"
  geo_Bearing :: "point \<Rightarrow> point \<Rightarrow> real"
  geo_PointAt :: "point \<Rightarrow> real \<Rightarrow> real \<Rightarrow> point"
  geo_Midpoint :: "point \<Rightarrow> point \<Rightarrow> point"
  geo_igrf :: "real \<Rightarrow> real \<Rightarrow> real \<Rightarrow> string + real"
  geo_units :: units

section \<open>The Transverse Mercator projection\<close>

definition wgs84SemiMajorAxis :: real where "wgs84SemiMajorAxis = 6378137"
definition wgs84Flattening :: real where "wgs84Flattening = 1 / (298257223563 / 1000000000)"
definition wgs84SemiMinorAxis :: real where
  "wgs84SemiMinorAxis = wgs84SemiMajorAxis * (1 - wgs84Flattening)"
definition wgs84EccentricitySquared :: real where
  "wgs84EccentricitySquared = (wgs84SemiMajorAxis ^ 2 - wgs84SemiMinorAxis ^ 2) / wgs84SemiMajorAxis ^ 2"
definition wgs84SecondEccentricitySquared :: real where
  "wgs84SecondEccentricitySquared = (wgs84SemiMajorAxis ^ 2 - wgs84SemiMinorAxis ^ 2) / wgs84SemiMinorAxis ^ 2"

record TransverseMercator =
  centralMeridian :: real
  originLatitude :: real
  scaleFactor :: real
  falseEasting :: real
  falseNorthing :: real

definition radians :: "real \<Rightarrow> real" where
  "radians degrees = degrees * pi / 180"

text \<open>The options of a projection (\<open>options.go\<close>), applied in their order.\<close>

definition WithCentralMeridian :: "real \<Rightarrow> TransverseMercator \<Rightarrow> TransverseMercator" where
  "WithCentralMeridian degrees tm = tm\<lparr>centralMeridian := radians degrees\<rparr>"

definition WithOriginLatitude :: "real \<Rightarrow> TransverseMercator \<Rightarrow> TransverseMercator" where
  "WithOriginLatitude degrees tm = tm\<lparr>originLatitude := radians degrees\<rparr>"

definition WithScaleFactor :: "real \<Rightarrow> TransverseMercator \<Rightarrow> TransverseMercator" where
  "WithScaleFactor k tm = tm\<lparr>scaleFactor := k\<rparr>"

definition WithFalseEasting :: "real \<Rightarrow> TransverseMercator \<Rightarrow> TransverseMercator" where
  "WithFalseEasting meters tm = tm\<lparr>falseEasting := meters\<rparr>"

definition WithFalseNorthing :: "real \<Rightarrow> TransverseMercator \<Rightarrow> TransverseMercator" where
  "WithFalseNorthing meters tm = tm\<lparr>falseNorthing := meters\<rparr>"

lemmas projection_options = WithCentralMeridian_def WithOriginLatitude_def WithScaleFactor_def WithFalseEasting_def
  WithFalseNorthing_def

definition NewTransverseMercator :: "(TransverseMercator \<Rightarrow> TransverseMercator) list \<Rightarrow> TransverseMercator" where
  "NewTransverseMercator opts = fold (\<lambda>opt tm. opt tm) opts
     \<lparr>centralMeridian = 0, originLatitude = 0, scaleFactor = 1, falseEasting = 0, falseNorthing = 0\<rparr>"

definition meridionalArc :: "real \<Rightarrow> real" where
  "meridionalArc lat =
     (let e2 = wgs84EccentricitySquared; a = wgs84SemiMajorAxis;
          e4 = e2 ^ 2; e6 = e2 ^ 3;
          A0 = 1 - e2 / 4 - 3 * e4 / 64 - 5 * e6 / 256;
          A2 = 3 / 8 * (e2 + e4 / 4 + 15 * e6 / 128);
          A4 = 15 / 256 * (e4 + 3 * e6 / 4);
          A6 = 35 * e6 / 3072
      in a * (A0 * lat - A2 * sin (2 * lat) + A4 * sin (4 * lat) - A6 * sin (6 * lat)))"

definition ToProjected :: "TransverseMercator \<Rightarrow> point \<Rightarrow> point" where
  "ToProjected p pt =
     (let lon = radians (fst pt); lat = radians (snd pt);
          e2 = wgs84EccentricitySquared; ep2 = wgs84SecondEccentricitySquared;
          a = wgs84SemiMajorAxis; k0 = scaleFactor p;
          N = a / sqrt (1 - e2 * sin lat ^ 2);
          T = tan lat ^ 2;
          C = ep2 * cos lat ^ 2;
          deltaLon = lon - centralMeridian p;
          A = deltaLon * cos lat;
          M = meridionalArc lat; M0 = meridionalArc (originLatitude p);
          easting = k0 * N * (A + (1 - T + C) * A ^ 3 / 6
            + (5 - 18 * T + T ^ 2 + 72 * C - 58 * ep2) * A ^ 5 / 120);
          northing = k0 * ((M - M0) + N * tan lat * (A ^ 2 / 2
            + (5 - T + 9 * C + 4 * C ^ 2) * A ^ 4 / 24
            + (61 - 58 * T + T ^ 2 + 600 * C - 330 * ep2) * A ^ 6 / 720))
      in (easting + falseEasting p, northing + falseNorthing p))"

definition footpoint_latitude :: "real \<Rightarrow> real" where
  "footpoint_latitude mu =
     (let e2 = wgs84EccentricitySquared;
          e1 = (1 - sqrt (1 - e2)) / (1 + sqrt (1 - e2))
      in mu + (3 * e1 / 2 - 27 * e1 ^ 3 / 32) * sin (2 * mu)
         + (21 * e1 ^ 2 / 16 - 55 * e1 ^ 4 / 32) * sin (4 * mu)
         + (151 * e1 ^ 3 / 96) * sin (6 * mu)
         + (1097 * e1 ^ 4 / 512) * sin (8 * mu))"

definition ToWGS84 :: "TransverseMercator \<Rightarrow> point \<Rightarrow> point" where
  "ToWGS84 p projected =
     (let easting = fst projected - falseEasting p;
          northing = snd projected - falseNorthing p;
          e2 = wgs84EccentricitySquared; ep2 = wgs84SecondEccentricitySquared;
          a = wgs84SemiMajorAxis; k0 = scaleFactor p;
          M = meridionalArc (originLatitude p) + northing / k0;
          mu = M / (a * (1 - e2 / 4 - 3 * e2 ^ 2 / 64 - 5 * e2 ^ 3 / 256));
          phi1 = footpoint_latitude mu;
          N1 = a / sqrt (1 - e2 * sin phi1 ^ 2);
          R1 = a * (1 - e2) / (1 - e2 * sin phi1 ^ 2) powr (15 / 10);
          T1 = tan phi1 ^ 2;
          C1 = ep2 * cos phi1 ^ 2;
          D = easting / (N1 * k0);
          lat = phi1 - (N1 * tan phi1 / R1) * (D ^ 2 / 2
            - (5 + 3 * T1 + 10 * C1 - 4 * C1 ^ 2 - 9 * ep2) * D ^ 4 / 24
            + (61 + 90 * T1 + 298 * C1 + 45 * T1 ^ 2 - 252 * ep2 - 3 * C1 ^ 2) * D ^ 6 / 720);
          lon = centralMeridian p + (D - (1 + 2 * T1 + C1) * D ^ 3 / 6
            + (5 - 2 * C1 + 28 * T1 - 3 * C1 ^ 2 + 8 * ep2 + 24 * T1 ^ 2) * D ^ 5 / 120) / cos phi1
      in (lon * 180 / pi, lat * 180 / pi))"

section \<open>Terrains\<close>

record Terrain =
  terrain_Name :: string
  CentralMeridian :: real
  FalseEasting :: real
  FalseNorthing :: real

definition terrain :: "string \<Rightarrow> real \<Rightarrow> real \<Rightarrow> real \<Rightarrow> Terrain" where
  "terrain name meridian easting northing =
     \<lparr>terrain_Name = name, CentralMeridian = meridian, FalseEasting = easting, FalseNorthing = northing\<rparr>"

definition all_terrains :: "Terrain list" where
  "all_terrains =
     [terrain ''Caucasus'' 33 (-99517) (-4998115),
      terrain ''Nevada'' (-117) (-19399681 / 100) (-4410028064 / 1000),
      terrain ''PersianGulf'' 57 75756 (-2894933),
      terrain ''Normandy'' (-3) (-195526) (-5484813),
      terrain ''TheChannel'' 3 99376 (-5636889),
      terrain ''Syria'' 39 282801 (-3879866),
      terrain ''MarianaIslands'' 147 238418 (-1491840),
      terrain ''SouthAtlantic'' (-57) 147640 5815417,
      terrain ''Sinai'' 33 169222 (-3325313),
      terrain ''Kola'' 21 (-62702) (-7543625),
      terrain ''Afghanistan'' 63 (-300150) (-3759657),
      terrain ''Iraq'' 45 72290 (-3680057),
      terrain ''GermanyCW'' 21 (3542762 / 100) (-606163313 / 100)]"

definition metersPerDegreeLatitude :: real where "metersPerDegreeLatitude = 111320"

definition Center :: "Terrain \<Rightarrow> point" where
  "Center t = (CentralMeridian t, - FalseNorthing t / metersPerDegreeLatitude)"

definition terrain_Projection :: "Terrain \<Rightarrow> TransverseMercator" where
  "terrain_Projection t = NewTransverseMercator
     [WithCentralMeridian (CentralMeridian t), WithScaleFactor (9996 / 10000),
      WithFalseEasting (FalseEasting t), WithFalseNorthing (FalseNorthing t)]"

lemma terrain_Projection_fields:
  "terrain_Projection t = \<lparr>centralMeridian = radians (CentralMeridian t), originLatitude = 0,
     scaleFactor = 9996 / 10000, falseEasting = FalseEasting t, falseNorthing = FalseNorthing t\<rparr>"
  by (simp add: terrain_Projection_def NewTransverseMercator_def projection_options)

text \<open>The loop of \<open>Closest\<close>; no distance on the Earth reaches \<open>math.MaxFloat64\<close>, here \<open>None\<close>.\<close>

fun closest_loop :: "geo_lib \<Rightarrow> point \<Rightarrow> Terrain list \<Rightarrow> (Terrain \<times> real) option \<Rightarrow> (Terrain \<times> real) option" where
  "closest_loop geo pt [] best = best"
| "closest_loop geo pt (t # ts) best =
     (let distance = geo_Distance geo pt (Center t)
      in closest_loop geo pt ts
           (if (case best of None \<Rightarrow> True | Some (_, minDistance) \<Rightarrow> distance < minDistance)
            then Some (t, distance) else best))"

definition Closest :: "geo_lib \<Rightarrow> point \<Rightarrow> Terrain option" where
  "Closest geo pt = map_option fst (closest_loop geo pt all_terrains None)"

section \<open>Distance, bearing and offset\<close>

type_synonym projection = "(point \<Rightarrow> point) \<times> (point \<Rightarrow> point)"

definition tm_projection :: "TransverseMercator \<Rightarrow> projection" where
  "tm_projection p = (ToProjected p, ToWGS84 p)"

definition projectedDistance :: "units \<Rightarrow> projection \<Rightarrow> point \<Rightarrow> point \<Rightarrow> real" where
  "projectedDistance u p a b =
     (let projA = fst p a; projB = fst p b;
          dx = fst projB - fst projA; dy = snd projB - snd projA
      in sqrt (dx * dx + dy * dy) * Meter u)"

definition Distance :: "geo_lib \<Rightarrow> projection option \<Rightarrow> point \<Rightarrow> point \<Rightarrow> real" where
  "Distance geo opts a b =
     (case opts of
        Some p \<Rightarrow> projectedDistance (geo_units geo) p a b
      | None \<Rightarrow> \<bar>geo_Distance geo a b\<bar> * Meter (geo_units geo))"

text \<open>\<open>math.Atan2(y, x)\<close> is the argument of the complex number \<open>x + y i\<close>.\<close>

definition atan2 :: "real \<Rightarrow> real \<Rightarrow> real" where
  "atan2 y x = Arg (Complex x y)"

definition projectedBearing :: "projection \<Rightarrow> point \<Rightarrow> point \<Rightarrow> Bearing" where
  "projectedBearing p a b =
     (let projA = fst p a; projB = fst p b;
          dx = fst projB - fst projA; dy = snd projB - snd projA
      in NewTrueBearing (atan2 dx dy * 180 / pi))"

definition TrueBearingBetween :: "geo_lib \<Rightarrow> projection option \<Rightarrow> point \<Rightarrow> point \<Rightarrow> Bearing" where
  "TrueBearingBetween geo opts a b =
     (case opts of
        Some p \<Rightarrow> projectedBearing p a b
      | None \<Rightarrow> NewTrueBearing (geo_Bearing geo a b))"

definition projectedPointAtBearingAndDistance :: "units \<Rightarrow> projection \<Rightarrow> point \<Rightarrow> Bearing \<Rightarrow> real \<Rightarrow> point" where
  "projectedPointAtBearingAndDistance u p origin bearing distance =
     (let projOrigin = fst p origin;
          bearingRad = Degrees bearing * pi / 180;
          dx = distance / Meter u * sin bearingRad;
          dy = distance / Meter u * cos bearingRad
      in snd p (fst projOrigin + dx, snd projOrigin + dy))"

definition PointAtBearingAndDistance :: "geo_lib \<Rightarrow> projection option \<Rightarrow> point \<Rightarrow> Bearing \<Rightarrow> real \<Rightarrow> point" where
  "PointAtBearingAndDistance geo opts origin bearing distance =
     (case opts of
        Some p \<Rightarrow> projectedPointAtBearingAndDistance (geo_units geo) p origin bearing distance
      | None \<Rightarrow> geo_PointAt geo origin (Degrees bearing) (distance / Meter (geo_units geo)))"

definition IsZero :: "point \<Rightarrow> bool" where
  "IsZero pt \<longleftrightarrow> pt = (0, 0)"

section \<open>Properties\<close>

lemma closest_loop_best:
  "closest_loop geo pt ts best = Some (t, d) \<Longrightarrow>
   (best = Some (t, d) \<or> (t \<in> set ts \<and> d = geo_Distance geo pt (Center t))) \<and>
   (\<forall>t' \<in> set ts. d \<le> geo_Distance geo pt (Center t')) \<and> (\<forall>t' d'. best = Some (t', d') \<longrightarrow> d \<le> d')"
proof (induction geo pt ts best rule: closest_loop.induct)
  case (2 geo pt t' ts best)
  then show ?case by (cases best) (fastforce simp: Let_def split: if_splits)+
qed auto

lemma closest_loop_some: "ts \<noteq> [] \<or> best \<noteq> None \<Longrightarrow> closest_loop geo pt ts best \<noteq> None"
proof (induction ts arbitrary: best)
  case (Cons t ts)
  have "(if (case best of None \<Rightarrow> True | Some (_, m) \<Rightarrow> geo_Distance geo pt (Center t) < m)
      then Some (t, geo_Distance geo pt (Center t)) else best) \<noteq> None"
    by (cases best) auto
  then show ?case using Cons.IH by (simp only: closest_loop.simps Let_def) blast
qed auto

text \<open>The terrain chosen when the simulator does not name it is one whose centre is nearest to
  the given point among all terrains; there always is one.\<close>

theorem Closest_nearest:
  "\<exists>t. Closest geo pt = Some t \<and> t \<in> set all_terrains \<and>
     (\<forall>t' \<in> set all_terrains. geo_Distance geo pt (Center t) \<le> geo_Distance geo pt (Center t'))"
proof -
  have "all_terrains \<noteq> []" by (simp add: all_terrains_def)
  then have "closest_loop geo pt all_terrains None \<noteq> None" using closest_loop_some by blast
  then obtain t d where c: "closest_loop geo pt all_terrains None = Some (t, d)" by auto
  from closest_loop_best [OF c] show ?thesis using c by (auto simp: Closest_def)
qed

definition demo_geo :: geo_lib where
  "demo_geo = \<lparr>geo_Distance = \<lambda>a b. \<bar>fst a - fst b\<bar> + \<bar>snd a - snd b\<bar>, geo_Bearing = \<lambda>a b. 90,
     geo_PointAt = \<lambda>a b c. a, geo_Midpoint = \<lambda>a b. ((fst a + fst b) / 2, (snd a + snd b) / 2),
     geo_igrf = \<lambda>a b c. Inr 0, geo_units = si_units\<rparr>"

theorem Closest_nearest_witness:
  "\<exists>t. Closest demo_geo (33, 45) = Some t \<and> geo_Distance demo_geo (33, 45) (Center t) \<le> 1"
proof -
  have "terrain ''Caucasus'' 33 (-99517) (-4998115) \<in> set all_terrains" by (simp add: all_terrains_def)
  moreover have "geo_Distance demo_geo (33, 45) (Center (terrain ''Caucasus'' 33 (-99517) (-4998115))) \<le> 1"
    by (simp add: demo_geo_def Center_def terrain_def metersPerDegreeLatitude_def)
  ultimately show ?thesis using Closest_nearest [of demo_geo "(33, 45)"] by (meson order_trans)
qed

lemma Arg_polar:
  assumes "0 < r" and "0 < t" and "t \<le> 360"
  shows "normalize_angle (Arg (Complex (r * cos (t * pi / 180)) (r * sin (t * pi / 180))) * 180 / pi) = t"
proof -
  let ?z = "Complex (r * cos (t * pi / 180)) (r * sin (t * pi / 180))"
  have z: "?z = of_real r * cis (t * pi / 180)" by (simp add: complex_eq_iff)
  have "cis (Arg ?z) = cis (t * pi / 180)"
    unfolding z using assms(1) by (simp add: cis_Arg sgn_mult sgn_of_real)
  then have "cos (Arg ?z) = cos (t * pi / 180)" "sin (Arg ?z) = sin (t * pi / 180)"
    by (simp_all add: complex_eq_iff)
  then obtain k :: int where "Arg ?z = t * pi / 180 + 2 * pi * of_int k"
    using sin_cos_eq_iff [of "Arg ?z" "t * pi / 180"] by auto
  then have "t = Arg ?z * 180 / pi + 360 * of_int (- k)" by (simp add: field_simps)
  with assms show ?thesis by (intro normalize_unique)
qed

text \<open>On a projection whose two directions are inverse to each other, a point set off from
  another by a bearing and a distance is found again at exactly that distance and, if the
  distance is not zero, on exactly that bearing.\<close>

theorem projected_offset:
  assumes "\<And>q. fst p (snd p q) = q" and "0 < Meter u" and "0 \<le> distance"
    and "b = projectedPointAtBearingAndDistance u p origin (NewTrueBearing angle) distance"
  shows "projectedDistance u p origin b = distance \<and>
    (0 < distance \<longrightarrow> projectedBearing p origin b = NewTrueBearing angle)"
proof -
  let ?t = "normalize_angle angle" and ?d = "distance / Meter u"
  let ?dx = "?d * sin (?t * pi / 180)" and ?dy = "?d * cos (?t * pi / 180)"
  have b: "fst p b = (fst (fst p origin) + ?dx, snd (fst p origin) + ?dy)"
    by (simp add: assms(1, 4) projectedPointAtBearingAndDistance_def Let_def)
  have "?dx * ?dx + ?dy * ?dy = ?d ^ 2 * ((sin (?t * pi / 180)) ^ 2 + (cos (?t * pi / 180)) ^ 2)"
    by (simp only: power2_eq_square algebra_simps)
  then have "?dx * ?dx + ?dy * ?dy = ?d ^ 2" by simp
  moreover have "sqrt (?d ^ 2) = ?d" using assms(2, 3) by simp
  ultimately have "projectedDistance u p origin b = ?d * Meter u"
    by (simp only: projectedDistance_def Let_def b fst_conv snd_conv add_diff_cancel_left')
  then have 1: "projectedDistance u p origin b = distance" using assms(2) by simp
  have "projectedBearing p origin b = NewTrueBearing angle" if "0 < distance"
  proof -
    have "normalize_angle (Arg (Complex ?dy ?dx) * 180 / pi) = ?t"
      using normalize_range [of angle] that assms(2) by (intro Arg_polar) auto
    then show ?thesis
      by (simp add: projectedBearing_def Let_def b atan2_def NewTrueBearing_def)
  qed
  with 1 show ?thesis by blast
qed

theorem projected_offset_witness:
  "projectedDistance si_units (\<lambda>q. q, \<lambda>q. q) (1, 2)
     (projectedPointAtBearingAndDistance si_units (\<lambda>q. q, \<lambda>q. q) (1, 2) (NewTrueBearing 45) 100) = 100"
  using projected_offset [of "(\<lambda>q. q, \<lambda>q. q)" si_units 100 _ "(1, 2)" 45] by (simp add: si_units_def)

lemma odd_series:
  fixes x :: real
  shows "k * (- x + c * (- x) ^ 3 / 6 + d * (- x) ^ 5 / 120) = - (k * (x + c * x ^ 3 / 6 + d * x ^ 5 / 120))"
  by (simp add: algebra_simps)

text \<open>The projection is symmetric about its central meridian: points equally far east and west
  of it on one parallel have opposite eastings (from the false easting) and the same northing,
  and points on it are projected to the false easting.\<close>

theorem ToProjected_symmetric:
  assumes "centralMeridian p = radians meridian"
  shows "fst (ToProjected p (meridian + d, lat)) - falseEasting p =
      - (fst (ToProjected p (meridian - d, lat)) - falseEasting p) \<and>
    snd (ToProjected p (meridian + d, lat)) = snd (ToProjected p (meridian - d, lat)) \<and>
    fst (ToProjected p (meridian, lat)) = falseEasting p"
proof -
  have r: "radians (meridian + d) - radians meridian = radians d"
    "radians (meridian - d) - radians meridian = - radians d"
    by (simp_all add: radians_def field_simps)
  show ?thesis
    unfolding ToProjected_def Let_def assms fst_conv snd_conv r mult_minus_left odd_series
    by simp
qed

end
