(* ===== verification/Coalitions.thy ===== *)
theory Coalitions
  imports GoStrings
begin

text \<open>
  \<open>pkg/coalitions/coalition.go\<close>: coalitions are integers, three of which have names.
\<close>

type_synonym Coalition = int

definition Red :: Coalition where "Red = 1"
definition Blue :: Coalition where "Blue = 2"
definition Neutrals :: Coalition where "Neutrals = 3"

lemmas coalition_defs = Red_def Blue_def Neutrals_def

definition coalition_String :: "Coalition \<Rightarrow> string" where
  "coalition_String c = (if c = Red then ''Red'' else if c = Blue then ''Blue'' else ''Neutrals'')"

definition all_coalitions :: "Coalition list" where
  "all_coalitions = [Red, Blue, Neutrals]"

definition Opposite :: "Coalition \<Rightarrow> Coalition" where
  "Opposite c = (if c = Red then Blue else if c = Blue then Red else Neutrals)"

lemma Opposite_simps [simp]: "Opposite Red = Blue" "Opposite Blue = Red" "Opposite Neutrals = Neutrals"
  by (simp_all add: Opposite_def coalition_defs)

lemma coalitions_distinct [simp]:
  "Red \<noteq> Blue" "Blue \<noteq> Red" "Red \<noteq> Neutrals" "Neutrals \<noteq> Red" "Blue \<noteq> Neutrals" "Neutrals \<noteq> Blue"
  by (simp_all add: coalition_defs)

lemma Opposite_Opposite: "c \<in> set all_coalitions \<Longrightarrow> Opposite (Opposite c) = c"
  by (auto simp: all_coalitions_def)

end
