(* ===== verification/Trackfile.thy ===== *)
theory Trackfile
  imports Spatial Coalitions
begin

text \<open>
  Trackfiles (\<open>pkg/trackfiles/trackfile.go\<close>). The counting deque of the collections library
  is represented by its contents, newest first; what a push keeps is the parameter \<open>push\<close>,
  with the documented behaviour \<open>counting_push\<close>. Times are nanoseconds of simulated time, the
  zero time is 0.
\<close>

record Labels =
  label_ID :: "64 word"
  label_Name :: string
  label_Coalition :: Coalition
  label_ACMIName :: string

record Frame =
  frame_Time :: int
  frame_Point :: point
  frame_Altitude :: real
  frame_AGL :: "real option"
  frame_Heading :: real

type_synonym frame_push = "Frame \<Rightarrow> Frame list \<Rightarrow> Frame list"

record Trackfile =
  Contact :: Labels
  track :: "Frame list"

definition maxLength :: nat where "maxLength = 4"

text \<open>A push to a deque of capacity \<open>maxLength\<close> drops the oldest element when it is full.\<close>

definition counting_push :: "frame_push \<Rightarrow> bool" where
  "counting_push push \<longleftrightarrow> (\<forall>f q. push f q = take maxLength (f # q))"

definition zeroFrame :: Frame where
  "zeroFrame = \<lparr>frame_Time = 0, frame_Point = (0, 0), frame_Altitude = 0, frame_AGL = None,
     frame_Heading = 0\<rparr>"

definition NewTrackfile :: "Labels \<Rightarrow> Trackfile" where
  "NewTrackfile labels = \<lparr>Contact = labels, track = []\<rparr>"

definition Newest :: "Frame list \<Rightarrow> Frame option" where
  "Newest q = (case q of [] \<Rightarrow> None | f # _ \<Rightarrow> Some f)"

definition At :: "Frame list \<Rightarrow> nat \<Rightarrow> Frame option" where
  "At q i = (if i < length q then Some (q ! i) else None)"

definition Update :: "frame_push \<Rightarrow> Frame \<Rightarrow> Trackfile \<Rightarrow> Trackfile" where
  "Update push f t =
     (case Newest (track t) of
        Some newest \<Rightarrow> if frame_Time f < frame_Time newest then t else t\<lparr>track := push f (track t)\<rparr>
      | None \<Rightarrow> t\<lparr>track := push f (track t)\<rparr>)"

definition LastKnown :: "Trackfile \<Rightarrow> Frame" where
  "LastKnown t = (case Newest (track t) of Some f \<Rightarrow> f | None \<Rightarrow> zeroFrame)"

definition IsLastKnownPointZero :: "Trackfile \<Rightarrow> bool" where
  "IsLastKnownPointZero t = IsZero (frame_Point (LastKnown t))"

text \<open>The calendar of a simulated time (year and day of the year) is Go's \<open>time\<close>: a parameter.\<close>

type_synonym calendar = "int \<Rightarrow> int \<times> int"

definition declination_at :: "geo_lib \<Rightarrow> calendar \<Rightarrow> point \<Rightarrow> int \<Rightarrow> string + real" where
  "declination_at geo cal p t = Declination (geo_igrf geo) p (fst (cal t)) (snd (cal t))"

text \<open>Go ignores the error and uses the zero value.\<close>

definition declination_or_zero :: "geo_lib \<Rightarrow> calendar \<Rightarrow> point \<Rightarrow> int \<Rightarrow> real" where
  "declination_or_zero geo cal p t = (case declination_at geo cal p t of Inl _ \<Rightarrow> 0 | Inr d \<Rightarrow> d)"

definition track_Bullseye :: "geo_lib \<Rightarrow> calendar \<Rightarrow> projection option \<Rightarrow> point \<Rightarrow> Trackfile \<Rightarrow> Bullseye" where
  "track_Bullseye geo cal opts bullseye t =
     (let latest = LastKnown t;
          declination = declination_or_zero geo cal bullseye (frame_Time latest);
          bearing = to_Magnetic (TrueBearingBetween geo opts bullseye (frame_Point latest)) declination;
          distance = Distance geo opts bullseye (frame_Point latest)
      in NewBullseye bearing distance)"

definition bestAvailableDeclination :: "geo_lib \<Rightarrow> calendar \<Rightarrow> Trackfile \<Rightarrow> real" where
  "bestAvailableDeclination geo cal t =
     (case Newest (track t) of
        None \<Rightarrow> 0
      | Some latest \<Rightarrow> declination_or_zero geo cal (frame_Point latest) (frame_Time latest))"

definition computeCourse :: "geo_lib \<Rightarrow> calendar \<Rightarrow> projection option \<Rightarrow> Trackfile \<Rightarrow> Bearing" where
  "computeCourse geo cal opts t =
     (case Newest (track t) of
        None \<Rightarrow> NewTrueBearing 0
      | Some latest \<Rightarrow>
          if length (track t) = 1
          then to_Magnetic (NewTrueBearing (frame_Heading latest)) (bestAvailableDeclination geo cal t)
          else (case At (track t) 1 of
              None \<Rightarrow> NewTrueBearing 0
            | Some previous \<Rightarrow>
                to_Magnetic (TrueBearingBetween geo opts (frame_Point previous) (frame_Point latest))
                  (bestAvailableDeclination geo cal t)))"

abbreviation Course :: "geo_lib \<Rightarrow> calendar \<Rightarrow> projection option \<Rightarrow> Trackfile \<Rightarrow> Bearing" where
  "Course \<equiv> computeCourse"

text \<open>A time difference in seconds.\<close>

definition seconds :: "int \<Rightarrow> real" where
  "seconds d = of_int d / 10 ^ 9"

definition groundSpeed :: "geo_lib \<Rightarrow> projection option \<Rightarrow> Trackfile \<Rightarrow> real" where
  "groundSpeed geo opts t =
     (case (Newest (track t), At (track t) 1) of
        (Some latest, Some previous) \<Rightarrow>
          (let timeDelta = frame_Time latest - frame_Time previous
           in if timeDelta = 0 then 0
              else Distance geo opts (frame_Point latest) (frame_Point previous) / Meter (geo_units geo)
                   / seconds timeDelta * MetersPerSecond (geo_units geo))
      | _ \<Rightarrow> 0)"

definition Direction :: "geo_lib \<Rightarrow> calendar \<Rightarrow> Trackfile \<Rightarrow> Track" where
  "Direction geo cal t =
     (if length (track t) < 2 then UnknownDirection
      else if groundSpeed geo None t < 1 * MetersPerSecond (geo_units geo) then UnknownDirection
      else TrackFromBearing (computeCourse geo cal None t))"

definition Speed :: "geo_lib \<Rightarrow> Trackfile \<Rightarrow> real" where
  "Speed geo t =
     (case (Newest (track t), At (track t) 1) of
        (Some latest, Some previous) \<Rightarrow>
          (let timeDelta = frame_Time latest - frame_Time previous
           in if timeDelta = 0 then 0
              else let mps = MetersPerSecond (geo_units geo);
                       verticalDistance = (if frame_Altitude latest > frame_Altitude previous
                         then frame_Altitude latest - frame_Altitude previous
                         else frame_Altitude previous - frame_Altitude latest);
                       verticalSpeed = verticalDistance / Meter (geo_units geo) / seconds timeDelta * mps;
                       ground = groundSpeed geo None t;
                       trueSpeed = sqrt ((ground / mps) ^ 2 + (verticalSpeed / mps) ^ 2) * mps
                   in if ground > trueSpeed then ground else trueSpeed)
      | _ \<Rightarrow> 0)"

section \<open>The invariant of a track\<close>

text \<open>At most four frames, newest first, in the order of their times.\<close>

definition track_ok :: "Trackfile \<Rightarrow> bool" where
  "track_ok t \<longleftrightarrow> length (track t) \<le> maxLength \<and> sorted_wrt (\<lambda>f g. frame_Time g \<le> frame_Time f) (track t)"

lemma NewTrackfile_ok: "track_ok (NewTrackfile l)"
  by (simp add: track_ok_def NewTrackfile_def)

lemma Update_Contact [simp]: "Contact (Update push f t) = Contact t"
  by (simp add: Update_def split: option.split)

lemma Update_track:
  "counting_push push \<Longrightarrow> track (Update push f t) =
    (if track t \<noteq> [] \<and> frame_Time f < frame_Time (hd (track t)) then track t
     else take maxLength (f # track t))"
  by (auto simp: Update_def Newest_def counting_push_def split: list.splits)

lemma Update_ok [inv_intros]: "counting_push push \<Longrightarrow> track_ok t \<Longrightarrow> track_ok (Update push f t)"
proof (cases "track t")
  case Nil
  assume "counting_push push" "track_ok t"
  then show ?thesis using Nil by (simp add: track_ok_def Update_track maxLength_def)
next
  case (Cons g gs)
  assume p: "counting_push push" and ok: "track_ok t"
  show ?thesis
  proof (cases "frame_Time f < frame_Time g")
    case True
    then show ?thesis using p ok Cons by (simp add: track_ok_def Update_track)
  next
    case False
    then have "sorted_wrt (\<lambda>f g. frame_Time g \<le> frame_Time f) (f # track t)"
      using ok Cons by (auto simp: track_ok_def)
    then have "sorted_wrt (\<lambda>f g. frame_Time g \<le> frame_Time f) (take maxLength (f # track t))"
      by (rule sorted_wrt_take)
    then show ?thesis using p Cons False by (simp add: track_ok_def Update_track)
  qed
qed

definition demo_push :: frame_push where
  "demo_push f q = take maxLength (f # q)"

definition demo_labels :: Labels where
  "demo_labels = \<lparr>label_ID = 1, label_Name = ''Eagle 1'', label_Coalition = Blue, label_ACMIName = ''F-15C''\<rparr>"

lemma demo_push_ok: "counting_push demo_push"
  by (simp add: counting_push_def demo_push_def)

lemma updates_ok:
  "counting_push push \<Longrightarrow> track_ok t \<Longrightarrow> track_ok (fold (Update push) fs t)"
  by (induction fs arbitrary: t) (simp_all add: Update_ok)

lemma updates_nonempty:
  assumes "counting_push push" and "fs \<noteq> []"
  shows "track (fold (Update push) fs (NewTrackfile l)) \<noteq> []"
  using assms(2)
  by (induction fs rule: rev_nonempty_induct)
    (auto simp: Update_track [OF assms(1)] maxLength_def NewTrackfile_def)

lemma updates_newest:
  assumes "counting_push push" and "fs \<noteq> []"
  shows "\<exists>f \<in> set fs. LastKnown (fold (Update push) fs (NewTrackfile l)) = f \<and>
    (\<forall>g \<in> set fs. frame_Time g \<le> frame_Time f)"
  using assms(2)
proof (induction fs rule: rev_nonempty_induct)
  case (single f)
  then show ?case
    by (simp add: LastKnown_def Newest_def Update_track [OF assms(1)] NewTrackfile_def maxLength_def)
next
  case (snoc f fs)
  let ?t = "fold (Update push) fs (NewTrackfile l)"
  obtain g where g: "g \<in> set fs" "LastKnown ?t = g" "\<forall>h \<in> set fs. frame_Time h \<le> frame_Time g"
    using snoc.IH by blast
  have "track (Update push f ?t) \<noteq> []" by (auto simp: Update_track [OF assms(1)] maxLength_def)
  show ?case
  proof (cases "track ?t \<noteq> [] \<and> frame_Time f < frame_Time (hd (track ?t))")
    case True
    then have "LastKnown (Update push f ?t) = g" "frame_Time f \<le> frame_Time g"
      using g(2) by (auto simp: LastKnown_def Newest_def Update_track [OF assms(1)] split: list.splits)
    then show ?thesis using g by auto
  next
    case False
    have "LastKnown (Update push f ?t) = f"
      unfolding LastKnown_def Newest_def Update_track [OF assms(1)] if_not_P [OF False]
      by (simp add: maxLength_def)
    moreover have "frame_Time g \<le> frame_Time f"
    proof -
      have no: "track ?t \<noteq> []" by (rule updates_nonempty [OF assms(1) snoc.hyps])
      then have "LastKnown ?t = hd (track ?t)"
        by (auto simp: LastKnown_def Newest_def split: list.splits)
      then show ?thesis using False no g(2) by auto
    qed
    ultimately show ?thesis using g(3) by (auto intro: order_trans)
  qed
qed

text \<open>Whatever frames arrive, in whatever order, a trackfile holds at most four of them, newest
  first, and its last known position is that of a frame no other received frame is newer
  than.\<close>

theorem trackfile_keeps_newest:
  assumes "counting_push push" and "frames \<noteq> []" and "t = fold (Update push) frames (NewTrackfile labels)"
  shows "length (track t) \<le> 4 \<and> sorted_wrt (\<lambda>f g. frame_Time g \<le> frame_Time f) (track t) \<and>
    (\<exists>f \<in> set frames. LastKnown t = f \<and> (\<forall>g \<in> set frames. frame_Time g \<le> frame_Time f))"
  using updates_ok [OF assms(1) NewTrackfile_ok, of frames labels] updates_newest [OF assms(1, 2), of labels] assms(3)
  by (simp add: track_ok_def maxLength_def)

theorem trackfile_keeps_newest_witness:
  "LastKnown (fold (Update demo_push) [zeroFrame\<lparr>frame_Time := 5\<rparr>, zeroFrame\<lparr>frame_Time := 3\<rparr>]
     (NewTrackfile demo_labels)) = zeroFrame\<lparr>frame_Time := 5\<rparr>"
  using trackfile_keeps_newest [OF demo_push_ok, of "[zeroFrame\<lparr>frame_Time := 5\<rparr>, zeroFrame\<lparr>frame_Time := 3\<rparr>]" _ demo_labels]
  by (auto simp: zeroFrame_def)

lemma groundSpeed_nonneg:
  assumes "track_ok t" and "units_ok (geo_units geo)"
  shows "0 \<le> groundSpeed geo None t"
proof -
  have m: "0 < Meter (geo_units geo)" "0 < MetersPerSecond (geo_units geo)"
    using assms(2) by (simp_all add: units_ok_def)
  have "0 \<le> seconds (frame_Time (track t ! 0) - frame_Time (track t ! 1))" if "1 < length (track t)"
    using assms(1) that by (auto simp: track_ok_def seconds_def sorted_wrt_iff_nth_less)
  then show ?thesis using m
    by (auto simp: groundSpeed_def Newest_def At_def Distance_def Let_def split: list.split)
qed

text \<open>The speed of a track is at least its ground speed and at least zero; it is 0 when there is
  no second frame or no time between the two newest ones, where it cannot be computed.\<close>

theorem Speed_at_least_ground:
  assumes "track_ok t" and "units_ok (geo_units geo)"
  shows "groundSpeed geo None t \<le> Speed geo t \<and> 0 \<le> Speed geo t \<and>
    (length (track t) < 2 \<or> frame_Time (track t ! 0) = frame_Time (track t ! 1) \<longrightarrow> Speed geo t = 0)"
proof -
  have g: "0 \<le> groundSpeed geo None t" by (rule groundSpeed_nonneg [OF assms])
  have z: "length (track t) < 2 \<or> frame_Time (track t ! 0) = frame_Time (track t ! 1) \<longrightarrow>
      Speed geo t = 0 \<and> groundSpeed geo None t = 0"
    by (auto simp: Speed_def groundSpeed_def Newest_def At_def split: list.split)
  show ?thesis
  proof (cases "length (track t) < 2 \<or> frame_Time (track t ! 0) = frame_Time (track t ! 1)")
    case True
    then show ?thesis using z by simp
  next
    case False
    then obtain f h fs where "track t = f # h # fs" "frame_Time f \<noteq> frame_Time h"
      by (cases "track t"; cases "tl (track t)") auto
    then have "groundSpeed geo None t \<le> Speed geo t"
      by (simp add: Speed_def Newest_def At_def Let_def)
    then show ?thesis using False g by simp
  qed
qed

theorem Speed_at_least_ground_witness:
  "0 \<le> Speed \<lparr>geo_Distance = \<lambda>a b. 1, geo_Bearing = \<lambda>a b. 0, geo_PointAt = \<lambda>a b c. a,
       geo_Midpoint = \<lambda>a b. a, geo_igrf = \<lambda>a b c. Inr 0, geo_units = si_units\<rparr>
     (fold (Update demo_push) [zeroFrame, zeroFrame\<lparr>frame_Time := 1000000000\<rparr>] (NewTrackfile demo_labels))"
proof -
  let ?t = "fold (Update demo_push) [zeroFrame, zeroFrame\<lparr>frame_Time := 1000000000\<rparr>] (NewTrackfile demo_labels)"
  have "track_ok ?t" by (rule updates_ok [OF demo_push_ok NewTrackfile_ok])
  from Speed_at_least_ground [OF this, of "\<lparr>geo_Distance = \<lambda>a b. 1, geo_Bearing = \<lambda>a b. 0,
      geo_PointAt = \<lambda>a b c. a, geo_Midpoint = \<lambda>a b. a, geo_igrf = \<lambda>a b c. Inr 0, geo_units = si_units\<rparr>"]
    si_units_ok
  show ?thesis unfolding geo_lib.simps by blast
qed

end
