(* ===== verification/Normalize.thy ===== *)
theory Normalize
  imports GoStrings
begin

text \<open>
  Text normalization (\<open>internal/normalize/normalize.go\<close>) and pilot callsigns
  (\<open>pkg/callsigns/callsign.go\<close>): the two passes over the characters, the digit words, and
  the canonical form their results have. The lemmas show which texts are fixed points.
\<close>

section \<open>Normalization\<close>

definition digitWordMap :: "string \<rightharpoonup> string" where
  "digitWordMap = map_of [(''zero'', ''0''), (''one'', ''1''), (''two'', ''2''), (''three'', ''3''),
     (''four'', ''4''), (''five'', ''5''), (''six'', ''6''), (''seven'', ''7''), (''eight'', ''8''),
     (''nine'', ''9'')]"

text \<open>The loop of \<open>Normalize\<close> over the runes, with its one character of lookahead.\<close>

fun normalize_chars :: "string \<Rightarrow> string" where
  "normalize_chars [] = []"
| "normalize_chars (c # cs) =
     (let isSeparator = c = CHR ''-'' \<or> c = CHR ''_'';
          isPeriodBeforeNonSpace = c = CHR ''.'' \<and> cs \<noteq> [] \<and> \<not> IsSpace (hd cs)
      in if isSeparator \<or> isPeriodBeforeNonSpace then CHR '' '' # normalize_chars cs
         else if IsLetter c \<or> IsDigit c \<or> IsSpace c
         then to_lower c # (if IsLetter c \<and> cs \<noteq> [] \<and> IsDigit (hd cs)
                            then CHR '' '' # normalize_chars cs else normalize_chars cs)
         else normalize_chars cs)"

definition digit_word :: "string \<Rightarrow> string" where
  "digit_word f = (case digitWordMap f of Some n \<Rightarrow> n | None \<Rightarrow> f)"

definition DigitWords :: "string \<Rightarrow> string" where
  "DigitWords s = Join (map digit_word (Fields s)) sp"

definition Normalize :: "string \<Rightarrow> string" where
  "Normalize s0 = (let (s, _, _) = Cut s0 ''|''
     in if s = [] then [] else TrimSpace (DigitWords (normalize_chars s)))"

fun space_digits :: "string \<Rightarrow> string" where
  "space_digits [] = []"
| "space_digits (r # rs) = (if IsDigit r then CHR '' '' # r # space_digits rs else r # space_digits rs)"

definition SpaceDigits :: "string \<Rightarrow> string" where
  "SpaceDigits s = Normalize (space_digits s)"

definition HasDigits :: "string \<Rightarrow> bool" where
  "HasDigits s = list_ex IsDigit s"

section \<open>Callsigns\<close>

definition maxCallsignDigits :: nat where
  "maxCallsignDigits = 3"

definition digitHomophones :: "string \<rightharpoonup> string" where
  "digitHomophones = map_of [(''won'', ''1''), (''to'', ''2''), (''too'', ''2''), (''tu'', ''2''),
     (''tutu'', ''22''), (''free'', ''3''), (''tree'', ''3''), (''for'', ''4''), (''fore'', ''4''),
     (''ate'', ''8''), (''niner'', ''9'')]"

fun strip_suffixes :: "string list \<Rightarrow> string \<Rightarrow> string" where
  "strip_suffixes [] s = s"
| "strip_suffixes (x # xs) s =
     (let p = take (length s - length x) s
      in if HasSuffix s x \<and> p \<noteq> [] \<and> HasDigits p then p else strip_suffixes xs s)"

definition stripOrdinalSuffix :: "string \<Rightarrow> string" where
  "stripOrdinalSuffix s = strip_suffixes [''st'', ''nd'', ''rd'', ''th''] s"

definition homophone :: "string \<Rightarrow> string" where
  "homophone f = (case digitHomophones f of Some d \<Rightarrow> d | None \<Rightarrow> f)"

definition replaceDigitHomophones :: "string \<Rightarrow> string" where
  "replaceDigitHomophones tx =
     (let fields = Fields tx;
          before = takeWhile (\<lambda>f. \<not> (HasDigits f \<or> digitHomophones f \<noteq> None)) fields;
          rest = drop (length before) fields
      in if rest = [] then tx
         else Join (before @ map (stripOrdinalSuffix \<circ> homophone) rest) sp)"

text \<open>\<open>clanTagRe\<close> is the lazy \<open>\[.*?\]\<close>: up to the first closing bracket on the same line.\<close>

fun clan_end :: "string \<Rightarrow> string option" where
  "clan_end [] = None"
| "clan_end (c # cs) = (if c = CHR '']'' then Some cs else if code_of c = 10 then None else clan_end cs)"

lemma clan_end_shorter: "clan_end s = Some r \<Longrightarrow> length r < length s"
  by (induction s) (auto split: if_splits)

function removeClanTags :: "string \<Rightarrow> string" where
  "removeClanTags [] = []"
| "removeClanTags (c # cs) =
     (case (if c = CHR ''['' then clan_end cs else None) of
        Some r \<Rightarrow> removeClanTags r | None \<Rightarrow> c # removeClanTags cs)"
  by pat_completeness auto
termination
  by (relation "measure length") (auto dest: clan_end_shorter split: if_splits)

text \<open>The copying loop of \<open>ParsePilotCallsign\<close>, with its digit counter \<open>n\<close>.\<close>

fun callsign_chars :: "nat \<Rightarrow> string \<Rightarrow> string" where
  "callsign_chars n [] = []"
| "callsign_chars n (c # cs) =
     (if maxCallsignDigits \<le> n then []
      else let n' = (if IsDigit c then n + 1 else n)
           in if n' = 0 \<or> IsDigit c \<or> IsSpace c then c # callsign_chars n' cs
              else callsign_chars n' cs)"

definition callsign_text :: "string \<Rightarrow> string" where
  "callsign_text tx0 =
     (let tx = SpaceDigits (Normalize (removeClanTags tx0));
          tx = ReplaceAll tx ''this is'' [];
          tx = (case Index tx ''request'' of Some i \<Rightarrow> take i tx | None \<Rightarrow> tx)
      in replaceDigitHomophones tx)"

definition ParsePilotCallsign :: "string \<Rightarrow> string \<times> bool" where
  "ParsePilotCallsign tx =
     (let callsign = SpaceDigits (Normalize (callsign_chars 0 (callsign_text tx)))
      in if callsign = [] then ([], False) else (callsign, True))"

section \<open>Canonical text\<close>

text \<open>
  A plain word consists of lower-case letters and digits; a canonical one also has no
  letter directly before a digit and is not the name of a digit. In a spaced string a
  digit stands only at the start or after a space.
\<close>

definition normal_char :: "char \<Rightarrow> bool" where
  "normal_char c \<longleftrightarrow> IsSpace c \<or> IsLower c \<or> IsDigit c"

fun no_join :: "string \<Rightarrow> bool" where
  "no_join [] = True"
| "no_join (c # cs) = (\<not> (IsLetter c \<and> cs \<noteq> [] \<and> IsDigit (hd cs)) \<and> no_join cs)"

fun dspaced :: "bool \<Rightarrow> string \<Rightarrow> bool" where
  "dspaced p [] = True"
| "dspaced p (c # cs) = ((IsDigit c \<longrightarrow> p) \<and> dspaced (IsSpace c) cs)"

definition plain_word :: "string \<Rightarrow> bool" where
  "plain_word w \<longleftrightarrow> is_word w \<and> list_all normal_char w"

definition canonical_word :: "string \<Rightarrow> bool" where
  "canonical_word w \<longleftrightarrow> plain_word w \<and> no_join w \<and> digitWordMap w = None"

definition spaced_word :: "string \<Rightarrow> bool" where
  "spaced_word w \<longleftrightarrow> canonical_word w \<and> dspaced True w"

definition text_of :: "(string \<Rightarrow> bool) \<Rightarrow> string \<Rightarrow> bool" where
  "text_of P s \<longleftrightarrow> s = Join (Fields s) sp \<and> list_all P (Fields s)"

lemmas word_defs = spaced_word_def canonical_word_def plain_word_def

lemma text_of_Join: "list_all is_word ws \<Longrightarrow> list_all P ws \<Longrightarrow> text_of P (Join ws sp)"
  by (simp add: text_of_def Fields_Join)

lemma text_of_mono: "text_of P s \<Longrightarrow> (\<And>w. P w \<Longrightarrow> Q w) \<Longrightarrow> text_of Q s"
  by (auto simp: text_of_def list_all_iff)

lemma list_all_mp: "list_all P xs \<Longrightarrow> (\<And>x. P x \<Longrightarrow> Q x) \<Longrightarrow> list_all Q xs"
  by (auto simp: list_all_iff)

lemma list_all_Join: "list_all (list_all P) ws \<Longrightarrow> list_all P sep \<Longrightarrow> list_all P (Join ws sep)"
  by (induction ws sep rule: Join.induct) auto

lemma fields_aux_chars:
  "list_all P acc \<Longrightarrow> list_all P s \<Longrightarrow> list_all (list_all P) (fields_aux acc s)"
  by (induction acc s rule: fields_aux.induct) auto

lemma Fields_chars: "list_all P s \<Longrightarrow> list_all (list_all P) (Fields s)"
  by (simp add: Fields_def fields_aux_chars)

lemma normal_char_to_lower: "IsLetter c \<or> IsDigit c \<or> IsSpace c \<Longrightarrow> normal_char (to_lower c)"
  by (metis IsLetter_def normal_char_def to_lower_class)

lemma normal_char_space [simp]: "normal_char (CHR '' '')"
  by (simp add: normal_char_def)

lemma normalize_chars_normal: "list_all normal_char (normalize_chars s)"
proof (induction s)
  case (Cons c cs)
  then show ?case using normal_char_to_lower [of c] by (simp add: Let_def)
qed simp

lemma normal_char_no_separator:
  "normal_char c \<Longrightarrow> c \<noteq> CHR ''-'' \<and> c \<noteq> CHR ''_'' \<and> c \<noteq> CHR ''.'' \<and> c \<noteq> CHR ''|''"
  by (auto simp: normal_char_def char_class_defs code_of_def)

lemma normal_char_lower: "normal_char c \<Longrightarrow> to_lower c = c"
  by (rule to_lower_id) (auto simp: normal_char_def char_class_defs)

lemma normal_char_kept: "normal_char c \<Longrightarrow> IsLetter c \<or> IsDigit c \<or> IsSpace c"
  by (auto simp: normal_char_def IsLetter_def)

lemma normalize_chars_id: "list_all normal_char s \<Longrightarrow> no_join s \<Longrightarrow> normalize_chars s = s"
proof (induction s)
  case (Cons c cs)
  then show ?case
    using normal_char_no_separator [of c] normal_char_lower [of c] normal_char_kept [of c]
    by (auto simp: Let_def)
qed simp

lemma normalize_chars_hd:
  "list_all normal_char s \<Longrightarrow> s \<noteq> [] \<Longrightarrow> normalize_chars s \<noteq> [] \<and> hd (normalize_chars s) = hd s"
proof (cases s)
  case (Cons c cs)
  assume "list_all normal_char s"
  with Cons show ?thesis
    using normal_char_no_separator [of c] normal_char_lower [of c] normal_char_kept [of c]
    by (auto simp: Let_def)
qed simp

lemma normalize_chars_no_join: "list_all normal_char s \<Longrightarrow> no_join (normalize_chars s)"
proof (induction s)
  case (Cons c cs)
  then have c: "normal_char c" "list_all normal_char cs" and IH: "no_join (normalize_chars cs)"
    by auto
  have eq: "normalize_chars (c # cs) = c # (if IsLetter c \<and> cs \<noteq> [] \<and> IsDigit (hd cs)
      then CHR '' '' # normalize_chars cs else normalize_chars cs)"
    using c(1) normal_char_no_separator [of c] normal_char_lower [of c] normal_char_kept [of c]
    by (simp add: Let_def)
  show ?case
  proof (cases "IsLetter c \<and> cs \<noteq> [] \<and> IsDigit (hd cs)")
    case True
    then show ?thesis unfolding eq using IH by simp
  next
    case False
    then have "\<not> (IsLetter c \<and> normalize_chars cs \<noteq> [] \<and> IsDigit (hd (normalize_chars cs)))"
      using normalize_chars_hd [OF c(2)] by (cases cs) auto
    with False IH show ?thesis unfolding eq by (simp only: if_False no_join.simps) simp
  qed
qed simp

lemma dspaced_mono: "dspaced False s \<Longrightarrow> dspaced p s"
  by (cases s) auto

lemma normalize_chars_dspaced: "dspaced p s \<Longrightarrow> dspaced p (normalize_chars s)"
proof (induction s arbitrary: p)
  case (Cons c cs)
  have digit: "\<not> (IsLetter c \<and> cs \<noteq> [] \<and> IsDigit (hd cs))"
    using Cons.prems letter_not_space [of c] by (cases cs) auto
  have IH: "dspaced (IsSpace c) (normalize_chars cs)" using Cons by simp
  show ?case
  proof (cases "IsLetter c \<or> IsDigit c \<or> IsSpace c")
    case True
    then have "c \<noteq> CHR ''-'' \<and> c \<noteq> CHR ''_'' \<and> c \<noteq> CHR ''.''"
      by (auto simp: char_class_defs code_of_def)
    then show ?thesis using digit True Cons.prems IH by (simp add: Let_def del: de_Morgan_conj)
  next
    case False
    then have "dspaced False (normalize_chars cs)" using IH by simp
    then have "dspaced q (normalize_chars cs)" for q by (rule dspaced_mono)
    then show ?thesis using False by (simp add: Let_def)
  qed
qed simp

lemma dspaced_no_join: "dspaced p s \<Longrightarrow> no_join s"
proof (induction s arbitrary: p)
  case (Cons c cs)
  then show ?case using letter_not_space [of c] by (cases cs) auto
qed simp

section \<open>Fields of canonical text\<close>

lemma no_join_append:
  "no_join (xs @ ys) \<longleftrightarrow>
   no_join xs \<and> no_join ys \<and> \<not> (xs \<noteq> [] \<and> ys \<noteq> [] \<and> IsLetter (last xs) \<and> IsDigit (hd ys))"
proof (induction xs)
  case (Cons c xs)
  then show ?case by (cases xs) auto
qed simp

lemma dspaced_append:
  "dspaced p (xs @ ys) \<longleftrightarrow> dspaced p xs \<and> dspaced (if xs = [] then p else IsSpace (last xs)) ys"
  by (induction xs arbitrary: p) auto

lemma fields_aux_no_join: "no_join (rev acc @ s) \<Longrightarrow> list_all no_join (fields_aux acc s)"
proof (induction acc s rule: fields_aux.induct)
  case (2 acc c cs)
  then show ?case by (auto simp: no_join_append)
qed auto

lemma fields_aux_dspaced: "dspaced True (rev acc @ s) \<Longrightarrow> list_all (dspaced True) (fields_aux acc s)"
proof (induction acc s rule: fields_aux.induct)
  case (2 acc c cs)
  then show ?case by (auto simp: dspaced_append)
qed auto

lemma Fields_no_join: "no_join s \<Longrightarrow> list_all no_join (Fields s)"
  by (simp add: Fields_def fields_aux_no_join)

lemma Fields_dspaced: "dspaced True s \<Longrightarrow> list_all (dspaced True) (Fields s)"
  by (simp add: Fields_def fields_aux_dspaced)

lemma Join_no_join: "list_all no_join ws \<Longrightarrow> no_join (Join ws sp)"
  by (induction ws sp rule: Join.induct) (auto simp: no_join_append)

lemma Join_dspaced: "list_all (dspaced True) ws \<Longrightarrow> dspaced True (Join ws sp)"
  by (induction ws sp rule: Join.induct) (auto simp: dspaced_append dspaced_mono)

lemma digit_word_cases:
  obtains (digit) "digit_word f \<in> {''0'', ''1'', ''2'', ''3'', ''4'', ''5'', ''6'', ''7'', ''8'', ''9''}"
    | (other) "digit_word f = f" "digitWordMap f = None"
  by (cases "digitWordMap f") (auto simp: digit_word_def digitWordMap_def split: if_splits)

lemma digit_words_spaced:
  "d \<in> {''0'', ''1'', ''2'', ''3'', ''4'', ''5'', ''6'', ''7'', ''8'', ''9''} \<Longrightarrow> spaced_word d"
proof -
  assume d: "d \<in> {''0'', ''1'', ''2'', ''3'', ''4'', ''5'', ''6'', ''7'', ''8'', ''9''}"
  have "list_all spaced_word [''0'', ''1'', ''2'', ''3'', ''4'', ''5'', ''6'', ''7'', ''8'', ''9'']"
    by code_simp
  with d show ?thesis by auto
qed

lemma digit_word_canonical: "plain_word w \<Longrightarrow> no_join w \<Longrightarrow> canonical_word (digit_word w)"
  by (cases rule: digit_word_cases [of w]) (use digit_words_spaced in \<open>auto simp: word_defs\<close>)

lemma digit_word_spaced: "plain_word w \<Longrightarrow> dspaced True w \<Longrightarrow> spaced_word (digit_word w)"
  by (cases rule: digit_word_cases [of w])
    (use digit_words_spaced in \<open>auto simp: word_defs dest: dspaced_no_join\<close>)

lemma digit_word_plain: "plain_word w \<Longrightarrow> plain_word (digit_word w)"
  by (cases rule: digit_word_cases [of w]) (use digit_words_spaced in \<open>auto simp: word_defs\<close>)

lemma Join_ends:
  "list_all is_word ws \<Longrightarrow> ws \<noteq> [] \<Longrightarrow>
   Join ws sp \<noteq> [] \<and> \<not> IsSpace (hd (Join ws sp)) \<and> \<not> IsSpace (last (Join ws sp))"
proof (induction ws sp rule: Join.induct)
  case (2 x)
  then show ?case by (simp add: is_word_def list_all_iff)
next
  case (3 x y zs)
  then have "x \<noteq> []" "\<not> IsSpace (hd x)" by (simp_all add: is_word_def list_all_iff)
  with 3 show ?case by simp
qed simp

lemma TrimSpace_id: "s = [] \<or> \<not> IsSpace (hd s) \<and> \<not> IsSpace (last s) \<Longrightarrow> TrimSpace s = s"
proof (cases s rule: rev_cases)
  case (snoc ys y)
  assume "s = [] \<or> \<not> IsSpace (hd s) \<and> \<not> IsSpace (last s)"
  with snoc have "dropWhile IsSpace s = s" "dropWhile IsSpace (rev s) = rev s"
    by (cases ys; simp)+
  then show ?thesis by (simp add: TrimSpace_def)
qed (simp add: TrimSpace_def)

lemma TrimSpace_Join: "list_all is_word ws \<Longrightarrow> TrimSpace (Join ws sp) = Join ws sp"
  using Join_ends [of ws] by (intro TrimSpace_id) (cases "ws = []"; auto)

lemma Fields_normal: "list_all normal_char s \<Longrightarrow> list_all plain_word (Fields s)"
  using Fields_chars [of normal_char s] Fields_words [of s] by (auto simp: plain_word_def list_all_iff)

definition cut_bar :: "string \<Rightarrow> string" where
  "cut_bar s = fst (Cut s ''|'')"

lemma Normalize_eq:
  "Normalize s = Join (map digit_word (Fields (normalize_chars (cut_bar s)))) sp"
proof -
  let ?ws = "map digit_word (Fields (normalize_chars (cut_bar s)))"
  have "list_all plain_word ?ws"
    using Fields_normal [OF normalize_chars_normal, of "cut_bar s"]
    by (auto simp: list_all_iff digit_word_plain)
  then have "list_all is_word ?ws" by (auto simp: list_all_iff plain_word_def)
  then have "TrimSpace (Join ?ws sp) = Join ?ws sp" by (rule TrimSpace_Join)
  then show ?thesis by (auto simp: Normalize_def cut_bar_def Let_def DigitWords_def split: prod.splits)
qed

lemma Index_absent: "list_all (\<lambda>d. d \<noteq> c) s \<Longrightarrow> Index s [c] = None"
  by (induction s) (auto simp: HasPrefix_def)

lemma cut_bar_normal: "list_all normal_char s \<Longrightarrow> cut_bar s = s"
proof -
  assume "list_all normal_char s"
  then have "list_all (\<lambda>d. d \<noteq> CHR ''|'') s"
    by (rule list_all_mp) (use normal_char_no_separator in blast)
  then show ?thesis by (simp add: cut_bar_def Cut_def Index_absent)
qed

lemma text_normal: "text_of P s \<Longrightarrow> (\<And>w. P w \<Longrightarrow> plain_word w) \<Longrightarrow> list_all normal_char s"
proof -
  assume t: "text_of P s" and P: "\<And>w. P w \<Longrightarrow> plain_word w"
  have "list_all (list_all normal_char) (Fields s)"
    using t P by (auto simp: text_of_def list_all_iff plain_word_def)
  then have "list_all normal_char (Join (Fields s) sp)"
    by (rule list_all_Join) (simp add: normal_char_def)
  then show ?thesis using t by (simp add: text_of_def)
qed

text \<open>Every result is plain text; on plain text the result is canonical, and fixed.\<close>

lemma Normalize_plain: "text_of plain_word (Normalize s)"
  unfolding Normalize_eq
proof -
  have "list_all plain_word (map digit_word (Fields (normalize_chars (cut_bar s))))"
    using Fields_normal [OF normalize_chars_normal, of "cut_bar s"]
    by (auto simp: list_all_iff digit_word_plain)
  then show "text_of plain_word (Join (map digit_word (Fields (normalize_chars (cut_bar s)))) sp)"
    by (intro text_of_Join) (auto simp: list_all_iff plain_word_def)
qed

lemma Normalize_canonical: "text_of plain_word s \<Longrightarrow> text_of canonical_word (Normalize s)"
proof -
  assume "text_of plain_word s"
  then have s: "list_all normal_char s" by (rule text_normal)
  have "list_all no_join (Fields (normalize_chars s))"
    using normalize_chars_no_join [OF s] by (rule Fields_no_join)
  moreover have "list_all plain_word (Fields (normalize_chars s))"
    by (rule Fields_normal [OF normalize_chars_normal])
  ultimately have "list_all canonical_word (map digit_word (Fields (normalize_chars s)))"
    by (auto simp: list_all_iff digit_word_canonical)
  then show ?thesis unfolding Normalize_eq cut_bar_normal [OF s]
    by (intro text_of_Join) (auto simp: list_all_iff word_defs)
qed

lemma canonical_digit_word: "canonical_word w \<Longrightarrow> digit_word w = w"
  by (simp add: canonical_word_def digit_word_def)

lemma Normalize_fixed: "text_of canonical_word s \<Longrightarrow> Normalize s = s"
proof -
  assume t: "text_of canonical_word s"
  then have s: "list_all normal_char s" by (rule text_normal) (simp add: canonical_word_def)
  have "no_join (Join (Fields s) sp)"
    by (rule Join_no_join) (use t in \<open>auto simp: text_of_def list_all_iff canonical_word_def\<close>)
  then have "normalize_chars s = s"
    using t s by (simp add: text_of_def normalize_chars_id)
  moreover have "map digit_word (Fields s) = Fields s"
    using t by (auto simp: text_of_def list_all_iff canonical_digit_word intro: map_idI)
  ultimately show ?thesis using t by (simp add: Normalize_eq cut_bar_normal [OF s] text_of_def)
qed

section \<open>Spaced digits\<close>

lemma space_digits_dspaced: "dspaced p (space_digits s)"
  by (induction s arbitrary: p) (auto intro: dspaced_mono)

lemma dspaced_take: "dspaced p s \<Longrightarrow> dspaced p (take n s)"
  by (metis append_take_drop_id dspaced_append)

lemma cut_bar_take: "\<exists>n. cut_bar s = take n s"
  by (auto simp: cut_bar_def Cut_def split: option.splits intro: exI [of _ "length s"])

lemma SpaceDigits_spaced: "text_of spaced_word (SpaceDigits s)"
proof -
  obtain n where n: "cut_bar (space_digits s) = take n (space_digits s)"
    using cut_bar_take by blast
  let ?t = "normalize_chars (cut_bar (space_digits s))"
  have "dspaced True ?t"
    unfolding n by (intro normalize_chars_dspaced dspaced_take space_digits_dspaced)
  then have "list_all (dspaced True) (Fields ?t)" by (rule Fields_dspaced)
  moreover have "list_all plain_word (Fields ?t)"
    by (rule Fields_normal [OF normalize_chars_normal])
  ultimately have "list_all spaced_word (map digit_word (Fields ?t))"
    by (auto simp: list_all_iff digit_word_spaced)
  then show ?thesis unfolding SpaceDigits_def Normalize_eq
    by (intro text_of_Join) (auto simp: list_all_iff word_defs)
qed

lemma fields_aux_space_digits:
  "dspaced p s \<Longrightarrow> (p \<longleftrightarrow> acc = []) \<Longrightarrow> fields_aux acc (space_digits s) = fields_aux acc s"
proof (induction s arbitrary: p acc)
  case (Cons c cs)
  show ?case
  proof (cases "IsSpace c")
    case True
    then show ?thesis using Cons.IH [of True "[]"] Cons.prems digit_not_space [of c] by auto
  next
    case False
    then show ?thesis using Cons.IH [of False "c # acc"] Cons.prems by auto
  qed
qed simp

lemma space_digits_normal: "list_all normal_char s \<Longrightarrow> list_all normal_char (space_digits s)"
  by (induction s) (auto simp: normal_char_def)

lemma SpaceDigits_fixed: "text_of spaced_word s \<Longrightarrow> SpaceDigits s = s"
proof -
  assume t: "text_of spaced_word s"
  then have s: "list_all normal_char s" by (rule text_normal) (simp add: word_defs)
  have "dspaced True (Join (Fields s) sp)"
    by (rule Join_dspaced) (use t in \<open>auto simp: text_of_def list_all_iff spaced_word_def\<close>)
  then have d: "dspaced True s" using t by (simp add: text_of_def)
  let ?s = "space_digits s"
  have "normalize_chars ?s = ?s"
    by (intro normalize_chars_id space_digits_normal s dspaced_no_join [OF space_digits_dspaced])
  moreover have "Fields ?s = Fields s"
    unfolding Fields_def by (rule fields_aux_space_digits [OF d]) simp
  moreover have "map digit_word (Fields s) = Fields s"
    using t by (auto simp: text_of_def list_all_iff canonical_digit_word spaced_word_def intro: map_idI)
  ultimately show ?thesis
    using t by (simp add: SpaceDigits_def Normalize_eq cut_bar_normal [OF space_digits_normal [OF s]] text_of_def)
qed

section \<open>The shape of a callsign\<close>

lemma fields_aux_append_space:
  "IsSpace c \<Longrightarrow> fields_aux acc (a @ c # b) = fields_aux acc a @ Fields b"
  by (induction acc a rule: fields_aux.induct) (auto simp: Fields_def)

lemma Fields_append_space: "Fields (a @ CHR '' '' # b) = Fields a @ Fields b"
  by (simp add: Fields_def fields_aux_append_space)

lemma Join_append:
  "xs \<noteq> [] \<Longrightarrow> ys \<noteq> [] \<Longrightarrow> Join (xs @ ys) sep = Join xs sep @ sep @ Join ys sep"
  by (induction xs sep rule: Join.induct) (auto simp: Join_Cons)

lemma concat_fields_aux: "concat (fields_aux acc s) = rev acc @ filter (\<lambda>c. \<not> IsSpace c) s"
  by (induction acc s rule: fields_aux.induct) auto

lemma space_digits_append: "space_digits (a @ b) = space_digits a @ space_digits b"
  by (induction a) auto

lemma space_digits_none: "list_all (\<lambda>c. \<not> IsDigit c) w \<Longrightarrow> space_digits w = w"
  by (induction w) auto

lemma fields_aux_space_digits_number:
  "list_all IsDigit w \<Longrightarrow>
   fields_aux acc (space_digits w) = (if acc = [] then [] else [rev acc]) @ map (\<lambda>c. [c]) w"
  by (induction w arbitrary: acc) (auto simp: digit_not_space)

lemma Fields_space_digits_number: "list_all IsDigit w \<Longrightarrow> Fields (space_digits w) = map (\<lambda>c. [c]) w"
  by (simp add: Fields_def fields_aux_space_digits_number)

lemma Fields_space_digits_Join:
  "Fields (space_digits (Join ws sp)) = concat (map (\<lambda>w. Fields (space_digits w)) ws)"
  by (induction ws sp rule: Join.induct) (auto simp: space_digits_append Fields_append_space)

lemma callsign_chars_name:
  "list_all (\<lambda>c. \<not> IsDigit c) p \<Longrightarrow> callsign_chars 0 (p @ s) = p @ callsign_chars 0 s"
  by (induction p) (auto simp: maxCallsignDigits_def)

lemma callsign_chars_number:
  "0 < n \<Longrightarrow> list_all (\<lambda>c. IsDigit c \<or> IsSpace c) (callsign_chars n s) \<and>
   length (filter IsDigit (callsign_chars n s)) \<le> maxCallsignDigits - n"
  by (induction n s rule: callsign_chars.induct) (auto simp: Let_def)

lemma strip_suffixes_hd: "s \<noteq> [] \<Longrightarrow> strip_suffixes xs s \<noteq> [] \<and> hd (strip_suffixes xs s) = hd s"
  by (induction xs s rule: strip_suffixes.induct) (auto simp: Let_def)

lemma homophone_digit:
  "digitHomophones f = Some d \<Longrightarrow> d \<noteq> [] \<and> IsDigit (hd d)"
  by (auto simp: digitHomophones_def IsDigit_def code_of_def split: if_splits)

lemma dspaced_tail: "dspaced p w \<Longrightarrow> list_all (\<lambda>c. \<not> IsSpace c) w \<Longrightarrow> list_all (\<lambda>c. \<not> IsDigit c) (tl w)"
proof (induction w arbitrary: p)
  case (Cons c cs)
  then show ?case by (cases cs) force+
qed simp

lemma spaced_word_digit: "spaced_word w \<Longrightarrow> HasDigits w \<Longrightarrow> IsDigit (hd w)"
  using dspaced_tail [of True w]
  by (cases w) (auto simp: word_defs is_word_def HasDigits_def list_ex_iff list_all_iff)

text \<open>The first word of the numeric part starts with a digit after the replacement.\<close>

lemma first_number_digit:
  assumes "spaced_word w" "HasDigits w \<or> digitHomophones w \<noteq> None"
  shows "stripOrdinalSuffix (homophone w) \<noteq> [] \<and> IsDigit (hd (stripOrdinalSuffix (homophone w)))"
proof -
  have "homophone w \<noteq> [] \<and> IsDigit (hd (homophone w))"
    using assms spaced_word_digit [of w] homophone_digit [of w]
    by (cases "digitHomophones w") (auto simp: homophone_def word_defs is_word_def)
  then show ?thesis by (simp add: stripOrdinalSuffix_def strip_suffixes_hd del: strip_suffixes.simps)
qed

lemma ReplaceAll_absent: "Index s old = None \<Longrightarrow> ReplaceAll s old new = s"
  by (induction s old new rule: ReplaceAll.induct) (auto split: if_splits)

text \<open>Normalizing a name without digits followed by a run of digits and spaces.\<close>

definition name_word :: "string \<Rightarrow> bool" where
  "name_word w \<longleftrightarrow> canonical_word w \<and> \<not> HasDigits w"

lemma name_word_plain: "name_word w \<Longrightarrow> plain_word w"
  by (simp add: name_word_def canonical_word_def)

lemma name_words_text:
  assumes "list_all name_word name"
  shows "list_all is_word name" "list_all normal_char (Join name sp)"
    "list_all (\<lambda>c. \<not> IsDigit c) (Join name sp)" "no_join (Join name sp)"
proof -
  show "list_all is_word name" using assms by (auto simp: list_all_iff name_word_def word_defs)
  show "list_all normal_char (Join name sp)"
    by (rule list_all_Join) (use assms in \<open>auto simp: list_all_iff name_word_def word_defs\<close>)
  show "list_all (\<lambda>c. \<not> IsDigit c) (Join name sp)"
    by (rule list_all_Join)
      (use assms in \<open>auto simp: list_all_iff name_word_def HasDigits_def list_ex_iff\<close>)
  show "no_join (Join name sp)"
    by (rule Join_no_join) (use assms in \<open>auto simp: list_all_iff name_word_def word_defs\<close>)
qed

lemma number_words:
  assumes "list_all (\<lambda>c. IsDigit c \<or> IsSpace c) r"
  shows "list_all (list_all IsDigit) (Fields r)" "no_join r" "list_all normal_char r"
    "concat (Fields r) = filter IsDigit r"
proof -
  show "list_all (list_all IsDigit) (Fields r)"
    using Fields_chars [OF assms] Fields_words [of r] by (auto simp: list_all_iff is_word_def)
  show "no_join r"
    using assms
  proof (induction r)
    case (Cons c cs)
    then show ?case using letter_not_digit [of c] letter_not_space [of c] by auto
  qed simp
  show "list_all normal_char r" using assms by (auto simp: list_all_iff normal_char_def)
  have "filter (\<lambda>c. \<not> IsSpace c) r = filter IsDigit r"
    using assms by (induction r) (auto simp: digit_not_space)
  then show "concat (Fields r) = filter IsDigit r" by (simp add: Fields_def concat_fields_aux)
qed

lemma digit_word_number: "list_all IsDigit w \<Longrightarrow> digit_word w = w"
proof (rule ccontr)
  assume d: "list_all IsDigit w" and n: "digit_word w \<noteq> w"
  then obtain v where "digitWordMap w = Some v" by (auto simp: digit_word_def split: option.splits)
  then have "w \<noteq> [] \<and> \<not> IsDigit (hd w)"
    by (auto simp: digitWordMap_def IsDigit_def code_of_def split: if_splits)
  with d show False by (cases w) auto
qed

lemma digit_word_name: "name_word w \<Longrightarrow> digit_word w = w"
  by (simp add: name_word_def canonical_digit_word)

lemma Normalize_of_normal:
  "list_all normal_char s \<Longrightarrow> no_join s \<Longrightarrow> Normalize s = Join (map digit_word (Fields s)) sp"
  by (simp add: Normalize_eq cut_bar_normal normalize_chars_id)

lemma SpaceDigits_Normalize_callsign:
  assumes name: "list_all name_word name" and r: "list_all (\<lambda>c. IsDigit c \<or> IsSpace c) r"
    and b: "b = (if name = [] then r else Join name sp @ CHR '' '' # r)"
  shows "SpaceDigits (Normalize b) = Join (name @ map (\<lambda>c. [c]) (filter IsDigit r)) sp"
proof -
  note nt = name_words_text [OF name] and rt = number_words [OF r]
  have b_ok: "list_all normal_char b" "no_join b" using nt rt b by (auto simp: no_join_append)
  have Fb: "Fields b = name @ Fields r" using nt(1) by (simp add: b Fields_append_space Fields_Join)
  let ?ws = "name @ Fields r"
  have dw: "map digit_word ?ws = ?ws"
    using name rt(1) by (auto simp: list_all_iff digit_word_name digit_word_number intro!: map_idI)
  have m: "Normalize b = Join ?ws sp"
    by (simp only: Normalize_of_normal [OF b_ok] Fb dw)
  let ?s = "space_digits (Join ?ws sp)"
  have "list_all (list_all normal_char) ?ws"
    using name rt(1) by (auto simp: list_all_iff name_word_def word_defs normal_char_def)
  then have n: "list_all normal_char ?s"
    by (intro space_digits_normal list_all_Join) auto
  have "Fields ?s = name @ map (\<lambda>c. [c]) (concat (Fields r))"
  proof -
    have "map (\<lambda>w. Fields (space_digits w)) name = map (\<lambda>w. [w]) name"
      by (rule map_cong [OF refl])
        (use name in \<open>auto simp: list_all_iff name_word_def word_defs HasDigits_def list_ex_iff
          space_digits_none Fields_word\<close>)
    moreover have "map (\<lambda>w. Fields (space_digits w)) (Fields r) = map (map (\<lambda>c. [c])) (Fields r)"
      using rt(1) by (auto simp: list_all_iff Fields_space_digits_number)
    ultimately show ?thesis
      by (simp only: Fields_space_digits_Join map_append concat_append map_concat) simp
  qed
  then have F: "Fields ?s = name @ map (\<lambda>c. [c]) (filter IsDigit r)" by (simp only: rt(4))
  have "map digit_word (Fields ?s) = Fields ?s"
    unfolding F using name
    by (auto simp: list_all_iff digit_word_name digit_word_number intro!: map_idI)
  then show ?thesis
    unfolding m SpaceDigits_def Normalize_of_normal [OF n dspaced_no_join [OF space_digits_dspaced]]
    by (simp only: F)
qed

lemma HasDigits_strip: "spaced_word w \<Longrightarrow> \<not> HasDigits w \<Longrightarrow> name_word w"
  by (simp add: name_word_def spaced_word_def)

lemma callsign_body_shape:
  assumes "text_of spaced_word t"
  shows "\<exists>name r. list_all name_word name \<and> list_all (\<lambda>c. IsDigit c \<or> IsSpace c) r \<and>
    length (filter IsDigit r) \<le> maxCallsignDigits \<and>
    SpaceDigits (Normalize (callsign_chars 0 (replaceDigitHomophones t))) =
      Join (name @ map (\<lambda>c. [c]) (filter IsDigit r)) sp"
proof -
  let ?p = "\<lambda>f. \<not> (HasDigits f \<or> digitHomophones f \<noteq> None)"
  define name where "name = takeWhile ?p (Fields t)"
  define rest where "rest = dropWhile ?p (Fields t)"
  have split: "Fields t = name @ rest" by (simp add: name_def rest_def)
  have spaced: "list_all spaced_word (Fields t)" using assms by (simp add: text_of_def)
  have name: "list_all name_word name"
    using spaced unfolding name_def list_all_iff
    by (auto dest!: set_takeWhileD simp: HasDigits_strip)
  note nt = name_words_text [OF name]
  have dr: "drop (length name) (Fields t) = rest" by (simp add: split)
  have rep: "replaceDigitHomophones t =
      (if rest = [] then t else Join (name @ map (stripOrdinalSuffix \<circ> homophone) rest) sp)"
    by (simp only: replaceDigitHomophones_def Let_def name_def [symmetric] dr)
  show ?thesis
  proof (cases rest)
    case Nil
    then have "Fields t = name" using split by simp
    then have t: "t = Join name sp" using assms by (simp add: text_of_def)
    have "callsign_chars 0 (replaceDigitHomophones t) = t"
      using callsign_chars_name [OF nt(3), of "[]"] Nil rep by (simp add: t [symmetric])
    moreover have "SpaceDigits (Normalize t) = t"
    proof -
      have "text_of canonical_word t"
        using assms by (rule text_of_mono) (simp add: spaced_word_def)
      then show ?thesis using assms by (simp add: Normalize_fixed SpaceDigits_fixed)
    qed
    ultimately show ?thesis using name t by (intro exI [of _ name] exI [of _ "[]"]) simp
  next
    case (Cons w ws)
    let ?f = "stripOrdinalSuffix \<circ> homophone"
    have "spaced_word w" using spaced split Cons by simp
    have ne: "dropWhile ?p (Fields t) \<noteq> []" using Cons by (simp only: rest_def) simp
    have "\<not> ?p w" using hd_dropWhile [OF ne] unfolding rest_def [symmetric] Cons list.sel .
    then have w: "spaced_word w" "HasDigits w \<or> digitHomophones w \<noteq> None"
      using \<open>spaced_word w\<close> by blast+
    from first_number_digit [OF w] obtain d ds where fw: "?f w = d # ds" "IsDigit d"
      by (cases "?f w") auto
    obtain es where es: "Join (map ?f rest) sp = d # es"
      using fw Cons by (cases ws) auto
    define r where "r = callsign_chars 0 (d # es)"
    have r_eq: "r = d # callsign_chars 1 es" using fw by (simp add: r_def maxCallsignDigits_def)
    have r: "list_all (\<lambda>c. IsDigit c \<or> IsSpace c) r" "length (filter IsDigit r) \<le> maxCallsignDigits"
      using callsign_chars_number [of 1 es] fw by (auto simp: r_eq maxCallsignDigits_def)
    have rep: "replaceDigitHomophones t = Join (name @ map ?f rest) sp"
      using Cons rep by simp
    have b: "callsign_chars 0 (replaceDigitHomophones t) =
        (if name = [] then r else Join name sp @ CHR '' '' # r)"
    proof (cases "name = []")
      case True
      then show ?thesis using rep es by (simp add: r_def)
    next
      case False
      then have "replaceDigitHomophones t = (Join name sp @ sp) @ d # es"
        using rep es Cons by (simp add: Join_append)
      moreover have "list_all (\<lambda>c. \<not> IsDigit c) (Join name sp @ sp)" using nt(3) by simp
      ultimately show ?thesis using False callsign_chars_name [of "Join name sp @ sp" "d # es"]
        by (simp add: r_def)
    qed
    show ?thesis
      using SpaceDigits_Normalize_callsign [OF name r(1) b] name r by blast
  qed
qed

text \<open>Text normalization settles after two passes: normalizing twice gives a fixed point of
  \<open>Normalize\<close>, whatever the input (one pass is not enough: removing punctuation can put a
  letter next to a digit).\<close>

theorem Normalize_settles: "Normalize (Normalize (Normalize s)) = Normalize (Normalize s)"
  by (rule Normalize_fixed [OF Normalize_canonical [OF Normalize_plain]])

text \<open>\<open>SpaceDigits\<close> is idempotent, and its result is single-spaced words of lower-case
  letters and digits in which every digit starts a word.\<close>

theorem SpaceDigits_idem:
  "SpaceDigits (SpaceDigits s) = SpaceDigits s \<and> text_of spaced_word (SpaceDigits s)"
  using SpaceDigits_spaced [of s] SpaceDigits_fixed by blast

text \<open>Whatever is transcribed, a callsign reported as valid is non-empty canonical text
  with every digit a word of its own: normalizing or spacing it again changes nothing.\<close>

theorem ParsePilotCallsign_canonical:
  assumes "ParsePilotCallsign tx = (callsign, True)"
  shows "callsign \<noteq> [] \<and> Normalize callsign = callsign \<and> SpaceDigits callsign = callsign"
proof -
  from assms have c: "callsign \<noteq> []" "callsign = SpaceDigits (Normalize (callsign_chars 0 (callsign_text tx)))"
    by (auto simp: ParsePilotCallsign_def Let_def split: if_splits)
  then have s: "text_of spaced_word callsign" by (simp add: SpaceDigits_spaced)
  then have "text_of canonical_word callsign" by (rule text_of_mono) (simp add: spaced_word_def)
  with c(1) s show ?thesis by (simp add: Normalize_fixed SpaceDigits_fixed)
qed

theorem ParsePilotCallsign_canonical_witness:
  "ParsePilotCallsign ''[49th] Hitman1-1 request'' = (''hitman 1 1'', True) \<and>
   SpaceDigits ''hitman 1 1'' = ''hitman 1 1''"
proof -
  have a: "ParsePilotCallsign ''[49th] Hitman1-1 request'' = (''hitman 1 1'', True)" by code_simp
  show ?thesis using a ParsePilotCallsign_canonical [OF a] by blast
qed

text \<open>A callsign parsed from a text in which neither \<open>this is\<close> nor \<open>request\<close> occurs is a
  name of words without digits followed by at most three words of one digit each; it is
  reported as valid exactly when it is not empty.\<close>

theorem ParsePilotCallsign_shape:
  assumes "t = SpaceDigits (Normalize (removeClanTags tx))"
    "\<not> Contains t ''this is''" "\<not> Contains t ''request''"
  shows "\<exists>name digits. fst (ParsePilotCallsign tx) = Join (name @ map (\<lambda>d. [d]) digits) sp \<and>
    list_all name_word name \<and> list_all IsDigit digits \<and> length digits \<le> maxCallsignDigits \<and>
    (snd (ParsePilotCallsign tx) \<longleftrightarrow> fst (ParsePilotCallsign tx) \<noteq> [])"
proof -
  have "callsign_text tx = replaceDigitHomophones t"
    using assms by (simp add: callsign_text_def Let_def Contains_def ReplaceAll_absent)
  moreover have "text_of spaced_word t" using assms(1) by (simp add: SpaceDigits_spaced)
  ultimately obtain name r where *: "list_all name_word name" "length (filter IsDigit r) \<le> maxCallsignDigits"
      "fst (ParsePilotCallsign tx) = Join (name @ map (\<lambda>c. [c]) (filter IsDigit r)) sp"
    using callsign_body_shape [of t] by (auto simp: ParsePilotCallsign_def Let_def)
  have "list_all IsDigit (filter IsDigit r)" by (simp add: list_all_iff)
  moreover have "snd (ParsePilotCallsign tx) \<longleftrightarrow> fst (ParsePilotCallsign tx) \<noteq> []"
    by (simp add: ParsePilotCallsign_def Let_def)
  ultimately show ?thesis using * by blast
qed

theorem ParsePilotCallsign_shape_witness:
  "\<exists>name digits. fst (ParsePilotCallsign ''mobius one niner 1st 7 five'') =
     Join (name @ map (\<lambda>d. [d]) digits) sp \<and> list_all name_word name \<and>
     list_all IsDigit digits \<and> length digits \<le> maxCallsignDigits"
proof -
  have e: "SpaceDigits (Normalize (removeClanTags ''mobius one niner 1st 7 five'')) = ''mobius 1 niner 1st 7 5''"
    "\<not> Contains ''mobius 1 niner 1st 7 5'' ''this is''" "\<not> Contains ''mobius 1 niner 1st 7 5'' ''request''"
    by code_simp+
  show ?thesis using ParsePilotCallsign_shape [OF e(1) [symmetric] e(2, 3)] by blast
qed

text \<open>The limit of three digits does not hold for every text: deleting \<open>this is\<close> can join two
  halves into the name of a digit, which the last pass turns into a fourth digit.\<close>

theorem ParsePilotCallsign_fourth_digit:
  "ParsePilotCallsign ''othis isne 234'' = (''1 2 3 4'', True)"
  by code_simp

end
