(* ===== verification/Store.thy ===== *)
theory Store
  imports Prelude "HOL-Library.AList"
begin

text \<open>
  The contract of a keyed table, which several components rely on (the peers of the radio
  client, the trackfiles of the radar, the cooldowns and merges of the controller), and Go's
  built-in map as an association list with distinct keys, the provider of that contract.
\<close>

section \<open>The contract\<close>

locale keyed_store =
  fixes get :: "'s \<Rightarrow> 'k \<Rightarrow> 'v option"
    and put :: "'k \<Rightarrow> 'v \<Rightarrow> 's \<Rightarrow> 's"
    and del :: "'k \<Rightarrow> 's \<Rightarrow> 's"
    and ok :: "'s \<Rightarrow> bool"
  assumes get_put: "ok s \<Longrightarrow> get (put k v s) k' = (if k' = k then Some v else get s k')"
    and get_del: "ok s \<Longrightarrow> get (del k s) k' = (if k' = k then None else get s k')"
    and ok_put: "ok s \<Longrightarrow> ok (put k v s)"
    and ok_del: "ok s \<Longrightarrow> ok (del k s)"
begin

lemma del_put_get: "ok s \<Longrightarrow> get (del k (put k v s)) k' = get (del k s) k'"
  by (simp add: get_put get_del ok_put)

lemma put_put_get: "ok s \<Longrightarrow> get (put k v (put k w s)) k' = get (put k v s) k'"
  by (simp add: get_put ok_put)

lemma put_commute_get:
  "ok s \<Longrightarrow> k \<noteq> l \<Longrightarrow> get (put k v (put l w s)) k' = get (put l w (put k v s)) k'"
  by (simp add: get_put ok_put)

text \<open>Every stored value satisfies what every put value satisfies.\<close>

definition holds :: "('k \<Rightarrow> 'v \<Rightarrow> bool) \<Rightarrow> 's \<Rightarrow> bool" where
  "holds P s \<longleftrightarrow> (\<forall>k v. get s k = Some v \<longrightarrow> P k v)"

lemma holds_put: "ok s \<Longrightarrow> holds P s \<Longrightarrow> P k v \<Longrightarrow> holds P (put k v s)"
  by (auto simp: holds_def get_put)

lemma holds_del: "ok s \<Longrightarrow> holds P s \<Longrightarrow> holds P (del k s)"
  by (auto simp: holds_def get_del)

lemma holds_get: "holds P s \<Longrightarrow> get s k = Some v \<Longrightarrow> P k v"
  by (simp add: holds_def)

lemma ok_fold_del: "ok s \<Longrightarrow> ok (fold del ks s)"
  by (induction ks arbitrary: s) (simp_all add: ok_del)

lemma get_fold_del: "ok s \<Longrightarrow> get (fold del ks s) k = (if k \<in> set ks then None else get s k)"
  by (induction ks arbitrary: s) (simp_all add: get_del ok_del)

end

text \<open>A store whose entries can also be listed, each key once.\<close>

locale listed_store = keyed_store get put del ok
  for get :: "'s \<Rightarrow> 'k \<Rightarrow> 'v option" and put del ok +
  fixes items :: "'s \<Rightarrow> ('k \<times> 'v) list"
  assumes items_get: "ok s \<Longrightarrow> (k, v) \<in> set (items s) \<longleftrightarrow> get s k = Some v"
    and items_distinct: "ok s \<Longrightarrow> distinct (map fst (items s))"
begin

lemma items_holds: "ok s \<Longrightarrow> holds P s \<Longrightarrow> \<forall>(k, v) \<in> set (items s). P k v"
  by (auto simp: items_get holds_def)

lemma item_unique: "ok s \<Longrightarrow> (k, v) \<in> set (items s) \<Longrightarrow> (k, w) \<in> set (items s) \<Longrightarrow> v = w"
  by (simp add: items_get)

end

section \<open>Go maps\<close>

type_synonym ('k, 'v) gomap = "('k \<times> 'v) list"

definition gomap_ok :: "('k, 'v) gomap \<Rightarrow> bool" where
  "gomap_ok m \<longleftrightarrow> distinct (map fst m)"

lemma gomap_ok_Nil [simp]: "gomap_ok []"
  by (simp add: gomap_ok_def)

interpretation gomap: listed_store map_of AList.update AList.delete gomap_ok "\<lambda>m. m"
  by unfold_locales
    (auto simp: gomap_ok_def update_conv' delete_conv' distinct_update distinct_delete)

lemma map_of_update: "map_of (AList.update k v m) = (map_of m)(k \<mapsto> v)"
  by (simp add: update_conv')

lemma map_of_delete: "map_of (AList.delete k m) = (map_of m)(k := None)"
  by (simp add: delete_conv')

lemma gomap_ok_map_values: "gomap_ok (map (\<lambda>(k, v). (k, f k v)) m) = gomap_ok m"
  by (simp add: gomap_ok_def case_prod_beta comp_def)

lemma gomap_ok_filter: "gomap_ok m \<Longrightarrow> gomap_ok (filter P m)"
  by (simp add: gomap_ok_def distinct_map_filter)

end
