(* ===== verification/Contacts.thy ===== *)
theory Contacts
  imports Trackfile Normalize Store "HOL-Library.Multiset"
begin

text \<open>
  The contact database (\<open>pkg/radar/contacts.go\<close>, \<open>pkg/radar/uid.go\<close>): trackfiles by unit ID and,
  per coalition, an index of unit IDs by raw name. The fuzzy search of \<open>go-edlib\<close> is the parameter
  \<open>fuzzy\<close>. A write into the index of an unknown coalition is a write to a nil map, which panics.
\<close>

record contactDatabase =
  contacts :: "(u64, Trackfile) gomap"
  callsignIdx :: "(Coalition, (string, u64) gomap) gomap"

abbreviation tf_ID :: "Trackfile \<Rightarrow> u64" where "tf_ID t \<equiv> label_ID (Contact t)"
abbreviation tf_Name :: "Trackfile \<Rightarrow> string" where "tf_Name t \<equiv> label_Name (Contact t)"
abbreviation tf_Coalition :: "Trackfile \<Rightarrow> Coalition" where "tf_Coalition t \<equiv> label_Coalition (Contact t)"

definition CallsignSimilarityThreshold :: real where
  "CallsignSimilarityThreshold = 63 / 100"

definition db_reset :: contactDatabase where
  "db_reset = \<lparr>contacts = [], callsignIdx = [(Blue, []), (Red, []), (Neutrals, [])]\<rparr>"

definition newContactDatabase :: contactDatabase where
  "newContactDatabase = db_reset"

text \<open>Reading the index of an unknown coalition reads a nil map, which is empty.\<close>

definition coalition_index :: "contactDatabase \<Rightarrow> Coalition \<Rightarrow> (string, u64) gomap" where
  "coalition_index db c = (case map_of (callsignIdx db) c of Some idx \<Rightarrow> idx | None \<Rightarrow> [])"

definition index_key :: "string \<Rightarrow> string" where
  "index_key rawName = (let (parsed, ok) = ParsePilotCallsign rawName in if ok then parsed else rawName)"

text \<open>The index with normalized names; the list is the order in which the map is ranged over, so
  that of two names with one normal form the later one wins.\<close>

definition normalized_index :: "(string, u64) gomap \<Rightarrow> (string, u64) gomap" where
  "normalized_index idx = fold (\<lambda>(rawName, uid) m. AList.update (index_key rawName) uid m) idx []"

type_synonym fuzzy_search = "string \<Rightarrow> string list \<Rightarrow> real \<Rightarrow> string + string"

text \<open>What the search documents: it finds one of the names, or nothing, which is the empty text.\<close>

definition fuzzy_ok :: "fuzzy_search \<Rightarrow> bool" where
  "fuzzy_ok fuzzy \<longleftrightarrow> (\<forall>s names t found. fuzzy s names t = Inr found \<longrightarrow> found = [] \<or> found \<in> set names)"

definition getByCallsignAndCoalititon ::
    "fuzzy_search \<Rightarrow> string \<Rightarrow> Coalition \<Rightarrow> contactDatabase \<Rightarrow> (string \<times> Trackfile) option" where
  "getByCallsignAndCoalititon fuzzy callsign coalition db =
     (let normalized = normalized_index (coalition_index db coalition);
          found = (case map_of normalized callsign of
              Some uid \<Rightarrow> Some (callsign, uid)
            | None \<Rightarrow>
                (case fuzzy callsign (map fst normalized) CallsignSimilarityThreshold of
                   Inl err \<Rightarrow> None
                 | Inr foundCallsign \<Rightarrow>
                     if foundCallsign = [] then None
                     else Some (foundCallsign,
                       case map_of normalized foundCallsign of Some uid \<Rightarrow> uid | None \<Rightarrow> 0)))
      in case found of
           None \<Rightarrow> None
         | Some (foundCallsign, uid) \<Rightarrow> map_option (Pair foundCallsign) (map_of (contacts db) uid))"

definition getByID :: "u64 \<Rightarrow> contactDatabase \<Rightarrow> Trackfile option" where
  "getByID uid db = map_of (contacts db) uid"

definition db_set :: "Trackfile \<Rightarrow> contactDatabase \<Rightarrow> contactDatabase option" where
  "db_set t db =
     (case map_of (callsignIdx db) (tf_Coalition t) of
        None \<Rightarrow> None
      | Some idx \<Rightarrow> Some (db\<lparr>
          callsignIdx := AList.update (tf_Coalition t) (AList.update (tf_Name t) (tf_ID t) idx) (callsignIdx db),
          contacts := AList.update (tf_ID t) t (contacts db)\<rparr>))"

text \<open>Deleting from the index of an unknown coalition does nothing.\<close>

definition db_delete :: "u64 \<Rightarrow> contactDatabase \<Rightarrow> contactDatabase \<times> bool" where
  "db_delete uid db =
     (case map_of (contacts db) uid of
        None \<Rightarrow> (db\<lparr>contacts := AList.delete uid (contacts db)\<rparr>, False)
      | Some t \<Rightarrow> (db\<lparr>
          callsignIdx := (case map_of (callsignIdx db) (tf_Coalition t) of
              Some idx \<Rightarrow> AList.update (tf_Coalition t) (AList.delete (tf_Name t) idx) (callsignIdx db)
            | None \<Rightarrow> callsignIdx db),
          contacts := AList.delete uid (contacts db)\<rparr>, True))"

text \<open>The trackfiles are pointers: a method call on one changes the database entry in place.\<close>

definition db_modify :: "u64 \<Rightarrow> (Trackfile \<Rightarrow> Trackfile) \<Rightarrow> contactDatabase \<Rightarrow> contactDatabase" where
  "db_modify uid f db = (case map_of (contacts db) uid of
     Some t \<Rightarrow> db\<lparr>contacts := AList.update uid (f t) (contacts db)\<rparr> | None \<Rightarrow> db)"

text \<open>A snapshot of the trackfiles. Go ranges over the map in an order of its own choice, each time
  another: it is given by \<open>order\<close>, which an operation applies to a description of the iteration
  (\<open>here\<close>); an order which is none of these trackfiles leaves the list as it is.\<close>

type_synonym range_order = "u64 list \<Rightarrow> Trackfile list \<Rightarrow> Trackfile list"

definition db_values :: "range_order \<Rightarrow> u64 list \<Rightarrow> contactDatabase \<Rightarrow> Trackfile list" where
  "db_values order here db =
     (let ts = map snd (contacts db) in if mset (order here ts) = mset ts then order here ts else ts)"

definition FindCallsign :: "fuzzy_search \<Rightarrow> string \<Rightarrow> Coalition \<Rightarrow> contactDatabase \<Rightarrow> string \<times> Trackfile option" where
  "FindCallsign fuzzy callsign coalition db =
     (case getByCallsignAndCoalititon fuzzy callsign coalition db of
        None \<Rightarrow> (callsign, None)
      | Some (foundCallsign, tf) \<Rightarrow> (foundCallsign, Some tf))"

definition FindUnit :: "u64 \<Rightarrow> contactDatabase \<Rightarrow> Trackfile option" where
  "FindUnit uid db = getByID uid db"

definition FindByCoalition :: "range_order \<Rightarrow> Coalition \<Rightarrow> contactDatabase \<Rightarrow> Trackfile list" where
  "FindByCoalition order coalition db =
     filter (\<lambda>t. tf_Coalition t = coalition) (db_values order [] db)"

section \<open>The invariant of the database\<close>

text \<open>
  Every trackfile is stored under its own ID, every track is in order, and every entry of an
  index leads to a contact of that coalition with that name.
\<close>

definition index_sound :: "contactDatabase \<Rightarrow> bool" where
  "index_sound db \<longleftrightarrow> (\<forall>c name uid. map_of (coalition_index db c) name = Some uid \<longrightarrow>
     (\<exists>t. map_of (contacts db) uid = Some t \<and> tf_Coalition t = c \<and> tf_Name t = name))"

definition db_ok :: "contactDatabase \<Rightarrow> bool" where
  "db_ok db \<longleftrightarrow> gomap_ok (contacts db) \<and> gomap_ok (callsignIdx db) \<and>
     gomap.holds (\<lambda>c. gomap_ok) (callsignIdx db) \<and> map_of (callsignIdx db) ` set all_coalitions \<subseteq> range Some \<and>
     gomap.holds (\<lambda>uid t. tf_ID t = uid \<and> track_ok t) (contacts db) \<and> index_sound db"

lemma db_ok_reset: "db_ok db_reset"
  by (auto simp: db_ok_def db_reset_def gomap_ok_def gomap.holds_def index_sound_def
    coalition_index_def all_coalitions_def split: if_splits)

lemma db_ok_unique: "db_ok db \<Longrightarrow> gomap_ok (contacts db)"
  by (simp add: db_ok_def)

lemma db_ok_id: "db_ok db \<Longrightarrow> map_of (contacts db) uid = Some t \<Longrightarrow> tf_ID t = uid"
  by (auto simp: db_ok_def gomap.holds_def)

lemma index_soundD:
  "db_ok db \<Longrightarrow> map_of (coalition_index db c) name = Some uid \<Longrightarrow>
   \<exists>t. map_of (contacts db) uid = Some t \<and> tf_Coalition t = c \<and> tf_Name t = name"
  unfolding db_ok_def index_sound_def by blast

lemma coalition_index_set:
  "map_of (callsignIdx db) c = Some idx \<Longrightarrow>
   coalition_index (db\<lparr>callsignIdx := AList.update c idx' (callsignIdx db), contacts := cs\<rparr>) c' =
     (if c' = c then idx' else coalition_index db c')"
  by (simp add: coalition_index_def map_of_update)

lemma db_set_ok [inv_intros]:
  assumes ok: "db_ok db" and fresh: "map_of (contacts db) (tf_ID t) = None" and t: "track_ok t"
    and s: "db_set t db = Some db'"
  shows "db_ok db'"
proof -
  from s obtain idx where i: "map_of (callsignIdx db) (tf_Coalition t) = Some idx"
    and db': "db' = db\<lparr>callsignIdx := AList.update (tf_Coalition t) (AList.update (tf_Name t) (tf_ID t) idx) (callsignIdx db),
      contacts := AList.update (tf_ID t) t (contacts db)\<rparr>"
    by (auto simp: db_set_def split: option.splits)
  have ci: "coalition_index db (tf_Coalition t) = idx" using i by (simp add: coalition_index_def)
  have "index_sound db'"
    unfolding index_sound_def
  proof (intro allI impI)
    fix c name uid
    assume a: "map_of (coalition_index db' c) name = Some uid"
    show "\<exists>t'. map_of (contacts db') uid = Some t' \<and> tf_Coalition t' = c \<and> tf_Name t' = name"
    proof (cases "c = tf_Coalition t \<and> name = tf_Name t")
      case True
      then have "uid = tf_ID t" using a by (simp add: db' coalition_index_set [OF i] map_of_update)
      then show ?thesis using True by (simp add: db' map_of_update)
    next
      case False
      then have "map_of (coalition_index db c) name = Some uid"
        using a ci by (auto simp: db' coalition_index_set [OF i] map_of_update split: if_splits)
      then obtain t' where "map_of (contacts db) uid = Some t'" "tf_Coalition t' = c" "tf_Name t' = name"
        using index_soundD [OF ok] by blast
      then show ?thesis using fresh by (auto simp: db' map_of_update)
    qed
  qed
  moreover have "gomap_ok idx" using ok i by (auto simp: db_ok_def gomap.holds_def)
  ultimately show ?thesis
    using ok t by (auto simp: db_ok_def db' gomap.ok_put map_of_update intro!: gomap.holds_put)
qed

lemma db_set_some: "db_ok db \<Longrightarrow> tf_Coalition t \<in> set all_coalitions \<Longrightarrow> \<exists>db'. db_set t db = Some db'"
  by (force simp: db_ok_def db_set_def split: option.split)

lemma db_set_contacts:
  "db_set t db = Some db' \<Longrightarrow> map_of (contacts db') = (map_of (contacts db))(tf_ID t \<mapsto> t)"
  by (auto simp: db_set_def map_of_update split: option.splits)

lemma db_delete_contacts [simp]:
  "map_of (contacts (fst (db_delete uid db))) = (map_of (contacts db))(uid := None)"
  by (auto simp: db_delete_def map_of_delete split: option.splits)

lemma db_delete_found: "snd (db_delete uid db) \<longleftrightarrow> map_of (contacts db) uid \<noteq> None"
  by (simp add: db_delete_def split: option.split)

lemma db_delete_ok [inv_intros]:
  assumes ok: "db_ok db"
  shows "db_ok (fst (db_delete uid db))"
proof (cases "map_of (contacts db) uid")
  case None
  then have "map_of (AList.delete uid (contacts db)) = map_of (contacts db)"
    by (auto simp: map_of_delete)
  then show ?thesis
    using ok None by (simp add: db_delete_def db_ok_def index_sound_def coalition_index_def gomap.ok_del gomap.holds_del)
next
  case (Some t)
  have t: "tf_ID t = uid" by (rule db_ok_id [OF ok Some])
  let ?db = "fst (db_delete uid db)"
  have ci: "map_of (coalition_index ?db c) name =
      (if c = tf_Coalition t \<and> name = tf_Name t then None else map_of (coalition_index db c) name)" for c name
    by (auto simp: db_delete_def Some coalition_index_def map_of_update map_of_delete split: option.splits)
  have "index_sound ?db"
    unfolding index_sound_def ci
  proof (intro allI impI)
    fix c name i
    assume a: "(if c = tf_Coalition t \<and> name = tf_Name t then None else map_of (coalition_index db c) name) = Some i"
    then have n: "\<not> (c = tf_Coalition t \<and> name = tf_Name t)" "map_of (coalition_index db c) name = Some i"
      by (auto split: if_splits)
    then obtain t' where "map_of (contacts db) i = Some t'" "tf_Coalition t' = c" "tf_Name t' = name"
      using index_soundD [OF ok] by blast
    then show "\<exists>t'. map_of (contacts ?db) i = Some t' \<and> tf_Coalition t' = c \<and> tf_Name t' = name"
      using n Some by auto
  qed
  then show ?thesis
    using ok by (auto simp: db_ok_def db_delete_def Some map_of_update gomap.ok_put gomap.ok_del
      intro!: gomap.holds_put gomap.holds_del split: option.splits dest: gomap.holds_get)
qed

lemma db_modify_contacts:
  "map_of (contacts (db_modify uid f db)) = (map_of (contacts db))(uid := map_option f (map_of (contacts db) uid))"
  by (auto simp: db_modify_def map_of_update split: option.split)

lemma db_modify_ok [inv_intros]:
  assumes "db_ok db" and "\<And>t. track_ok t \<Longrightarrow> track_ok (f t)" and "\<And>t. Contact (f t) = Contact t"
  shows "db_ok (db_modify uid f db)"
proof -
  have ci: "coalition_index (db_modify uid f db) = coalition_index db" "callsignIdx (db_modify uid f db) = callsignIdx db"
    by (auto simp: fun_eq_iff coalition_index_def db_modify_def split: option.split)
  have "index_sound (db_modify uid f db)"
    unfolding index_sound_def
  proof (intro allI impI)
    fix c name i
    assume "map_of (coalition_index (db_modify uid f db) c) name = Some i"
    then obtain t where "map_of (contacts db) i = Some t" "tf_Coalition t = c" "tf_Name t = name"
      using index_soundD [OF assms(1)] ci by fastforce
    then show "\<exists>t. map_of (contacts (db_modify uid f db)) i = Some t \<and> tf_Coalition t = c \<and> tf_Name t = name"
      using assms(3) by (auto simp: db_modify_contacts)
  qed
  moreover have "gomap_ok (contacts (db_modify uid f db))"
    using assms(1) by (auto simp: db_modify_def db_ok_def gomap.ok_put split: option.split)
  moreover have "gomap.holds (\<lambda>uid t. tf_ID t = uid \<and> track_ok t) (contacts (db_modify uid f db))"
    using assms by (auto simp: gomap.holds_def db_modify_contacts db_ok_def)
  ultimately show ?thesis using assms(1) by (simp add: db_ok_def ci)
qed

lemma db_values_mset: "mset (db_values order here db) = mset (map snd (contacts db))"
  by (simp add: db_values_def Let_def)

lemma db_values_set: "set (db_values order here db) = snd ` set (contacts db)"
  using db_values_mset [of order here db] by (metis list.set_map set_mset_mset)

lemma db_item:
  "db_ok db \<Longrightarrow> (uid, t) \<in> set (contacts db) \<longleftrightarrow> map_of (contacts db) uid = Some t"
  by (rule gomap.items_get [OF db_ok_unique])

lemma db_values_iff:
  assumes "db_ok db"
  shows "t \<in> set (db_values order here db) \<longleftrightarrow> map_of (contacts db) (tf_ID t) = Some t"
proof -
  have "t \<in> snd ` set (contacts db) \<longleftrightarrow> (\<exists>uid. (uid, t) \<in> set (contacts db))" by force
  also have "\<dots> \<longleftrightarrow> map_of (contacts db) (tf_ID t) = Some t"
    using db_ok_id [OF assms] by (auto simp: db_item [OF assms])
  finally show ?thesis by (simp add: db_values_set)
qed

lemma db_values_distinct:
  assumes "db_ok db"
  shows "distinct (map tf_ID (db_values order here db))"
proof -
  have "map (tf_ID \<circ> snd) (contacts db) = map fst (contacts db)"
    using assms by (auto simp: db_item db_ok_id)
  then have "distinct (map tf_ID (map snd (contacts db)))"
    using db_ok_unique [OF assms] by (metis gomap_ok_def map_map)
  moreover have "mset (map tf_ID (db_values order here db)) = mset (map tf_ID (map snd (contacts db)))"
    using db_values_mset [of order here db] by (metis mset_map)
  ultimately show ?thesis by (metis mset_eq_imp_distinct_iff)
qed

section \<open>Lookup by callsign\<close>

lemma normalized_index_sound:
  assumes "map_of (normalized_index idx) key = Some uid"
  shows "\<exists>rawName. (rawName, uid) \<in> set idx \<and> index_key rawName = key"
proof -
  have "map_of (fold (\<lambda>(rawName, uid) m. AList.update (index_key rawName) uid m) idx m) key = Some uid \<Longrightarrow>
      map_of m key = Some uid \<or> (\<exists>rawName. (rawName, uid) \<in> set idx \<and> index_key rawName = key)" for m
    by (induction idx arbitrary: m) (fastforce simp: map_of_update split: if_splits)+
  from this [of "[]"] assms show ?thesis by (simp add: normalized_index_def)
qed

lemma normalized_index_unique:
  assumes "(rawName, uid) \<in> set idx"
    and "\<And>other uid'. (other, uid') \<in> set idx \<Longrightarrow> index_key other = index_key rawName \<Longrightarrow> uid' = uid"
  shows "map_of (normalized_index idx) (index_key rawName) = Some uid"
proof -
  have "(rawName, uid) \<in> set idx \<or> map_of m (index_key rawName) = Some uid \<Longrightarrow>
      (\<forall>other uid'. (other, uid') \<in> set idx \<longrightarrow> index_key other = index_key rawName \<longrightarrow> uid' = uid) \<Longrightarrow>
      map_of (fold (\<lambda>(rawName, uid) m. AList.update (index_key rawName) uid m) idx m) (index_key rawName) = Some uid" for m
  proof (induction idx arbitrary: m)
    case (Cons e idx)
    obtain n u where e: "e = (n, u)" by (cases e)
    have u: "index_key n = index_key rawName \<Longrightarrow> u = uid" 
      by (rule Cons.prems(2) [unfolded e, rule_format, OF list.set_intros(1)])
    show ?case unfolding fold.simps o_def e prod.case
    proof (rule Cons.IH)
      show "(rawName, uid) \<in> set idx \<or> map_of (AList.update (index_key n) u m) (index_key rawName) = Some uid"
        using Cons.prems(1) u unfolding e map_of_update by (cases "index_key n = index_key rawName") auto
      show "\<forall>other uid'. (other, uid') \<in> set idx \<longrightarrow> index_key other = index_key rawName \<longrightarrow> uid' = uid"
        using Cons.prems(2) unfolding list.set by blast
    qed
  qed simp
  from this [of "[]"] show ?thesis using assms unfolding normalized_index_def by blast
qed

lemma coalition_index_ok: "db_ok db \<Longrightarrow> gomap_ok (coalition_index db c)"
  by (auto simp: db_ok_def coalition_index_def split: option.split dest: gomap.holds_get)

lemma found_contact:
  assumes "db_ok db" and "map_of (normalized_index (coalition_index db coalition)) found = Some uid"
  shows "\<exists>t. map_of (contacts db) uid = Some t \<and> tf_ID t = uid \<and> tf_Coalition t = coalition \<and> found = index_key (tf_Name t)"
proof -
  from normalized_index_sound [OF assms(2)] obtain rawName where
    r: "(rawName, uid) \<in> set (coalition_index db coalition)" "index_key rawName = found" by blast
  have "map_of (coalition_index db coalition) rawName = Some uid"
    by (rule gomap.items_get [OF coalition_index_ok [OF assms(1)], THEN iffD1, OF r(1)])
  from index_soundD [OF assms(1) this] show ?thesis using db_ok_id [OF assms(1)] r(2) by blast
qed

text \<open>C18. A callsign lookup, exact or fuzzy, only ever returns a trackfile of the asked coalition that is
  in the database under its own ID, together with the normal form of that trackfile's own name.\<close>

theorem callsign_lookup_sound:
  assumes "db_ok db" and "fuzzy_ok fuzzy"
    and "getByCallsignAndCoalititon fuzzy callsign coalition db = Some (found, t)"
  shows "getByID (tf_ID t) db = Some t \<and> tf_Coalition t = coalition \<and> found = index_key (tf_Name t)"
proof -
  let ?n = "normalized_index (coalition_index db coalition)"
  have "\<exists>uid. map_of ?n found = Some uid \<and> map_of (contacts db) uid = Some t"
  proof (cases "map_of ?n callsign")
    case (Some uid)
    then show ?thesis using assms(3) by (auto simp: getByCallsignAndCoalititon_def Let_def)
  next
    case None
    with assms(3) obtain f where f: "fuzzy callsign (map fst ?n) CallsignSimilarityThreshold = Inr f" "f \<noteq> []"
      "f = found" "map_of (contacts db) (case map_of ?n f of Some uid \<Rightarrow> uid | None \<Rightarrow> 0) = Some t"
      by (auto simp: getByCallsignAndCoalititon_def Let_def split: sum.splits if_splits)
    then have "found \<in> fst ` set ?n" using assms(2) by (force simp: fuzzy_ok_def)
    then obtain uid where "map_of ?n found = Some uid" by (metis map_of_eq_None_iff option.exhaust)
    then show ?thesis using f by auto
  qed
  then show ?thesis using found_contact [OF assms(1)] by (fastforce simp: getByID_def)
qed

definition demo_trackfile :: "u64 \<Rightarrow> string \<Rightarrow> Coalition \<Rightarrow> Trackfile" where
  "demo_trackfile uid name c = NewTrackfile \<lparr>label_ID = uid, label_Name = name, label_Coalition = c,
     label_ACMIName = ''F-15C''\<rparr>"

definition demo_fuzzy :: fuzzy_search where
  "demo_fuzzy s names t = Inr (case names of [] \<Rightarrow> [] | n # _ \<Rightarrow> n)"

lemma demo_fuzzy_ok: "fuzzy_ok demo_fuzzy"
  by (auto simp: fuzzy_ok_def demo_fuzzy_def split: list.split)

definition demo_db :: contactDatabase where
  "demo_db = \<lparr>contacts = [(7, demo_trackfile 7 ''Eagle 1'' Blue)],
     callsignIdx = [(Blue, [(''Eagle 1'', 7)]), (Red, []), (Neutrals, [])]\<rparr>"

lemma demo_db_set: "db_set (demo_trackfile 7 ''Eagle 1'' Blue) db_reset = Some demo_db"
  by (simp add: db_set_def demo_db_def db_reset_def demo_trackfile_def NewTrackfile_def)

lemma demo_trackfile_ok: "track_ok (demo_trackfile uid name c)"
  by (simp add: demo_trackfile_def NewTrackfile_ok)

lemma demo_db_ok: "db_ok demo_db"
  by (rule db_set_ok [OF db_ok_reset _ demo_trackfile_ok demo_db_set]) (simp add: db_reset_def)

lemma demo_key: "index_key ''Eagle 1'' = ''eagle 1''"
  by code_simp

lemma demo_labels_of [simp]:
  "tf_ID (demo_trackfile uid name c) = uid" "tf_Name (demo_trackfile uid name c) = name"
  "tf_Coalition (demo_trackfile uid name c) = c"
  by (simp_all add: demo_trackfile_def NewTrackfile_def)

theorem callsign_lookup_sound_witness:
  "getByCallsignAndCoalititon demo_fuzzy ''egle'' Blue demo_db = Some (''eagle 1'', demo_trackfile 7 ''Eagle 1'' Blue) \<and>
   getByID 7 demo_db = Some (demo_trackfile 7 ''Eagle 1'' Blue)"
proof -
  have l: "getByCallsignAndCoalititon demo_fuzzy ''egle'' Blue demo_db =
      Some (''eagle 1'', demo_trackfile 7 ''Eagle 1'' Blue)"
    by (simp add: getByCallsignAndCoalititon_def demo_db_def coalition_index_def normalized_index_def demo_key demo_fuzzy_def)
  then show ?thesis using l callsign_lookup_sound [OF demo_db_ok demo_fuzzy_ok l] by simp
qed

text \<open>A contact in the index is found by the normal form of its name, with no fuzzy search, when no
  other name of its coalition has that normal form.\<close>

theorem callsign_lookup_exact:
  assumes "db_ok db" and "map_of (contacts db) uid = Some t"
    and "map_of (coalition_index db (tf_Coalition t)) (tf_Name t) = Some uid"
    and "\<And>other uid'. (other, uid') \<in> set (coalition_index db (tf_Coalition t)) \<Longrightarrow>
      index_key other = index_key (tf_Name t) \<Longrightarrow> other = tf_Name t"
  shows "getByCallsignAndCoalititon fuzzy (index_key (tf_Name t)) (tf_Coalition t) db = Some (index_key (tf_Name t), t)"
proof -
  have ok: "gomap_ok (coalition_index db (tf_Coalition t))" by (rule coalition_index_ok [OF assms(1)])
  have "map_of (normalized_index (coalition_index db (tf_Coalition t))) (index_key (tf_Name t)) = Some uid"
  proof (rule normalized_index_unique)
    show "(tf_Name t, uid) \<in> set (coalition_index db (tf_Coalition t))"
      using gomap.items_get [OF ok] assms(3) by blast
    show "uid' = uid" if "(other, uid') \<in> set (coalition_index db (tf_Coalition t))"
      "index_key other = index_key (tf_Name t)" for other uid'
      using that assms(3, 4) gomap.items_get [OF ok] by fastforce
  qed
  then show ?thesis using assms(2) by (simp add: getByCallsignAndCoalititon_def Let_def)
qed

theorem callsign_lookup_exact_witness:
  "getByCallsignAndCoalititon demo_fuzzy (index_key ''Eagle 1'') Blue demo_db =
     Some (index_key ''Eagle 1'', demo_trackfile 7 ''Eagle 1'' Blue)"
proof -
  have i: "coalition_index demo_db Blue = [(''Eagle 1'', 7)]"
    "map_of (contacts demo_db) 7 = Some (demo_trackfile 7 ''Eagle 1'' Blue)"
    by (simp_all add: demo_db_def coalition_index_def)
  show ?thesis
    by (rule callsign_lookup_exact [OF demo_db_ok i(2), unfolded demo_labels_of i(1)]) simp_all
qed

text \<open>Of two contacts with the same name, deleting the older makes the younger, which stays in the
  database, unreachable by its callsign.\<close>

theorem namesake_lost:
  "\<exists>db1 db2 db3. db_set (demo_trackfile 7 ''Eagle 1'' Blue) db_reset = Some db1 \<and>
     db_set (demo_trackfile 8 ''Eagle 1'' Blue) db1 = Some db2 \<and> db_delete 7 db2 = (db3, True) \<and>
     getByCallsignAndCoalititon demo_fuzzy ''eagle 1'' Blue db2 = Some (''eagle 1'', demo_trackfile 8 ''Eagle 1'' Blue) \<and>
     getByID 8 db3 = Some (demo_trackfile 8 ''Eagle 1'' Blue) \<and>
     getByCallsignAndCoalititon demo_fuzzy ''eagle 1'' Blue db3 = None"
proof -
  let ?db2 = "\<lparr>contacts = [(7, demo_trackfile 7 ''Eagle 1'' Blue), (8, demo_trackfile 8 ''Eagle 1'' Blue)],
     callsignIdx = [(Blue, [(''Eagle 1'', 8)]), (Red, []), (Neutrals, [])]\<rparr>"
  let ?db3 = "\<lparr>contacts = [(8, demo_trackfile 8 ''Eagle 1'' Blue)],
     callsignIdx = [(Blue, []), (Red, []), (Neutrals, [])]\<rparr>"
  have "db_set (demo_trackfile 8 ''Eagle 1'' Blue) demo_db = Some ?db2"
    by (simp add: db_set_def demo_db_def demo_trackfile_def NewTrackfile_def)
  moreover have "db_delete 7 ?db2 = (?db3, True)"
    by (simp add: db_delete_def demo_trackfile_def NewTrackfile_def)
  moreover have "getByCallsignAndCoalititon demo_fuzzy ''eagle 1'' Blue ?db2 =
      Some (''eagle 1'', demo_trackfile 8 ''Eagle 1'' Blue)"
    by (simp add: getByCallsignAndCoalititon_def coalition_index_def normalized_index_def demo_key)
  moreover have "getByID 8 ?db3 = Some (demo_trackfile 8 ''Eagle 1'' Blue)"
    "getByCallsignAndCoalititon demo_fuzzy ''eagle 1'' Blue ?db3 = None"
    by (simp_all add: getByID_def getByCallsignAndCoalititon_def coalition_index_def normalized_index_def demo_fuzzy_def)
  ultimately show ?thesis using demo_db_set by blast
qed

end
