(* ===== verification/Encyclopedia.thy ===== *)
theory Encyclopedia
  imports Brevity Store
begin

text \<open>
  The aircraft encyclopedia (\<open>pkg/encyclopedia\<close>): the tables of \<open>aircraft.go\<close>, the variants
  derived from a base entry, threat radii, and the loading of custom aircraft (\<open>custom.go\<close>).
  The field \<open>threatRadius\<close> holds the number of nautical miles the code multiplies with
  \<open>unit.NauticalMile\<close>; sets of tags are lists, used for membership only. Parsing the YAML of a
  custom file is third-party: the entries it yields are the input here.
\<close>

section \<open>Aircraft\<close>

datatype AircraftTag = FixedWingTag | RotaryWingTag | Unarmed | Fighter | Attack
datatype AirRefuelingMethod = NoAirRefueling | FlyingBoom | ProbeAndDrogue

record Aircraft =
  ACMIShortName :: string
  aircraft_tags :: "AircraftTag list"
  PlatformDesignation :: string
  TypeDesignation :: string
  NATOReportingName :: string
  OfficialName :: string
  Nickname :: string
  threatRadius :: real
  fuelProvider :: AirRefuelingMethod
  fuelReceiver :: AirRefuelingMethod

definition zeroAircraft :: Aircraft where
  "zeroAircraft = \<lparr>ACMIShortName = [], aircraft_tags = [], PlatformDesignation = [],
     TypeDesignation = [], NATOReportingName = [], OfficialName = [], Nickname = [],
     threatRadius = 0, fuelProvider = NoAirRefueling, fuelReceiver = NoAirRefueling\<rparr>"

definition SAR1IRThreat :: real where "SAR1IRThreat = 15"
definition SAR2AR1Threat :: real where "SAR2AR1Threat = 25"
definition ExtendedThreat :: real where "ExtendedThreat = 35"

definition Category :: "Aircraft \<Rightarrow> ContactCategory" where
  "Category a = (if FixedWingTag \<in> set (aircraft_tags a) then FixedWing
     else if RotaryWingTag \<in> set (aircraft_tags a) then RotaryWing else ContactCategory.Aircraft)"

definition HasTag :: "Aircraft \<Rightarrow> AircraftTag \<Rightarrow> bool" where
  "HasTag a tag \<longleftrightarrow> tag \<in> set (aircraft_tags a)"

definition HasAnyTag :: "Aircraft \<Rightarrow> AircraftTag list \<Rightarrow> bool" where
  "HasAnyTag a tags = list_ex (HasTag a) tags"

text \<open>The threat radius in nautical miles, and as a length.\<close>

definition threat_miles :: "Aircraft \<Rightarrow> real" where
  "threat_miles a =
     (if threatRadius a \<noteq> 0 \<or> HasTag a Unarmed then threatRadius a
      else if HasTag a RotaryWingTag then 3
      else if HasTag a Attack then SAR1IRThreat
      else SAR2AR1Threat)"

definition ThreatRadius :: "units \<Rightarrow> Aircraft \<Rightarrow> real" where
  "ThreatRadius u a = threat_miles a * NauticalMile u"

text \<open>\<open>variants\<close>; the order of the naming map does not matter, its names are distinct.\<close>

definition variants :: "Aircraft \<Rightarrow> (string \<times> string) list \<Rightarrow> Aircraft list" where
  "variants data naming =
     map (\<lambda>(nameSuffix, designationSuffix).
       zeroAircraft\<lparr>aircraft_tags := aircraft_tags data, PlatformDesignation := PlatformDesignation data,
         TypeDesignation := TypeDesignation data @ designationSuffix,
         NATOReportingName := NATOReportingName data, OfficialName := OfficialName data,
         Nickname := Nickname data, fuelProvider := fuelProvider data, fuelReceiver := fuelReceiver data,
         ACMIShortName := (if ACMIShortName data \<noteq> [] then ACMIShortName data @ nameSuffix
                           else PlatformDesignation data @ nameSuffix)\<rparr>) naming"

section \<open>The tables\<close>

definition a10Data :: "Aircraft" where
  "a10Data =
    zeroAircraft\<lparr>aircraft_tags := [FixedWingTag, Attack], PlatformDesignation := ''A-10'',
      OfficialName := ''Thunderbolt'', Nickname := ''Warthog'', fuelReceiver := FlyingBoom\<rparr>"

definition a10Variants :: "Aircraft list" where
  "a10Variants =
    variants a10Data
      [(''A'', ''A''), (''C'', ''C''), (''C_2'', ''C'')]"

definition ah64Data :: "Aircraft" where
  "ah64Data =
    zeroAircraft\<lparr>aircraft_tags := [RotaryWingTag, Attack], PlatformDesignation := ''AH-64'',
      OfficialName := ''Apache''\<rparr>"

definition ah64Variants :: "Aircraft list" where
  "ah64Variants =
    variants ah64Data
      [(''A'', ''A''), (''D'', ''D''), (''D_BLK_II'', ''D'')]"

definition c101Data :: "Aircraft" where
  "c101Data =
    zeroAircraft\<lparr>aircraft_tags := [FixedWingTag, Fighter], PlatformDesignation := ''C-101'',
      OfficialName := ''Aviojet'', threatRadius := SAR1IRThreat\<rparr>"

definition c101Variants :: "Aircraft list" where
  "c101Variants =
    variants c101Data
      [(''CC'', ''CC''), (''EB'', ''EB'')]"

definition ch47Data :: "Aircraft" where
  "ch47Data =
    zeroAircraft\<lparr>aircraft_tags := [RotaryWingTag, Unarmed], PlatformDesignation := ''CH-47'',
      OfficialName := ''Chinook''\<rparr>"

definition ch47Variants :: "Aircraft list" where
  "ch47Variants =
    variants ch47Data
      [(''D'', ''D''), (''Fbl1'', ''F'')]"

definition c130Data :: "Aircraft" where
  "c130Data =
    zeroAircraft\<lparr>aircraft_tags := [FixedWingTag, Unarmed], PlatformDesignation := ''C-130'',
      TypeDesignation := ''C-130'', OfficialName := ''Hercules'', Nickname := ''Herc''\<rparr>"

definition c130Variants :: "Aircraft list" where
  "c130Variants =
    variants c130Data
      [([], []), (''J-30'', ''J-30'')]"

definition f86Data :: "Aircraft" where
  "f86Data =
    zeroAircraft\<lparr>aircraft_tags := [FixedWingTag, Fighter], PlatformDesignation := ''F-86'',
      OfficialName := ''Sabre'', threatRadius := SAR1IRThreat\<rparr>"

definition f86Variants :: "Aircraft list" where
  "f86Variants =
    variants f86Data
      [(''F'', ''F''), (''F FC'', ''F''), (''F Sabre'', ''F'')]"

definition f4Data :: "Aircraft" where
  "f4Data =
    zeroAircraft\<lparr>aircraft_tags := [FixedWingTag, Fighter], PlatformDesignation := ''F-4'',
      OfficialName := ''Phantom'', fuelReceiver := FlyingBoom\<rparr>"

definition f4Variants :: "Aircraft list" where
  "f4Variants =
    variants f4Data
      [(''E-45MC'', ''E''), (''E'', ''E'')]"

definition f5Data :: "Aircraft" where
  "f5Data =
    zeroAircraft\<lparr>aircraft_tags := [FixedWingTag, Fighter], PlatformDesignation := ''F-5'',
      OfficialName := ''Tiger''\<rparr>"

definition f5Variants :: "Aircraft list" where
  "f5Variants =
    variants f5Data
      [(''E'', ''E''), (''E-3'', ''E''), (''E-3 FC'', ''E'')]"

definition f14Data :: "Aircraft" where
  "f14Data =
    zeroAircraft\<lparr>aircraft_tags := [FixedWingTag, Fighter], PlatformDesignation := ''F-14'',
      OfficialName := ''Tomcat'', threatRadius := ExtendedThreat, fuelReceiver := ProbeAndDrogue\<rparr>"

definition f14Variants :: "Aircraft list" where
  "f14Variants =
    variants f14Data
      [(''A-135-GR-Early'', ''A''), (''A-135-GR'', ''A''), (''A-95-GR'', ''A''), (''A'', ''A''),
       (''B'', ''B''), (''BU'', ''B'')]"

definition f15Data :: "Aircraft" where
  "f15Data =
    zeroAircraft\<lparr>PlatformDesignation := ''F-15'', aircraft_tags := [FixedWingTag, Fighter],
      OfficialName := ''Eagle'', threatRadius := ExtendedThreat, fuelReceiver := FlyingBoom\<rparr>"

definition f15Variants :: "Aircraft list" where
  "f15Variants =
    variants f15Data
      [(''C'', ''C''), (''ESE'', ''E'')]"

definition f16Data :: "Aircraft" where
  "f16Data =
    zeroAircraft\<lparr>aircraft_tags := [FixedWingTag, Fighter], PlatformDesignation := ''F-16'',
      OfficialName := ''Falcon'', Nickname := ''Viper'', threatRadius := ExtendedThreat,
      fuelReceiver := FlyingBoom\<rparr>"

definition f16Variants :: "Aircraft list" where
  "f16Variants =
    variants f16Data
      [(''A'', ''A''), (''A MLU'', ''A''), (''C_50'', ''C''), (''C bl.50'', ''C''),
       (''C bl.52d'', ''C'')]"

definition fa18Data :: "Aircraft" where
  "fa18Data =
    zeroAircraft\<lparr>aircraft_tags := [FixedWingTag, Fighter], PlatformDesignation := ''FA-18'',
      OfficialName := ''Hornet'', threatRadius := ExtendedThreat, fuelReceiver := ProbeAndDrogue\<rparr>"

definition fa18Variants :: "Aircraft list" where
  "fa18Variants =
    variants fa18Data
      [(''A'', ''A''), (''C'', ''C''), (''C_hornet'', ''C'')]"

definition ka50Data :: "Aircraft" where
  "ka50Data =
    zeroAircraft\<lparr>aircraft_tags := [RotaryWingTag, Attack], PlatformDesignation := ''Ka-50'',
      OfficialName := ''Black Shark'', NATOReportingName := ''Hokum''\<rparr>"

definition ka50Variants :: "Aircraft list" where
  "ka50Variants =
    variants ka50Data
      [([], []), (''_3'', [])]"

definition mi24Data :: "Aircraft" where
  "mi24Data =
    zeroAircraft\<lparr>aircraft_tags := [RotaryWingTag, Attack, Unarmed], PlatformDesignation := ''Mi-24'',
      NATOReportingName := ''Hind''\<rparr>"

definition mi24Variants :: "Aircraft list" where
  "mi24Variants =
    variants mi24Data
      [(''P'', ''P''), (''V'', ''V'')]"

definition mirageF1Data :: "Aircraft" where
  "mirageF1Data =
    zeroAircraft\<lparr>ACMIShortName := ''Mirage-F1'', aircraft_tags := [FixedWingTag, Fighter],
      PlatformDesignation := ''Mirage F1'', OfficialName := ''Mirage F1'', fuelReceiver := ProbeAndDrogue\<rparr>"

definition mirageF1Variants :: "Aircraft list" where
  "mirageF1Variants =
    variants mirageF1Data
      [(''AD'', ''AD''), (''AZ'', ''AZ''), (''B'', ''B''), (''BD'', ''BD''), (''BE'', ''BE''),
       (''BQ'', ''BQ''), (''C-200'', ''C-200''), (''C'', ''C''), (''CE'', ''CE''),
       (''CG'', ''CG''), (''CH'', ''CH''), (''CJ'', ''CJ''), (''CK'', ''CK''), (''CR'', ''CR''),
       (''CT'', ''CT''), (''CZ'', ''CZ''), (''DDA'', ''DDA''), (''ED'', ''ED''),
       (''EDA'', ''EDA''), (''EE'', ''EE''), (''EH'', ''EH''), (''EQ'', ''EQ''),
       (''JA'', ''JA''), (''M-CE'', ''M-CE''), (''M-EE'', ''M-EE'')]"

definition oh58Data :: "Aircraft" where
  "oh58Data =
    zeroAircraft\<lparr>aircraft_tags := [RotaryWingTag, Unarmed], PlatformDesignation := ''OH-58'',
      OfficialName := ''Kiowa''\<rparr>"

definition sa342Data :: "Aircraft" where
  "sa342Data =
    zeroAircraft\<lparr>aircraft_tags := [RotaryWingTag, Unarmed], PlatformDesignation := ''SA 342'',
      OfficialName := ''Gazelle''\<rparr>"

definition sa342Variants :: "Aircraft list" where
  "sa342Variants =
    map (\<lambda>variant.
      zeroAircraft\<lparr>ACMIShortName := ''SA342'' @ variant, aircraft_tags := aircraft_tags sa342Data,
        PlatformDesignation := PlatformDesignation sa342Data, OfficialName := OfficialName sa342Data\<rparr>)
      [''L'', ''M'', ''Minigun'', ''Mistral'']"

definition ftData :: "Aircraft" where
  "ftData =
    zeroAircraft\<lparr>aircraft_tags := [FixedWingTag], PlatformDesignation := ''MiG-15'',
      NATOReportingName := ''Fagot'', threatRadius := SAR1IRThreat\<rparr>"

definition ftVariants :: "Aircraft list" where
  "ftVariants =
    variants ftData
      [(''bis'', ''bis''), (''bis FC'', ''bis'')]"

definition fencerData :: "Aircraft" where
  "fencerData =
    zeroAircraft\<lparr>aircraft_tags := [FixedWingTag, Fighter], PlatformDesignation := ''Su-24'',
      NATOReportingName := ''Fencer'', threatRadius := SAR1IRThreat\<rparr>"

definition fencerVariants :: "Aircraft list" where
  "fencerVariants =
    variants fencerData
      [(''M'', ''M''), (''MR'', ''MR'')]"

definition foxbatData :: "Aircraft" where
  "foxbatData =
    zeroAircraft\<lparr>aircraft_tags := [FixedWingTag, Fighter], PlatformDesignation := ''MiG-25'',
      NATOReportingName := ''Foxbat'', threatRadius := SAR1IRThreat\<rparr>"

definition foxbatVariants :: "Aircraft list" where
  "foxbatVariants =
    variants foxbatData
      [(''PD'', ''PD''), (''RBT'', ''RBT'')]"

definition fulcrumData :: "Aircraft" where
  "fulcrumData =
    zeroAircraft\<lparr>aircraft_tags := [FixedWingTag, Fighter], PlatformDesignation := ''MiG-29'',
      NATOReportingName := ''Fulcrum''\<rparr>"

definition fulcrumVariants :: "Aircraft list" where
  "fulcrumVariants =
    variants fulcrumData
      [('' Fulcrum'', ''A''), (''A'', ''A''), (''G'', ''A''), (''S'', ''S'')]"

definition frogfootData :: "Aircraft" where
  "frogfootData =
    zeroAircraft\<lparr>aircraft_tags := [FixedWingTag, Attack], PlatformDesignation := ''Su-25'',
      NATOReportingName := ''Frogfoot'', threatRadius := SAR2AR1Threat\<rparr>"

definition frogfootVariants :: "Aircraft list" where
  "frogfootVariants =
    variants frogfootData
      [([], ''A''), (''T'', ''T''), (''TM'', ''TM'')]"

definition flankerData :: "Aircraft" where
  "flankerData =
    zeroAircraft\<lparr>aircraft_tags := [FixedWingTag, Fighter], PlatformDesignation := ''Su-27'',
      NATOReportingName := ''Flanker'', threatRadius := SAR2AR1Threat\<rparr>"

definition kc135Data :: "Aircraft" where
  "kc135Data =
    zeroAircraft\<lparr>aircraft_tags := [FixedWingTag, Unarmed], PlatformDesignation := ''KC-135'',
      OfficialName := ''Stratotanker''\<rparr>"

definition kc135Variants :: "Aircraft list" where
  "kc135Variants =
    [zeroAircraft\<lparr>ACMIShortName := ''KC-135'', aircraft_tags := aircraft_tags kc135Data,
       PlatformDesignation := PlatformDesignation kc135Data, OfficialName := OfficialName kc135Data,
       fuelProvider := FlyingBoom\<rparr>,
     zeroAircraft\<lparr>ACMIShortName := ''KC135MPRS'', aircraft_tags := aircraft_tags kc135Data,
       PlatformDesignation := PlatformDesignation kc135Data, OfficialName := OfficialName kc135Data,
       fuelProvider := ProbeAndDrogue\<rparr>]"

definition l39Data :: "Aircraft" where
  "l39Data =
    zeroAircraft\<lparr>aircraft_tags := [FixedWingTag, Fighter], PlatformDesignation := ''L-39'',
      OfficialName := ''Albatros'', threatRadius := SAR1IRThreat\<rparr>"

definition l39Variants :: "Aircraft list" where
  "l39Variants =
    variants l39Data
      [(''C'', ''C''), (''ZA'', ''ZA'')]"

definition mb339Data :: "Aircraft" where
  "mb339Data =
    zeroAircraft\<lparr>aircraft_tags := [FixedWingTag, Fighter], PlatformDesignation := ''MB-339'',
      threatRadius := SAR1IRThreat\<rparr>"

definition mb339Variants :: "Aircraft list" where
  "mb339Variants =
    variants mb339Data
      [(''A'', ''A''), (''A/PAN'', ''A'')]"

definition s3Data :: "Aircraft" where
  "s3Data =
    zeroAircraft\<lparr>aircraft_tags := [FixedWingTag, Unarmed], PlatformDesignation := ''S-3'',
      OfficialName := ''Viking''\<rparr>"

definition s3Variants :: "Aircraft list" where
  "s3Variants =
    (let v = variants s3Data [(''B'', ''B'')];
         tanker = s3Data\<lparr>ACMIShortName := PlatformDesignation s3Data @ ''B Tanker'',
           TypeDesignation := TypeDesignation s3Data @ ''B'', fuelProvider := ProbeAndDrogue\<rparr>
     in v @ [tanker])"

definition tornadoData :: "Aircraft" where
  "tornadoData =
    zeroAircraft\<lparr>aircraft_tags := [FixedWingTag, Fighter], PlatformDesignation := ''Tornado'',
      OfficialName := ''Tornado'', threatRadius := SAR1IRThreat, fuelReceiver := ProbeAndDrogue\<rparr>"

definition tornadoVariants :: "Aircraft list" where
  "tornadoVariants =
    variants tornadoData
      [('' IDS'', ''IDS''), ('' GR4'', ''GR4'')]"

definition mq9Data :: "Aircraft" where
  "mq9Data =
    zeroAircraft\<lparr>aircraft_tags := [FixedWingTag, Unarmed], PlatformDesignation := ''MQ-9'',
      OfficialName := ''Reaper''\<rparr>"

definition mq9Variants :: "Aircraft list" where
  "mq9Variants =
    variants mq9Data
      [([], []), ('' Reaper'', [])]"

definition aircraftData_1 :: "Aircraft list" where
  "aircraftData_1 =
    [zeroAircraft\<lparr>ACMIShortName := ''A-4E-C'', aircraft_tags := [FixedWingTag, Attack],
       PlatformDesignation := ''A-4'', TypeDesignation := ''A-4E'', OfficialName := ''Skyhawk'',
       Nickname := ''Scooter'', threatRadius := SAR1IRThreat, fuelReceiver := ProbeAndDrogue\<rparr>,
     zeroAircraft\<lparr>ACMIShortName := ''A6E'', aircraft_tags := [FixedWingTag, Attack],
       PlatformDesignation := ''A-6'', TypeDesignation := ''A-6E'', OfficialName := ''Intruder'',
       fuelReceiver := ProbeAndDrogue\<rparr>,
     zeroAircraft\<lparr>ACMIShortName := ''A-20G'', aircraft_tags := [FixedWingTag, Unarmed],
       PlatformDesignation := ''A-20'', TypeDesignation := ''A-20G'', OfficialName := ''Havoc''\<rparr>,
     zeroAircraft\<lparr>ACMIShortName := ''A-50'', aircraft_tags := [FixedWingTag, Unarmed],
       PlatformDesignation := ''A-50'', TypeDesignation := ''A-50'', NATOReportingName := ''Mainstay''\<rparr>,
     zeroAircraft\<lparr>ACMIShortName := ''AH-1W'', aircraft_tags := [RotaryWingTag, Attack],
       PlatformDesignation := ''AH-1'', TypeDesignation := ''AH-1W'', OfficialName := ''SuperCobra''\<rparr>,
     zeroAircraft\<lparr>ACMIShortName := ''AJS37'', aircraft_tags := [FixedWingTag, Attack],
       PlatformDesignation := ''AJS37'', OfficialName := ''Viggen'', threatRadius := SAR1IRThreat\<rparr>,
     zeroAircraft\<lparr>ACMIShortName := ''AV8BNA'', aircraft_tags := [FixedWingTag, Attack],
       PlatformDesignation := ''AV-8'', TypeDesignation := ''AV-8B'', OfficialName := ''Harrier'',
       threatRadius := SAR1IRThreat, fuelReceiver := ProbeAndDrogue\<rparr>,
     zeroAircraft\<lparr>ACMIShortName := ''An-26B'', aircraft_tags := [FixedWingTag, Unarmed],
       PlatformDesignation := ''An-26'', TypeDesignation := ''An-26B'', NATOReportingName := ''Curl''\<rparr>,
     zeroAircraft\<lparr>ACMIShortName := ''An-30M'', aircraft_tags := [FixedWingTag, Unarmed],
       PlatformDesignation := ''An-30'', TypeDesignation := ''An-30M'', NATOReportingName := ''Clank''\<rparr>,
     zeroAircraft\<lparr>ACMIShortName := ''B-17G'', aircraft_tags := [FixedWingTag, Unarmed],
       PlatformDesignation := ''B-17'', TypeDesignation := ''B-17G'', OfficialName := ''Flying Fortress''\<rparr>,
     zeroAircraft\<lparr>ACMIShortName := ''B-52H'', aircraft_tags := [FixedWingTag, Unarmed],
       PlatformDesignation := ''B-52'', TypeDesignation := ''B-52H'', OfficialName := ''Stratofortress'',
       Nickname := ''Buff''\<rparr>,
     zeroAircraft\<lparr>ACMIShortName := ''B-1B'', aircraft_tags := [FixedWingTag, Unarmed],
       PlatformDesignation := ''B-1'', TypeDesignation := ''B-1B'', OfficialName := ''Lancer'',
       Nickname := ''Bone''\<rparr>,
     zeroAircraft\<lparr>ACMIShortName := ''C-17A'', aircraft_tags := [FixedWingTag, Unarmed],
       PlatformDesignation := ''C-17'', TypeDesignation := ''C-17A'', OfficialName := ''Globemaster''\<rparr>,
     zeroAircraft\<lparr>ACMIShortName := ''C-47'', aircraft_tags := [FixedWingTag, Unarmed],
       PlatformDesignation := ''C-47'', OfficialName := ''Skytrain''\<rparr>,
     zeroAircraft\<lparr>ACMIShortName := ''CH-53E'', aircraft_tags := [RotaryWingTag, Unarmed],
       PlatformDesignation := ''CH-53'', TypeDesignation := ''CH-53E'', OfficialName := ''Super Stallion''\<rparr>,
     zeroAircraft\<lparr>ACMIShortName := ''E-2C'', aircraft_tags := [FixedWingTag, Unarmed],
       PlatformDesignation := ''E-2'', TypeDesignation := ''E-2C'', OfficialName := ''Hawkeye''\<rparr>]"

definition aircraftData_2 :: "Aircraft list" where
  "aircraftData_2 =
    [zeroAircraft\<lparr>ACMIShortName := ''E-3A'', aircraft_tags := [FixedWingTag, Unarmed],
       PlatformDesignation := ''E-3'', TypeDesignation := ''E-3A'', OfficialName := ''Sentry''\<rparr>,
     zeroAircraft\<lparr>ACMIShortName := ''F-100D'', aircraft_tags := [FixedWingTag, Fighter],
       PlatformDesignation := ''F-100'', TypeDesignation := ''F-100D'', OfficialName := ''Super Sabre'',
       Nickname := ''Hun'', threatRadius := SAR1IRThreat\<rparr>,
     zeroAircraft\<lparr>ACMIShortName := ''F-117A'', aircraft_tags := [FixedWingTag, Unarmed],
       PlatformDesignation := ''F-117'', TypeDesignation := ''F-117A'', OfficialName := ''Nighthawk'',
       Nickname := ''Goblin''\<rparr>,
     zeroAircraft\<lparr>ACMIShortName := ''H-6J'', aircraft_tags := [FixedWingTag, Unarmed],
       PlatformDesignation := ''Tu-16'', TypeDesignation := ''H-6J'', NATOReportingName := ''Badger''\<rparr>,
     zeroAircraft\<lparr>ACMIShortName := ''IL-76MD'', aircraft_tags := [FixedWingTag, Unarmed],
       PlatformDesignation := ''Il-76'', TypeDesignation := ''Il-76MD'', NATOReportingName := ''Candid''\<rparr>,
     zeroAircraft\<lparr>ACMIShortName := ''IL-78M'', aircraft_tags := [FixedWingTag, Unarmed],
       PlatformDesignation := ''Il-78'', TypeDesignation := ''Il-78M'', NATOReportingName := ''Midas'',
       fuelProvider := ProbeAndDrogue\<rparr>,
     zeroAircraft\<lparr>ACMIShortName := ''J-11A'', aircraft_tags := aircraft_tags flankerData,
       PlatformDesignation := PlatformDesignation flankerData, TypeDesignation := ''J-11A'',
       NATOReportingName := NATOReportingName flankerData, threatRadius := threatRadius flankerData\<rparr>,
     zeroAircraft\<lparr>ACMIShortName := ''JF-17'', aircraft_tags := [FixedWingTag, Fighter],
       PlatformDesignation := ''JF-17'', TypeDesignation := ''JF-17'', OfficialName := ''Thunder'',
       threatRadius := ExtendedThreat, fuelReceiver := ProbeAndDrogue\<rparr>,
     zeroAircraft\<lparr>ACMIShortName := ''KA-27'', aircraft_tags := [RotaryWingTag, Unarmed],
       PlatformDesignation := ''Ka-27'', TypeDesignation := ''Ka-27'', NATOReportingName := ''Helix''\<rparr>,
     zeroAircraft\<lparr>ACMIShortName := ''KC130'', aircraft_tags := [FixedWingTag, Unarmed],
       PlatformDesignation := ''KC-130'', TypeDesignation := ''KC-130'', OfficialName := ''Hercules'',
       Nickname := ''Herc'', fuelProvider := ProbeAndDrogue\<rparr>,
     zeroAircraft\<lparr>ACMIShortName := ''KJ-2000'', aircraft_tags := [FixedWingTag, Unarmed],
       PlatformDesignation := ''KJ-2000'', TypeDesignation := ''KJ-2000'', OfficialName := ''Mainring''\<rparr>,
     zeroAircraft\<lparr>ACMIShortName := ''M-2000C'', aircraft_tags := [FixedWingTag, Fighter],
       PlatformDesignation := ''Mirage 2000'', TypeDesignation := ''Mirage 2000C'', OfficialName := ''Mirage 2000'',
       threatRadius := SAR2AR1Threat, fuelReceiver := ProbeAndDrogue\<rparr>,
     zeroAircraft\<lparr>ACMIShortName := ''Mi-8MT'', aircraft_tags := [RotaryWingTag, Unarmed],
       PlatformDesignation := ''Mi-8'', TypeDesignation := ''Mi-8MT'', NATOReportingName := ''Hip''\<rparr>,
     zeroAircraft\<lparr>ACMIShortName := ''Mi-26'', aircraft_tags := [RotaryWingTag, Unarmed],
       PlatformDesignation := ''Mi-26'', TypeDesignation := ''Mi-26'', NATOReportingName := ''Halo''\<rparr>,
     zeroAircraft\<lparr>ACMIShortName := ''Mi-28N'', aircraft_tags := [RotaryWingTag, Attack],
       PlatformDesignation := ''Mi-28'', TypeDesignation := ''Mi-28N'', OfficialName := ''Havoc''\<rparr>]"

definition aircraftData_3 :: "Aircraft list" where
  "aircraftData_3 =
    [zeroAircraft\<lparr>ACMIShortName := ''MiG-19P'', aircraft_tags := [FixedWingTag, Fighter],
       PlatformDesignation := ''MiG-19'', TypeDesignation := ''MiG-19P'', NATOReportingName := ''Farmer'',
       threatRadius := SAR1IRThreat\<rparr>,
     zeroAircraft\<lparr>ACMIShortName := ''MiG-21Bis'', aircraft_tags := [FixedWingTag, Fighter],
       PlatformDesignation := ''MiG-21'', TypeDesignation := ''MiG-21bis'', NATOReportingName := ''Fishbed'',
       threatRadius := SAR1IRThreat\<rparr>,
     zeroAircraft\<lparr>ACMIShortName := ''MiG-23MLD'', aircraft_tags := [FixedWingTag, Fighter],
       PlatformDesignation := ''MiG-23'', TypeDesignation := ''MiG-23MLD'', NATOReportingName := ''Flogger'',
       threatRadius := SAR1IRThreat\<rparr>,
     zeroAircraft\<lparr>ACMIShortName := ''MiG-27K'', aircraft_tags := [FixedWingTag, Fighter],
       PlatformDesignation := ''MiG-27'', TypeDesignation := ''MiG-27K'', NATOReportingName := ''Flogger'',
       threatRadius := SAR1IRThreat\<rparr>,
     zeroAircraft\<lparr>ACMIShortName := ''MiG-31'', aircraft_tags := [FixedWingTag, Fighter],
       PlatformDesignation := ''MiG-31'', TypeDesignation := ''MiG-31'', NATOReportingName := ''Foxhound'',
       threatRadius := SAR2AR1Threat\<rparr>,
     zeroAircraft\<lparr>ACMIShortName := ''M2000-5'', aircraft_tags := [FixedWingTag, Fighter],
       PlatformDesignation := ''Mirage 2000'', TypeDesignation := ''Mirage 2000-5'', OfficialName := ''Mirage 2000'',
       threatRadius := SAR2AR1Threat, fuelReceiver := ProbeAndDrogue\<rparr>,
     zeroAircraft\<lparr>ACMIShortName := ''MQ-1'', aircraft_tags := [FixedWingTag, Unarmed],
       PlatformDesignation := ''MQ-1'', TypeDesignation := ''MQ-1A'', OfficialName := ''Predator''\<rparr>,
     zeroAircraft\<lparr>ACMIShortName := ''RQ-1A Predator'', aircraft_tags := [FixedWingTag, Unarmed],
       PlatformDesignation := ''RQ-1'', TypeDesignation := ''RQ-1A'', OfficialName := ''Predator''\<rparr>,
     zeroAircraft\<lparr>ACMIShortName := ''OH-58D'', aircraft_tags := aircraft_tags oh58Data,
       PlatformDesignation := PlatformDesignation oh58Data, TypeDesignation := ''OH-58D'',
       OfficialName := OfficialName oh58Data\<rparr>,
     zeroAircraft\<lparr>ACMIShortName := ''OH58D'', aircraft_tags := aircraft_tags oh58Data,
       PlatformDesignation := PlatformDesignation oh58Data, TypeDesignation := ''OH-58D'',
       OfficialName := OfficialName oh58Data\<rparr>,
     zeroAircraft\<lparr>ACMIShortName := ''SH-3W'', aircraft_tags := [RotaryWingTag, Unarmed],
       PlatformDesignation := ''SH-3'', TypeDesignation := ''SH-3W'', OfficialName := ''Sea King''\<rparr>,
     zeroAircraft\<lparr>ACMIShortName := ''SH-60B'', aircraft_tags := [RotaryWingTag, Unarmed],
       PlatformDesignation := ''SH-60'', TypeDesignation := ''SH-60B'', OfficialName := ''Seahawk''\<rparr>,
     zeroAircraft\<lparr>ACMIShortName := ''Su-17M4'', aircraft_tags := [FixedWingTag, Fighter],
       PlatformDesignation := ''Su-17'', TypeDesignation := ''Su-17M4'', NATOReportingName := ''Fitter'',
       threatRadius := SAR1IRThreat\<rparr>,
     zeroAircraft\<lparr>ACMIShortName := ''Su-27'', aircraft_tags := aircraft_tags flankerData,
       PlatformDesignation := PlatformDesignation flankerData, TypeDesignation := ''Su-27'',
       NATOReportingName := NATOReportingName flankerData, threatRadius := threatRadius flankerData\<rparr>,
     zeroAircraft\<lparr>ACMIShortName := ''Su-30'', aircraft_tags := aircraft_tags flankerData,
       PlatformDesignation := PlatformDesignation flankerData, TypeDesignation := ''Su-30'',
       NATOReportingName := NATOReportingName flankerData, threatRadius := threatRadius flankerData\<rparr>]"

definition aircraftData_4 :: "Aircraft list" where
  "aircraftData_4 =
    [zeroAircraft\<lparr>ACMIShortName := ''Su-33'', aircraft_tags := aircraft_tags flankerData,
       PlatformDesignation := PlatformDesignation flankerData, TypeDesignation := ''Su-33'',
       NATOReportingName := NATOReportingName flankerData, threatRadius := threatRadius flankerData,
       fuelReceiver := ProbeAndDrogue\<rparr>,
     zeroAircraft\<lparr>ACMIShortName := ''Su-34'', aircraft_tags := [FixedWingTag, Fighter],
       PlatformDesignation := ''Su-34'', TypeDesignation := ''Su-34'', OfficialName := ''Fullback'',
       threatRadius := threatRadius flankerData\<rparr>,
     zeroAircraft\<lparr>ACMIShortName := ''Tu-22M3'', aircraft_tags := [FixedWingTag, Unarmed],
       PlatformDesignation := ''Tu-22'', TypeDesignation := ''Tu-22M'', OfficialName := ''Backfire''\<rparr>,
     zeroAircraft\<lparr>ACMIShortName := ''Tu-95MS'', aircraft_tags := [FixedWingTag, Unarmed],
       PlatformDesignation := ''Tu-95'', TypeDesignation := ''Tu-95MS'', OfficialName := ''Bear''\<rparr>,
     zeroAircraft\<lparr>ACMIShortName := ''Tu-142'', aircraft_tags := [FixedWingTag, Unarmed],
       PlatformDesignation := ''Tu-142'', TypeDesignation := ''Tu-142'', OfficialName := ''Bear''\<rparr>,
     zeroAircraft\<lparr>ACMIShortName := ''Tu-160'', aircraft_tags := [FixedWingTag, Unarmed],
       PlatformDesignation := ''Tu-160'', TypeDesignation := ''Tu-160'', OfficialName := ''Blackjack''\<rparr>,
     zeroAircraft\<lparr>ACMIShortName := ''UH-1H'', aircraft_tags := [RotaryWingTag, Unarmed],
       PlatformDesignation := ''UH-1'', TypeDesignation := ''UH-1H'', OfficialName := ''Iroquois'',
       Nickname := ''Huey''\<rparr>,
     zeroAircraft\<lparr>ACMIShortName := ''UH-60A'', aircraft_tags := [RotaryWingTag, Unarmed],
       PlatformDesignation := ''UH-60'', TypeDesignation := ''UH-60A'', OfficialName := ''Black Hawk'',
       fuelReceiver := ProbeAndDrogue\<rparr>]"

definition aircraftData :: "Aircraft list" where
  "aircraftData = aircraftData_1 @ aircraftData_2 @ aircraftData_3 @ aircraftData_4"

definition aircraftLists :: "Aircraft list list" where
  "aircraftLists =
    [aircraftData, a10Variants, ah64Variants, c101Variants, c130Variants, ch47Variants,
     f86Variants, f4Variants, f5Variants, f14Variants, f15Variants, f16Variants, fa18Variants,
     ka50Variants, mi24Variants, mirageF1Variants, sa342Variants, ftVariants, fencerVariants,
     foxbatVariants, fulcrumVariants, frogfootVariants, kc135Variants, l39Variants,
     mb339Variants, s3Variants, tornadoVariants, mq9Variants]"

lemmas aircraft_tables = a10Data_def a10Variants_def ah64Data_def ah64Variants_def c101Data_def
  c101Variants_def ch47Data_def ch47Variants_def c130Data_def c130Variants_def f86Data_def
  f86Variants_def f4Data_def f4Variants_def f5Data_def f5Variants_def f14Data_def f14Variants_def
  f15Data_def f15Variants_def f16Data_def f16Variants_def fa18Data_def fa18Variants_def
  ka50Data_def ka50Variants_def mi24Data_def mi24Variants_def mirageF1Data_def
  mirageF1Variants_def oh58Data_def sa342Data_def sa342Variants_def ftData_def ftVariants_def
  fencerData_def fencerVariants_def foxbatData_def foxbatVariants_def fulcrumData_def
  fulcrumVariants_def frogfootData_def frogfootVariants_def flankerData_def kc135Data_def
  kc135Variants_def l39Data_def l39Variants_def mb339Data_def mb339Variants_def s3Data_def
  s3Variants_def tornadoData_def tornadoVariants_def mq9Data_def mq9Variants_def
  aircraftData_1_def aircraftData_2_def aircraftData_3_def aircraftData_4_def aircraftData_def
  aircraftLists_def

section \<open>The lookup table\<close>

type_synonym AircraftLUT = "(string, Aircraft) gomap"

definition add_aircraft :: "Aircraft list \<Rightarrow> AircraftLUT \<Rightarrow> AircraftLUT" where
  "add_aircraft aircraft lut = fold (\<lambda>data. AList.update (ACMIShortName data) data) aircraft lut"

definition aircraftDataLUT :: AircraftLUT where
  "aircraftDataLUT = fold add_aircraft aircraftLists []"

definition GetAircraftData :: "AircraftLUT \<Rightarrow> string \<Rightarrow> Aircraft option" where
  "GetAircraftData lut name = map_of lut name"

definition AddCustomAircraft :: "Aircraft list \<Rightarrow> AircraftLUT \<Rightarrow> AircraftLUT" where
  "AddCustomAircraft aircraft lut = fold (\<lambda>data. AList.update (ACMIShortName data) data) aircraft lut"

section \<open>Custom aircraft\<close>

record serializedAircraft =
  s_ACMIShortName :: string
  s_Tags :: "string list"
  s_PlatformDesignation :: string
  s_TypeDesignation :: string
  s_NATOReportingName :: string
  s_OfficialName :: string
  s_Nickname :: string
  s_ThreatRadiusNM :: real
  s_FuelProvider :: string
  s_FuelReceiver :: string

definition tagsByName :: "string \<rightharpoonup> AircraftTag" where
  "tagsByName = map_of [(''fixed-wing'', FixedWingTag), (''rotary-wing'', RotaryWingTag),
     (''unarmed'', Unarmed), (''fighter'', Fighter), (''attack'', Attack)]"

definition refuelingByName :: "string \<rightharpoonup> AirRefuelingMethod" where
  "refuelingByName = map_of [([], NoAirRefueling), (''none'', NoAirRefueling), (''boom'', FlyingBoom),
     (''probe-and-drogue'', ProbeAndDrogue)]"

datatype aircraft_error =
    NoShortName | NoReportingName string | NoTags string | UnrecognizedTag string string
  | NotOneWing string | NegativeRadius string real | UnrecognizedProvider string string
  | UnrecognizedReceiver string string

fun read_tags :: "string \<Rightarrow> string list \<Rightarrow> AircraftTag list \<Rightarrow> nat \<Rightarrow> aircraft_error + (AircraftTag list \<times> nat)" where
  "read_tags short [] tags wingCount = Inr (tags, wingCount)"
| "read_tags short (name # names) tags wingCount =
     (case tagsByName (ToLower (TrimSpace name)) of
        None \<Rightarrow> Inl (UnrecognizedTag short name)
      | Some tag \<Rightarrow>
          read_tags short names (List.insert tag tags)
            (if tag = FixedWingTag \<or> tag = RotaryWingTag then wingCount + 1 else wingCount))"

definition toAircraft :: "serializedAircraft \<Rightarrow> aircraft_error + Aircraft" where
  "toAircraft s =
     (if TrimSpace (s_ACMIShortName s) = [] then Inl NoShortName
      else if TrimSpace (s_NATOReportingName s) = [] \<and> TrimSpace (s_Nickname s) = [] \<and>
              TrimSpace (s_OfficialName s) = [] \<and> TrimSpace (s_PlatformDesignation s) = []
      then Inl (NoReportingName (s_ACMIShortName s))
      else if s_Tags s = [] then Inl (NoTags (s_ACMIShortName s))
      else case read_tags (s_ACMIShortName s) (s_Tags s) [] 0 of
        Inl e \<Rightarrow> Inl e
      | Inr (tags, wingCount) \<Rightarrow>
          if wingCount \<noteq> 1 then Inl (NotOneWing (s_ACMIShortName s))
          else if s_ThreatRadiusNM s < 0 then Inl (NegativeRadius (s_ACMIShortName s) (s_ThreatRadiusNM s))
          else case refuelingByName (ToLower (TrimSpace (s_FuelProvider s))) of
            None \<Rightarrow> Inl (UnrecognizedProvider (s_ACMIShortName s) (s_FuelProvider s))
          | Some provider \<Rightarrow>
              (case refuelingByName (ToLower (TrimSpace (s_FuelReceiver s))) of
                 None \<Rightarrow> Inl (UnrecognizedReceiver (s_ACMIShortName s) (s_FuelReceiver s))
               | Some receiver \<Rightarrow>
                   Inr \<lparr>ACMIShortName = s_ACMIShortName s, aircraft_tags = tags,
                     PlatformDesignation = s_PlatformDesignation s, TypeDesignation = s_TypeDesignation s,
                     NATOReportingName = s_NATOReportingName s, OfficialName = s_OfficialName s,
                     Nickname = s_Nickname s, threatRadius = s_ThreatRadiusNM s,
                     fuelProvider = provider, fuelReceiver = receiver\<rparr>))"

fun LoadCustomAircraft :: "serializedAircraft list \<Rightarrow> aircraft_error + Aircraft list" where
  "LoadCustomAircraft [] = Inr []"
| "LoadCustomAircraft (s # ss) =
     (case toAircraft s of
        Inl e \<Rightarrow> Inl e
      | Inr a \<Rightarrow> (case LoadCustomAircraft ss of Inl e \<Rightarrow> Inl e | Inr as \<Rightarrow> Inr (a # as)))"

section \<open>Well-formed entries\<close>

text \<open>
  What the rest of the program needs of an entry: a name to find it by, something to call it,
  and exactly one of the two wing tags.
\<close>

definition aircraft_ok :: "Aircraft \<Rightarrow> bool" where
  "aircraft_ok a \<longleftrightarrow> ACMIShortName a \<noteq> [] \<and>
     (NATOReportingName a \<noteq> [] \<or> Nickname a \<noteq> [] \<or> OfficialName a \<noteq> [] \<or> PlatformDesignation a \<noteq> []) \<and>
     (HasTag a FixedWingTag \<longleftrightarrow> \<not> HasTag a RotaryWingTag)"

definition lut_ok :: "AircraftLUT \<Rightarrow> bool" where
  "lut_ok lut \<longleftrightarrow> gomap_ok lut \<and> gomap.holds (\<lambda>name a. ACMIShortName a = name \<and> aircraft_ok a) lut"

lemma tables_ok: "list_all (list_all aircraft_ok) aircraftLists"
  by code_simp

lemma TrimSpace_nonempty: "TrimSpace s \<noteq> [] \<Longrightarrow> s \<noteq> []"
  by (auto simp: TrimSpace_def)

lemma read_tags_wings:
  assumes "read_tags short names tags n = Inr (tags', n')"
  shows "n \<le> n' \<and> set tags \<subseteq> set tags' \<and>
    (\<forall>t \<in> set tags'. t \<in> set tags \<or> t = FixedWingTag \<or> t = RotaryWingTag \<or> t \<in> {Unarmed, Fighter, Attack}) \<and>
    (n' = n \<longrightarrow> set tags' \<inter> {FixedWingTag, RotaryWingTag} = set tags \<inter> {FixedWingTag, RotaryWingTag}) \<and>
    (n' = n + 1 \<longrightarrow> (\<exists>w \<in> {FixedWingTag, RotaryWingTag}.
       set tags' \<inter> {FixedWingTag, RotaryWingTag} = insert w (set tags \<inter> {FixedWingTag, RotaryWingTag})))"
  using assms
proof (induction short names tags n rule: read_tags.induct)
  case (2 short name names tags n)
  obtain t where t: "tagsByName (ToLower (TrimSpace name)) = Some t"
    using 2(2) by (auto split: option.splits)
  let ?n = "if t = FixedWingTag \<or> t = RotaryWingTag then n + 1 else n"
  have r: "read_tags short names (List.insert t tags) ?n = Inr (tags', n')" using 2(2) t by simp
  note IH = 2(1) [OF t r]
  show ?case
  proof (cases "t = FixedWingTag \<or> t = RotaryWingTag")
    case True
    then show ?thesis using IH by (cases "n' = n + 1") auto
  next
    case False
    then show ?thesis using IH by (cases t) auto
  qed
qed simp

lemma toAircraft_ok: "toAircraft s = Inr a \<Longrightarrow> aircraft_ok a"
proof -
  assume a: "toAircraft s = Inr a"
  obtain tags where r: "read_tags (s_ACMIShortName s) (s_Tags s) [] 0 = Inr (tags, 1)"
    and t: "aircraft_tags a = tags"
    using a by (auto simp: toAircraft_def split: if_splits sum.splits option.splits prod.splits)
  have "\<exists>w \<in> {FixedWingTag, RotaryWingTag}. set tags \<inter> {FixedWingTag, RotaryWingTag} = {w}"
    using read_tags_wings [OF r] by auto
  then have "HasTag a FixedWingTag \<longleftrightarrow> \<not> HasTag a RotaryWingTag"
    using t by (auto simp: HasTag_def)
  moreover have "ACMIShortName a \<noteq> [] \<and>
     (NATOReportingName a \<noteq> [] \<or> Nickname a \<noteq> [] \<or> OfficialName a \<noteq> [] \<or> PlatformDesignation a \<noteq> [])"
    using a TrimSpace_nonempty
    by (auto simp: toAircraft_def split: if_splits sum.splits option.splits prod.splits)
  ultimately show ?thesis by (simp add: aircraft_ok_def)
qed

lemma LoadCustomAircraft_ok: "LoadCustomAircraft ss = Inr as \<Longrightarrow> list_all aircraft_ok as"
  by (induction ss arbitrary: as) (auto simp: toAircraft_ok split: sum.splits)

lemma add_aircraft_ok: "lut_ok lut \<Longrightarrow> list_all aircraft_ok as \<Longrightarrow> lut_ok (add_aircraft as lut)"
  unfolding add_aircraft_def
  by (induction as arbitrary: lut) (simp_all add: lut_ok_def gomap.ok_put gomap.holds_put)

lemma add_aircraft_lookup:
  "map_of (add_aircraft as lut) name =
    (case List.find (\<lambda>a. ACMIShortName a = name) (rev as) of Some a \<Rightarrow> Some a | None \<Rightarrow> map_of lut name)"
proof (induction as rule: rev_induct)
  case Nil
  then show ?case by (simp add: add_aircraft_def)
next
  case (snoc a as)
  then show ?case by (auto simp: add_aircraft_def map_of_update)
qed

lemma fold_add_aircraft: "fold add_aircraft ls lut = add_aircraft (concat ls) lut"
  by (induction ls arbitrary: lut) (simp_all add: add_aircraft_def)

lemma built_in_lookup:
  "GetAircraftData aircraftDataLUT name = List.find (\<lambda>a. ACMIShortName a = name) (rev (concat aircraftLists))"
  by (simp add: GetAircraftData_def aircraftDataLUT_def fold_add_aircraft add_aircraft_lookup split: option.split)

lemma AddCustomAircraft_eq: "AddCustomAircraft = add_aircraft"
  by (intro ext) (simp add: AddCustomAircraft_def add_aircraft_def)

lemma aircraftDataLUT_ok: "lut_ok aircraftDataLUT"
proof -
  have "list_all (list_all aircraft_ok) ls \<Longrightarrow> lut_ok lut \<Longrightarrow> lut_ok (fold add_aircraft ls lut)" for ls lut
    by (induction ls arbitrary: lut) (simp_all add: add_aircraft_ok)
  moreover have "lut_ok []" by (simp add: lut_ok_def gomap.holds_def)
  ultimately show ?thesis using tables_ok by (simp add: aircraftDataLUT_def)
qed

text \<open>C36. Whatever custom aircraft file is loaded on top of the built-in tables, every aircraft the
  encyclopedia returns is the one asked for, has a name the controller can say, and is either
  fixed wing or rotary wing, never both or neither; so its category is definite.\<close>

theorem encyclopedia_wellformed:
  assumes "LoadCustomAircraft ss = Inr custom"
    and "GetAircraftData (AddCustomAircraft custom aircraftDataLUT) name = Some a"
  shows "ACMIShortName a = name \<and> name \<noteq> [] \<and>
    (NATOReportingName a \<noteq> [] \<or> Nickname a \<noteq> [] \<or> OfficialName a \<noteq> [] \<or> PlatformDesignation a \<noteq> []) \<and>
    (HasTag a FixedWingTag \<longleftrightarrow> \<not> HasTag a RotaryWingTag) \<and>
    Category a = (if HasTag a FixedWingTag then FixedWing else RotaryWing)"
proof -
  have "lut_ok (AddCustomAircraft custom aircraftDataLUT)"
    unfolding AddCustomAircraft_eq
    by (rule add_aircraft_ok [OF aircraftDataLUT_ok LoadCustomAircraft_ok [OF assms(1)]])
  then have "ACMIShortName a = name \<and> aircraft_ok a"
    using assms(2) by (auto simp: lut_ok_def GetAircraftData_def dest: gomap.holds_get)
  then show ?thesis by (auto simp: aircraft_ok_def Category_def HasTag_def)
qed

theorem encyclopedia_wellformed_witness:
  "\<exists>a. GetAircraftData (AddCustomAircraft [] aircraftDataLUT) ''A-50'' = Some a \<and>
     Category a = (if HasTag a FixedWingTag then FixedWing else RotaryWing)"
proof -
  have "List.find (\<lambda>a. ACMIShortName a = ''A-50'') (rev (concat aircraftLists)) \<noteq> None" by code_simp
  then have "GetAircraftData (AddCustomAircraft [] aircraftDataLUT) ''A-50'' \<noteq> None"
    by (simp only: built_in_lookup AddCustomAircraft_def fold.simps id_apply) simp
  then obtain a where "GetAircraftData (AddCustomAircraft [] aircraftDataLUT) ''A-50'' = Some a" by blast
  then show ?thesis using encyclopedia_wellformed [of "[]" "[]" "''A-50''" a] by auto
qed

text \<open>A custom entry overrides the built-in one of the same name, the last entry of the file
  wins, and every other aircraft is left as it was.\<close>

theorem AddCustomAircraft_overrides:
  "GetAircraftData (AddCustomAircraft custom lut) name =
    (case List.find (\<lambda>a. ACMIShortName a = name) (rev custom) of
       Some a \<Rightarrow> Some a | None \<Rightarrow> GetAircraftData lut name)"
  unfolding AddCustomAircraft_eq GetAircraftData_def by (rule add_aircraft_lookup)

text \<open>The variants of a base entry lose its threat radius: the F-15C and F-14B are declared with
  the extended radius of 35 miles and get the default of 25, and the C-101, declared with 15,
  gets 25.\<close>

theorem variants_lose_threat_radius:
  "map_option threat_miles (GetAircraftData aircraftDataLUT ''F-15C'') = Some 25 \<and> threat_miles f15Data = 35 \<and>
   map_option threat_miles (GetAircraftData aircraftDataLUT ''F-14B'') = Some 25 \<and> threat_miles f14Data = 35 \<and>
   map_option threat_miles (GetAircraftData aircraftDataLUT ''C-101CC'') = Some 25 \<and> threat_miles c101Data = 15"
  unfolding built_in_lookup by (intro conjI) code_simp+

end
