(* ===== verification/VoicePacket.thy ===== *)
theory VoicePacket
  imports Prelude
begin

text \<open>
  The SRS voice datagram of \<open>pkg/simpleradio/voice/packet.go\<close>: its struct, the
  constructor, the encoder and the decoder, with the \<open>uint16\<close> arithmetic of the source on
  \<open>16 word\<close> and every slice bound checked. A float64 frequency is carried by its IEEE bit
  pattern, because the codec only moves the bits (\<open>math.Float64bits\<close> and back). A panic
  is \<open>None\<close>; the decoder's \<open>recover\<close> turns it into the error \<open>Recovered\<close>.
\<close>

section \<open>Data\<close>

record Frequency =
  freq_bits :: u64
  Modulation :: byte
  Encryption :: byte

record Packet =
  PacketLength :: u16
  AudioSegmentLength :: u16
  FrequenciesSegmentLength :: u16
  AudioBytes :: "byte list"
  Frequencies :: "Frequency list"
  UnitID :: u32
  PacketID :: u64
  Hops :: byte
  RelayGUID :: "byte list"
  OriginGUID :: "byte list"

definition GUIDLength :: nat where "GUIDLength = 22"
definition headerSegmentLength :: nat where "headerSegmentLength = 6"
definition fixedSegmentLength :: nat where "fixedSegmentLength = 58"
definition frequencyLength :: nat where "frequencyLength = 10"
definition MaxUint16 :: nat where "MaxUint16 = 65535"

lemmas packet_consts = GUIDLength_def headerSegmentLength_def fixedSegmentLength_def
  frequencyLength_def MaxUint16_def

section \<open>Construction\<close>

definition NewPacket ::
  "byte list \<Rightarrow> Frequency list \<Rightarrow> u32 \<Rightarrow> u64 \<Rightarrow> byte \<Rightarrow> byte list \<Rightarrow> byte list \<Rightarrow> Packet" where
  "NewPacket audioBytes frequencies unitID packetID hops relay origin =
     (let audioBytes = (if length audioBytes > MaxUint16 then take MaxUint16 audioBytes
                        else audioBytes);
          audioSegmentLength = (of_nat (length audioBytes) :: u16);
          f = length frequencies * frequencyLength;
          (f, frequencies) = (if f > MaxUint16
                              then (MaxUint16, take (MaxUint16 div frequencyLength) frequencies)
                              else (f, frequencies));
          frequenciesSegmentLength = (of_nat f :: u16)
      in \<lparr>PacketLength = of_nat headerSegmentLength + audioSegmentLength
                           + frequenciesSegmentLength + of_nat fixedSegmentLength,
          AudioSegmentLength = audioSegmentLength,
          FrequenciesSegmentLength = frequenciesSegmentLength,
          AudioBytes = audioBytes,
          Frequencies = frequencies,
          UnitID = unitID,
          PacketID = packetID,
          Hops = hops,
          RelayGUID = relay,
          OriginGUID = origin\<rparr>)"

section \<open>Encoding\<close>

fun encode_frequencies :: "nat \<Rightarrow> nat \<Rightarrow> Frequency list \<Rightarrow> byte list \<Rightarrow> byte list option" where
  "encode_frequencies base i [] b = Some b"
| "encode_frequencies base i (f # fs) b =
     (let offset = base + i * frequencyLength in
      do {
        b \<leftarrow> go_copy b offset (offset + 8) (le_put 8 (freq_bits f));
        b \<leftarrow> go_store b (offset + 8) (Modulation f);
        b \<leftarrow> go_store b (offset + 9) (Encryption f);
        encode_frequencies base (Suc i) fs b
      })"

definition Encode :: "Packet \<Rightarrow> byte list option" where
  "Encode p =
     (let b = replicate (unat (PacketLength p)) 0 in
      do {
        b \<leftarrow> go_copy b 0 2 (le_put 2 (PacketLength p));
        b \<leftarrow> go_copy b 2 4 (le_put 2 (AudioSegmentLength p));
        b \<leftarrow> go_copy b 4 6 (le_put 2 (FrequenciesSegmentLength p));
        b \<leftarrow> go_copy b headerSegmentLength (headerSegmentLength + length (AudioBytes p))
              (AudioBytes p);
        b \<leftarrow> encode_frequencies (headerSegmentLength + unat (AudioSegmentLength p)) 0
              (Frequencies p) b;
        let fixedSegmentPtr = PacketLength p - of_nat fixedSegmentLength + 1;
        let unitIDPtr = fixedSegmentPtr;
        let packetIDPtr = unitIDPtr + 4;
        b \<leftarrow> go_copy b (unat unitIDPtr) (unat packetIDPtr) (le_put 4 (UnitID p));
        let hopsPtr = packetIDPtr + 8;
        b \<leftarrow> go_copy b (unat packetIDPtr) (unat hopsPtr) (le_put 8 (PacketID p));
        b \<leftarrow> go_store b (unat hopsPtr) (Hops p);
        let relayIDPtr = hopsPtr + 1;
        let originIDPtr = relayIDPtr + of_nat GUIDLength;
        b \<leftarrow> go_copy b (unat relayIDPtr) (unat originIDPtr) (RelayGUID p);
        go_copy b (unat originIDPtr) (unat (PacketLength p)) (OriginGUID p)
      })"

section \<open>Decoding\<close>

datatype decode_error =
    Recovered
  | LengthMismatch nat nat
  | SegmentsMismatch nat nat
  | FrequenciesNotMultiple nat

function decode_frequencies :: "byte list \<Rightarrow> Frequency list option" where
  "decode_frequencies seg =
     (if seg = [] then Some []
      else do {
        bits \<leftarrow> go_slice seg 0 8;
        m \<leftarrow> go_index seg 8;
        e \<leftarrow> go_index seg 9;
        rest \<leftarrow> decode_frequencies (drop frequencyLength seg);
        Some (\<lparr>freq_bits = le_get bits, Modulation = m, Encryption = e\<rparr> # rest)
      })"
  by pat_completeness auto
termination
  by (relation "measure length") (auto simp: packet_consts)

declare decode_frequencies.simps [simp del]

definition decode_fields :: "byte list \<Rightarrow> u16 \<Rightarrow> u16 \<Rightarrow> u16 \<Rightarrow> Packet option" where
  "decode_fields b packetLength audioSegmentLength frequenciesSegmentLength =
     (let originIDPtr = packetLength - of_nat GUIDLength;
          relayIDPtr = originIDPtr - of_nat GUIDLength;
          hopsPtr = relayIDPtr - 1;
          packetIDPtr = hopsPtr - 8;
          unitIDPtr = packetIDPtr - 4
      in do {
        unitID \<leftarrow> go_slice b (unat unitIDPtr) (unat packetIDPtr);
        packetID \<leftarrow> go_slice b (unat packetIDPtr) (unat hopsPtr);
        hops \<leftarrow> go_index b (unat hopsPtr);
        relay \<leftarrow> go_slice b (unat relayIDPtr) (unat (relayIDPtr + of_nat GUIDLength));
        origin \<leftarrow> go_slice b (unat originIDPtr) (unat (originIDPtr + of_nat GUIDLength));
        audio \<leftarrow> go_slice b headerSegmentLength (headerSegmentLength + unat audioSegmentLength);
        let frequenciesSegmentPtr = unat (6 + audioSegmentLength);
        seg \<leftarrow> go_slice b frequenciesSegmentPtr
                 (frequenciesSegmentPtr + unat frequenciesSegmentLength);
        fs \<leftarrow> decode_frequencies seg;
        Some \<lparr>PacketLength = packetLength, AudioSegmentLength = audioSegmentLength,
              FrequenciesSegmentLength = frequenciesSegmentLength, AudioBytes = audio,
              Frequencies = fs, UnitID = le_get unitID, PacketID = le_get packetID,
              Hops = hops, RelayGUID = relay, OriginGUID = origin\<rparr>
      })"

definition decode_body :: "byte list \<Rightarrow> (decode_error + Packet) option" where
  "decode_body b =
     do {
       pl \<leftarrow> go_slice b 0 2;
       al \<leftarrow> go_slice b 2 4;
       fl \<leftarrow> go_slice b 4 6;
       let packetLength = (le_get pl :: u16);
       let audioSegmentLength = (le_get al :: u16);
       let frequenciesSegmentLength = (le_get fl :: u16);
       let segmentsLength = headerSegmentLength + unat audioSegmentLength
             + unat frequenciesSegmentLength + fixedSegmentLength;
       if unat packetLength \<noteq> length b
       then Some (Inl (LengthMismatch (unat packetLength) (length b)))
       else if segmentsLength \<noteq> unat packetLength
       then Some (Inl (SegmentsMismatch segmentsLength (unat packetLength)))
       else if unat frequenciesSegmentLength mod frequencyLength \<noteq> 0
       then Some (Inl (FrequenciesNotMultiple (unat frequenciesSegmentLength)))
       else map_option Inr
              (decode_fields b packetLength audioSegmentLength frequenciesSegmentLength)
     }"

text \<open>The deferred \<open>recover\<close> maps every panic of the body to an error.\<close>

definition Decode :: "byte list \<Rightarrow> decode_error + Packet" where
  "Decode b = (case decode_body b of None \<Rightarrow> Inl Recovered | Some r \<Rightarrow> r)"

section \<open>The wire format\<close>

text \<open>
  The abstract specification of the codec: the datagram as a concatenation of segments.
  One byte between the frequencies and the fixed segment is never written (the fixed
  segment is 57 bytes long although 58 are reserved for it).
\<close>

definition freq_bytes :: "Frequency \<Rightarrow> byte list" where
  "freq_bytes f = le_put 8 (freq_bits f) @ [Modulation f, Encryption f]"

definition wire :: "Packet \<Rightarrow> byte \<Rightarrow> byte list" where
  "wire p gap =
     le_put 2 (PacketLength p) @ le_put 2 (AudioSegmentLength p)
     @ le_put 2 (FrequenciesSegmentLength p) @ AudioBytes p
     @ concat (map freq_bytes (Frequencies p)) @ [gap]
     @ le_put 4 (UnitID p) @ le_put 8 (PacketID p) @ [Hops p] @ RelayGUID p @ OriginGUID p"

definition wf_packet :: "Packet \<Rightarrow> bool" where
  "wf_packet p \<longleftrightarrow>
     unat (PacketLength p) = 64 + length (AudioBytes p) + 10 * length (Frequencies p) \<and>
     unat (AudioSegmentLength p) = length (AudioBytes p) \<and>
     unat (FrequenciesSegmentLength p) = 10 * length (Frequencies p) \<and>
     length (RelayGUID p) = 22 \<and> length (OriginGUID p) = 22"

lemma length_freq_bytes [simp]: "length (freq_bytes f) = 10"
  by (simp add: freq_bytes_def)

lemma length_concat_freq_bytes [simp]:
  "length (concat (map freq_bytes fs)) = 10 * length fs"
  by (induction fs) auto

lemma length_wire: "wf_packet p \<Longrightarrow> length (wire p g) = unat (PacketLength p)"
  by (simp add: wf_packet_def wire_def)

section \<open>The encoder writes the wire format\<close>

lemma encode_frequencies_writes:
  "length xs = base + 10 * i \<Longrightarrow> length ys = 10 * length fs \<Longrightarrow>
   encode_frequencies base i fs (xs @ ys @ zs) = Some (xs @ concat (map freq_bytes fs) @ zs)"
proof (induction fs arbitrary: i xs ys)
  case Nil
  then show ?case by simp
next
  case (Cons f fs)
  define y1 where "y1 = take 8 ys"
  define ym where "ym = ys ! 8"
  define ye where "ye = ys ! 9"
  define yr where "yr = drop 10 ys"
  have ys: "ys = y1 @ ym # ye # yr"
    using Cons.prems(2) unfolding y1_def ym_def ye_def yr_def
    by (simp add: Cons_nth_drop_Suc numeral_eq_Suc)
  have ly: "length y1 = 8" "length yr = 10 * length fs"
    using Cons.prems(2) by (auto simp: y1_def yr_def)
  let ?o = "base + i * frequencyLength"
  have o: "?o = length xs" using Cons.prems(1) by (simp add: packet_consts)
  have c: "go_copy (xs @ ys @ zs) ?o (?o + 8) (le_put 8 (freq_bits f))
      = Some (xs @ le_put 8 (freq_bits f) @ ym # ye # yr @ zs)"
    using go_copy_middle [of xs ?o y1 "?o + 8" "le_put 8 (freq_bits f)" "ym # ye # yr @ zs"] ly
    by (simp add: ys o)
  have m: "go_store (xs @ le_put 8 (freq_bits f) @ ym # ye # yr @ zs) (?o + 8) (Modulation f)
      = Some (xs @ le_put 8 (freq_bits f) @ Modulation f # ye # yr @ zs)"
    using go_store_middle [of "xs @ le_put 8 (freq_bits f)" "?o + 8"] by (simp add: o)
  have e: "go_store (xs @ le_put 8 (freq_bits f) @ Modulation f # ye # yr @ zs) (?o + 9)
        (Encryption f) = Some ((xs @ freq_bytes f) @ yr @ zs)"
    using go_store_middle [of "xs @ le_put 8 (freq_bits f) @ [Modulation f]" "?o + 9"]
    by (simp add: o freq_bytes_def)
  have "encode_frequencies base (Suc i) fs ((xs @ freq_bytes f) @ yr @ zs)
      = Some ((xs @ freq_bytes f) @ concat (map freq_bytes fs) @ zs)"
    using Cons.prems(1) ly(2) by (intro Cons.IH) auto
  then show ?case by (simp add: c m e Let_def)
qed

lemma freq_bytes_reads [simp]:
  "freq_bytes f \<noteq> []"
  "go_slice (freq_bytes f @ r) 0 8 = Some (le_put 8 (freq_bits f))"
  "go_index (freq_bytes f @ r) 8 = Some (Modulation f)"
  "go_index (freq_bytes f @ r) 9 = Some (Encryption f)"
  "drop frequencyLength (freq_bytes f) = []"
  "le_get (le_put 8 (freq_bits f)) = freq_bits f"
  by (auto simp: freq_bytes_def go_slice_def go_index_def nth_append packet_consts le_get_put)

lemma frequencyLength_numeral [simp]: "frequencyLength = 10"
  by (simp add: packet_consts)

lemma decode_frequencies_concat:
  "decode_frequencies (concat (map freq_bytes fs)) = Some fs"
proof (induction fs)
  case Nil
  then show ?case by (simp add: decode_frequencies.simps)
next
  case (Cons f fs)
  then show ?case
    by (simp add: decode_frequencies.simps [of "freq_bytes f @ concat (map freq_bytes fs)"])
qed

text \<open>Conversely, what the loop decodes is what it read.\<close>

lemma decode_frequencies_total:
  "length seg = 10 * n \<Longrightarrow>
   \<exists>fs. decode_frequencies seg = Some fs \<and> length fs = n \<and> concat (map freq_bytes fs) = seg"
proof (induction n arbitrary: seg)
  case 0
  then show ?case by (simp add: decode_frequencies.simps)
next
  case (Suc n)
  from Suc.prems have "length (drop 10 seg) = 10 * n" by simp
  from Suc.IH [OF this] obtain fs where fs: "decode_frequencies (drop 10 seg) = Some fs"
    "length fs = n" "concat (map freq_bytes fs) = drop 10 seg" by blast
  let ?f = "\<lparr>freq_bits = le_get (take 8 seg), Modulation = seg ! 8, Encryption = seg ! 9\<rparr>"
  have "decode_frequencies seg = Some (?f # fs)"
    using Suc.prems fs
    by (subst decode_frequencies.simps) (auto simp: go_slice_def go_index_def packet_consts)
  moreover have "freq_bytes ?f = take 10 seg"
  proof -
    have "take 10 seg = take 8 seg @ [seg ! 8, seg ! 9]"
      using Suc.prems take_Suc_conv_app_nth [of 9 seg] take_Suc_conv_app_nth [of 8 seg] by simp
    then show ?thesis
      using Suc.prems le_put_get [of "take 8 seg", where 'a = 64] by (simp add: freq_bytes_def)
  qed
  ultimately show ?case using fs by (intro exI [of _ "?f # fs"]) simp
qed

text \<open>Every pointer of the fixed segment is an offset from the end of the packet.\<close>

lemma fixed_pointers:
  fixes pl :: u16
  assumes "64 \<le> unat pl"
  shows "unat (pl - of_nat fixedSegmentLength + 1) = unat pl - 57"
    and "unat (pl - of_nat fixedSegmentLength + 1 + 4) = unat pl - 53"
    and "unat (pl - of_nat fixedSegmentLength + 1 + 4 + 8) = unat pl - 45"
    and "unat (pl - of_nat fixedSegmentLength + 1 + 4 + 8 + 1) = unat pl - 44"
    and "unat (pl - of_nat fixedSegmentLength + 1 + 4 + 8 + 1 + of_nat GUIDLength) = unat pl - 22"
    and "unat (pl - of_nat GUIDLength) = unat pl - 22"
    and "unat (pl - of_nat GUIDLength - of_nat GUIDLength) = unat pl - 44"
    and "unat (pl - of_nat GUIDLength - of_nat GUIDLength - 1) = unat pl - 45"
    and "unat (pl - of_nat GUIDLength - of_nat GUIDLength - 1 - 8) = unat pl - 53"
    and "unat (pl - of_nat GUIDLength - of_nat GUIDLength - 1 - 8 - 4) = unat pl - 57"
    and "unat (pl - of_nat GUIDLength - of_nat GUIDLength + of_nat GUIDLength) = unat pl - 22"
    and "unat (pl - of_nat GUIDLength + of_nat GUIDLength) = unat pl"
proof -
  define n where "n = unat pl"
  have n: "64 \<le> n" "n < 65536" using assms u16_bound [of pl] by (auto simp: n_def)
  have bk: "unat (pl - of_nat k) = n - k" if "k \<le> 64" for k
  proof -
    have "pl - of_nat k = of_nat (n - k)" using n that by (simp add: n_def of_nat_diff)
    then show ?thesis using n by (simp add: unsigned_of_nat take_bit_eq_mod)
  qed
  show "unat (pl - of_nat fixedSegmentLength + 1) = unat pl - 57"
    "unat (pl - of_nat fixedSegmentLength + 1 + 4) = unat pl - 53"
    "unat (pl - of_nat fixedSegmentLength + 1 + 4 + 8) = unat pl - 45"
    "unat (pl - of_nat fixedSegmentLength + 1 + 4 + 8 + 1) = unat pl - 44"
    "unat (pl - of_nat fixedSegmentLength + 1 + 4 + 8 + 1 + of_nat GUIDLength) = unat pl - 22"
    "unat (pl - of_nat GUIDLength) = unat pl - 22"
    "unat (pl - of_nat GUIDLength - of_nat GUIDLength) = unat pl - 44"
    "unat (pl - of_nat GUIDLength - of_nat GUIDLength - 1) = unat pl - 45"
    "unat (pl - of_nat GUIDLength - of_nat GUIDLength - 1 - 8) = unat pl - 53"
    "unat (pl - of_nat GUIDLength - of_nat GUIDLength - 1 - 8 - 4) = unat pl - 57"
    "unat (pl - of_nat GUIDLength - of_nat GUIDLength + of_nat GUIDLength) = unat pl - 22"
    "unat (pl - of_nat GUIDLength + of_nat GUIDLength) = unat pl"
    using bk [of 57] bk [of 53] bk [of 45] bk [of 44] bk [of 22]
    by (simp_all add: packet_consts n_def)
qed

lemma Encode_wire:
  assumes wf: "wf_packet p"
  shows "Encode p = Some (wire p 0)"
proof -
  define la lf n where "la = length (AudioBytes p)" and "lf = length (Frequencies p)"
    and "n = unat (PacketLength p)"
  have n: "n = 64 + la + 10 * lf" "unat (AudioSegmentLength p) = la"
    "length (RelayGUID p) = 22" "length (OriginGUID p) = 22"
    using wf by (auto simp: wf_packet_def la_def lf_def n_def)
  let ?A = "le_put 2 (PacketLength p) @ le_put 2 (AudioSegmentLength p)
     @ le_put 2 (FrequenciesSegmentLength p)"
  let ?F = "concat (map freq_bytes (Frequencies p))"
  let ?H = "?A @ AudioBytes p @ ?F @ [0::byte]"
  let ?z = "\<lambda>k. replicate k (0::byte)"
  have zeros: "?z n = ?z 2 @ ?z 2 @ ?z 2 @ ?z la @ ?z (10 * lf) @ [0] @ ?z 4 @ ?z 8 @ 0
      # ?z 22 @ ?z 22"
    by (simp add: n replicate_add [symmetric] flip: replicate_Suc)
  have lH: "length ?H = n - 57" by (simp add: n la_def lf_def)
  have ptr: "64 \<le> unat (PacketLength p)" using n by (simp add: n_def)
  have s1: "go_copy (?z 2 @ r) 0 2 (le_put 2 (PacketLength p)) = Some (le_put 2 (PacketLength p) @ r)"
    for r using go_copy_middle [of "[]" 0 "?z 2" 2 "le_put 2 (PacketLength p)" r] by simp
  have s2: "go_copy (le_put 2 a @ ?z 2 @ r) 2 4 (le_put 2 c) = Some (le_put 2 a @ le_put 2 c @ r)"
    for a c :: u16 and r using go_copy_middle [of "le_put 2 a" 2 "?z 2" 4 "le_put 2 c" r] by simp
  have s3: "go_copy (le_put 2 a @ le_put 2 b @ ?z 2 @ r) 4 6 (le_put 2 c)
      = Some ((le_put 2 a @ le_put 2 b @ le_put 2 c) @ r)" for a b c :: u16 and r
    using go_copy_middle [of "le_put 2 a @ le_put 2 b" 4 "?z 2" 6 "le_put 2 c" r] by simp
  have s4: "go_copy (?A @ ?z la @ r) headerSegmentLength (headerSegmentLength + length (AudioBytes p))
      (AudioBytes p) = Some ((?A @ AudioBytes p) @ r)" for r
    using go_copy_middle [of ?A headerSegmentLength "?z la"
        "headerSegmentLength + length (AudioBytes p)" "AudioBytes p" r]
    by (simp add: packet_consts la_def)
  have s5: "encode_frequencies (headerSegmentLength + unat (AudioSegmentLength p)) 0 (Frequencies p)
      ((?A @ AudioBytes p) @ ?z (10 * lf) @ r) = Some ((?A @ AudioBytes p) @ ?F @ r)" for r
    by (rule encode_frequencies_writes) (simp_all add: packet_consts n la_def lf_def)
  have s6: "go_copy (?H @ ?z 4 @ r) (n - 57) (n - 53) (le_put 4 (UnitID p))
      = Some (?H @ le_put 4 (UnitID p) @ r)" for r
    by (rule go_copy_middle) (use n in \<open>simp_all add: la_def lf_def\<close>)
  have s7: "go_copy ((?H @ le_put 4 (UnitID p)) @ ?z 8 @ r) (n - 53) (n - 45) (le_put 8 (PacketID p))
      = Some ((?H @ le_put 4 (UnitID p)) @ le_put 8 (PacketID p) @ r)" for r
    by (rule go_copy_middle) (use n in \<open>simp_all add: la_def lf_def\<close>)
  let ?K = "?H @ le_put 4 (UnitID p) @ le_put 8 (PacketID p)"
  have s8: "go_store (?K @ 0 # r) (n - 45) (Hops p) = Some (?K @ Hops p # r)" for r
    by (rule go_store_middle) (use n in \<open>simp_all add: la_def lf_def\<close>)
  have s9: "go_copy ((?K @ [Hops p]) @ ?z 22 @ r) (n - 44) (n - 22) (RelayGUID p)
      = Some ((?K @ [Hops p]) @ RelayGUID p @ r)" for r
    by (rule go_copy_middle) (use n in \<open>simp_all add: la_def lf_def\<close>)
  have s10: "go_copy ((?K @ [Hops p] @ RelayGUID p) @ ?z 22 @ []) (n - 22) n (OriginGUID p)
      = Some ((?K @ [Hops p] @ RelayGUID p) @ OriginGUID p @ [])"
    by (rule go_copy_middle) (use n in \<open>simp_all add: la_def lf_def\<close>)
  show ?thesis
    unfolding Encode_def Let_def fixed_pointers [OF ptr] n_def [symmetric] zeros
    using s4 s5 s6 s7 s8 s9 s10 by (simp add: wire_def s1 s2 s3)
qed


section \<open>The decoder inverts the wire format\<close>

lemma decode_fields_wire:
  assumes wf: "wf_packet p"
  shows "decode_fields (wire p g) (PacketLength p) (AudioSegmentLength p)
           (FrequenciesSegmentLength p) = Some p"
proof -
  define la lf n where "la = length (AudioBytes p)" and "lf = length (Frequencies p)"
    and "n = unat (PacketLength p)"
  have n: "n = 64 + la + 10 * lf" "unat (AudioSegmentLength p) = la"
    "unat (FrequenciesSegmentLength p) = 10 * lf"
    "length (RelayGUID p) = 22" "length (OriginGUID p) = 22"
    using wf by (auto simp: wf_packet_def la_def lf_def n_def)
  have ptr: "64 \<le> unat (PacketLength p)" using n by (simp add: n_def)
  let ?A = "le_put 2 (PacketLength p) @ le_put 2 (AudioSegmentLength p)
     @ le_put 2 (FrequenciesSegmentLength p)"
  let ?F = "concat (map freq_bytes (Frequencies p))"
  let ?H = "?A @ AudioBytes p @ ?F @ [g]"
  let ?K = "?H @ le_put 4 (UnitID p) @ le_put 8 (PacketID p)"
  have u: "go_slice (wire p g) (n - 57) (n - 53) = Some (le_put 4 (UnitID p))"
    using go_slice_middle [of ?H "n - 57" "le_put 4 (UnitID p)" "n - 53"] n
    by (simp add: wire_def la_def lf_def)
  have pid: "go_slice (wire p g) (n - 53) (n - 45) = Some (le_put 8 (PacketID p))"
    using go_slice_middle [of "?H @ le_put 4 (UnitID p)" "n - 53" "le_put 8 (PacketID p)" "n - 45"] n
    by (simp add: wire_def la_def lf_def)
  have h: "go_index (wire p g) (n - 45) = Some (Hops p)"
    using go_index_middle [of ?K "n - 45" "Hops p" "RelayGUID p @ OriginGUID p"] n
    by (simp add: wire_def la_def lf_def)
  have r: "go_slice (wire p g) (n - 44) (n - 22) = Some (RelayGUID p)"
    using go_slice_middle [of "?K @ [Hops p]" "n - 44" "RelayGUID p" "n - 22" "OriginGUID p"] n
    by (simp add: wire_def la_def lf_def)
  have og: "go_slice (wire p g) (n - 22) n = Some (OriginGUID p)"
    using go_slice_middle [of "?K @ [Hops p] @ RelayGUID p" "n - 22" "OriginGUID p" n "[]"] n
    by (simp add: wire_def la_def lf_def)
  have a: "go_slice (wire p g) 6 (6 + la) = Some (AudioBytes p)"
    using go_slice_middle [of ?A 6 "AudioBytes p" "6 + la"] by (simp add: wire_def la_def)
  have f: "go_slice (wire p g) (6 + la) (6 + la + 10 * lf) = Some ?F"
    using go_slice_middle [of "?A @ AudioBytes p" "6 + la" ?F "6 + la + 10 * lf"]
    by (simp add: wire_def la_def lf_def)
  have w: "unat (6 + AudioSegmentLength p) = 6 + la"
    using u16_bound [of "PacketLength p"] n by (simp add: unat_word_ariths n_def)
  show ?thesis
    unfolding decode_fields_def Let_def fixed_pointers [OF ptr] n_def [symmetric] w n(2,3)
      headerSegmentLength_def
    by (simp add: u pid h r og a f decode_frequencies_concat le_get_put)
qed

lemma Decode_wire:
  assumes wf: "wf_packet p"
  shows "Decode (wire p g) = Inr p"
proof -
  have s: "go_slice (wire p g) 0 2 = Some (le_put 2 (PacketLength p))"
    "go_slice (wire p g) 2 4 = Some (le_put 2 (AudioSegmentLength p))"
    "go_slice (wire p g) 4 6 = Some (le_put 2 (FrequenciesSegmentLength p))"
    by (simp_all add: wire_def go_slice_def)
  show ?thesis
    using wf decode_fields_wire [OF wf] length_wire [OF wf]
    by (simp add: Decode_def decode_body_def s le_get_put Let_def wf_packet_def packet_consts)
qed

section \<open>Every accepted datagram is a wire image\<close>

lemma go_slice_some: "i \<le> j \<Longrightarrow> j \<le> length b \<Longrightarrow> go_slice b i j = Some (take (j - i) (drop i b))"
  by (simp add: go_slice_def)

text \<open>The checks the decoder makes before it touches the fields.\<close>

definition header_ok :: "byte list \<Rightarrow> u16 \<Rightarrow> u16 \<Rightarrow> u16 \<Rightarrow> bool" where
  "header_ok b pl al fl \<longleftrightarrow>
     take 6 b = le_put 2 pl @ le_put 2 al @ le_put 2 fl \<and> unat pl = length b \<and>
     64 + unat al + unat fl = unat pl \<and> unat fl mod 10 = 0"

lemma take_six: "6 \<le> length b \<Longrightarrow> take 6 b = take 2 b @ take 2 (drop 2 b) @ take 2 (drop 4 b)"
  using take_add [of 2 2 b] take_add [of 4 2 b] by simp

lemma decode_fields_total:
  assumes ok: "header_ok b pl al fl"
  obtains p g where "decode_fields b pl al fl = Some p" "wf_packet p" "b = wire p g"
proof -
  define n where "n = length b"
  have n: "unat pl = n" "64 + unat al + unat fl = n" using ok by (auto simp: header_ok_def n_def)
  have hd6: "take 6 b = le_put 2 pl @ le_put 2 al @ le_put 2 fl" using ok by (simp add: header_ok_def)
  have ptr: "64 \<le> unat pl" using n by simp
  obtain m where m: "unat fl = 10 * m" using ok by (auto simp: header_ok_def)
  let ?seg = "take (10 * m) (drop (6 + unat al) b)"
  obtain fs where fs: "decode_frequencies ?seg = Some fs" "length fs = m"
    "concat (map freq_bytes fs) = ?seg"
    using decode_frequencies_total [of ?seg m] n m by (auto simp: n_def)
  define p where "p = \<lparr>PacketLength = pl, AudioSegmentLength = al,
      FrequenciesSegmentLength = fl, AudioBytes = take (unat al) (drop 6 b), Frequencies = fs,
      UnitID = le_get (take 4 (drop (n - 57) b)), PacketID = le_get (take 8 (drop (n - 53) b)),
      Hops = b ! (n - 45), RelayGUID = take 22 (drop (n - 44) b),
      OriginGUID = take 22 (drop (n - 22) b)\<rparr>"
  have w: "unat (6 + al) = 6 + unat al"
  proof -
    have "6 + unat al < 65536" using u16_bound [of pl] n by simp
    then show ?thesis by (simp add: unat_word_ariths)
  qed
  have "decode_fields b pl al fl = Some p"
    unfolding decode_fields_def Let_def fixed_pointers [OF ptr] w headerSegmentLength_def
    using n m fs by (simp add: go_slice_some go_index_def p_def flip: n_def)
  moreover have wf: "wf_packet p"
    using n m fs by (simp add: p_def wf_packet_def flip: n_def)
  moreover have "b = wire p (b ! (n - 58))"
  proof -
    have U: "le_put 4 (UnitID p) = take 4 (drop (n - 57) b)"
      using le_put_get [of "take 4 (drop (n - 57) b)", where 'a = 32] n
      by (simp add: p_def flip: n_def)
    have P: "le_put 8 (PacketID p) = take 8 (drop (n - 53) b)"
      using le_put_get [of "take 8 (drop (n - 53) b)", where 'a = 64] n
      by (simp add: p_def flip: n_def)
    have split: "drop i b = take k (drop i b) @ drop (i + k) b" for i k
      by (metis append_take_drop_id drop_drop add.commute)
    have one: "i < n \<Longrightarrow> drop i b = b ! i # drop (Suc i) b" for i
      by (simp add: Cons_nth_drop_Suc n_def)
    have i: "6 + unat al + 10 * m = n - 58" "Suc (n - 58) = n - 57" "n - 57 + 4 = n - 53"
      "n - 53 + 8 = n - 45" "Suc (n - 45) = n - 44" "n - 44 + 22 = n - 22" "n - 22 + 22 = n"
      "n - 58 < n" "n - 45 < n"
      using n m by auto
    have "b = take 6 b @ take (unat al) (drop 6 b) @ ?seg @ b ! (n - 58)
        # take 4 (drop (n - 57) b) @ take 8 (drop (n - 53) b) @ b ! (n - 45)
        # take 22 (drop (n - 44) b) @ take 22 (drop (n - 22) b)"
    proof -
      have "b = take 6 b @ drop 6 b" by simp
      also have "drop 6 b = take (unat al) (drop 6 b) @ ?seg @ drop (n - 58) b"
        using split [of 6 "unat al"] split [of "6 + unat al" "10 * m"] i by simp
      also have "drop (n - 58) b = b ! (n - 58) # take 4 (drop (n - 57) b) @ drop (n - 53) b"
        using one [of "n - 58"] split [of "n - 57" 4] i by simp
      also have "drop (n - 53) b = take 8 (drop (n - 53) b) @ b ! (n - 45) # drop (n - 44) b"
        using one [of "n - 45"] split [of "n - 53" 8] i by simp
      also have "drop (n - 44) b = take 22 (drop (n - 44) b) @ take 22 (drop (n - 22) b)"
        using split [of "n - 44" 22] split [of "n - 22" 22] i by (simp add: n_def)
      finally show ?thesis by simp
    qed
    then show ?thesis
      unfolding wire_def U P using hd6 fs by (simp add: p_def)
  qed
  ultimately show ?thesis using that by blast
qed

section \<open>Properties of the codec\<close>

lemma NewPacket_fields:
  fixes uid pid hops relay origin
  assumes "length audio \<le> 65535" and "10 * length fs \<le> 65535"
  defines "p \<equiv> NewPacket audio fs uid pid hops relay origin"
  shows "unat (PacketLength p) = (64 + length audio + 10 * length fs) mod 65536"
    and "unat (AudioSegmentLength p) = length audio"
    and "unat (FrequenciesSegmentLength p) = 10 * length fs"
    and "AudioBytes p = audio" and "Frequencies p = fs"
    and "RelayGUID p = relay" and "OriginGUID p = origin" and "PacketID p = pid"
proof -
  have pl: "PacketLength p = of_nat (64 + length audio + 10 * length fs)"
    using assms(1,2) by (simp add: p_def NewPacket_def Let_def packet_consts mult.commute)
  show "unat (PacketLength p) = (64 + length audio + 10 * length fs) mod 65536"
    unfolding pl unsigned_of_nat take_bit_eq_mod by simp
  show "unat (AudioSegmentLength p) = length audio"
    "unat (FrequenciesSegmentLength p) = 10 * length fs"
    "AudioBytes p = audio" "Frequencies p = fs" "RelayGUID p = relay" "OriginGUID p = origin"
    "PacketID p = pid"
    using assms(1,2) unat_of_nat_u16 [of "length fs * 10"]
    by (simp_all add: p_def NewPacket_def Let_def packet_consts unat_of_nat_u16 mult.commute
        del: of_nat_mult)
qed

lemma NewPacket_wf:
  assumes "64 + length audio + 10 * length fs \<le> 65535" and "length relay = 22" and "length origin = 22"
  shows "wf_packet (NewPacket audio fs unit_id pid hops relay origin)"
  using assms by (simp add: wf_packet_def NewPacket_fields)

lemma decode_body_cases:
  assumes "6 \<le> length b"
  obtains pl al fl where "take 6 b = le_put 2 (pl :: u16) @ le_put 2 (al :: u16) @ le_put 2 (fl :: u16)"
    and "decode_body b =
      (if unat pl \<noteq> length b then Some (Inl (LengthMismatch (unat pl) (length b)))
       else if 64 + unat al + unat fl \<noteq> unat pl
       then Some (Inl (SegmentsMismatch (64 + unat al + unat fl) (unat pl)))
       else if unat fl mod 10 \<noteq> 0 then Some (Inl (FrequenciesNotMultiple (unat fl)))
       else map_option Inr (decode_fields b pl al fl))"
proof -
  let ?pl = "le_get (take 2 b) :: u16" and ?al = "le_get (take 2 (drop 2 b)) :: u16"
    and ?fl = "le_get (take 2 (drop 4 b)) :: u16"
  have "le_put 2 ?pl = take 2 b" "le_put 2 ?al = take 2 (drop 2 b)" "le_put 2 ?fl = take 2 (drop 4 b)"
    using assms le_put_get [of "take 2 b", where 'a = 16]
      le_put_get [of "take 2 (drop 2 b)", where 'a = 16]
      le_put_get [of "take 2 (drop 4 b)", where 'a = 16] by simp_all
  then show ?thesis
    using assms
    by (intro that [of ?pl ?al ?fl])
      (simp_all add: take_six decode_body_def go_slice_some packet_consts Let_def ac_simps)
qed

text \<open>C32. A packet built by \<open>NewPacket\<close> from two 22-byte GUIDs and segments that fit a
  datagram encodes without a panic, to exactly \<open>PacketLength\<close> bytes, and decoding those
  bytes gives back the same packet, field by field.\<close>

theorem NewPacket_Encode_Decode:
  assumes "64 + length audio + 10 * length fs \<le> 65535"
    and "length relay = GUIDLength" and "length origin = GUIDLength"
    and p_def: "p = NewPacket audio fs unit_id pid hops relay origin"
  shows "\<exists>b. Encode p = Some b \<and> length b = 64 + length audio + 10 * length fs \<and> Decode b = Inr p"
proof -
  have wf: "wf_packet p"
    unfolding p_def by (rule NewPacket_wf) (use assms in \<open>simp_all add: packet_consts\<close>)
  then have "length (wire p 0) = 64 + length audio + 10 * length fs"
    using assms(1) by (simp add: length_wire p_def NewPacket_fields)
  then show ?thesis using Encode_wire [OF wf] Decode_wire [OF wf] by blast
qed

theorem NewPacket_Encode_Decode_witness:
  "\<exists>b. Encode (NewPacket [1, 2, 3] [\<lparr>freq_bits = 7, Modulation = 1, Encryption = 0\<rparr>] 5 9 0
          (replicate 22 65) (replicate 22 66)) = Some b \<and> length b = 77 \<and>
       Decode b = Inr (NewPacket [1, 2, 3] [\<lparr>freq_bits = 7, Modulation = 1, Encryption = 0\<rparr>] 5 9 0
          (replicate 22 65) (replicate 22 66))"
  using NewPacket_Encode_Decode [of "[1, 2, 3]" "[\<lparr>freq_bits = 7, Modulation = 1, Encryption = 0\<rparr>]"
      "replicate 22 65" "replicate 22 66" _ 5 9 0]
  by (simp add: GUIDLength_def)

lemma Decode_accepts:
  assumes "Decode b = Inr p"
  shows "wf_packet p \<and> Encode p = Some (b[length b - 58 := 0])"
proof -
  have "6 \<le> length b"
    using assms by (auto simp: Decode_def decode_body_def go_slice_def split: if_splits)
  then obtain pl al fl where h: "take 6 b = le_put 2 (pl :: u16) @ le_put 2 (al :: u16) @ le_put 2 (fl :: u16)"
    and d: "decode_body b =
      (if unat pl \<noteq> length b then Some (Inl (LengthMismatch (unat pl) (length b)))
       else if 64 + unat al + unat fl \<noteq> unat pl
       then Some (Inl (SegmentsMismatch (64 + unat al + unat fl) (unat pl)))
       else if unat fl mod 10 \<noteq> 0 then Some (Inl (FrequenciesNotMultiple (unat fl)))
       else map_option Inr (decode_fields b pl al fl))"
    by (rule decode_body_cases)
  then have ok: "header_ok b pl al fl"
    using assms by (auto simp: Decode_def header_ok_def split: if_splits)
  obtain q g where q: "decode_fields b pl al fl = Some q" "wf_packet q" "b = wire q g"
    by (rule decode_fields_total [OF ok])
  have "q = p" using assms q(3) Decode_wire [OF q(2), of g] by simp
  moreover have "(wire q g)[length (wire q g) - 58 := 0] = wire q 0"
    using q(2) by (simp add: wire_def list_update_append wf_packet_def)
  ultimately show ?thesis using q Encode_wire by simp
qed

text \<open>C33. Whatever the decoder accepts is well formed (all three length headers agree with
  the segments, both GUIDs are 22 bytes) and re-encodes to the same datagram, up to the one
  padding byte before the fixed segment, which the encoder always writes as zero.\<close>

theorem Decode_accepts_only_wire:
  assumes "Decode b = Inr p"
  shows "wf_packet p \<and> Encode p = Some (b[length b - 58 := 0])"
  using Decode_accepts [OF assms] .

theorem Decode_accepts_only_wire_witness:
  "wf_packet (NewPacket [1] [] 5 9 0 (replicate 22 65) (replicate 22 66)) \<and>
   Encode (NewPacket [1] [] 5 9 0 (replicate 22 65) (replicate 22 66)) =
     Some ((wire (NewPacket [1] [] 5 9 0 (replicate 22 65) (replicate 22 66)) 7)
       [length (wire (NewPacket [1] [] 5 9 0 (replicate 22 65) (replicate 22 66)) 7) - 58 := 0])"
  by (rule Decode_accepts_only_wire [OF Decode_wire [OF NewPacket_wf]]) simp_all

text \<open>The deferred \<open>recover\<close> of the decoder is needed only for datagrams too short to
  hold the three length headers: on every other input, however malformed, no slice or index
  of the decoder is out of range.\<close>

theorem Decode_recovers_iff_short: "Decode b = Inl Recovered \<longleftrightarrow> length b < headerSegmentLength"
proof (cases "6 \<le> length b")
  case True
  then obtain pl al fl where h: "take 6 b = le_put 2 (pl :: u16) @ le_put 2 (al :: u16) @ le_put 2 (fl :: u16)"
    and d: "decode_body b =
      (if unat pl \<noteq> length b then Some (Inl (LengthMismatch (unat pl) (length b)))
       else if 64 + unat al + unat fl \<noteq> unat pl
       then Some (Inl (SegmentsMismatch (64 + unat al + unat fl) (unat pl)))
       else if unat fl mod 10 \<noteq> 0 then Some (Inl (FrequenciesNotMultiple (unat fl)))
       else map_option Inr (decode_fields b pl al fl))"
    by (rule decode_body_cases)
  have "header_ok b pl al fl \<Longrightarrow> \<exists>p. decode_fields b pl al fl = Some p"
    by (metis decode_fields_total)
  then have "Decode b \<noteq> Inl Recovered"
    using h by (auto simp: Decode_def d header_ok_def)
  with True show ?thesis by (simp add: packet_consts)
next
  case False
  then show ?thesis
    by (auto simp: Decode_def decode_body_def go_slice_def packet_consts)
qed

section \<open>Length overflow\<close>

text \<open>
  The constructor truncates each segment to \<open>MaxUint16\<close> bytes but adds their lengths in
  \<open>uint16\<close>. When the whole datagram does not fit, the wrapped total allocates a buffer that
  is too small and the encoder runs out of it.
\<close>

lemma encode_frequencies_too_small:
  "fs \<noteq> [] \<Longrightarrow> length b < base + 10 * (i + length fs) \<Longrightarrow> encode_frequencies base i fs b = None"
proof (induction fs arbitrary: i b)
  case Nil
  then show ?case by simp
next
  case (Cons f fs)
  show ?case
  proof (cases "base + 10 * Suc i \<le> length b")
    case False
    then show ?thesis
      by (auto simp: go_copy_def go_store_def Let_def bind_eq_None_conv overwrite_def)
  next
    case True
    with Cons.prems have "fs \<noteq> []" by auto
    moreover have "length b < base + 10 * (Suc i + length fs)" using Cons.prems by simp
    ultimately have "length b' = length b \<Longrightarrow> encode_frequencies base (Suc i) fs b' = None" for b'
      using Cons.IH by simp
    then show ?thesis
      by (auto simp: Let_def intro!: bind_NoneI dest!: go_copy_length go_store_length)
  qed
qed

lemma Encode_too_small:
  assumes "unat (PacketLength p) < 6 + length (AudioBytes p) + 10 * length (Frequencies p)"
    and "unat (AudioSegmentLength p) = length (AudioBytes p)"
  shows "Encode p = None"
proof -
  let ?n = "unat (PacketLength p)"
  have e: "encode_frequencies (headerSegmentLength + unat (AudioSegmentLength p)) 0 (Frequencies p) b
      = None" if "length b = ?n" "6 + length (AudioBytes p) \<le> length b" for b
    using that assms by (intro encode_frequencies_too_small) (auto simp: packet_consts)
  have audio: "6 + length (AudioBytes p) \<le> length b \<and> length b' = length b"
    if "go_copy b headerSegmentLength (headerSegmentLength + length (AudioBytes p)) s = Some b'" for b b' s
    using that go_copy_length [OF that] by (simp add: go_copy_def packet_consts split: if_splits)
  have chain: "encode_frequencies (headerSegmentLength + unat (AudioSegmentLength p)) 0
      (Frequencies p) b4 = None"
    if "go_copy (replicate ?n 0) 0 2 s1 = Some b1" and "go_copy b1 2 4 s2 = Some b2"
      and "go_copy b2 4 6 s3 = Some b3" and "go_copy b3 headerSegmentLength
        (headerSegmentLength + length (AudioBytes p)) (AudioBytes p) = Some b4" for b1 b2 b3 b4 s1 s2 s3
    using that [THEN go_copy_length] audio [OF that(4)] by (intro e) auto
  show ?thesis
    unfolding Encode_def Let_def by (intro bind_NoneI) (metis chain option.distinct(1))
qed

text \<open>A packet whose segments each fit but whose total length exceeds 65535 cannot be
  sent: the \<open>uint16\<close> sum in the constructor wraps, and \<open>Encode\<close> panics on the buffer of the
  wrapped length.\<close>

theorem NewPacket_overflow_panics:
  assumes "length audio \<le> MaxUint16" and "10 * length fs \<le> MaxUint16"
    and "MaxUint16 < 64 + length audio + 10 * length fs"
  shows "Encode (NewPacket audio fs unit_id pid hops relay origin) = None"
proof (rule Encode_too_small)
  let ?p = "NewPacket audio fs unit_id pid hops relay origin"
  let ?t = "64 + length audio + 10 * length fs"
  have "?t mod 65536 \<le> ?t - 65536"
    using assms(3) by (simp add: packet_consts le_mod_geq mod_less_eq_dividend)
  with assms show "unat (PacketLength ?p) < 6 + length (AudioBytes ?p) + 10 * length (Frequencies ?p)"
    by (simp add: NewPacket_fields packet_consts)
  show "unat (AudioSegmentLength ?p) = length (AudioBytes ?p)"
    using assms by (simp add: NewPacket_fields packet_consts)
qed

theorem NewPacket_overflow_panics_witness:
  "Encode (NewPacket (replicate 65472 0) [] 5 9 0 (replicate 22 65) (replicate 22 66)) = None"
  using NewPacket_overflow_panics [of "replicate 65472 0" "[]"] by (simp add: packet_consts)

end
