(* ===== verification/SrsTypes.thy ===== *)
theory SrsTypes
  imports VoicePacket Coalitions Complex_Main
begin

text \<open>
  The data of the SRS protocol (\<open>pkg/simpleradio/types\<close>): radios, transponders, client
  information, messages and server settings. A \<open>float64\<close> is a real number, so rounding, NaN
  and infinities are outside the model. A GUID is its bytes.
\<close>

type_synonym GUID = "byte list"
type_synonym Modulation = byte

definition ModulationAM :: Modulation where "ModulationAM = 0"
definition ModulationFM :: Modulation where "ModulationFM = 1"

record Radio =
  radio_Frequency :: real
  radio_Modulation :: Modulation
  IsEncrypted :: bool
  EncryptionKey :: byte
  GuardFrequency :: real
  ShouldRetransmit :: bool

definition Radio_IsSameFrequency :: "Radio \<Rightarrow> Radio \<Rightarrow> bool" where
  "Radio_IsSameFrequency r other =
     (let doesFrequencyMatch = \<bar>radio_Frequency r - radio_Frequency other\<bar> \<le> 500;
          doesModulationMatch = radio_Modulation r = radio_Modulation other;
          doesEncryptionMatch =
            (\<not> IsEncrypted r \<and> \<not> IsEncrypted other)
            \<or> (IsEncrypted r \<and> IsEncrypted other \<and> EncryptionKey r = EncryptionKey other)
      in doesFrequencyMatch \<and> doesModulationMatch \<and> doesEncryptionMatch)"

section \<open>Transponder\<close>

datatype IFFControlMode = IFFControlModeCockpit | IFFControlModeOverlay | IFFControlModeDisabled
datatype IFFStatus = IFFStatusOff | IFFStatusNormal | IFFStatusIdent

definition IFFModeDisabled :: int where "IFFModeDisabled = -1"
definition IFFMicDisabled :: int where "IFFMicDisabled = -1"

record Transponder =
  ControlMode :: IFFControlMode
  Status :: IFFStatus
  Mode1 :: int
  Mode2 :: int
  Mode3 :: int
  Mode4 :: bool
  Mic :: int

definition NewIFF :: Transponder where
  "NewIFF = \<lparr>ControlMode = IFFControlModeDisabled, Status = IFFStatusOff, Mode1 = IFFModeDisabled,
     Mode2 = IFFModeDisabled, Mode3 = IFFModeDisabled, Mode4 = False, Mic = IFFMicDisabled\<rparr>"

record Ambient =
  Volume :: real
  ambient_Type :: string

definition NewAmbient :: Ambient where
  "NewAmbient = \<lparr>Volume = 1, ambient_Type = []\<rparr>"

section \<open>Clients\<close>

record Position =
  Latitude :: real
  Longitude :: real
  Altitude :: real

record RadioInfo =
  Radios :: "Radio list"
  Unit :: string
  radio_UnitID :: u64
  IFF :: Transponder
  AmbientAudio :: Ambient

definition IsOnFrequency :: "RadioInfo \<Rightarrow> RadioInfo \<Rightarrow> bool" where
  "IsOnFrequency i other \<longleftrightarrow>
     list_ex (\<lambda>thisRadio. list_ex (Radio_IsSameFrequency thisRadio) (Radios other)) (Radios i)"

record ClientInfo =
  client_GUID :: GUID
  client_Name :: string
  Seat :: int
  client_Coalition :: Coalition
  AllowRecording :: bool
  client_RadioInfo :: RadioInfo
  client_Position :: "Position option"

definition IsSpectator :: "Coalition \<Rightarrow> bool" where
  "IsSpectator c \<longleftrightarrow> c \<noteq> Red \<and> c \<noteq> Blue"

section \<open>Messages\<close>

datatype MessageType =
    MessageUpdate | MessagePing | MessageSync | MessageRadioUpdate | MessageServerSettings
  | MessageClientDisconnect | MessageVersionMismatch | MessageExternalAWACSModePassword
  | MessageExternalAWACSModeDisconnect | MessageUnrecognized int

definition MessageType_of_int :: "int \<Rightarrow> MessageType" where
  "MessageType_of_int i =
     (if 0 \<le> i \<and> i < 9
      then [MessageUpdate, MessagePing, MessageSync, MessageRadioUpdate, MessageServerSettings,
            MessageClientDisconnect, MessageVersionMismatch, MessageExternalAWACSModePassword,
            MessageExternalAWACSModeDisconnect] ! nat i
      else MessageUnrecognized i)"

record Message =
  Version :: string
  message_Client :: "ClientInfo option"
  message_Clients :: "ClientInfo list"
  ServerSettings :: "string \<rightharpoonup> string"
  message_EAMPassword :: string
  message_Type :: MessageType

definition CoalitionAudioSecurity :: string where
  "CoalitionAudioSecurity = ''COALITION_AUDIO_SECURITY''"

definition ExternalAWACSMode :: string where
  "ExternalAWACSMode = ''EXTERNAL_AWACS_MODE''"

record ClientConfiguration =
  config_ClientName :: string
  config_EAMPassword :: string
  config_Coalition :: Coalition
  config_Radios :: "Radio list"
  config_Mute :: bool

section \<open>Matching radios\<close>

lemma Radio_IsSameFrequency_sym: "Radio_IsSameFrequency r s = Radio_IsSameFrequency s r"
  by (auto simp: Radio_IsSameFrequency_def abs_minus_commute)

lemma Radio_IsSameFrequency_refl: "Radio_IsSameFrequency r r"
  by (simp add: Radio_IsSameFrequency_def)

lemma IsOnFrequency_sym: "IsOnFrequency i j = IsOnFrequency j i"
  unfolding IsOnFrequency_def list_ex_iff using Radio_IsSameFrequency_sym by blast

lemma IsOnFrequency_iff:
  "IsOnFrequency i j \<longleftrightarrow> (\<exists>r \<in> set (Radios i). \<exists>s \<in> set (Radios j). Radio_IsSameFrequency r s)"
  by (simp add: IsOnFrequency_def list_ex_iff)

end
