(* ===== verification/SrsClient.thy ===== *)
theory SrsClient
  imports SrsTypes Store
begin

text \<open>
  The SRS client's own state and its data connection: \<open>client.go\<close>, \<open>sync.go\<close>,
  \<open>message.go\<close>, \<open>frequency.go\<close> and the sending half of \<open>ping.go\<close> of
  \<open>pkg/simpleradio\<close>. The TCP and UDP connections are logs of what is written to them; the
  parameter \<open>tcp\<close> says whether marshalling and writing a message succeed.
\<close>

section \<open>State\<close>

text \<open>The receiver of one radio (\<open>receive.go\<close>); times are nanoseconds, 0 the zero time.\<close>

record receiver =
  buffer :: "Packet list"
  origin :: GUID
  deadline :: int
  rx_packetNumber :: u64

definition empty_receiver :: receiver where
  "empty_receiver = \<lparr>buffer = [], origin = [], deadline = 0, rx_packetNumber = 0\<rparr>"

record Client =
  externalAWACSModePassword :: string
  clientInfo :: ClientInfo
  clients :: "(GUID, ClientInfo) gomap"
  secureCoalitionRadios :: bool
  receivers :: "(Radio, receiver) gomap"
  tx_packetNumber :: u64
  mute :: bool
  lastPing :: int
  tcp_log :: "Message list"
  udp_log :: "byte list list"

definition NewClient :: "GUID \<Rightarrow> int \<Rightarrow> ClientConfiguration \<Rightarrow> Client" where
  "NewClient guid now config =
     \<lparr>externalAWACSModePassword = config_EAMPassword config,
      clientInfo = \<lparr>client_GUID = guid, client_Name = config_ClientName config, Seat = 0,
        client_Coalition = config_Coalition config, AllowRecording = True,
        client_RadioInfo = \<lparr>Radios = config_Radios config, Unit = ''External AWACS'',
          radio_UnitID = 100000002, IFF = NewIFF, AmbientAudio = NewAmbient\<rparr>,
        client_Position = Some \<lparr>Latitude = 0, Longitude = 0, Altitude = 0\<rparr>\<rparr>,
      clients = [], secureCoalitionRadios = False,
      receivers = fold (\<lambda>radio. AList.update radio empty_receiver) (config_Radios config) [],
      tx_packetNumber = 1, mute = config_Mute config, lastPing = now, tcp_log = [], udp_log = []\<rparr>"

section \<open>Sending messages\<close>

definition newMessage :: "Client \<Rightarrow> MessageType \<Rightarrow> Message" where
  "newMessage c t = \<lparr>Version = ''2.1.0.2'', message_Client = Some (clientInfo c), message_Clients = [],
     ServerSettings = Map.empty, message_EAMPassword = [], message_Type = t\<rparr>"

definition Send :: "(Message \<Rightarrow> bool) \<Rightarrow> Message \<Rightarrow> Client \<Rightarrow> string + Client" where
  "Send tcp message c =
     (if Version message = [] then Inl ''message Version is required''
      else if \<not> tcp message then Inl ''failed to write message''
      else Inr (c\<lparr>tcp_log := tcp_log c @ [message]\<rparr>))"

definition sync :: "(Message \<Rightarrow> bool) \<Rightarrow> Client \<Rightarrow> string + Client" where
  "sync tcp c = Send tcp (newMessage c MessageSync) c"

definition updateRadios :: "(Message \<Rightarrow> bool) \<Rightarrow> Client \<Rightarrow> string + Client" where
  "updateRadios tcp c = Send tcp (newMessage c MessageRadioUpdate) c"

definition connectExternalAWACSMode :: "(Message \<Rightarrow> bool) \<Rightarrow> Client \<Rightarrow> string + Client" where
  "connectExternalAWACSMode tcp c =
     Send tcp ((newMessage c MessageExternalAWACSModePassword)
       \<lparr>message_EAMPassword := externalAWACSModePassword c\<rparr>) c"

text \<open>A failed TCP ping is only logged; the UDP ping is sent whatever happens.\<close>

definition SendPing :: "(Message \<Rightarrow> bool) \<Rightarrow> Client \<Rightarrow> Client" where
  "SendPing tcp c =
     (let c = (case Send tcp (newMessage c MessagePing) c of Inl _ \<Rightarrow> c | Inr c' \<Rightarrow> c')
      in c\<lparr>udp_log := udp_log c @ [client_GUID (clientInfo c)]\<rparr>)"

definition receiver_reset :: "receiver \<Rightarrow> receiver" where
  "receiver_reset r = r\<lparr>buffer := [], origin := [], deadline := 0, rx_packetNumber := 0\<rparr>"

definition initialize :: "(Message \<Rightarrow> bool) \<Rightarrow> Client \<Rightarrow> string + Client" where
  "initialize tcp c =
     (case sync tcp c of Inl e \<Rightarrow> Inl e
      | Inr c \<Rightarrow> (case connectExternalAWACSMode tcp c of Inl e \<Rightarrow> Inl e
         | Inr c \<Rightarrow> Inr (SendPing tcp
             (c\<lparr>receivers := map (\<lambda>(radio, r). (radio, receiver_reset r)) (receivers c)\<rparr>))))"

text \<open>One tick of \<open>autoheal\<close>: \<open>reconnect\<close> says whether the reconnection succeeds.\<close>

definition pingInterval :: int where "pingInterval = 15 * 10 ^ 9"

definition autoheal_tick :: "(Message \<Rightarrow> bool) \<Rightarrow> bool \<Rightarrow> int \<Rightarrow> Client \<Rightarrow> Client" where
  "autoheal_tick tcp reconnect now c =
     (if now - lastPing c > pingInterval * 3 \<and> reconnect
      then (case initialize tcp c of Inl _ \<Rightarrow> c | Inr c \<Rightarrow> c\<lparr>lastPing := now\<rparr>)
      else c)"

section \<open>Receiving messages\<close>

definition syncClient :: "ClientInfo \<Rightarrow> Client \<Rightarrow> Client" where
  "syncClient other c =
     (if client_GUID other = client_GUID (clientInfo c) then c
      else if Radios (client_RadioInfo other) = [] then c
      else let isSameCoalition = client_Coalition (clientInfo c) = client_Coalition other
                 \<or> IsSpectator (client_Coalition other);
               isOnFrequency = IsOnFrequency (client_RadioInfo (clientInfo c)) (client_RadioInfo other)
           in if isSameCoalition \<and> isOnFrequency
              then c\<lparr>clients := AList.update (client_GUID other) other (clients c)\<rparr>
              else c\<lparr>clients := AList.delete (client_GUID other) (clients c)\<rparr>)"

definition syncClients :: "ClientInfo list \<Rightarrow> Client \<Rightarrow> Client" where
  "syncClients others c = fold syncClient others c"

definition removeClient :: "ClientInfo \<Rightarrow> Client \<Rightarrow> Client" where
  "removeClient info c = c\<lparr>clients := AList.delete (client_GUID info) (clients c)\<rparr>"

definition updateServerSettings :: "Message \<Rightarrow> Client \<Rightarrow> Client" where
  "updateServerSettings message c =
     (case ServerSettings message CoalitionAudioSecurity of
        None \<Rightarrow> c
      | Some enabled \<Rightarrow> c\<lparr>secureCoalitionRadios := (ToLower enabled = ''true'')\<rparr>)"

definition handleMessage :: "(Message \<Rightarrow> bool) \<Rightarrow> Message \<Rightarrow> Client \<Rightarrow> Client" where
  "handleMessage tcp message c =
     (case message_Type message of
        MessagePing \<Rightarrow> c
      | MessageServerSettings \<Rightarrow> updateServerSettings message c
      | MessageVersionMismatch \<Rightarrow> c
      | MessageExternalAWACSModeDisconnect \<Rightarrow> c
      | MessageSync \<Rightarrow> syncClients (message_Clients message) c
      | MessageUpdate \<Rightarrow> (case message_Client message of None \<Rightarrow> c | Some i \<Rightarrow> syncClient i c)
      | MessageRadioUpdate \<Rightarrow> (case message_Client message of None \<Rightarrow> c | Some i \<Rightarrow> syncClient i c)
      | MessageClientDisconnect \<Rightarrow>
          (case message_Client message of None \<Rightarrow> c | Some i \<Rightarrow> removeClient i c)
      | MessageExternalAWACSModePassword \<Rightarrow>
          (case message_Client message of None \<Rightarrow> c
           | Some i \<Rightarrow> if client_Coalition i = client_Coalition (clientInfo c)
                       then (case updateRadios tcp c of Inl _ \<Rightarrow> c | Inr c' \<Rightarrow> c') else c)
      | MessageUnrecognized _ \<Rightarrow> c)"

section \<open>Peers on frequency\<close>

definition isBot :: "ClientInfo \<Rightarrow> bool" where
  "isBot client = HasSuffix (client_Name client) ''[BOT]''"

definition on_frequency :: "Client \<Rightarrow> ClientInfo \<Rightarrow> bool" where
  "on_frequency c client = IsOnFrequency (client_RadioInfo (clientInfo c)) (client_RadioInfo client)"

definition ClientsOnFrequency :: "Client \<Rightarrow> nat" where
  "ClientsOnFrequency c = length (filter (\<lambda>p. on_frequency c (snd p)) (clients c))"

definition HumansOnFrequency :: "Client \<Rightarrow> nat" where
  "HumansOnFrequency c = length (filter (\<lambda>p. on_frequency c (snd p) \<and> \<not> isBot (snd p)) (clients c))"

definition BotsOnFrequency :: "Client \<Rightarrow> nat" where
  "BotsOnFrequency c = length (filter (\<lambda>p. on_frequency c (snd p) \<and> isBot (snd p)) (clients c))"

definition peer_IsOnFrequency :: "Client \<Rightarrow> string \<Rightarrow> bool" where
  "peer_IsOnFrequency c name = list_ex (\<lambda>(_, p). client_Name p = name \<and> on_frequency c p) (clients c)"

definition getPeerName :: "Client \<Rightarrow> GUID \<Rightarrow> string \<times> bool" where
  "getPeerName c guid = (case map_of (clients c) guid of Some info \<Rightarrow> (client_Name info, True)
                         | None \<Rightarrow> ([], False))"

section \<open>The peer table\<close>

text \<open>
  What the table promises: only other clients, of our coalition or spectators, with a radio
  on one of our frequencies, under their own GUID.
\<close>

definition is_peer :: "ClientInfo \<Rightarrow> GUID \<Rightarrow> ClientInfo \<Rightarrow> bool" where
  "is_peer self guid p \<longleftrightarrow>
     client_GUID p = guid \<and> guid \<noteq> client_GUID self \<and>
     (client_Coalition p = client_Coalition self \<or> IsSpectator (client_Coalition p)) \<and>
     IsOnFrequency (client_RadioInfo self) (client_RadioInfo p)"

definition peers_ok :: "Client \<Rightarrow> bool" where
  "peers_ok c \<longleftrightarrow> gomap_ok (clients c) \<and> gomap.holds (is_peer (clientInfo c)) (clients c)"

lemma syncClient_cases:
  obtains (same) "syncClient other c = c"
  | (stored) "syncClient other c = c\<lparr>clients := AList.update (client_GUID other) other (clients c)\<rparr>"
      "is_peer (clientInfo c) (client_GUID other) other"
  | (deleted) "syncClient other c = c\<lparr>clients := AList.delete (client_GUID other) (clients c)\<rparr>"
proof (cases "client_GUID other = client_GUID (clientInfo c) \<or> Radios (client_RadioInfo other) = []")
  case True
  then have "syncClient other c = c" by (auto simp: syncClient_def)
  then show ?thesis by (rule same)
next
  case False
  let ?q = "(client_Coalition (clientInfo c) = client_Coalition other
      \<or> IsSpectator (client_Coalition other))
    \<and> IsOnFrequency (client_RadioInfo (clientInfo c)) (client_RadioInfo other)"
  show ?thesis
  proof (cases ?q)
    case True
    then have "is_peer (clientInfo c) (client_GUID other) other" using False by (auto simp: is_peer_def)
    moreover have "syncClient other c = c\<lparr>clients := AList.update (client_GUID other) other (clients c)\<rparr>"
      using False True by (simp add: syncClient_def)
    ultimately show ?thesis by (intro stored)
  next
    case no: False
    have "syncClient other c = c\<lparr>clients := AList.delete (client_GUID other) (clients c)\<rparr>"
      unfolding syncClient_def Let_def using False no by auto
    then show ?thesis by (rule deleted)
  qed
qed

lemma syncClient_peers_ok [inv_intros]: "peers_ok c \<Longrightarrow> peers_ok (syncClient other c)"
  by (cases rule: syncClient_cases [of other c])
    (auto simp: peers_ok_def gomap.ok_put gomap.ok_del gomap.holds_put gomap.holds_del)

lemma removeClient_peers_ok [inv_intros]: "peers_ok c \<Longrightarrow> peers_ok (removeClient info c)"
  by (auto simp: removeClient_def peers_ok_def gomap.ok_del gomap.holds_del)

lemma syncClients_peers_ok [inv_intros]: "peers_ok c \<Longrightarrow> peers_ok (syncClients others c)"
  unfolding syncClients_def by (induction others arbitrary: c) (simp_all add: syncClient_peers_ok)

lemma peers_ok_cong:
  "clients c' = clients c \<Longrightarrow> clientInfo c' = clientInfo c \<Longrightarrow> peers_ok c' = peers_ok c"
  by (simp add: peers_ok_def)

lemma syncClient_frame [simp]:
  "clientInfo (syncClient other c) = clientInfo c" "receivers (syncClient other c) = receivers c"
  "secureCoalitionRadios (syncClient other c) = secureCoalitionRadios c"
  by (simp_all add: syncClient_def Let_def)

lemma syncClients_frame [simp]:
  "clientInfo (syncClients others c) = clientInfo c" "receivers (syncClients others c) = receivers c"
  unfolding syncClients_def by (induction others arbitrary: c) simp_all

lemma Send_frame:
  "Send tcp m c = Inr c' \<Longrightarrow> clients c' = clients c \<and> clientInfo c' = clientInfo c \<and> receivers c' = receivers c"
  by (auto simp: Send_def split: if_splits)

lemma updateServerSettings_frame [simp]:
  "clients (updateServerSettings m c) = clients c" "clientInfo (updateServerSettings m c) = clientInfo c"
  "receivers (updateServerSettings m c) = receivers c"
  by (simp_all add: updateServerSettings_def split: option.splits)

lemma handleMessage_peers_ok [inv_intros]: "peers_ok c \<Longrightarrow> peers_ok (handleMessage tcp m c)"
  by (auto simp: handleMessage_def updateRadios_def inv_intros peers_ok_cong [of "updateServerSettings m c" c]
      split: MessageType.split option.split sum.split dest!: Send_frame dest: peers_ok_cong)

lemma handleMessage_frame [simp]:
  "clientInfo (handleMessage tcp m c) = clientInfo c" "receivers (handleMessage tcp m c) = receivers c"
  by (auto simp: handleMessage_def updateRadios_def removeClient_def
      split: MessageType.split option.split sum.split dest!: Send_frame)

lemma NewClient_peers_ok: "peers_ok (NewClient guid now config)"
  by (simp add: peers_ok_def NewClient_def gomap.holds_def)

text \<open>C31. However many messages the server sends, and whatever is in them, the peer table
  holds only other clients, under their own GUID, that share one of our frequencies and are
  of our coalition or spectators.\<close>

theorem peer_table_sound:
  "peers_ok (fold (handleMessage tcp) messages (NewClient guid now config))"
proof -
  have "peers_ok c \<Longrightarrow> peers_ok (fold (handleMessage tcp) messages c)" for c
    by (induction messages arbitrary: c) (simp_all add: handleMessage_peers_ok)
  then show ?thesis by (simp add: NewClient_peers_ok)
qed

text \<open>A client that answers a synchronization by changing to the other coalition, or by
  leaving our frequencies, is no longer a peer afterwards; one that qualifies is.\<close>

theorem syncClient_tracks:
  assumes "peers_ok c" and "client_GUID other \<noteq> client_GUID (clientInfo c)"
    and "Radios (client_RadioInfo other) \<noteq> []"
  shows "map_of (clients (syncClient other c)) (client_GUID other) =
    (if (client_Coalition other = client_Coalition (clientInfo c) \<or> IsSpectator (client_Coalition other))
        \<and> IsOnFrequency (client_RadioInfo (clientInfo c)) (client_RadioInfo other)
     then Some other else None)
    \<and> (\<forall>g. g \<noteq> client_GUID other \<longrightarrow> map_of (clients (syncClient other c)) g = map_of (clients c) g)"
  using assms by (auto simp: syncClient_def Let_def map_of_update map_of_delete)

definition demo_radio :: Radio where
  "demo_radio = \<lparr>radio_Frequency = 251000000, radio_Modulation = ModulationAM, IsEncrypted = False,
     EncryptionKey = 0, GuardFrequency = 0, ShouldRetransmit = False\<rparr>"

definition demo_client :: Client where
  "demo_client = NewClient (replicate 22 1) 0 \<lparr>config_ClientName = ''SkyEye'', config_EAMPassword = [],
     config_Coalition = Blue, config_Radios = [demo_radio], config_Mute = False\<rparr>"

definition demo_peer :: ClientInfo where
  "demo_peer = (clientInfo demo_client)\<lparr>client_GUID := replicate 22 2, client_Name := ''Hitman 1-1''\<rparr>"

lemma demo_peer_qualifies:
  "client_GUID demo_peer \<noteq> client_GUID (clientInfo demo_client)"
  "Radios (client_RadioInfo demo_peer) \<noteq> []"
  "IsOnFrequency (client_RadioInfo (clientInfo demo_client)) (client_RadioInfo demo_peer)"
  "client_Coalition demo_peer = client_Coalition (clientInfo demo_client)"
  by (simp_all add: demo_peer_def demo_client_def NewClient_def IsOnFrequency_def
      Radio_IsSameFrequency_refl)

theorem syncClient_tracks_witness:
  "map_of (clients (syncClient demo_peer demo_client)) (replicate 22 2) = Some demo_peer"
proof -
  have "peers_ok demo_client" by (simp add: demo_client_def NewClient_peers_ok)
  moreover have "client_GUID demo_peer = replicate 22 2" by (simp add: demo_peer_def)
  ultimately show ?thesis
    using syncClient_tracks [of demo_client demo_peer] demo_peer_qualifies by simp
qed

text \<open>Every peer is counted once: clients on frequency are the humans plus the bots, and in
  any state reached from the server's messages they are all the peers.\<close>

theorem peers_counted_once:
  assumes "peers_ok c"
  shows "HumansOnFrequency c + BotsOnFrequency c = ClientsOnFrequency c
    \<and> ClientsOnFrequency c = length (clients c)"
proof -
  have "HumansOnFrequency c + BotsOnFrequency c = ClientsOnFrequency c"
    unfolding HumansOnFrequency_def BotsOnFrequency_def ClientsOnFrequency_def
    by (rule filter_split_length)
  moreover have "filter (\<lambda>p. on_frequency c (snd p)) (clients c) = clients c"
    using gomap.items_holds [of "clients c" "is_peer (clientInfo c)"] assms
    by (auto simp: peers_ok_def is_peer_def on_frequency_def intro!: filter_True)
  ultimately show ?thesis by (simp add: ClientsOnFrequency_def)
qed

theorem peers_counted_once_witness:
  "HumansOnFrequency (syncClient demo_peer demo_client) + BotsOnFrequency (syncClient demo_peer demo_client) = 1"
proof -
  have "peers_ok demo_client" by (simp add: demo_client_def NewClient_peers_ok)
  then have "peers_ok (syncClient demo_peer demo_client)" by (rule syncClient_peers_ok)
  moreover have "length (clients (syncClient demo_peer demo_client)) = 1"
    using demo_peer_qualifies
    by (simp add: syncClient_def Let_def) (simp add: demo_client_def NewClient_def)
  ultimately show ?thesis using peers_counted_once [of "syncClient demo_peer demo_client"] by simp
qed

end
