(* ===== verification/ContactGroups.thy ===== *)
theory ContactGroups
  imports Contacts Encyclopedia SrsClient
begin

text \<open>
  The radar scope (\<open>pkg/radar/radar.go\<close>: its state, declination and track filters), groups of
  contacts (\<open>pkg/radar/group.go\<close>) and how aircraft are gathered into one
  (\<open>pkg/radar/grouping.go\<close>). The main result is that the recursive search finds exactly the
  contacts that can be reached from the first one in hops of less than five nautical miles
  between comparable aircraft, whatever the order in which the database is ranged over.
\<close>

section \<open>The scope\<close>

text \<open>What the radar takes from outside: geometry, calendar, deque, the order of map ranges, fuzzy
  search, the encyclopedia's table, and the bounds and polygons of \<open>orb\<close>.\<close>

record radar_lib =
  lib_geo :: geo_lib
  lib_calendar :: calendar
  lib_push :: frame_push
  lib_order :: range_order
  lib_fuzzy :: fuzzy_search
  lib_lut :: AircraftLUT
  lib_Bound :: "point \<Rightarrow> real \<Rightarrow> point \<Rightarrow> bool"
  lib_PolygonContains :: "point list \<Rightarrow> point \<Rightarrow> bool"

abbreviation lib_units :: "radar_lib \<Rightarrow> units" where
  "lib_units L \<equiv> geo_units (lib_geo L)"

text \<open>The state of \<open>Radar\<close>. Of each callback it is recorded whether it is set; \<open>fade_deadline\<close> and
  \<open>fade_extensions\<close> are the local variables of the goroutine that collects fades.\<close>

record Radar =
  db :: contactDatabase
  missionTime :: int
  radar_coalition :: Coalition
  bullseyes :: "(Coalition, point) gomap"
  center :: point
  mandatoryThreatRadius :: real
  maxSharedBRAABearingSpread :: real
  maxSharedBRAARangeSpread :: real
  srsClient :: "Client option"
  completedFades :: "(u64, int) gomap"
  pendingFades :: "u64 list"
  enableTerrainDetection :: bool
  radar_projection :: "TransverseMercator option"
  startedCallback :: bool
  fadedCallback :: bool
  removalCallback :: bool
  fade_deadline :: int
  fade_extensions :: nat

definition withProjection :: "Radar \<Rightarrow> projection option" where
  "withProjection r = map_option tm_projection (radar_projection r)"

definition bullseye_of :: "Coalition \<Rightarrow> Radar \<Rightarrow> point" where
  "bullseye_of coalition r = (case map_of (bullseyes r) coalition of None \<Rightarrow> (0, 0) | Some p \<Rightarrow> p)"

definition radar_Declination :: "radar_lib \<Rightarrow> Radar \<Rightarrow> point \<Rightarrow> real" where
  "radar_Declination L r p = declination_or_zero (lib_geo L) (lib_calendar L) p (missionTime r)"

definition radar_distance :: "radar_lib \<Rightarrow> Radar \<Rightarrow> point \<Rightarrow> point \<Rightarrow> real" where
  "radar_distance L r a b = Distance (lib_geo L) (withProjection r) a b"

definition radar_bearing :: "radar_lib \<Rightarrow> Radar \<Rightarrow> point \<Rightarrow> point \<Rightarrow> Bearing" where
  "radar_bearing L r a b = TrueBearingBetween (lib_geo L) (withProjection r) a b"

definition isValidTrack :: "radar_lib \<Rightarrow> Trackfile \<Rightarrow> bool" where
  "isValidTrack L t =
     (if IsLastKnownPointZero t then False
      else (case frame_AGL (LastKnown t) of
          Some agl \<Rightarrow> agl > 10 * Meter (lib_units L)
        | None \<Rightarrow> Speed (lib_geo L) t > 50 * Knot (lib_units L)))"

definition aircraft_of :: "radar_lib \<Rightarrow> Trackfile \<Rightarrow> Aircraft option" where
  "aircraft_of L t = GetAircraftData (lib_lut L) (label_ACMIName (Contact t))"

definition isMatch :: "radar_lib \<Rightarrow> Trackfile \<Rightarrow> Coalition \<Rightarrow> ContactCategory \<Rightarrow> bool" where
  "isMatch L t coalition category \<longleftrightarrow>
     tf_Coalition t = coalition \<and> isValidTrack L t \<and>
     (case aircraft_of L t of None \<Rightarrow> True
      | Some data \<Rightarrow> Category data = category \<or> category = ContactCategory.Aircraft)"

section \<open>Groups\<close>

text \<open>Every group is created with a first contact, so its contacts are that one and the others; the
  code's \<open>contacts[0]\<close> is \<open>g_lead\<close>.\<close>

record group =
  g_isThreat :: bool
  g_lead :: Trackfile
  g_others :: "Trackfile list"
  g_bullseye :: "Bullseye option"
  g_braa :: "BRAA option"
  g_aspect :: "Aspect option"
  g_declaration :: Declaration
  g_mergedWith :: int

definition g_contacts :: "group \<Rightarrow> Trackfile list" where
  "g_contacts g = g_lead g # g_others g"

definition g_Contacts :: "group \<Rightarrow> int" where
  "g_Contacts g = int (length (g_contacts g))"

definition g_Stacks :: "units \<Rightarrow> group \<Rightarrow> Stack list" where
  "g_Stacks u g = Stacks u (map (\<lambda>t. frame_Altitude (LastKnown t)) (g_contacts g))"

definition g_Altitude :: "units \<Rightarrow> group \<Rightarrow> real" where
  "g_Altitude u g = (case g_Stacks u g of [] \<Rightarrow> 0 | s # _ \<Rightarrow> stack_Altitude s)"

definition g_altitudes :: "units \<Rightarrow> group \<Rightarrow> real list" where
  "g_altitudes u g = map stack_Altitude (g_Stacks u g)"

definition course_radians :: "radar_lib \<Rightarrow> Trackfile \<Rightarrow> real" where
  "course_radians L t = radians (bearing_Value (Course (lib_geo L) (lib_calendar L) None t))"

definition circularMean :: "radar_lib \<Rightarrow> group \<Rightarrow> Bearing \<times> real" where
  "circularMean L g =
     (let sumOfSines = sum_list (map (\<lambda>t. sin (course_radians L t)) (g_contacts g));
          sumOfCosines = sum_list (map (\<lambda>t. cos (course_radians L t)) (g_contacts g));
          mean = atan2 sumOfSines sumOfCosines;
          coherence = sqrt (sumOfSines * sumOfSines + sumOfCosines * sumOfCosines) / real (length (g_contacts g))
      in (NewMagneticBearing (mean * 180 / pi), coherence))"

text \<open>Go's logarithm of 0 is minus infinity, which makes the angle infinite.\<close>

definition g_course :: "radar_lib \<Rightarrow> group \<Rightarrow> Bearing \<times> bool" where
  "g_course L g =
     (let (bearing, coherence) = circularMean L g
      in (bearing, coherence \<noteq> 0 \<and> sqrt (-2 * ln coherence) \<le> pi / 2))"

definition g_Track :: "radar_lib \<Rightarrow> group \<Rightarrow> Track" where
  "g_Track L g =
     (if g_declaration g = Furball then UnknownDirection
      else let (bearing, ok) = g_course L g in if \<not> ok then UnknownDirection else TrackFromBearing bearing)"

definition g_Aspect :: "group \<Rightarrow> Aspect" where
  "g_Aspect g = (case g_aspect g of None \<Rightarrow> UnknownAspect
     | Some a \<Rightarrow> if g_declaration g = Furball then UnknownAspect else a)"

definition g_Heavy :: "group \<Rightarrow> bool" where
  "g_Heavy g \<longleftrightarrow> length (g_contacts g) \<ge> 3"

definition reporting_name :: "radar_lib \<Rightarrow> Trackfile \<Rightarrow> string" where
  "reporting_name L t =
     (case aircraft_of L t of
        None \<Rightarrow> []
      | Some data \<Rightarrow>
          (case List.find (\<lambda>n. n \<noteq> []) [NATOReportingName data, Nickname data, OfficialName data, PlatformDesignation data]
           of None \<Rightarrow> [] | Some n \<Rightarrow> n))"

text \<open>A set in Go; its listing has an arbitrary order.\<close>

definition g_Platforms :: "radar_lib \<Rightarrow> group \<Rightarrow> string list" where
  "g_Platforms L g = remdups (map (reporting_name L) (g_contacts g))"

definition g_High :: "units \<Rightarrow> group \<Rightarrow> bool" where
  "g_High u g \<longleftrightarrow> g_Altitude u g > 40000 * Foot u"

definition g_speed :: "radar_lib \<Rightarrow> group \<Rightarrow> real" where
  "g_speed L g = fold (\<lambda>t speed. if Speed (lib_geo L) t > speed then Speed (lib_geo L) t else speed) (g_contacts g) 0"

definition g_VeryFast :: "radar_lib \<Rightarrow> group \<Rightarrow> bool" where
  "g_VeryFast L g \<longleftrightarrow> g_speed L g > 900 * Knot (lib_units L)"

definition g_Fast :: "radar_lib \<Rightarrow> group \<Rightarrow> bool" where
  "g_Fast L g \<longleftrightarrow> g_speed L g > 600 * Knot (lib_units L) \<and> \<not> g_VeryFast L g"

definition g_category :: "radar_lib \<Rightarrow> group \<Rightarrow> ContactCategory" where
  "g_category L g = (case aircraft_of L (g_lead g) of None \<Rightarrow> FixedWing | Some data \<Rightarrow> Category data)"

definition g_isArmed :: "radar_lib \<Rightarrow> group \<Rightarrow> bool" where
  "g_isArmed L g =
     (let known = List.map_filter (aircraft_of L) (g_contacts g)
      in known = [] \<or> list_ex (\<lambda>data. \<not> HasTag data Unarmed) known)"

definition g_isFighter :: "radar_lib \<Rightarrow> group \<Rightarrow> bool" where
  "g_isFighter L g =
     list_ex (\<lambda>t. case aircraft_of L t of None \<Rightarrow> False | Some data \<Rightarrow> HasTag data Fighter) (g_contacts g)"

definition g_point :: "radar_lib \<Rightarrow> group \<Rightarrow> point" where
  "g_point L g =
     fold (\<lambda>t center. geo_Midpoint (lib_geo L) center (frame_Point (LastKnown t))) (g_others g)
       (frame_Point (LastKnown (g_lead g)))"

definition contact_threat_radius :: "radar_lib \<Rightarrow> Trackfile \<Rightarrow> real" where
  "contact_threat_radius L t =
     (case aircraft_of L t of
        None \<Rightarrow> SAR2AR1Threat * NauticalMile (lib_units L)
      | Some data \<Rightarrow> ThreatRadius (lib_units L) data)"

definition g_threatRadius :: "radar_lib \<Rightarrow> group \<Rightarrow> real" where
  "g_threatRadius L g =
     fold (\<lambda>t highest. if contact_threat_radius L t > highest then contact_threat_radius L t else highest)
       (g_contacts g) 0"

definition ObjectIDs :: "group \<Rightarrow> u64 list" where
  "ObjectIDs g = sort (map tf_ID (g_contacts g))"

definition setBullseyeForGroup :: "radar_lib \<Rightarrow> Radar \<Rightarrow> group \<Rightarrow> group" where
  "setBullseyeForGroup L r g =
     (let bullseyePoint = bullseye_of (radar_coalition r) r
      in if IsZero bullseyePoint then g
         else let groupPoint = g_point L g;
                  declination = radar_Declination L r groupPoint;
                  bearing = to_Magnetic (radar_bearing L r bullseyePoint groupPoint) declination;
                  distance = radar_distance L r bullseyePoint groupPoint
              in g\<lparr>g_bullseye := Some (NewBullseye bearing distance)\<rparr>)"

section \<open>Grouping\<close>

text \<open>The tag by which aircraft are compared; \<open>None\<close> is the zero value, which is none of the three.\<close>

definition similarity_tag :: "radar_lib \<Rightarrow> Trackfile \<Rightarrow> AircraftTag option" where
  "similarity_tag L this =
     (case aircraft_of L this of
        None \<Rightarrow> None
      | Some data \<Rightarrow>
          if HasTag data Fighter then Some Fighter
          else if HasTag data Attack then Some Attack
          else if HasTag data Unarmed then Some Unarmed
          else None)"

definition spreadInterval :: "radar_lib \<Rightarrow> real" where
  "spreadInterval L = 5 * NauticalMile (lib_units L)"

text \<open>The checks one contact has to pass to be taken in next to \<open>this\<close>, except for not being in the
  group already.\<close>

definition comparable :: "radar_lib \<Rightarrow> Radar \<Rightarrow> ContactCategory \<Rightarrow> Trackfile \<Rightarrow> Trackfile \<Rightarrow> bool" where
  "comparable L r category this other \<longleftrightarrow>
     isMatch L other (tf_Coalition this) category \<and>
     (case similarity_tag L this of
        None \<Rightarrow> True
      | Some tag \<Rightarrow> (case aircraft_of L other of None \<Rightarrow> False | Some data \<Rightarrow> HasTag data tag)) \<and>
     radar_distance L r (frame_Point (LastKnown other)) (frame_Point (LastKnown this)) < spreadInterval L"

definition scope_values :: "radar_lib \<Rightarrow> Radar \<Rightarrow> u64 list \<Rightarrow> Trackfile list" where
  "scope_values L r here = db_values (lib_order L) here (db r)"

abbreviation db_IDs :: "Radar \<Rightarrow> u64 set" where
  "db_IDs r \<equiv> tf_ID ` snd ` set (contacts (db r))"

text \<open>\<open>addNearbyAircraftToGroup\<close>: the list holds the contacts which the loop of the call for \<open>this\<close>
  still has to visit. The recursive call ranges over the database again, in an order that may
  depend on the group at that moment.\<close>

function addNearby :: "radar_lib \<Rightarrow> Radar \<Rightarrow> Trackfile \<Rightarrow> Trackfile list \<Rightarrow> group \<Rightarrow> group" where
  "addNearby L r this [] g = g"
| "addNearby L r this (other # others) g =
     (if tf_ID other \<in> set (ObjectIDs g) \<or> \<not> comparable L r (g_category L g) this other
      then addNearby L r this others g
      else let g' = g\<lparr>g_others := g_others g @ [other]\<rparr>
           in addNearby L r this others (addNearby L r other (scope_values L r (ObjectIDs g')) g'))"
  by pat_completeness auto

lemma ObjectIDs_set: "set (ObjectIDs g) = tf_ID ` set (g_contacts g)"
  by (simp add: ObjectIDs_def)

lemma scope_values_set: "set (scope_values L r here) = snd ` set (contacts (db r))"
  by (simp add: scope_values_def db_values_set)

lemma g_contacts_add [simp]: "g_contacts (g\<lparr>g_others := g_others g @ xs\<rparr>) = g_contacts g @ xs"
  by (simp add: g_contacts_def)

lemma card_less_elem: "A \<subseteq> B \<Longrightarrow> x \<in> B \<Longrightarrow> x \<notin> A \<Longrightarrow> finite B \<Longrightarrow> card A < card B"
  by (metis psubsetI psubset_card_mono)

text \<open>The group only grows; needed for the nested recursion to end.\<close>

lemma addNearby_grows_dom:
  "addNearby_dom (L, r, this, others, g) \<Longrightarrow> set (g_contacts g) \<subseteq> set (g_contacts (addNearby L r this others g))"
proof (induction rule: addNearby.pinduct)
  case (2 L r this other others g)
  then show ?case by (fastforce simp: addNearby.psimps Let_def)
qed (simp add: addNearby.psimps)

termination addNearby
proof (relation "measures [\<lambda>(L, r, this, others, g). card ((db_IDs r \<union> tf_ID ` set others) - tf_ID ` set (g_contacts g)),
    \<lambda>(L, r, this, others, g). length others]", goal_cases)
  case 1
  then show ?case by simp
next
  case (2 L r this other others g)
  have "card ((db_IDs r \<union> tf_ID ` set others) - tf_ID ` set (g_contacts g))
      \<le> card ((db_IDs r \<union> tf_ID ` set (other # others)) - tf_ID ` set (g_contacts g))"
    by (rule card_mono) auto
  then show ?case by auto
next
  case (3 L r this other others g g')
  let ?new = "(db_IDs r \<union> tf_ID ` set (scope_values L r (ObjectIDs g'))) - tf_ID ` set (g_contacts g')"
  let ?old = "(db_IDs r \<union> tf_ID ` set (other # others)) - tf_ID ` set (g_contacts g)"
  have g': "set (g_contacts g') = insert other (set (g_contacts g))" using 3(2) by simp
  have n: "tf_ID other \<notin> tf_ID ` set (g_contacts g)" using 3(1) by (simp add: ObjectIDs_set)
  have "?new \<subseteq> ?old" unfolding scope_values_set g' by auto
  moreover have "tf_ID other \<in> ?old" "tf_ID other \<notin> ?new" using n by (simp_all add: g')
  ultimately have "card ?new < card ?old" by (rule card_less_elem) simp
  then show ?case by simp
next
  case (4 L r this other others g g')
  have "set (g_contacts g) \<subseteq> set (g_contacts (addNearby L r other (scope_values L r (ObjectIDs g')) g'))"
    using addNearby_grows_dom [OF 4(3)] 4(2) by auto
  then have "card ((db_IDs r \<union> tf_ID ` set others) -
        tf_ID ` set (g_contacts (addNearby L r other (scope_values L r (ObjectIDs g')) g')))
      \<le> card ((db_IDs r \<union> tf_ID ` set (other # others)) - tf_ID ` set (g_contacts g))"
    by (intro card_mono) auto
  then show ?case by auto
qed

definition findGroupForAircraft :: "radar_lib \<Rightarrow> Radar \<Rightarrow> Trackfile \<Rightarrow> group" where
  "findGroupForAircraft L r t =
     (let g = \<lparr>g_isThreat = False, g_lead = t, g_others = [], g_bullseye = None, g_braa = None,
            g_aspect = None, g_declaration = Unable, g_mergedWith = 0\<rparr>;
          g = (if IsLastKnownPointZero t then g else addNearby L r t (scope_values L r (ObjectIDs g)) g)
      in setBullseyeForGroup L r g)"

text \<open>\<open>enumerateGroups\<close>: the loop carries the set of visited IDs and the groups found so far.\<close>

definition enumerate_step :: "radar_lib \<Rightarrow> Radar \<Rightarrow> Coalition \<Rightarrow> Trackfile \<Rightarrow> u64 set \<times> group list \<Rightarrow> u64 set \<times> group list" where
  "enumerate_step L r coalition t s =
     (let (visited, groups) = s
      in if tf_ID t \<in> visited then s
         else let visited = insert (tf_ID t) visited
              in if tf_Coalition t \<noteq> coalition then (visited, groups)
                 else if \<not> isValidTrack L t then (visited, groups)
                 else let g = findGroupForAircraft L r t
                      in (visited \<union> set (ObjectIDs g), groups @ [g]))"

definition enumerateGroups :: "radar_lib \<Rightarrow> Radar \<Rightarrow> Coalition \<Rightarrow> group list" where
  "enumerateGroups L r coalition = snd (fold (enumerate_step L r coalition) (scope_values L r []) ({}, []))"

section \<open>What a group consists of\<close>

text \<open>One hop of the search: to a contact of the database that is comparable to the one it is next
  to.\<close>

definition hop :: "radar_lib \<Rightarrow> Radar \<Rightarrow> ContactCategory \<Rightarrow> (Trackfile \<times> Trackfile) set" where
  "hop L r category = {(this, other). getByID (tf_ID other) (db r) = Some other \<and> comparable L r category this other}"

lemma addNearby_lead [simp]: "g_lead (addNearby L r this others g) = g_lead g"
  by (induction L r this others g rule: addNearby.induct) (simp_all add: Let_def)

lemma g_category_lead: "g_lead g = g_lead h \<Longrightarrow> g_category L g = g_category L h"
  by (simp add: g_category_def)

lemma scope_values_iff:
  "db_ok (db r) \<Longrightarrow> t \<in> set (scope_values L r here) \<longleftrightarrow> getByID (tf_ID t) (db r) = Some t"
  by (simp add: scope_values_def db_values_iff getByID_def)

text \<open>What the search maintains: the group grows by contacts reached from \<open>this\<close>, with all that can
  be reached from them, and takes in what is next to \<open>this\<close> among the contacts still to visit.\<close>

definition search_post :: "radar_lib \<Rightarrow> Radar \<Rightarrow> Trackfile \<Rightarrow> Trackfile list \<Rightarrow> group \<Rightarrow> group \<Rightarrow> bool" where
  "search_post L r this others g h \<longleftrightarrow>
     set (g_contacts g) \<subseteq> set (g_contacts h) \<and>
     (\<forall>x \<in> set (g_contacts h). getByID (tf_ID x) (db r) = Some x) \<and>
     (\<forall>x \<in> set (g_contacts h) - set (g_contacts g). (this, x) \<in> (hop L r (g_category L g))\<^sup>+ \<and>
        hop L r (g_category L g) `` {x} \<subseteq> set (g_contacts h)) \<and>
     hop L r (g_category L g) `` {this} \<inter> set others \<subseteq> set (g_contacts h) \<and>
     distinct (map tf_ID (g_contacts h))"

lemma search_postD:
  assumes "search_post L r this others g h"
  shows "set (g_contacts g) \<subseteq> set (g_contacts h)"
    and "\<forall>x \<in> set (g_contacts h). getByID (tf_ID x) (db r) = Some x"
    and "\<And>x. x \<in> set (g_contacts h) \<Longrightarrow> x \<notin> set (g_contacts g) \<Longrightarrow> (this, x) \<in> (hop L r (g_category L g))\<^sup>+"
    and "\<And>x y. x \<in> set (g_contacts h) \<Longrightarrow> x \<notin> set (g_contacts g) \<Longrightarrow> (x, y) \<in> hop L r (g_category L g) \<Longrightarrow>
      y \<in> set (g_contacts h)"
    and "\<And>y. y \<in> set others \<Longrightarrow> (this, y) \<in> hop L r (g_category L g) \<Longrightarrow> y \<in> set (g_contacts h)"
    and "distinct (map tf_ID (g_contacts h))"
  using assms unfolding search_post_def by blast+

lemma addNearby_post:
  assumes "db_ok (db r)"
  shows "\<forall>x \<in> set (g_contacts g). getByID (tf_ID x) (db r) = Some x \<Longrightarrow>
    \<forall>x \<in> set others. getByID (tf_ID x) (db r) = Some x \<Longrightarrow> distinct (map tf_ID (g_contacts g)) \<Longrightarrow>
    search_post L r this others g (addNearby L r this others g)"
  using assms
proof (induction L r this others g rule: addNearby.induct)
  case (1 L r this g)
  then show ?case by (simp add: search_post_def)
next
  case (2 L r this other others g)
  have o: "getByID (tf_ID other) (db r) = Some other" and os: "\<forall>x \<in> set others. getByID (tf_ID x) (db r) = Some x"
    using "2.prems"(2) by simp_all
  let ?E = "hop L r (g_category L g)"
  show ?case
  proof (cases "tf_ID other \<in> set (ObjectIDs g) \<or> \<not> comparable L r (g_category L g) this other")
    case True
    have p: "search_post L r this others g (addNearby L r this others g)"
      by (rule "2.IH"(1) [OF True "2.prems"(1) os "2.prems"(3, 4)])
    have "other \<in> set (g_contacts (addNearby L r this others g))" if "(this, other) \<in> ?E"
    proof -
      from that True have "tf_ID other \<in> tf_ID ` set (g_contacts g)" by (simp add: hop_def ObjectIDs_set)
      then have "other \<in> set (g_contacts g)" using "2.prems"(1) o by force
      then show ?thesis using search_postD(1) [OF p] by blast
    qed
    then show ?thesis using p True unfolding search_post_def by auto
  next
    case False
    let ?g' = "g\<lparr>g_others := g_others g @ [other]\<rparr>"
    let ?g1 = "addNearby L r other (scope_values L r (ObjectIDs ?g')) ?g'"
    let ?h = "addNearby L r this others ?g1"
    have c: "g_category L ?g' = g_category L g" "g_category L ?g1 = g_category L g"
      by (rule g_category_lead, simp)+
    have e: "(this, other) \<in> ?E" using False o by (simp add: hop_def)
    have p1: "search_post L r other (scope_values L r (ObjectIDs ?g')) ?g' ?g1"
    proof (rule "2.IH"(2) [OF False refl])
      show "\<forall>x \<in> set (g_contacts ?g'). getByID (tf_ID x) (db r) = Some x"
        using "2.prems"(1) o by simp
      show "\<forall>x \<in> set (scope_values L r (ObjectIDs ?g')). getByID (tf_ID x) (db r) = Some x"
        using scope_values_iff [OF "2.prems"(4)] by blast
      show "distinct (map tf_ID (g_contacts ?g'))" using "2.prems"(3) False by (simp add: ObjectIDs_set)
    qed (rule "2.prems"(4))
    note d1 = search_postD [OF p1, unfolded c(1)]
    have p2: "search_post L r this others ?g1 ?h"
      by (rule "2.IH"(3) [OF False refl d1(2) os d1(6) "2.prems"(4)])
    note d2 = search_postD [OF p2, unfolded c(2)]
    have other_in: "other \<in> set (g_contacts ?g1)" using d1(1) by simp
    have other_succ: "y \<in> set (g_contacts ?g1)" if "(other, y) \<in> ?E" for y
      using d1(5) that scope_values_iff [OF "2.prems"(4)] by (auto simp: hop_def)
    have "search_post L r this (other # others) g ?h"
      unfolding search_post_def
    proof (intro conjI ballI)
      show "set (g_contacts g) \<subseteq> set (g_contacts ?h)" using d1(1) d2(1) by auto
      show "getByID (tf_ID x) (db r) = Some x" if "x \<in> set (g_contacts ?h)" for x using d2(2) that by blast
      show "distinct (map tf_ID (g_contacts ?h))" by (rule d2(6))
      show "?E `` {this} \<inter> set (other # others) \<subseteq> set (g_contacts ?h)"
        using d2(5) other_in d2(1) by auto
      fix x
      assume x: "x \<in> set (g_contacts ?h) - set (g_contacts g)"
      show "(this, x) \<in> ?E\<^sup>+"
      proof (cases "x \<in> set (g_contacts ?g1)")
        case True
        then have "x = other \<or> (other, x) \<in> ?E\<^sup>+" using x d1(3) [of x] by auto
        then show ?thesis using e by (meson r_into_trancl' trancl_into_trancl2)
      next
        case False
        then show ?thesis using x d2(3) by blast
      qed
      have "y \<in> set (g_contacts ?h)" if "(x, y) \<in> ?E" for y
      proof (cases "x \<in> set (g_contacts ?g1)")
        case True
        then have "y \<in> set (g_contacts ?g1)" using x d1(4) [of x y] other_succ that by auto
        then show ?thesis using d2(1) by blast
      next
        case False
        then show ?thesis using x d2(4) that by blast
      qed
      then show "?E `` {x} \<subseteq> set (g_contacts ?h)" by blast
    qed
    then show ?thesis using False by (simp add: Let_def)
  qed
qed

lemma setBullseyeForGroup_same [simp]:
  "g_lead (setBullseyeForGroup L r g) = g_lead g" "g_others (setBullseyeForGroup L r g) = g_others g"
  "g_contacts (setBullseyeForGroup L r g) = g_contacts g" "g_category L' (setBullseyeForGroup L r g) = g_category L' g"
  by (simp_all add: setBullseyeForGroup_def Let_def g_contacts_def g_category_def)

lemma findGroup_lead [simp]: "g_lead (findGroupForAircraft L r t) = t"
  by (simp add: findGroupForAircraft_def Let_def)

lemma group_closure:
  assumes "db_ok (db r)" and "getByID (tf_ID t) (db r) = Some t" and "\<not> IsLastKnownPointZero t"
  shows "set (g_contacts (findGroupForAircraft L r t)) =
      (hop L r (g_category L (findGroupForAircraft L r t)))\<^sup>* `` {t} \<and>
    distinct (map tf_ID (g_contacts (findGroupForAircraft L r t)))"
proof -
  let ?g = "\<lparr>g_isThreat = False, g_lead = t, g_others = [], g_bullseye = None, g_braa = None,
            g_aspect = None, g_declaration = Unable, g_mergedWith = 0\<rparr>"
  let ?h = "addNearby L r t (scope_values L r (ObjectIDs ?g)) ?g"
  let ?G = "findGroupForAircraft L r t"
  let ?E = "hop L r (g_category L ?g)"
  have G: "g_contacts ?G = g_contacts ?h" "g_category L ?G = g_category L ?g"
    using assms(3) by (simp_all add: findGroupForAircraft_def Let_def g_category_def)
  have g: "g_contacts ?g = [t]" by (simp add: g_contacts_def)
  have "search_post L r t (scope_values L r (ObjectIDs ?g)) ?g ?h"
    by (rule addNearby_post [OF assms(1)]) (simp_all add: g assms(2) scope_values_iff [OF assms(1)])
  note d = search_postD [OF this]
  have t: "t \<in> set (g_contacts ?h)" using d(1) g by simp
  have closed: "y \<in> set (g_contacts ?h)" if "x \<in> set (g_contacts ?h)" "(x, y) \<in> ?E" for x y
    using d(4) [of x y] d(5) [of y] that g scope_values_iff [OF assms(1)] by (cases "x = t") (auto simp: hop_def)
  have "(t, x) \<in> ?E\<^sup>* \<Longrightarrow> x \<in> set (g_contacts ?h)" for x
    by (induction rule: rtrancl_induct) (use t closed in blast)+
  moreover have "x \<in> set (g_contacts ?h) \<Longrightarrow> (t, x) \<in> ?E\<^sup>*" for x
    using d(3) [of x] g by (cases "x = t") auto
  ultimately show ?thesis using d(6) unfolding G by blast
qed

text \<open>What the other members of a group have in common with the aircraft it was made for.\<close>

lemma group_members:
  assumes "db_ok (db r)" and "getByID (tf_ID t) (db r) = Some t" and "x \<in> set (g_contacts (findGroupForAircraft L r t))"
  shows "getByID (tf_ID x) (db r) = Some x \<and> tf_Coalition x = tf_Coalition t \<and> (x = t \<or> isValidTrack L x)"
proof (cases "IsLastKnownPointZero t")
  case True
  then have "g_contacts (findGroupForAircraft L r t) = [t]"
    by (simp add: findGroupForAircraft_def Let_def) (simp add: g_contacts_def)
  then show ?thesis using assms(2, 3) by simp
next
  case False
  have "(t, x) \<in> (hop L r (g_category L (findGroupForAircraft L r t)))\<^sup>*"
    using group_closure [OF assms(1, 2) False] assms(3) by blast
  then show ?thesis
    by (induction rule: rtrancl_induct) (use assms(2) in \<open>auto simp: hop_def comparable_def isMatch_def\<close>)
qed

text \<open>C16. The group of an aircraft is exactly the set of contacts that can be reached from it in hops of
  less than five nautical miles between comparable aircraft of its coalition; each is in it
  once. The order in which the database is ranged over plays no part.\<close>

theorem group_is_closure:
  assumes "db_ok (db r)" and "getByID (tf_ID t) (db r) = Some t" and "\<not> IsLastKnownPointZero t"
  shows "set (g_contacts (findGroupForAircraft L r t)) =
      (hop L r (g_category L (findGroupForAircraft L r t)))\<^sup>* `` {t} \<and>
    distinct (map tf_ID (g_contacts (findGroupForAircraft L r t)))"
  by (rule group_closure [OF assms])

section \<open>A scope with two aircraft\<close>

definition demo_frame :: "point \<Rightarrow> Frame" where
  "demo_frame pt = \<lparr>frame_Time = 5, frame_Point = pt, frame_Altitude = 3000, frame_AGL = Some 2900,
     frame_Heading = 90\<rparr>"

definition demo_contact :: "u64 \<Rightarrow> string \<Rightarrow> Coalition \<Rightarrow> point \<Rightarrow> Trackfile" where
  "demo_contact uid name c pt = (demo_trackfile uid name c)\<lparr>track := [demo_frame pt]\<rparr>"

definition demo_pair :: "Trackfile \<Rightarrow> Trackfile \<Rightarrow> contactDatabase" where
  "demo_pair t u = \<lparr>contacts = [(tf_ID t, t), (tf_ID u, u)], callsignIdx = [(Blue, []), (Red, []), (Neutrals, [])]\<rparr>"

definition demo_radar :: "contactDatabase \<Rightarrow> Radar" where
  "demo_radar d = \<lparr>db = d, missionTime = 5, radar_coalition = Blue, bullseyes = [], center = (0, 0),
     mandatoryThreatRadius = 1000, maxSharedBRAABearingSpread = 10, maxSharedBRAARangeSpread = 1000,
     srsClient = None, completedFades = [], pendingFades = [], enableTerrainDetection = False,
     radar_projection = None, startedCallback = True, fadedCallback = True, removalCallback = True,
     fade_deadline = 0, fade_extensions = 0\<rparr>"

definition demo_radar_lib :: radar_lib where
  "demo_radar_lib = \<lparr>lib_geo = demo_geo, lib_calendar = (\<lambda>t. (2000, 1)), lib_push = demo_push,
     lib_order = (\<lambda>here ts. rev ts), lib_fuzzy = demo_fuzzy, lib_lut = [],
     lib_Bound = (\<lambda>c radius p. True), lib_PolygonContains = (\<lambda>poly p. True)\<rparr>"

lemma demo_contact_simps [simp]:
  "tf_ID (demo_contact uid name c pt) = uid" "tf_Name (demo_contact uid name c pt) = name"
  "tf_Coalition (demo_contact uid name c pt) = c" "LastKnown (demo_contact uid name c pt) = demo_frame pt"
  "track_ok (demo_contact uid name c pt)" "aircraft_of demo_radar_lib (demo_contact uid name c pt) = None"
  by (simp_all add: demo_contact_def demo_trackfile_def NewTrackfile_def LastKnown_def Newest_def
    track_ok_def maxLength_def aircraft_of_def demo_radar_lib_def GetAircraftData_def)

lemma demo_contact_valid [simp]: "pt \<noteq> (0, 0) \<Longrightarrow> isValidTrack demo_radar_lib (demo_contact uid name c pt)"
  by (simp add: isValidTrack_def IsLastKnownPointZero_def IsZero_def demo_frame_def demo_radar_lib_def
    demo_geo_def si_units_def)

lemma demo_pair_ok:
  assumes "tf_ID t \<noteq> tf_ID u" and "track_ok t" and "track_ok u"
  shows "db_ok (demo_pair t u)"
  using assms by (auto simp: db_ok_def demo_pair_def gomap_ok_def gomap.holds_def index_sound_def
    coalition_index_def all_coalitions_def split: if_splits)

lemma demo_pair_get:
  "getByID uid (demo_pair t u) = (if uid = tf_ID t then Some t else if uid = tf_ID u then Some u else None)"
  by (simp add: getByID_def demo_pair_def)

definition demo_lead :: Trackfile where "demo_lead = demo_contact 7 ''Eagle 1'' Blue (33, 45)"
definition demo_wing :: Trackfile where "demo_wing = demo_contact 8 ''Eagle 2'' Blue (33, 46)"
definition demo_scope :: Radar where "demo_scope = demo_radar (demo_pair demo_lead demo_wing)"

lemma demo_scope_db: "db demo_scope = demo_pair demo_lead demo_wing"
  by (simp add: demo_scope_def demo_radar_def)

lemma demo_scope_get:
  "getByID uid (db demo_scope) = (if uid = 7 then Some demo_lead else if uid = 8 then Some demo_wing else None)"
  unfolding demo_scope_db demo_pair_get by (simp add: demo_lead_def demo_wing_def)

lemma demo_scope_ok: "db_ok (db demo_scope)"
  unfolding demo_scope_db by (rule demo_pair_ok) (simp_all add: demo_lead_def demo_wing_def)

lemma demo_lib_simps [simp]: "lib_geo demo_radar_lib = demo_geo" "geo_units demo_geo = si_units"
  by (simp_all add: demo_radar_lib_def demo_geo_def)

lemma demo_comparable: "comparable demo_radar_lib demo_scope category demo_lead demo_wing"
proof -
  have m: "isMatch demo_radar_lib demo_wing Blue category" "similarity_tag demo_radar_lib demo_lead = None"
    "tf_Coalition demo_lead = Blue"
    by (simp_all add: demo_lead_def demo_wing_def isMatch_def similarity_tag_def)
  have "radar_distance demo_radar_lib demo_scope (frame_Point (LastKnown demo_wing)) (frame_Point (LastKnown demo_lead))
      < spreadInterval demo_radar_lib"
    by (simp add: demo_lead_def demo_wing_def demo_frame_def radar_distance_def Distance_def withProjection_def
      demo_scope_def demo_radar_def spreadInterval_def) (simp add: demo_geo_def si_units_def)
  then show ?thesis by (simp add: comparable_def m)
qed

lemma demo_get_lead: "getByID (tf_ID demo_lead) (db demo_scope) = Some demo_lead"
  unfolding demo_scope_get by (simp add: demo_lead_def)

lemma demo_lead_located: "\<not> IsLastKnownPointZero demo_lead"
  by (simp add: demo_lead_def IsLastKnownPointZero_def IsZero_def demo_frame_def)

lemma demo_closure: "(hop demo_radar_lib demo_scope category)\<^sup>* `` {demo_lead} = {demo_lead, demo_wing}"
proof -
  let ?E = "hop demo_radar_lib demo_scope category"
  have e: "(demo_lead, demo_wing) \<in> ?E"
    unfolding hop_def demo_scope_get using demo_comparable by (simp add: demo_wing_def)
  have "x = demo_lead \<or> x = demo_wing" if "(y, x) \<in> ?E" for x y
  proof -
    from that have "getByID (tf_ID x) (db demo_scope) = Some x" unfolding hop_def by simp
    then show ?thesis unfolding demo_scope_get by (metis option.inject option.distinct(1))
  qed
  then have "?E\<^sup>* `` {demo_lead} \<subseteq> {demo_lead, demo_wing}"
    by (metis (no_types, lifting) Image_singleton_iff insertCI rtranclE subsetI)
  moreover have "{demo_lead, demo_wing} \<subseteq> ?E\<^sup>* `` {demo_lead}" using e by auto
  ultimately show ?thesis by blast
qed

lemma demo_group:
  "set (g_contacts (findGroupForAircraft demo_radar_lib demo_scope demo_lead)) = {demo_lead, demo_wing}"
  using group_closure [where L = demo_radar_lib, OF demo_scope_ok demo_get_lead demo_lead_located]
  by (simp add: demo_closure)

theorem group_is_closure_witness:
  "set (g_contacts (findGroupForAircraft demo_radar_lib demo_scope demo_lead)) = {demo_lead, demo_wing}"
  using group_is_closure [where L = demo_radar_lib, OF demo_scope_ok demo_get_lead demo_lead_located]
  by (simp add: demo_closure)

end
