(* ===== verification/Radar.thy ===== *)
theory Radar
  imports ContactGroups
begin

text \<open>
  The operations of the radar that change its state: mission time and bullseye
  (\<open>pkg/radar/radar.go\<close>), simulator updates and garbage collection, mission starts
  (\<open>pkg/radar/started.go\<close>), the collection of faded contacts (\<open>pkg/radar/faded.go\<close>) and the
  center point (\<open>pkg/radar/center.go\<close>), as a step relation whose invariant is that of the
  contact database. Times are nanoseconds; the zero time is 0.
\<close>

section \<open>Operations\<close>

datatype RadarEvent = StartedEvent | FadedEvent point group Coalition | RemovedEvent Trackfile

definition second :: int where "second = 1000000000"
definition minute :: int where "minute = 60 * second"

definition NewRadar :: "Coalition \<Rightarrow> real \<Rightarrow> real \<Rightarrow> real \<Rightarrow> bool \<Rightarrow> Client option \<Rightarrow> Radar" where
  "NewRadar coalition mandatory maxBearingSpread maxRangeSpread detection srs =
     \<lparr>db = newContactDatabase, missionTime = 0, radar_coalition = coalition, bullseyes = [], center = (0, 0),
      mandatoryThreatRadius = mandatory, maxSharedBRAABearingSpread = maxBearingSpread,
      maxSharedBRAARangeSpread = maxRangeSpread, srsClient = srs, completedFades = [], pendingFades = [],
      enableTerrainDetection = detection, radar_projection = None, startedCallback = False,
      fadedCallback = False, removalCallback = False, fade_deadline = 0, fade_extensions = 0\<rparr>"

definition SetMissionTime :: "int \<Rightarrow> Radar \<Rightarrow> Radar" where
  "SetMissionTime t r = r\<lparr>missionTime := t\<rparr>"

definition SetBullseye :: "radar_lib \<Rightarrow> point \<Rightarrow> Coalition \<Rightarrow> Radar \<Rightarrow> Radar" where
  "SetBullseye L bullseye coalition r =
     (let current = bullseye_of coalition r;
          r = (if (fst current \<noteq> fst bullseye \<or> snd current \<noteq> snd bullseye) \<and> enableTerrainDetection r
               then r\<lparr>radar_projection := map_option terrain_Projection (Closest (lib_geo L) bullseye)\<rparr> else r)
      in r\<lparr>bullseyes := AList.update coalition bullseye (bullseyes r)\<rparr>)"

definition handleUpdate :: "radar_lib \<Rightarrow> Labels \<Rightarrow> Frame \<Rightarrow> Radar \<Rightarrow> Radar option" where
  "handleUpdate L labels frame r =
     (case getByID (label_ID labels) (db r) of
        Some _ \<Rightarrow> Some (r\<lparr>db := db_modify (label_ID labels) (Update (lib_push L) frame) (db r)\<rparr>)
      | None \<Rightarrow> map_option (\<lambda>d. r\<lparr>db := d\<rparr>) (db_set (NewTrackfile labels) (db r)))"

definition is_expired :: "int \<Rightarrow> Trackfile \<Rightarrow> bool" where
  "is_expired now t \<longleftrightarrow>
     frame_Time (LastKnown t) \<noteq> 0 \<and> frame_Time (LastKnown t) < now - 1 * minute"

definition collect_step :: "int \<Rightarrow> Trackfile \<Rightarrow> contactDatabase \<times> Trackfile list \<Rightarrow> contactDatabase \<times> Trackfile list" where
  "collect_step now t s =
     (let (d, removed) = s
      in if is_expired now t
         then let (d', ok) = db_delete (tf_ID t) d in (d', if ok then removed @ [t] else removed)
         else s)"

definition handleGarbageCollection :: "radar_lib \<Rightarrow> Radar \<Rightarrow> Radar \<times> RadarEvent list" where
  "handleGarbageCollection L r =
     (if length (pendingFades r) > 0 then (r, [])
      else let (d, removed) = fold (collect_step (missionTime r)) (scope_values L r []) (db r, [])
           in (r\<lparr>db := d\<rparr>, if removalCallback r then map RemovedEvent removed else []))"

definition handleStarted :: "Radar \<Rightarrow> Radar \<times> RadarEvent list" where
  "handleStarted r =
     (r\<lparr>db := db_reset, pendingFades := [], completedFades := []\<rparr>,
      if startedCallback r then [StartedEvent] else [])"

section \<open>Faded contacts\<close>

definition isTrackfileInGroup :: "Trackfile \<Rightarrow> group \<Rightarrow> bool" where
  "isTrackfileInGroup candidate g = list_ex (\<lambda>m. tf_ID m = tf_ID candidate) (g_contacts g)"

definition shortExtension :: int where "shortExtension = 5 * second"
definition longExtension :: int where "longExtension = 15 * second"
definition maxLongExtensions :: nat where "maxLongExtensions = 2"

text \<open>The two cases of the collecting goroutine: a fade event, and a tick of its 3 second ticker.\<close>

definition receive_fade :: "int \<Rightarrow> u64 \<Rightarrow> Radar \<Rightarrow> Radar" where
  "receive_fade now fade r =
     (case getByID fade (db r) of
        None \<Rightarrow> r
      | Some _ \<Rightarrow>
          (let extension = (if fade_extensions r < maxLongExtensions then longExtension else shortExtension)
           in r\<lparr>fade_deadline := now + extension, fade_extensions := fade_extensions r + 1,
                pendingFades := pendingFades r @ [fade]\<rparr>))"

fun collectFadedGroups :: "radar_lib \<Rightarrow> int \<Rightarrow> u64 list \<Rightarrow> Radar \<Rightarrow> group list \<Rightarrow> Radar \<times> group list" where
  "collectFadedGroups L now [] r groups = (r, groups)"
| "collectFadedGroups L now (fade # fades) r groups =
     (case map_of (completedFades r) fade of
        Some _ \<Rightarrow> collectFadedGroups L now fades r groups
      | None \<Rightarrow>
          (let r = r\<lparr>completedFades := AList.update fade now (completedFades r)\<rparr>
           in case getByID fade (db r) of
                None \<Rightarrow> collectFadedGroups L now fades r groups
              | Some t \<Rightarrow>
                  if list_ex (isTrackfileInGroup t) groups
                  then collectFadedGroups L now fades r groups
                  else collectFadedGroups L now fades r (groups @ [findGroupForAircraft L r t])))"

definition handleFaded :: "radar_lib \<Rightarrow> int \<Rightarrow> u64 list \<Rightarrow> Radar \<Rightarrow> Radar \<times> RadarEvent list" where
  "handleFaded L now fades r =
     (let (r, groups) = collectFadedGroups L now fades r [];
          r = r\<lparr>db := fold (\<lambda>fade d. fst (db_delete fade d)) fades (db r)\<rparr>
      in (r, if fadedCallback r
             then map (\<lambda>g. FadedEvent (g_point L g) g (tf_Coalition (g_lead g))) groups else []))"

definition areFadesPending :: "Radar \<Rightarrow> bool" where
  "areFadesPending r \<longleftrightarrow> length (pendingFades r) > 0"

definition fade_tick :: "radar_lib \<Rightarrow> int \<Rightarrow> Radar \<Rightarrow> Radar \<times> RadarEvent list" where
  "fade_tick L now r =
     (let (r, events) =
            (if areFadesPending r \<and> now > fade_deadline r
             then let (r', events) = handleFaded L now (pendingFades r) r in (r'\<lparr>pendingFades := []\<rparr>, events)
             else (r, []));
          completed = filter (\<lambda>(fade, t). \<not> now - t > 5 * minute) (completedFades r)
      in (r\<lparr>completedFades := completed, fade_extensions := 0\<rparr>, events))"

section \<open>The center point\<close>

definition shiftPointTowards :: "radar_lib \<Rightarrow> point \<Rightarrow> point \<Rightarrow> point" where
  "shiftPointTowards L a b = (if IsZero a then b else geo_Midpoint (lib_geo L) a b)"

definition center_step :: "radar_lib \<Rightarrow> Trackfile \<Rightarrow> point \<times> point \<Rightarrow> point \<times> point" where
  "center_step L contact s =
     (let (blue, red) = s;
          isArmed = (case aircraft_of L contact of None \<Rightarrow> True | Some data \<Rightarrow> ThreatRadius (lib_units L) data > 0)
      in if isArmed \<and> isValidTrack L contact
         then let contactLocation = frame_Point (LastKnown contact)
              in if tf_Coalition contact = Blue then (shiftPointTowards L blue contactLocation, red)
                 else if tf_Coalition contact = Red then (blue, shiftPointTowards L red contactLocation)
                 else (blue, red)
         else (blue, red))"

definition updateCenterPoint :: "radar_lib \<Rightarrow> Radar \<Rightarrow> Radar" where
  "updateCenterPoint L r =
     (let (blue, red) = fold (center_step L) (scope_values L r []) ((0, 0), (0, 0));
          isBlueOk = (fst blue \<noteq> 0 \<and> snd blue \<noteq> 0);
          isRedOk = (fst red \<noteq> 0 \<and> snd red \<noteq> 0)
      in r\<lparr>center :=
           (if isBlueOk \<and> \<not> isRedOk then blue
            else if \<not> isBlueOk \<and> isRedOk then red
            else geo_Midpoint (lib_geo L) blue red)\<rparr>)"

section \<open>The steps of the radar\<close>

text \<open>The goroutines of \<open>Run\<close>, and the calls of the simulator feed, at a time \<open>now\<close>. An update that
  panics has no step.\<close>

inductive radar_step :: "radar_lib \<Rightarrow> int \<Rightarrow> Radar \<Rightarrow> RadarEvent list \<Rightarrow> Radar \<Rightarrow> bool" for L where
  started: "handleStarted r = (r', events) \<Longrightarrow> radar_step L now r events r'"
| updated: "handleUpdate L labels frame r = Some r' \<Longrightarrow> radar_step L now r [] r'"
| faded: "radar_step L now r [] (receive_fade now fade r)"
| ticked: "fade_tick L now r = (r', events) \<Longrightarrow> radar_step L now r events r'"
| collected: "handleGarbageCollection L r = (r', events) \<Longrightarrow> radar_step L now r events r'"
| centered: "radar_step L now r [] (updateCenterPoint L r)"
| mission_time: "radar_step L now r [] (SetMissionTime t r)"
| bullseye: "radar_step L now r [] (SetBullseye L pt coalition r)"

inductive_cases radar_step_cases: "radar_step L now r events r'"

text \<open>The states of a radar from its creation on; the callbacks may be set at any time.\<close>

inductive radar_reachable :: "radar_lib \<Rightarrow> Radar \<Rightarrow> bool" for L where
  new: "radar_reachable L (NewRadar coalition mandatory bearing_spread range_spread detection srs)"
| step: "radar_reachable L r \<Longrightarrow> radar_step L now r events r' \<Longrightarrow> radar_reachable L r'"
| callbacks: "radar_reachable L r \<Longrightarrow>
    radar_reachable L (r\<lparr>startedCallback := s, fadedCallback := f, removalCallback := m\<rparr>)"

section \<open>The invariant\<close>

definition radar_ok :: "Radar \<Rightarrow> bool" where
  "radar_ok r \<longleftrightarrow> db_ok (db r) \<and> gomap_ok (completedFades r) \<and> gomap_ok (bullseyes r)"

lemma handleUpdate_ok [inv_intros]:
  assumes "radar_ok r" and "counting_push (lib_push L)" and "handleUpdate L labels frame r = Some r'"
  shows "radar_ok r'"
proof (cases "getByID (label_ID labels) (db r)")
  case None
  with assms(3) obtain d where d: "db_set (NewTrackfile labels) (db r) = Some d" "r' = r\<lparr>db := d\<rparr>"
    by (auto simp: handleUpdate_def)
  have "db_ok d"
    by (rule db_set_ok [OF _ _ NewTrackfile_ok d(1)])
      (use assms(1) None in \<open>simp_all add: radar_ok_def getByID_def NewTrackfile_def\<close>)
  then show ?thesis using assms(1) d(2) by (simp add: radar_ok_def)
next
  case (Some t)
  then show ?thesis
    using assms by (auto simp: handleUpdate_def radar_ok_def intro!: db_modify_ok Update_ok)
qed

lemma collect_step_ok: "db_ok (fst s) \<Longrightarrow> db_ok (fst (collect_step now t s))"
  using db_delete_ok [of "fst s" "tf_ID t"] by (auto simp: collect_step_def Let_def split: prod.splits)

lemma collect_fold_ok: "db_ok (fst s) \<Longrightarrow> db_ok (fst (fold (collect_step now) ts s))"
  by (induction ts arbitrary: s) (simp_all add: collect_step_ok)

lemma handleGarbageCollection_ok [inv_intros]:
  "radar_ok r \<Longrightarrow> radar_ok (fst (handleGarbageCollection L r))"
  using collect_fold_ok [of "(db r, [])" "missionTime r" "scope_values L r []"]
  by (auto simp: handleGarbageCollection_def radar_ok_def Let_def split: prod.splits)

lemma handleStarted_ok [inv_intros]: "radar_ok r \<Longrightarrow> radar_ok (fst (handleStarted r))"
  by (simp add: handleStarted_def radar_ok_def db_ok_reset)

lemma receive_fade_ok [inv_intros]: "radar_ok r \<Longrightarrow> radar_ok (receive_fade now fade r)"
  by (simp add: receive_fade_def radar_ok_def Let_def split: option.split)

lemma collectFadedGroups_state:
  "collectFadedGroups L now fades r groups = (r', groups') \<Longrightarrow>
   \<exists>completed. r' = r\<lparr>completedFades := completed\<rparr> \<and> (gomap_ok (completedFades r) \<longrightarrow> gomap_ok completed)"
proof (induction fades arbitrary: r groups)
  case Nil
  then show ?case by (auto intro: exI [of _ "completedFades r"])
next
  case (Cons fade fades)
  let ?r = "r\<lparr>completedFades := AList.update fade now (completedFades r)\<rparr>"
  show ?case
  proof (cases "map_of (completedFades r) fade")
    case None
    then have "\<exists>groups0. collectFadedGroups L now fades ?r groups0 = (r', groups')"
      using Cons.prems by (auto simp: Let_def split: option.splits if_splits)
    then obtain completed where "r' = ?r\<lparr>completedFades := completed\<rparr>"
      "gomap_ok (completedFades ?r) \<longrightarrow> gomap_ok completed" using Cons.IH by blast
    then show ?thesis by (auto simp: gomap.ok_put intro!: exI [of _ completed])
  next
    case (Some t)
    then show ?thesis using Cons by simp
  qed
qed

lemma deletes_ok: "db_ok d \<Longrightarrow> db_ok (fold (\<lambda>fade d. fst (db_delete fade d)) fades d)"
  by (induction fades arbitrary: d) (simp_all add: db_delete_ok)

lemma handleFaded_ok [inv_intros]:
  assumes "radar_ok r"
  shows "radar_ok (fst (handleFaded L now fades r))"
proof -
  obtain r' groups where c: "collectFadedGroups L now fades r [] = (r', groups)" by fastforce
  from collectFadedGroups_state [OF c] show ?thesis
    using assms by (auto simp: handleFaded_def c Let_def radar_ok_def deletes_ok)
qed

lemma fade_tick_ok [inv_intros]:
  assumes "radar_ok r"
  shows "radar_ok (fst (fade_tick L now r))"
proof -
  obtain r1 e1 where h: "handleFaded L now (pendingFades r) r = (r1, e1)" by fastforce
  have "radar_ok r1" using handleFaded_ok [OF assms, of L now "pendingFades r"] h by simp
  then show ?thesis using assms
    by (auto simp: fade_tick_def h Let_def radar_ok_def gomap_ok_filter)
qed

lemma updateCenterPoint_ok [inv_intros]: "radar_ok r \<Longrightarrow> radar_ok (updateCenterPoint L r)"
  by (simp add: updateCenterPoint_def radar_ok_def Let_def split: prod.split)

lemma settings_ok [inv_intros]:
  "radar_ok r \<Longrightarrow> radar_ok (SetMissionTime t r)"
  "radar_ok r \<Longrightarrow> radar_ok (SetBullseye L pt coalition r)"
  by (simp_all add: SetMissionTime_def SetBullseye_def radar_ok_def Let_def gomap.ok_put)

lemma radar_step_ok:
  assumes "radar_step L now r events r'" and "counting_push (lib_push L)" and "radar_ok r"
  shows "radar_ok r'"
  using assms
proof (cases rule: radar_step.cases)
  case started
  then show ?thesis using handleStarted_ok [OF assms(3)] by simp
next
  case (updated labels frame)
  then show ?thesis using handleUpdate_ok [OF assms(3, 2)] by blast
next
  case ticked
  then show ?thesis using fade_tick_ok [OF assms(3), of L now] by simp
next
  case collected
  then show ?thesis using handleGarbageCollection_ok [OF assms(3), of L] by simp
qed (auto intro: inv_intros assms(3))

lemma reachable_ok:
  assumes "radar_reachable L r" and "counting_push (lib_push L)"
  shows "radar_ok r"
  using assms(1)
proof induction
  case new
  then show ?case
    by (simp add: NewRadar_def radar_ok_def newContactDatabase_def db_ok_reset)
next
  case (step r now events r')
  then show ?case using radar_step_ok [OF _ assms(2)] by blast
qed (simp add: radar_ok_def)

section \<open>Properties\<close>

text \<open>C20. In every state the radar can reach, each contact is stored under its own ID with at most four
  frames, newest first, and each entry of a callsign index leads to a contact of that name and
  coalition.\<close>

theorem radar_invariant:
  assumes "radar_reachable L r" and "counting_push (lib_push L)"
  shows "(\<forall>uid t. getByID uid (db r) = Some t \<longrightarrow> tf_ID t = uid \<and> length (track t) \<le> 4 \<and>
      sorted_wrt (\<lambda>f g. frame_Time g \<le> frame_Time f) (track t)) \<and>
    (\<forall>c name uid. map_of (coalition_index (db r) c) name = Some uid \<longrightarrow>
      (\<exists>t. getByID uid (db r) = Some t \<and> tf_Coalition t = c \<and> tf_Name t = name))"
proof -
  have "db_ok (db r)" using reachable_ok [OF assms] by (simp add: radar_ok_def)
  then show ?thesis
    by (auto simp: db_ok_def gomap.holds_def getByID_def track_ok_def maxLength_def index_sound_def)
qed

definition demo_start :: Radar where
  "demo_start = NewRadar Blue 0 0 0 False None"

lemma demo_updated:
  "handleUpdate demo_radar_lib (Contact (demo_trackfile 7 ''Eagle 1'' Blue)) zeroFrame demo_start =
     Some (demo_start\<lparr>db := demo_db\<rparr>)"
proof -
  have "getByID 7 (db demo_start) = None" "db demo_start = db_reset"
    by (simp_all add: demo_start_def NewRadar_def newContactDatabase_def getByID_def db_reset_def)
  moreover have "NewTrackfile (Contact (demo_trackfile 7 ''Eagle 1'' Blue)) = demo_trackfile 7 ''Eagle 1'' Blue"
    by (simp add: demo_trackfile_def NewTrackfile_def)
  ultimately show ?thesis using demo_db_set by (simp add: handleUpdate_def)
qed

lemma demo_push_lib: "counting_push (lib_push demo_radar_lib)"
  by (simp add: demo_radar_lib_def demo_push_ok)

theorem radar_invariant_witness:
  "\<exists>r. radar_reachable demo_radar_lib r \<and> getByID 7 (db r) = Some (demo_trackfile 7 ''Eagle 1'' Blue) \<and>
     (\<exists>t. getByID 7 (db r) = Some t \<and> tf_Coalition t = Blue \<and> tf_Name t = ''Eagle 1'')"
proof -
  let ?r = "demo_start\<lparr>db := demo_db\<rparr>"
  have "radar_reachable demo_radar_lib demo_start" unfolding demo_start_def by (rule new)
  from step [OF this updated [OF demo_updated]] have r: "radar_reachable demo_radar_lib ?r" by blast
  have i: "map_of (coalition_index (db ?r) Blue) ''Eagle 1'' = Some 7"
    by (simp add: demo_db_def coalition_index_def)
  have g: "getByID 7 (db ?r) = Some (demo_trackfile 7 ''Eagle 1'' Blue)" by (simp add: demo_db_def getByID_def)
  from radar_invariant [OF r demo_push_lib] i r g show ?thesis by blast
qed

lemma collect_fold_contacts:
  "\<lbrakk>map_of (contacts (fst s)) uid = Some t; map_of (contacts (fst (fold (collect_step now) ts s))) uid = None\<rbrakk>
    \<Longrightarrow> \<exists>u \<in> set ts. tf_ID u = uid \<and> is_expired now u"
proof (induction ts arbitrary: s)
  case (Cons u ts)
  obtain d removed where s: "s = (d, removed)" by (cases s)
  show ?case
  proof (cases "is_expired now u \<and> tf_ID u = uid")
    case False
    then have "map_of (contacts (fst (collect_step now u s))) uid = Some t"
      using Cons.prems(1) db_delete_contacts [of "tf_ID u" d] False
      by (cases "db_delete (tf_ID u) d") (auto simp: collect_step_def s Let_def)
    then show ?thesis using Cons.IH Cons.prems(2) by auto
  qed auto
qed simp

lemma deletes_contacts:
  "map_of (contacts (fold (\<lambda>fade d. fst (db_delete fade d)) fades d)) uid =
     (if uid \<in> set fades then None else map_of (contacts d) uid)"
  by (induction fades arbitrary: d) auto

lemma handleFaded_contacts:
  "getByID uid (db (fst (handleFaded L now fades r))) = (if uid \<in> set fades then None else getByID uid (db r))"
proof -
  obtain r' groups where c: "collectFadedGroups L now fades r [] = (r', groups)" by fastforce
  from collectFadedGroups_state [OF c] have "db r' = db r" by auto
  then show ?thesis by (simp add: handleFaded_def c Let_def getByID_def deletes_contacts)
qed

lemma fade_tick_contacts:
  "getByID uid (db (fst (fade_tick L now r))) =
     (if now > fade_deadline r \<and> uid \<in> set (pendingFades r) then None else getByID uid (db r))"
  using handleFaded_contacts [of uid L now "pendingFades r" r]
  by (auto simp: fade_tick_def Let_def areFadesPending_def split: prod.splits)

lemma gc_contacts:
  assumes "db_ok (db r)" and "getByID uid (db r) = Some t"
    and "getByID uid (db (fst (handleGarbageCollection L r))) = None"
  shows "pendingFades r = [] \<and> is_expired (missionTime r) t"
proof -
  have p: "pendingFades r = []"
    using assms(2, 3) by (auto simp: handleGarbageCollection_def split: if_splits)
  obtain d removed where f: "fold (collect_step (missionTime r)) (scope_values L r []) (db r, []) = (d, removed)"
    by fastforce
  from assms p f have n: "map_of (contacts (db r)) uid = Some t" "map_of (contacts d) uid = None"
    by (simp_all add: handleGarbageCollection_def getByID_def)
  obtain u where u: "u \<in> set (scope_values L r [])" "tf_ID u = uid" "is_expired (missionTime r) u"
    using collect_fold_contacts [of "(db r, [])" uid t "missionTime r" "scope_values L r []"] n f by auto
  then have "u = t" using assms(2) scope_values_iff [OF assms(1)] by force
  then show ?thesis using p u by blast
qed

text \<open>C21. The radar only ever loses a contact when a mission starts, when a fade of that very contact has
  been pending until its deadline passed, or when no fade is pending and the contact was last
  seen more than a minute before the mission time.\<close>

theorem contact_removal:
  assumes "radar_ok r" and "counting_push (lib_push L)" and "radar_step L now r events r'"
    and "getByID uid (db r) = Some t" and "getByID uid (db r') = None"
  shows "db r' = db_reset \<or> (uid \<in> set (pendingFades r) \<and> fade_deadline r < now) \<or>
    (pendingFades r = [] \<and> frame_Time (LastKnown t) \<noteq> 0 \<and> frame_Time (LastKnown t) < missionTime r - minute)"
  using assms(3)
proof (cases rule: radar_step.cases)
  case started
  then show ?thesis by (auto simp: handleStarted_def)
next
  case (updated labels frame)
  then have "getByID uid (db r') \<noteq> None"
    using assms(4)
    by (auto simp: handleUpdate_def getByID_def db_modify_contacts dest!: db_set_contacts split: option.splits)
  then show ?thesis using assms(5) by simp
next
  case (faded fade)
  then show ?thesis using assms(4, 5) by (auto simp: receive_fade_def Let_def split: option.splits)
next
  case ticked
  then show ?thesis using assms(4, 5) fade_tick_contacts [of uid L now r] by (auto split: if_splits)
next
  case collected
  then show ?thesis
    using gc_contacts [OF _ assms(4), of L] assms(1, 5) by (auto simp: radar_ok_def is_expired_def)
qed (use assms(4, 5) in \<open>auto simp: updateCenterPoint_def SetMissionTime_def SetBullseye_def Let_def split: prod.splits\<close>)

definition demo_fading :: Radar where
  "demo_fading = demo_scope\<lparr>pendingFades := [7], fade_deadline := 3\<rparr>"

lemma demo_fading_db [simp]: "db demo_fading = db demo_scope" "fadedCallback demo_fading"
  "pendingFades demo_fading = [7]" "fade_deadline demo_fading = 3" "completedFades demo_fading = []"
  by (simp_all add: demo_fading_def demo_scope_def demo_radar_def)

lemma demo_fading_ok: "radar_ok demo_fading"
  by (simp add: radar_ok_def demo_scope_ok) (simp add: demo_fading_def demo_scope_def demo_radar_def)

theorem contact_removal_witness:
  "\<exists>events r'. radar_step demo_radar_lib 4 demo_fading events r' \<and> getByID 7 (db demo_fading) = Some demo_lead \<and>
     getByID 7 (db r') = None \<and> (db r' = db_reset \<or> 7 \<in> set (pendingFades demo_fading) \<or> pendingFades demo_fading = [])"
proof -
  obtain r' events where t: "fade_tick demo_radar_lib 4 demo_fading = (r', events)" by fastforce
  have n: "getByID 7 (db r') = None"
    using fade_tick_contacts [of 7 demo_radar_lib 4 demo_fading] t by simp
  have s: "radar_step demo_radar_lib 4 demo_fading events r'" by (rule ticked [OF t])
  have g: "getByID 7 (db demo_fading) = Some demo_lead" by (simp add: demo_scope_get)
  from contact_removal [OF demo_fading_ok demo_push_lib s g n] s g n show ?thesis by blast
qed

lemma findGroup_cong:
  "findGroupForAircraft L (r\<lparr>completedFades := completed\<rparr>) t = findGroupForAircraft L r t"
proof -
  have d: "radar_distance L (r\<lparr>completedFades := completed\<rparr>) = radar_distance L r" for L r
    by (simp add: radar_distance_def withProjection_def fun_eq_iff)
  have c: "comparable L (r\<lparr>completedFades := completed\<rparr>) = comparable L r" for L r
    by (simp add: comparable_def d fun_eq_iff)
  have s: "scope_values L (r\<lparr>completedFades := completed\<rparr>) = scope_values L r" for L r
    by (simp add: scope_values_def fun_eq_iff)
  have "addNearby L (r\<lparr>completedFades := completed\<rparr>) this others g = addNearby L r this others g" for this others g
    by (induction L r this others g rule: addNearby.induct) (simp_all add: c s Let_def)
  then show ?thesis
    by (simp add: findGroupForAircraft_def s Let_def setBullseyeForGroup_def bullseye_of_def d
      radar_bearing_def withProjection_def radar_Declination_def)
qed

text \<open>What the collection reports of a list of fades, beside the groups it already has.\<close>

definition fades_reported :: "radar_lib \<Rightarrow> Radar \<Rightarrow> u64 list \<Rightarrow> group list \<Rightarrow> Radar \<Rightarrow> group list \<Rightarrow> bool" where
  "fades_reported L r fades groups r' groups' \<longleftrightarrow>
     set groups \<subseteq> set groups' \<and>
     (\<forall>g \<in> set groups'. g \<in> set groups \<or> (\<exists>fade \<in> set fades. \<exists>t. map_of (completedFades r) fade = None \<and>
        getByID fade (db r) = Some t \<and> g = findGroupForAircraft L r t)) \<and>
     (\<forall>fade \<in> set fades. \<forall>t. map_of (completedFades r) fade = None \<longrightarrow> getByID fade (db r) = Some t \<longrightarrow>
        (\<exists>g \<in> set groups'. isTrackfileInGroup t g)) \<and>
     dom (map_of (completedFades r')) = dom (map_of (completedFades r)) \<union> set fades"

lemma in_own_group: "isTrackfileInGroup t (findGroupForAircraft L r t)"
  by (simp add: isTrackfileInGroup_def g_contacts_def)

lemma collectFadedGroups_reports:
  "collectFadedGroups L now fades r groups = (r', groups') \<Longrightarrow> fades_reported L r fades groups r' groups'"
proof (induction fades arbitrary: r groups)
  case Nil
  then show ?case by (simp add: fades_reported_def)
next
  case (Cons fade fades)
  let ?r = "r\<lparr>completedFades := AList.update fade now (completedFades r)\<rparr>"
  show ?case
  proof (cases "map_of (completedFades r) fade")
    case (Some time)
    then have "fades_reported L r fades groups r' groups'" using Cons by simp
    then show ?thesis using Some unfolding fades_reported_def by auto
  next
    case None
    let ?groups = "(case getByID fade (db r) of None \<Rightarrow> groups | Some t \<Rightarrow>
        if list_ex (isTrackfileInGroup t) groups then groups else groups @ [findGroupForAircraft L r t])"
    have "collectFadedGroups L now fades ?r ?groups = (r', groups')"
      using Cons.prems None by (auto simp: Let_def findGroup_cong split: option.splits if_splits)
    then have ih: "fades_reported L ?r fades ?groups r' groups'" by (rule Cons.IH)
    have sub: "set groups \<subseteq> set ?groups" by (simp add: subset_iff split: option.split)
    have new: "g \<in> set ?groups \<Longrightarrow> g \<in> set groups \<or> (\<exists>t. getByID fade (db r) = Some t \<and> g = findGroupForAircraft L r t)" for g
      by (auto split: option.splits if_splits)
    have own: "getByID fade (db r) = Some t \<Longrightarrow> \<exists>g \<in> set ?groups. isTrackfileInGroup t g" for t
      using in_own_group [of t L r] by (auto simp: list_ex_iff)
    have c: "map_of (completedFades ?r) x = None \<longleftrightarrow> x \<noteq> fade \<and> map_of (completedFades r) x = None" for x
      by (simp add: map_of_update)
    show ?thesis unfolding fades_reported_def
    proof (intro conjI ballI allI impI)
      show "set groups \<subseteq> set groups'" using ih sub unfolding fades_reported_def by blast
      show "dom (map_of (completedFades r')) = dom (map_of (completedFades r)) \<union> set (fade # fades)"
        using ih by (auto simp: fades_reported_def map_of_update)
      show "g \<in> set groups \<or> (\<exists>fade \<in> set (fade # fades). \<exists>t. map_of (completedFades r) fade = None \<and>
          getByID fade (db r) = Some t \<and> g = findGroupForAircraft L r t)" if "g \<in> set groups'" for g
      proof -
        have "g \<in> set ?groups \<or> (\<exists>fade \<in> set fades. \<exists>t. map_of (completedFades ?r) fade = None \<and>
            getByID fade (db ?r) = Some t \<and> g = findGroupForAircraft L ?r t)"
          using ih that unfolding fades_reported_def by blast
        then show ?thesis using new [of g] None unfolding c findGroup_cong by auto
      qed
      show "\<exists>g \<in> set groups'. isTrackfileInGroup t g"
        if "x \<in> set (fade # fades)" "map_of (completedFades r) x = None" "getByID x (db r) = Some t" for x t
      proof (cases "x = fade")
        case True
        then show ?thesis using own that(3) ih unfolding fades_reported_def by blast
      next
        case False
        then have "x \<in> set fades" "map_of (completedFades ?r) x = None" "getByID x (db ?r) = Some t"
          using that c by simp_all
        then show ?thesis using ih unfolding fades_reported_def by blast
      qed
    qed
  qed
qed

text \<open>C22. When pending fades are handled, all of the faded contacts are gone from the database; each that
  was in it and was not reported in the last minutes is in a reported group; and each group
  reported is that of such a contact, with its coalition. All are remembered as reported.\<close>

theorem fades_handled:
  assumes "handleFaded L now fades r = (r', events)" and "fadedCallback r"
  shows "(\<forall>fade \<in> set fades. getByID fade (db r') = None \<and> map_of (completedFades r') fade \<noteq> None) \<and>
    (\<forall>fade \<in> set fades. \<forall>t. map_of (completedFades r) fade = None \<longrightarrow> getByID fade (db r) = Some t \<longrightarrow>
      (\<exists>pt g c. FadedEvent pt g c \<in> set events \<and> isTrackfileInGroup t g)) \<and>
    (\<forall>event \<in> set events. \<exists>fade \<in> set fades. \<exists>t. map_of (completedFades r) fade = None \<and>
      getByID fade (db r) = Some t \<and>
      event = FadedEvent (g_point L (findGroupForAircraft L r t)) (findGroupForAircraft L r t) (tf_Coalition t))"
proof -
  obtain r1 groups where c: "collectFadedGroups L now fades r [] = (r1, groups)" by fastforce
  have rep: "fades_reported L r fades [] r1 groups" by (rule collectFadedGroups_reports [OF c])
  have cb: "fadedCallback r1" using collectFadedGroups_state [OF c] assms(2) by auto
  have r': "completedFades r' = completedFades r1"
    and events: "events = map (\<lambda>g. FadedEvent (g_point L g) g (tf_Coalition (g_lead g))) groups"
    using assms(1) cb by (auto simp: handleFaded_def c Let_def)
  have gone: "getByID fade (db r') = None" if "fade \<in> set fades" for fade
    using handleFaded_contacts [of fade L now fades r] that assms(1) by simp
  have "map_of (completedFades r') fade \<noteq> None" if "fade \<in> set fades" for fade
    using rep that unfolding fades_reported_def r' by blast
  moreover have "\<exists>pt g c. FadedEvent pt g c \<in> set events \<and> isTrackfileInGroup t g"
    if "fade \<in> set fades" "map_of (completedFades r) fade = None" "getByID fade (db r) = Some t" for fade t
    using rep that unfolding fades_reported_def events by fastforce
  moreover have "\<exists>fade \<in> set fades. \<exists>t. map_of (completedFades r) fade = None \<and> getByID fade (db r) = Some t \<and>
      event = FadedEvent (g_point L (findGroupForAircraft L r t)) (findGroupForAircraft L r t) (tf_Coalition t)"
    if "event \<in> set events" for event
  proof -
    from that obtain g where g: "g \<in> set groups" "event = FadedEvent (g_point L g) g (tf_Coalition (g_lead g))"
      unfolding events by auto
    then obtain fade t where "fade \<in> set fades" "map_of (completedFades r) fade = None"
      "getByID fade (db r) = Some t" "g = findGroupForAircraft L r t"
      using rep unfolding fades_reported_def by auto
    then show ?thesis using g(2) by auto
  qed
  ultimately show ?thesis using gone by blast
qed

theorem fades_handled_witness:
  "\<exists>r' events pt g c. handleFaded demo_radar_lib 4 [7] demo_fading = (r', events) \<and>
     getByID 7 (db r') = None \<and> FadedEvent pt g c \<in> set events \<and> isTrackfileInGroup demo_lead g"
proof -
  obtain r' events where h: "handleFaded demo_radar_lib 4 [7] demo_fading = (r', events)" by fastforce
  have g: "getByID 7 (db demo_fading) = Some demo_lead" by (simp add: demo_scope_get)
  from fades_handled [OF h demo_fading_db(2)] g h show ?thesis by fastforce
qed

text \<open>A fade extends the deadline by fifteen or by five seconds, so pending fades are handled by the
  first tick that comes more than fifteen seconds after the last of them.\<close>

theorem fades_deadline:
  assumes "getByID fade (db r) = Some t" and "now + 15 * second < later"
  shows "pendingFades (receive_fade now fade r) = pendingFades r @ [fade] \<and>
    fade_deadline (receive_fade now fade r) \<in> {now + 5 * second, now + 15 * second} \<and>
    pendingFades (fst (fade_tick L later (receive_fade now fade r))) = [] \<and>
    getByID fade (db (fst (fade_tick L later (receive_fade now fade r)))) = None"
proof -
  have r: "pendingFades (receive_fade now fade r) = pendingFades r @ [fade]"
    "fade_deadline (receive_fade now fade r) \<in> {now + 5 * second, now + 15 * second}"
    using assms(1) by (simp_all add: receive_fade_def Let_def longExtension_def shortExtension_def)
  moreover have d: "fade_deadline (receive_fade now fade r) < later" using r(2) assms(2) by (auto simp: second_def)
  ultimately show ?thesis
    using fade_tick_contacts [of fade L later "receive_fade now fade r"]
    by (auto simp: fade_tick_def areFadesPending_def Let_def split: prod.split)
qed

theorem fades_deadline_witness:
  "pendingFades (fst (fade_tick demo_radar_lib 20000000000 (receive_fade 4 8 demo_fading))) = []"
  using fades_deadline [of 8 demo_fading demo_wing 4 20000000000 demo_radar_lib]
  by (simp add: demo_scope_get second_def)

text \<open>The ticker resets the count of extensions every three seconds even while fades are pending, so
  a fade after it gets the long extension however many came before: the shorter extension is
  only given to the third and later fades between two ticks.\<close>

theorem long_extension_returns:
  assumes "getByID fade (db (fst (fade_tick L now r))) = Some t"
  shows "fade_deadline (receive_fade later fade (fst (fade_tick L now r))) = later + 15 * second"
  using assms by (auto simp: receive_fade_def fade_tick_def Let_def longExtension_def maxLongExtensions_def
    split: prod.splits)

theorem long_extension_returns_witness:
  "fade_deadline (receive_fade 9 8 (fst (fade_tick demo_radar_lib 2 (demo_fading\<lparr>fade_extensions := 100\<rparr>)))) = 9 + 15 * second"
  by (rule long_extension_returns [of 8 demo_radar_lib 2 _ demo_wing])
    (simp add: fade_tick_contacts demo_scope_get)

text \<open>The first frame received of a contact is dropped: the contact is stored without any position,
  and until a second frame arrives it is never collected, however old it gets.\<close>

theorem first_frame_dropped:
  assumes "getByID (label_ID labels) (db r) = None" and "handleUpdate L labels frame r = Some r'"
  shows "getByID (label_ID labels) (db r') = Some (NewTrackfile labels) \<and>
    LastKnown (NewTrackfile labels) = zeroFrame \<and> \<not> is_expired now (NewTrackfile labels)"
  using assms
  by (auto simp: handleUpdate_def getByID_def NewTrackfile_def LastKnown_def Newest_def is_expired_def zeroFrame_def
    dest!: db_set_contacts)

theorem first_frame_dropped_witness:
  "\<exists>r'. handleUpdate demo_radar_lib (Contact (demo_trackfile 7 ''Eagle 1'' Blue)) zeroFrame demo_start = Some r' \<and>
     getByID 7 (db r') = Some (NewTrackfile (Contact (demo_trackfile 7 ''Eagle 1'' Blue)))"
proof -
  have "getByID (label_ID (Contact (demo_trackfile 7 ''Eagle 1'' Blue))) (db demo_start) = None"
    by (simp add: demo_start_def NewRadar_def newContactDatabase_def getByID_def db_reset_def)
  from first_frame_dropped [OF this demo_updated] demo_updated show ?thesis by auto
qed

end
