(* ===== verification/Searches.thy ===== *)
theory Searches
  imports Radar
begin

text \<open>
  What the controller asks of the radar: the nearest contact and group
  (\<open>pkg/radar/nearest.go\<close>), the groups around a point (\<open>pkg/radar/nearby.go\<close>), merges
  (\<open>pkg/radar/merged.go\<close>), the picture (\<open>pkg/radar/picture.go\<close>) and threats
  (\<open>pkg/radar/threat.go\<close>). Go's maps of groups are lists of pairs here.
\<close>

section \<open>Sorting\<close>

text \<open>\<open>slices.SortFunc\<close> for up to twelve elements: each element is moved to the left in the sorted
  prefix (kept here from its end backwards) while it is less than its neighbour. On longer slices Go uses another algorithm, which agrees with this one, but for the
  order of equal elements, when the comparison is a strict weak order.\<close>

fun insert_back :: "('a \<Rightarrow> 'a \<Rightarrow> int) \<Rightarrow> 'a \<Rightarrow> 'a list \<Rightarrow> 'a list" where
  "insert_back cmp x [] = [x]"
| "insert_back cmp x (y # ys) = (if cmp x y < 0 then y # insert_back cmp x ys else x # y # ys)"

definition SortFunc :: "('a \<Rightarrow> 'a \<Rightarrow> int) \<Rightarrow> 'a list \<Rightarrow> 'a list" where
  "SortFunc cmp xs = rev (fold (insert_back cmp) xs [])"

definition cmp_real :: "real \<Rightarrow> real \<Rightarrow> int" where
  "cmp_real a b = (if a < b then -1 else if a > b then 1 else 0)"

section \<open>The nearest contact\<close>

definition in_block :: "real \<Rightarrow> real \<Rightarrow> Trackfile \<Rightarrow> bool" where
  "in_block minAltitude maxAltitude t \<longleftrightarrow>
     minAltitude \<le> frame_Altitude (LastKnown t) \<and> frame_Altitude (LastKnown t) \<le> maxAltitude"

definition last_point :: "Trackfile \<Rightarrow> point" where
  "last_point t = frame_Point (LastKnown t)"

definition nearest_step ::
    "radar_lib \<Rightarrow> Radar \<Rightarrow> point \<Rightarrow> (Trackfile \<Rightarrow> bool) \<Rightarrow> Trackfile \<Rightarrow> Trackfile option \<times> real \<Rightarrow> Trackfile option \<times> real" where
  "nearest_step L r origin_pt wanted t s =
     (let (nearestTrackfile, nearestDistance) = s
      in if wanted t
         then let distance = radar_distance L r origin_pt (last_point t)
              in if distance < nearestDistance then (Some t, distance) else s
         else s)"

definition FindNearestTrackfile ::
    "radar_lib \<Rightarrow> Radar \<Rightarrow> point \<Rightarrow> real \<Rightarrow> real \<Rightarrow> real \<Rightarrow> Coalition \<Rightarrow> ContactCategory \<Rightarrow> Trackfile option" where
  "FindNearestTrackfile L r origin_pt minAltitude maxAltitude radius coalition category =
     fst (fold (nearest_step L r origin_pt (\<lambda>t. isMatch L t coalition category \<and> in_block minAltitude maxAltitude t))
       (scope_values L r []) (None, radius))"

definition isGroupWithinThreatRadius :: "radar_lib \<Rightarrow> Radar \<Rightarrow> group \<Rightarrow> real \<Rightarrow> bool" where
  "isGroupWithinThreatRadius L r g distance \<longleftrightarrow>
     g_isArmed L g \<and> (distance < g_threatRadius L g \<or> distance < mandatoryThreatRadius r)"

definition FindNearestGroupWithBRAA ::
    "radar_lib \<Rightarrow> Radar \<Rightarrow> point \<Rightarrow> real \<Rightarrow> real \<Rightarrow> real \<Rightarrow> Coalition \<Rightarrow> ContactCategory \<Rightarrow> group option" where
  "FindNearestGroupWithBRAA L r origin_pt minAltitude maxAltitude radius coalition category =
     (case FindNearestTrackfile L r origin_pt minAltitude maxAltitude radius coalition category of
        None \<Rightarrow> None
      | Some t \<Rightarrow>
          if IsLastKnownPointZero t then None
          else let g = findGroupForAircraft L r t;
                   declination = radar_Declination L r origin_pt;
                   bearing = to_Magnetic (radar_bearing L r origin_pt (g_point L g)) declination;
                   distance = radar_distance L r origin_pt (g_point L g);
                   aspect = AspectFromAngle bearing (Course (lib_geo L) (lib_calendar L) (withProjection r) t)
               in Some (g\<lparr>g_braa := Some (NewBRAA (lib_units L) bearing distance (g_altitudes (lib_units L) g) aspect),
                    g_bullseye := None, g_aspect := Some aspect,
                    g_isThreat := isGroupWithinThreatRadius L r g distance\<rparr>))"

text \<open>The aspect that is known only when the group's course is.\<close>

definition group_aspect :: "radar_lib \<Rightarrow> group \<Rightarrow> Bearing \<Rightarrow> Aspect" where
  "group_aspect L g bearing =
     (let (course, ok) = g_course L g in if ok then AspectFromAngle bearing course else UnknownAspect)"

definition FindNearestGroupWithBullseye ::
    "radar_lib \<Rightarrow> Radar \<Rightarrow> point \<Rightarrow> real \<Rightarrow> real \<Rightarrow> real \<Rightarrow> Coalition \<Rightarrow> ContactCategory \<Rightarrow> group option" where
  "FindNearestGroupWithBullseye L r origin_pt minAltitude maxAltitude radius coalition category =
     (case FindNearestTrackfile L r origin_pt minAltitude maxAltitude radius coalition category of
        None \<Rightarrow> None
      | Some t \<Rightarrow>
          (let g = findGroupForAircraft L r t;
               declination = radar_Declination L r origin_pt;
               bearing = to_Magnetic (radar_bearing L r origin_pt (g_point L g)) declination;
               distance = radar_distance L r origin_pt (g_point L g)
           in Some (g\<lparr>g_aspect := Some (group_aspect L g bearing),
                g_isThreat := isGroupWithinThreatRadius L r g distance\<rparr>)))"

text \<open>The angles of the sector's arc: the loop counts down from \<open>arc/2\<close> by a tenth of the arc.\<close>

function sector_angles :: "real \<Rightarrow> real \<Rightarrow> real list" where
  "sector_angles arc a = (if 0 < arc \<and> - arc / 2 < a then a # sector_angles arc (a - arc / 10) else [])"
  by pat_completeness auto

termination
proof (relation "measure (\<lambda>(arc, a). nat \<lceil>(a + arc / 2) / (arc / 10)\<rceil>)", goal_cases)
  case (2 arc a)
  then have "(a - arc / 10 + arc / 2) / (arc / 10) = (a + arc / 2) / (arc / 10) - 1"
    by (simp add: field_simps)
  moreover have "0 < (a + arc / 2) / (arc / 10)" using 2 by (simp add: field_simps)
  then have "0 < \<lceil>(a + arc / 2) / (arc / 10)\<rceil>" by simp
  ultimately show ?case by simp
qed simp

declare sector_angles.simps [simp del]

definition sector :: "radar_lib \<Rightarrow> point \<Rightarrow> Bearing \<Rightarrow> real \<Rightarrow> real \<Rightarrow> point list" where
  "sector L origin_pt bearing arc len =
     [origin_pt] @ map (\<lambda>a. geo_PointAt (lib_geo L) origin_pt (bearing_Value bearing + a) (len / Meter (lib_units L)))
       (sector_angles arc (arc / 2)) @ [origin_pt]"

definition DefaultMarginRadius :: "units \<Rightarrow> real" where
  "DefaultMarginRadius u = 3 * NauticalMile u"

text \<open>The code compares with a nearest distance of \<open>math.MaxFloat64\<close>, which it never lowers, so the
  comparison always succeeds.\<close>

definition sector_step ::
    "radar_lib \<Rightarrow> Radar \<Rightarrow> point \<Rightarrow> point list \<Rightarrow> (Trackfile \<Rightarrow> bool) \<Rightarrow> Trackfile \<Rightarrow> Trackfile option \<Rightarrow> Trackfile option" where
  "sector_step L r origin_pt polygon wanted t nearestContact =
     (if wanted t \<and> radar_distance L r origin_pt (last_point t) > DefaultMarginRadius (lib_units L) \<and>
         lib_PolygonContains L polygon (last_point t)
      then Some t else nearestContact)"

definition FindNearestGroupInSector ::
    "radar_lib \<Rightarrow> Radar \<Rightarrow> point \<Rightarrow> real \<Rightarrow> real \<Rightarrow> real \<Rightarrow> Bearing \<Rightarrow> real \<Rightarrow> Coalition \<Rightarrow> ContactCategory \<Rightarrow> group option" where
  "FindNearestGroupInSector L r origin_pt minAltitude maxAltitude len bearing arc coalition category =
     (let declination = radar_Declination L r origin_pt;
          bearing = to_Magnetic bearing declination;
          polygon = sector L origin_pt bearing arc len
      in case fold (sector_step L r origin_pt polygon
             (\<lambda>t. isMatch L t coalition category \<and> in_block minAltitude maxAltitude t)) (scope_values L r []) None of
           None \<Rightarrow> None
         | Some t \<Rightarrow>
             (let g = findGroupForAircraft L r t;
                  preciseBearing = to_Magnetic (radar_bearing L r origin_pt (last_point t)) declination;
                  aspect = AspectFromAngle preciseBearing (Course (lib_geo L) (lib_calendar L) (withProjection r) t);
                  distance = radar_distance L r origin_pt (last_point t);
                  g = g\<lparr>g_aspect := Some aspect\<rparr>
              in Some (g\<lparr>g_braa := Some (NewBRAA (lib_units L) preciseBearing distance
                     (g_altitudes (lib_units L) g) (g_Aspect g)), g_bullseye := None\<rparr>)))"

definition FindNearestTanker ::
    "radar_lib \<Rightarrow> Radar \<Rightarrow> point \<Rightarrow> Coalition \<Rightarrow> AirRefuelingMethod \<Rightarrow> Trackfile option" where
  "FindNearestTanker L r origin_pt coalition refuelingMethod =
     fst (fold (nearest_step L r origin_pt (\<lambda>t. tf_Coalition t = coalition \<and> isValidTrack L t \<and>
         (case aircraft_of L t of None \<Rightarrow> False | Some data \<Rightarrow> fuelProvider data = refuelingMethod)))
       (scope_values L r []) (None, 2400 * Mile (lib_units L)))"

section \<open>The groups around a point\<close>

definition nearby_step ::
    "radar_lib \<Rightarrow> Radar \<Rightarrow> (Trackfile \<Rightarrow> bool) \<Rightarrow> u64 list \<Rightarrow> Trackfile \<Rightarrow> u64 set \<times> group list \<Rightarrow> u64 set \<times> group list" where
  "nearby_step L r wanted excludedIDs t s =
     (let (visited, groups) = s
      in if tf_ID t \<in> set excludedIDs \<or> tf_ID t \<in> visited then s
         else if wanted t
         then let g = findGroupForAircraft L r t in (visited \<union> set (ObjectIDs g), groups @ [g])
         else s)"

text \<open>A maximal altitude of \<open>None\<close> is \<open>math.MaxFloat64\<close>.\<close>

definition nearby_match ::
    "radar_lib \<Rightarrow> point \<Rightarrow> real \<Rightarrow> real option \<Rightarrow> real \<Rightarrow> Coalition \<Rightarrow> ContactCategory \<Rightarrow> Trackfile \<Rightarrow> bool" where
  "nearby_match L pointOfInterest minAltitude maxAltitude radius coalition category t \<longleftrightarrow>
     isMatch L t coalition category \<and>
     lib_Bound L pointOfInterest (radius / Meter (lib_units L)) (last_point t) \<and>
     minAltitude \<le> frame_Altitude (LastKnown t) \<and>
     (case maxAltitude of None \<Rightarrow> True | Some m \<Rightarrow> frame_Altitude (LastKnown t) \<le> m)"

definition findNearbyGroups ::
    "radar_lib \<Rightarrow> Radar \<Rightarrow> point \<Rightarrow> real \<Rightarrow> real option \<Rightarrow> real \<Rightarrow> Coalition \<Rightarrow> ContactCategory \<Rightarrow> u64 list \<Rightarrow> group list" where
  "findNearbyGroups L r pointOfInterest minAltitude maxAltitude radius coalition category excludedIDs =
     (let wanted = nearby_match L pointOfInterest minAltitude maxAltitude radius coalition category;
          groups = snd (fold (nearby_step L r wanted excludedIDs) (scope_values L r []) ({}, []))
      in SortFunc (\<lambda>a b. cmp_real (radar_distance L r pointOfInterest (g_point L a))
           (radar_distance L r pointOfInterest (g_point L b))) groups)"

definition FindNearbyGroupsWithBullseye ::
    "radar_lib \<Rightarrow> Radar \<Rightarrow> point \<Rightarrow> real \<Rightarrow> real \<Rightarrow> real \<Rightarrow> Coalition \<Rightarrow> ContactCategory \<Rightarrow> u64 list \<Rightarrow> group list" where
  "FindNearbyGroupsWithBullseye L r interest minAltitude maxAltitude radius coalition category excludedIDs =
     findNearbyGroups L r interest minAltitude (Some maxAltitude) radius coalition category excludedIDs"

definition FindNearbyGroupsWithBRAA ::
    "radar_lib \<Rightarrow> Radar \<Rightarrow> point \<Rightarrow> point \<Rightarrow> real \<Rightarrow> real \<Rightarrow> real \<Rightarrow> Coalition \<Rightarrow> ContactCategory \<Rightarrow> u64 list \<Rightarrow> group list" where
  "FindNearbyGroupsWithBRAA L r origin_pt interest minAltitude maxAltitude radius coalition category excludedIDs =
     map (\<lambda>g. let bearing = to_Magnetic (radar_bearing L r origin_pt (g_point L g)) (radar_Declination L r origin_pt);
                  distance = radar_distance L r origin_pt (g_point L g);
                  aspect = group_aspect L g bearing
              in g\<lparr>g_braa := Some (NewBRAA (lib_units L) bearing distance (g_altitudes (lib_units L) g) aspect),
                   g_aspect := Some aspect, g_bullseye := None\<rparr>)
       (findNearbyGroups L r interest minAltitude (Some maxAltitude) radius coalition category excludedIDs)"

section \<open>Merges\<close>

definition mergesForContact :: "radar_lib \<Rightarrow> Radar \<Rightarrow> Trackfile \<Rightarrow> Trackfile list" where
  "mergesForContact L r t =
     (if IsLastKnownPointZero t then []
      else filter (\<lambda>other. tf_Coalition t \<noteq> tf_Coalition other \<and> \<not> IsLastKnownPointZero other \<and>
             radar_distance L r (last_point t) (last_point other) < MergeExitDistance (lib_units L))
           (scope_values L r [tf_ID t]))"

text \<open>The trackfiles merged with a group, by ID.\<close>

definition merged_with :: "radar_lib \<Rightarrow> Radar \<Rightarrow> group \<Rightarrow> (u64, Trackfile) gomap" where
  "merged_with L r g =
     fold (\<lambda>t m. fold (\<lambda>other. AList.update (tf_ID other) other) (mergesForContact L r t) m) (g_contacts g) []"

definition merges_step ::
    "radar_lib \<Rightarrow> Radar \<Rightarrow> Coalition \<Rightarrow> Trackfile \<Rightarrow> u64 set \<times> (group \<times> Trackfile list) list \<Rightarrow>
     u64 set \<times> (group \<times> Trackfile list) list" where
  "merges_step L r coalition contact s =
     (let (visited, merges) = s
      in if tf_ID contact \<in> visited then s
         else if tf_Coalition contact \<noteq> Opposite coalition then s
         else if \<not> isValidTrack L contact then s
         else if (case aircraft_of L contact of None \<Rightarrow> False | Some data \<Rightarrow> Category data = RotaryWing) then s
         else let g = findGroupForAircraft L r contact;
                  visited = visited \<union> set (ObjectIDs g);
                  mergedWith = merged_with L r g
              in if mergedWith = [] then (visited, merges)
                 else (visited, merges @ [(g\<lparr>g_isThreat := True, g_declaration := Furball\<rparr>, map snd mergedWith)]))"

definition Merges :: "radar_lib \<Rightarrow> Radar \<Rightarrow> Coalition \<Rightarrow> (group \<times> Trackfile list) list" where
  "Merges L r coalition = snd (fold (merges_step L r coalition) (scope_values L r []) ({}, []))"

section \<open>The picture\<close>

text \<open>With a threat radius of 0 the quotient is not a number (\<open>None\<close>), with which every comparison
  fails.\<close>

definition weightedDistance :: "real \<Rightarrow> real \<Rightarrow> real option" where
  "weightedDistance distance radius =
     (let distance = (if distance > radius then radius else distance)
      in if radius = 0 then None else Some ((distance / radius) * distance))"

text \<open>A criterion that one of the two fulfils and the other does not decides for that one; the next
  criterion counts when a criterion does not decide.\<close>

definition prefer_by :: "bool \<Rightarrow> bool \<Rightarrow> int" where
  "prefer_by a b = (if a \<and> \<not> b then -1 else if \<not> a \<and> b then 1 else 0)"

definition or_else :: "int \<Rightarrow> int \<Rightarrow> int" where
  "or_else x y = (if x \<noteq> 0 then x else y)"

definition compare_weighted :: "units \<Rightarrow> real option \<Rightarrow> real option \<Rightarrow> int" where
  "compare_weighted u weightedA weightedB =
     (case (weightedA, weightedB) of
        (Some wa, Some wb) \<Rightarrow>
          if \<bar>NauticalMiles u wa - NauticalMiles u wb\<bar> > 3 then (if wa < wb then -1 else 1) else 0
      | _ \<Rightarrow> 0)"

definition compareThreat :: "radar_lib \<Rightarrow> Radar \<Rightarrow> group \<Rightarrow> group \<Rightarrow> int" where
  "compareThreat L r a b =
     (let aIsHelo = (g_category L a = RotaryWing); bIsHelo = (g_category L b = RotaryWing);
          distanceA = radar_distance L r (center r) (g_point L a);
          distanceB = radar_distance L r (center r) (g_point L b);
          aIsThreat = (distanceA < g_threatRadius L a);
          bIsThreat = (distanceB < g_threatRadius L b);
          nm = NauticalMiles (lib_units L)
      in or_else (prefer_by (\<not> aIsHelo) (\<not> bIsHelo))
        (or_else (prefer_by aIsThreat bIsThreat)
        (or_else (if aIsThreat \<and> bIsThreat then prefer_by (g_isFighter L a) (g_isFighter L b) else 0)
        (or_else (compare_weighted (lib_units L) (weightedDistance distanceA (g_threatRadius L a))
                    (weightedDistance distanceB (g_threatRadius L b)))
        (or_else (if \<bar>nm distanceA - nm distanceB\<bar> > 3 then cmp_real distanceA distanceB else 0)
          (cmp_real (g_Altitude (lib_units L) b) (g_Altitude (lib_units L) a)))))))"

definition Picture :: "radar_lib \<Rightarrow> Radar \<Rightarrow> real \<Rightarrow> Coalition \<Rightarrow> ContactCategory \<Rightarrow> int \<times> group list" where
  "Picture L r radius coalition category =
     (let origin_pt = (if IsZero (center r) then bullseye_of coalition r else center r);
          groups = findNearbyGroups L r origin_pt 0 None radius coalition category [];
          groups = SortFunc (compareThreat L r) groups;
          capacity = min (length groups) 3
      in (int (length groups), take capacity groups))"

section \<open>Threats\<close>

definition receivers_of :: "radar_lib \<Rightarrow> Radar \<Rightarrow> group \<Rightarrow> group \<Rightarrow> Trackfile list" where
  "receivers_of L r g friendlyGroup =
     (let distance = radar_distance L r (g_point L g) (g_point L friendlyGroup);
          withinThreatRadius = isGroupWithinThreatRadius L r g distance;
          heloVersusPlane = (g_category L g = RotaryWing \<and> g_category L friendlyGroup = FixedWing)
      in if \<not> withinThreatRadius \<or> heloVersusPlane then []
         else filter (\<lambda>t. case srsClient r of None \<Rightarrow> False | Some c \<Rightarrow> peer_IsOnFrequency c (tf_Name t))
                (List.map_filter (\<lambda>uid. getByID uid (db r)) (ObjectIDs friendlyGroup)))"

definition setGroupBRAA :: "radar_lib \<Rightarrow> Radar \<Rightarrow> point \<Rightarrow> group \<Rightarrow> group" where
  "setGroupBRAA L r origin_pt g =
     (let declination = radar_Declination L r origin_pt;
          bearing = to_Magnetic (radar_bearing L r origin_pt (g_point L g)) declination;
          distance = radar_distance L r origin_pt (g_point L g);
          aspect = group_aspect L g bearing
      in g\<lparr>g_braa := Some (NewBRAA (lib_units L) bearing distance (g_altitudes (lib_units L) g) aspect),
           g_bullseye := None\<rparr>)"

definition widen :: "Bearing \<Rightarrow> Bearing list \<Rightarrow> real \<Rightarrow> real" where
  "widen a bs widest = fold (\<lambda>b widest. if AngularDistance a b > widest then AngularDistance a b else widest) bs widest"

fun widest_of :: "Bearing list \<Rightarrow> real \<Rightarrow> real" where
  "widest_of [] widest = widest"
| "widest_of (a # bs) widest = widest_of bs (widen a bs widest)"

definition bearingSpread :: "radar_lib \<Rightarrow> Radar \<Rightarrow> point \<Rightarrow> Trackfile list \<Rightarrow> real" where
  "bearingSpread L r hostile listeners =
     widest_of (map (\<lambda>t. to_Magnetic (radar_bearing L r (last_point t) hostile) (radar_Declination L r (last_point t)))
       listeners) 0"

text \<open>The extremes start at the infinities, so the first range replaces both; the spread is only
  computed for two receivers or more.\<close>

definition rangeSpread :: "radar_lib \<Rightarrow> Radar \<Rightarrow> point \<Rightarrow> Trackfile list \<Rightarrow> real" where
  "rangeSpread L r hostile listeners =
     (case map (\<lambda>t. radar_distance L r (last_point t) hostile) listeners of
        [] \<Rightarrow> 0
      | d # ds \<Rightarrow> fold (\<lambda>x m. if x > m then x else m) ds d - fold (\<lambda>x m. if x < m then x else m) ds d)"

definition midpoint_of :: "radar_lib \<Rightarrow> Trackfile \<Rightarrow> Trackfile list \<Rightarrow> point" where
  "midpoint_of L t ts = fold (\<lambda>u p. geo_Midpoint (lib_geo L) p (last_point u)) ts (last_point t)"

definition getGroupBRAAOrigin :: "radar_lib \<Rightarrow> Radar \<Rightarrow> group \<Rightarrow> Trackfile list \<Rightarrow> point option" where
  "getGroupBRAAOrigin L r hostile listeners =
     (case listeners of
        t # u # ts \<Rightarrow>
          if bearingSpread L r (g_point L hostile) listeners > maxSharedBRAABearingSpread r then None
          else if rangeSpread L r (g_point L hostile) listeners > maxSharedBRAARangeSpread r then None
          else Some (midpoint_of L t (u # ts))
      | _ \<Rightarrow> None)"

definition threat_search_radius :: "radar_lib \<Rightarrow> Radar \<Rightarrow> real" where
  "threat_search_radius L r =
     (if mandatoryThreatRadius r > 100 * NauticalMile (lib_units L) then mandatoryThreatRadius r
      else 100 * NauticalMile (lib_units L))"

definition threat_listeners :: "radar_lib \<Rightarrow> Radar \<Rightarrow> Coalition \<Rightarrow> group \<Rightarrow> Trackfile list" where
  "threat_listeners L r coalition g =
     (let friendlyGroups = findNearbyGroups L r (g_point L g) 0 None (threat_search_radius L r)
            (Opposite coalition) ContactCategory.Aircraft []
      in concat (map (receivers_of L r g) friendlyGroups))"

definition threat_of :: "radar_lib \<Rightarrow> Radar \<Rightarrow> Coalition \<Rightarrow> group \<Rightarrow> (group \<times> u64 list) option" where
  "threat_of L r coalition g =
     (let listeners = threat_listeners L r coalition g
      in case listeners of
           [] \<Rightarrow> None
         | [t] \<Rightarrow> Some (setGroupBRAA L r (last_point t) g, [tf_ID t])
         | _ \<Rightarrow> Some (case getGroupBRAAOrigin L r g listeners of Some pt \<Rightarrow> setGroupBRAA L r pt g | None \<Rightarrow> g,
                 map tf_ID listeners))"

definition Threats :: "radar_lib \<Rightarrow> Radar \<Rightarrow> Coalition \<Rightarrow> (group \<times> u64 list) list" where
  "Threats L r coalition = List.map_filter (threat_of L r coalition) (enumerateGroups L r coalition)"

section \<open>Sorting, selecting and collecting\<close>

lemma insert_back_mset [simp]: "mset (insert_back cmp x ys) = add_mset x (mset ys)"
  by (induction ys) auto

lemma SortFunc_mset [simp]: "mset (SortFunc cmp xs) = mset xs"
proof -
  have "mset (fold (insert_back cmp) xs ys) = mset xs + mset ys" for ys
    by (induction xs arbitrary: ys) auto
  then show ?thesis by (simp add: SortFunc_def)
qed

lemma SortFunc_set [simp]: "set (SortFunc cmp xs) = set xs"
  using SortFunc_mset by (metis set_mset_mset)

lemma SortFunc_length [simp]: "length (SortFunc cmp xs) = length xs"
  using SortFunc_mset by (metis size_mset)

lemma insert_back_sorted:
  assumes "sorted_wrt (\<lambda>a b. f b \<le> f a) ys"
  shows "sorted_wrt (\<lambda>a b. f b \<le> f a) (insert_back (\<lambda>a b. cmp_real (f a) (f b)) x ys)"
  using assms
proof (induction ys)
  case (Cons y ys)
  have "set (insert_back (\<lambda>a b. cmp_real (f a) (f b)) x ys) = insert x (set ys)"
    by (metis insert_back_mset set_mset_add_mset_insert set_mset_mset)
  then show ?case using Cons by (auto simp: cmp_real_def split: if_splits)
qed simp

lemma SortFunc_sorted: "sorted_wrt (\<lambda>a b. f a \<le> f b) (SortFunc (\<lambda>a b. cmp_real (f a) (f b)) xs)"
proof -
  have "sorted_wrt (\<lambda>a b. f b \<le> f a) ys \<Longrightarrow>
      sorted_wrt (\<lambda>a b. f b \<le> f a) (fold (insert_back (\<lambda>a b. cmp_real (f a) (f b))) xs ys)" for ys
    by (induction xs arbitrary: ys) (simp_all add: insert_back_sorted)
  from this [of "[]"] show ?thesis by (simp add: SortFunc_def sorted_wrt_rev)
qed

lemma nearest_fold:
  assumes "fold (nearest_step L r origin_pt wanted) ts (best, limit) = (best', limit')"
  shows "limit' \<le> limit \<and>
    (\<forall>t \<in> set ts. wanted t \<longrightarrow> limit' \<le> radar_distance L r origin_pt (last_point t)) \<and>
    (best' = best \<and> limit' = limit \<or> (\<exists>t \<in> set ts. best' = Some t \<and> wanted t \<and>
       limit' = radar_distance L r origin_pt (last_point t) \<and> limit' < limit))"
  using assms
proof (induction ts arbitrary: best limit)
  case (Cons t ts)
  obtain b l where bl: "nearest_step L r origin_pt wanted t (best, limit) = (b, l)" by fastforce
  then have "fold (nearest_step L r origin_pt wanted) ts (b, l) = (best', limit')" using Cons.prems by simp
  from Cons.IH [OF this] bl show ?case
    by (auto simp: nearest_step_def Let_def split: if_splits)
qed simp

text \<open>The nearest trackfile found is a contact of the coalition and category with an altitude in the
  block that is nearer than the radius, and no other such contact is nearer; none is found only
  when there is none nearer than the radius.\<close>

theorem nearest_trackfile:
  "case FindNearestTrackfile L r origin_pt lo hi radius coalition category of
     Some t \<Rightarrow> t \<in> set (scope_values L r []) \<and> isMatch L t coalition category \<and> in_block lo hi t \<and>
       radar_distance L r origin_pt (last_point t) < radius \<and>
       (\<forall>u \<in> set (scope_values L r []). isMatch L u coalition category \<and> in_block lo hi u \<longrightarrow>
          radar_distance L r origin_pt (last_point t) \<le> radar_distance L r origin_pt (last_point u))
   | None \<Rightarrow> \<forall>u \<in> set (scope_values L r []). isMatch L u coalition category \<and> in_block lo hi u \<longrightarrow>
          radius \<le> radar_distance L r origin_pt (last_point u)"
proof -
  let ?w = "\<lambda>t. isMatch L t coalition category \<and> in_block lo hi t"
  obtain best limit where f: "fold (nearest_step L r origin_pt ?w) (scope_values L r []) (None, radius) = (best, limit)"
    by fastforce
  then have "FindNearestTrackfile L r origin_pt lo hi radius coalition category = best"
    by (simp add: FindNearestTrackfile_def)
  then show ?thesis using nearest_fold [OF f] by (auto split: option.split)
qed

lemma demo_scope_values: "demo_lead \<in> set (scope_values demo_radar_lib demo_scope here)"
  unfolding scope_values_iff [OF demo_scope_ok] demo_scope_get by (simp add: demo_lead_def)

lemma demo_lead_match: "isMatch demo_radar_lib demo_lead Blue category" "in_block 0 10000 demo_lead"
  by (simp_all add: isMatch_def demo_lead_def in_block_def demo_frame_def)

lemma demo_distance:
  "radar_distance demo_radar_lib demo_scope a b = \<bar>fst a - fst b\<bar> + \<bar>snd a - snd b\<bar>"
  by (simp add: radar_distance_def Distance_def withProjection_def demo_scope_def demo_radar_def demo_geo_def si_units_def)

theorem nearest_trackfile_witness:
  "\<exists>t. FindNearestTrackfile demo_radar_lib demo_scope (33, 40) 0 10000 100 Blue FixedWing = Some t \<and>
     radar_distance demo_radar_lib demo_scope (33, 40) (last_point t) \<le> 5"
proof -
  have d: "radar_distance demo_radar_lib demo_scope (33, 40) (last_point demo_lead) = 5"
    by (simp add: demo_distance last_point_def demo_lead_def demo_frame_def)
  note n = nearest_trackfile [where L = demo_radar_lib and r = demo_scope and origin_pt = "(33, 40)" and lo = 0
      and hi = 10000 and radius = 100 and coalition = Blue and category = FixedWing]
  show ?thesis
  proof (cases "FindNearestTrackfile demo_radar_lib demo_scope (33, 40) 0 10000 100 Blue FixedWing")
    case None
    then have "100 \<le> radar_distance demo_radar_lib demo_scope (33, 40) (last_point demo_lead)"
      using n demo_scope_values demo_lead_match by simp
    then show ?thesis using d by simp
  next
    case (Some t)
    then show ?thesis using n demo_scope_values demo_lead_match d by fastforce
  qed
qed

lemma nearby_fold:
  assumes "fold (nearby_step L r wanted excluded) ts (visited, groups) = (visited', groups')"
    and "visited = (\<Union>g \<in> set groups. set (ObjectIDs g))"
    and "sorted_wrt (\<lambda>g h. tf_ID (g_lead h) \<notin> set (ObjectIDs g)) groups"
  shows "visited' = (\<Union>g \<in> set groups'. set (ObjectIDs g)) \<and>
    sorted_wrt (\<lambda>g h. tf_ID (g_lead h) \<notin> set (ObjectIDs g)) groups' \<and> set groups \<subseteq> set groups' \<and>
    (\<forall>g \<in> set groups'. g \<in> set groups \<or> (\<exists>t \<in> set ts. wanted t \<and> tf_ID t \<notin> set excluded \<and> g = findGroupForAircraft L r t)) \<and>
    (\<forall>t \<in> set ts. wanted t \<longrightarrow> tf_ID t \<notin> set excluded \<longrightarrow> tf_ID t \<in> visited')"
  using assms
proof (induction ts arbitrary: visited groups)
  case (Cons t ts)
  show ?case
  proof (cases "tf_ID t \<in> set excluded \<or> tf_ID t \<in> visited \<or> \<not> wanted t")
    case True
    then have "nearby_step L r wanted excluded t (visited, groups) = (visited, groups)"
      by (auto simp: nearby_step_def)
    then have f: "fold (nearby_step L r wanted excluded) ts (visited, groups) = (visited', groups')"
      using Cons.prems(1) by simp
    have ih: "visited' = (\<Union>g \<in> set groups'. set (ObjectIDs g)) \<and>
      sorted_wrt (\<lambda>g h. tf_ID (g_lead h) \<notin> set (ObjectIDs g)) groups' \<and> set groups \<subseteq> set groups' \<and>
      (\<forall>g \<in> set groups'. g \<in> set groups \<or> (\<exists>t \<in> set ts. wanted t \<and> tf_ID t \<notin> set excluded \<and> g = findGroupForAircraft L r t)) \<and>
      (\<forall>t \<in> set ts. wanted t \<longrightarrow> tf_ID t \<notin> set excluded \<longrightarrow> tf_ID t \<in> visited')"
      by (rule Cons.IH [OF f Cons.prems(2, 3)])
    have "tf_ID t \<in> visited \<Longrightarrow> tf_ID t \<in> visited'" using ih Cons.prems(2) by blast
    then show ?thesis using ih True by auto
  next
    case False
    let ?g = "findGroupForAircraft L r t"
    have own: "tf_ID t \<in> set (ObjectIDs ?g)" by (simp add: ObjectIDs_set g_contacts_def)
    have "nearby_step L r wanted excluded t (visited, groups) = (visited \<union> set (ObjectIDs ?g), groups @ [?g])"
      using False by (simp add: nearby_step_def Let_def)
    then have f: "fold (nearby_step L r wanted excluded) ts (visited \<union> set (ObjectIDs ?g), groups @ [?g]) = (visited', groups')"
      using Cons.prems(1) by simp
    have v: "visited \<union> set (ObjectIDs ?g) = (\<Union>g \<in> set (groups @ [?g]). set (ObjectIDs g))"
      using Cons.prems(2) by auto
    have s: "sorted_wrt (\<lambda>g h. tf_ID (g_lead h) \<notin> set (ObjectIDs g)) (groups @ [?g])"
      using Cons.prems(2, 3) False by (auto simp: sorted_wrt_append)
    from Cons.IH [OF f v s] own False show ?thesis by auto
  qed
qed auto

lemma nearby_sorted:
  "sorted_wrt (\<lambda>g h. radar_distance L r poi (g_point L g) \<le> radar_distance L r poi (g_point L h))
     (findNearbyGroups L r poi lo hi radius coalition category excluded)"
  unfolding findNearbyGroups_def Let_def by (rule SortFunc_sorted)

lemma nearby_found:
  shows "g \<in> set (findNearbyGroups L r poi lo hi radius coalition category excluded) \<Longrightarrow>
      \<exists>t \<in> set (scope_values L r []). nearby_match L poi lo hi radius coalition category t \<and>
        tf_ID t \<notin> set excluded \<and> g = findGroupForAircraft L r t"
    and "t \<in> set (scope_values L r []) \<Longrightarrow> nearby_match L poi lo hi radius coalition category t \<Longrightarrow>
      tf_ID t \<notin> set excluded \<Longrightarrow>
      \<exists>g \<in> set (findNearbyGroups L r poi lo hi radius coalition category excluded). tf_ID t \<in> set (ObjectIDs g)"
proof -
  let ?w = "nearby_match L poi lo hi radius coalition category"
  obtain visited found where f: "fold (nearby_step L r ?w excluded) (scope_values L r []) ({}, []) = (visited, found)"
    by fastforce
  have s: "set (findNearbyGroups L r poi lo hi radius coalition category excluded) = set found"
    using f by (simp add: findNearbyGroups_def Let_def)
  note n = nearby_fold [OF f]
  show "g \<in> set (findNearbyGroups L r poi lo hi radius coalition category excluded) \<Longrightarrow>
      \<exists>t \<in> set (scope_values L r []). ?w t \<and> tf_ID t \<notin> set excluded \<and> g = findGroupForAircraft L r t"
    unfolding s using n by simp
  show "t \<in> set (scope_values L r []) \<Longrightarrow> ?w t \<Longrightarrow> tf_ID t \<notin> set excluded \<Longrightarrow>
      \<exists>g \<in> set (findNearbyGroups L r poi lo hi radius coalition category excluded). tf_ID t \<in> set (ObjectIDs g)"
    unfolding s using n by auto
qed

text \<open>The groups near a point come in the order of their distances; each is the group of a contact in
  the search volume that is not excluded, and every such contact is in one of them.\<close>

theorem nearby_groups:
  assumes "groups = findNearbyGroups L r poi lo hi radius coalition category excluded"
  shows "sorted_wrt (\<lambda>g h. radar_distance L r poi (g_point L g) \<le> radar_distance L r poi (g_point L h)) groups \<and>
    (\<forall>g \<in> set groups. \<exists>t \<in> set (scope_values L r []). nearby_match L poi lo hi radius coalition category t \<and>
       tf_ID t \<notin> set excluded \<and> g = findGroupForAircraft L r t) \<and>
    (\<forall>t \<in> set (scope_values L r []). nearby_match L poi lo hi radius coalition category t \<longrightarrow>
       tf_ID t \<notin> set excluded \<longrightarrow> (\<exists>g \<in> set groups. tf_ID t \<in> set (ObjectIDs g)))"
  unfolding assms by (intro conjI ballI impI nearby_sorted nearby_found)

lemma demo_nearby: "nearby_match demo_radar_lib poi 0 None radius Blue category demo_lead"
  using demo_lead_match by (simp add: nearby_match_def in_block_def) (simp add: demo_radar_lib_def)

theorem nearby_groups_witness:
  "\<exists>g \<in> set (findNearbyGroups demo_radar_lib demo_scope (33, 40) 0 None 100 Blue FixedWing []).
     tf_ID demo_lead \<in> set (ObjectIDs g)"
  using nearby_groups [OF refl, of demo_radar_lib demo_scope "(33, 40)" 0 None 100 Blue FixedWing "[]"]
    demo_scope_values demo_nearby by simp

text \<open>An excluded contact is only not searched from: it is still reported as a member of the group of a
  contact next to it.\<close>

theorem excluded_contact_in_group:
  "\<exists>g \<in> set (findNearbyGroups demo_radar_lib demo_scope (33, 40) 0 None 100 Blue FixedWing [8]). 8 \<in> set (ObjectIDs g)"
proof -
  have ids: "tf_ID demo_lead = 7" "tf_ID demo_wing = 8" by (simp_all add: demo_lead_def demo_wing_def)
  note n = nearby_found [where L = demo_radar_lib and r = demo_scope and poi = "(33, 40)" and lo = 0 and hi = None
      and radius = 100 and coalition = Blue and category = FixedWing and excluded = "[8]"]
  obtain g where g: "g \<in> set (findNearbyGroups demo_radar_lib demo_scope (33, 40) 0 None 100 Blue FixedWing [8])"
    using n(2) [OF demo_scope_values demo_nearby] ids by auto
  from n(1) [OF g] obtain t where t: "t \<in> set (scope_values demo_radar_lib demo_scope [])" "tf_ID t \<noteq> 8"
    "g = findGroupForAircraft demo_radar_lib demo_scope t" by auto
  then have "t = demo_lead"
    unfolding scope_values_iff [OF demo_scope_ok] demo_scope_get by (metis option.distinct(1) option.inject)
  then have "demo_wing \<in> set (g_contacts g)" using t(3) demo_group by blast
  then have "8 \<in> set (ObjectIDs g)" unfolding ObjectIDs_set using ids(2) by (metis imageI)
  then show ?thesis using g by blast
qed

section \<open>The sector\<close>

text \<open>The search of a sector never lowers its nearest distance, so it returns the contact it meets last:
  here the one 1 unit farther away, although both are in the sector.\<close>

theorem sector_not_nearest:
  "\<exists>g. FindNearestGroupInSector demo_radar_lib demo_scope (33, 50000) 0 10000 100000 (MagneticBearing 180) 30 Blue FixedWing = Some g \<and>
     g_lead g = demo_lead \<and> isMatch demo_radar_lib demo_wing Blue FixedWing \<and>
     radar_distance demo_radar_lib demo_scope (33, 50000) (last_point demo_wing)
       < radar_distance demo_radar_lib demo_scope (33, 50000) (last_point demo_lead)"
proof -
  have v: "scope_values demo_radar_lib demo_scope [] = [demo_wing, demo_lead]"
    by (simp add: scope_values_def db_values_def demo_scope_db demo_pair_def Let_def) (simp add: demo_radar_lib_def)
  have d: "radar_distance demo_radar_lib demo_scope (33, 50000) (last_point demo_wing) = 49954"
    "radar_distance demo_radar_lib demo_scope (33, 50000) (last_point demo_lead) = 49955"
    by (simp_all add: demo_distance last_point_def demo_lead_def demo_wing_def demo_frame_def)
  have w: "isMatch demo_radar_lib demo_wing Blue FixedWing" "in_block 0 10000 demo_wing"
    by (simp_all add: isMatch_def demo_wing_def in_block_def demo_frame_def)
  have m: "DefaultMarginRadius (lib_units demo_radar_lib) < 49954" "lib_PolygonContains demo_radar_lib poly p" for poly p
    by (simp add: DefaultMarginRadius_def si_units_def) (simp add: demo_radar_lib_def)
  show ?thesis
    using demo_lead_match w m d
    by (simp add: FindNearestGroupInSector_def Let_def v sector_step_def d del: demo_lib_simps)
qed

text \<open>The sector is drawn around the value of the magnetic bearing, as if it was a true one, whatever
  the declination is.\<close>

theorem sector_ignores_declination:
  "sector L origin_pt (to_Magnetic (MagneticBearing b) declination) arc len = sector L origin_pt (MagneticBearing b) arc len"
  by simp

section \<open>All groups of a coalition\<close>

lemma enumerate_fold:
  assumes "fold (enumerate_step L r coalition) ts (visited, groups) = (visited', groups')"
    and "\<forall>uid \<in> visited. \<forall>t \<in> V. tf_ID t = uid \<longrightarrow> tf_Coalition t = coalition \<longrightarrow> isValidTrack L t \<longrightarrow> (\<exists>g \<in> set groups. uid \<in> set (ObjectIDs g))"
    and "set ts \<subseteq> V" and "\<And>t u. t \<in> V \<Longrightarrow> u \<in> V \<Longrightarrow> tf_ID t = tf_ID u \<Longrightarrow> t = u"
  shows "set groups \<subseteq> set groups' \<and>
    (\<forall>g \<in> set groups'. g \<in> set groups \<or> (\<exists>t \<in> set ts. tf_Coalition t = coalition \<and> isValidTrack L t \<and> g = findGroupForAircraft L r t)) \<and>
    (\<forall>t \<in> set ts. tf_Coalition t = coalition \<longrightarrow> isValidTrack L t \<longrightarrow> (\<exists>g \<in> set groups'. tf_ID t \<in> set (ObjectIDs g)))"
  using assms
proof (induction ts arbitrary: visited groups)
  case (Cons t ts)
  have V: "set ts \<subseteq> V" "t \<in> V" using Cons.prems(3) by auto
  let ?s = "enumerate_step L r coalition t (visited, groups)"
  have f: "fold (enumerate_step L r coalition) ts (fst ?s, snd ?s) = (visited', groups')"
    using Cons.prems(1) by simp
  have own: "tf_ID t \<in> set (ObjectIDs (findGroupForAircraft L r t))" by (simp add: ObjectIDs_set g_contacts_def)
  have grow: "set groups \<subseteq> set (snd ?s)"
    by (auto simp: enumerate_step_def Let_def)
  have inv: "\<forall>uid \<in> fst ?s. \<forall>u \<in> V. tf_ID u = uid \<longrightarrow> tf_Coalition u = coalition \<longrightarrow> isValidTrack L u \<longrightarrow>
      (\<exists>g \<in> set (snd ?s). uid \<in> set (ObjectIDs g))"
  proof (intro ballI impI)
    fix uid u
    assume a: "uid \<in> fst ?s" "u \<in> V" "tf_ID u = uid" "tf_Coalition u = coalition" "isValidTrack L u"
    show "\<exists>g \<in> set (snd ?s). uid \<in> set (ObjectIDs g)"
    proof (cases "uid \<in> visited")
      case True
      then show ?thesis using Cons.prems(2) a grow by blast
    next
      case False
      then have n: "tf_ID t \<notin> visited" using a(1) by (auto simp: enumerate_step_def split: if_splits)
      show ?thesis
      proof (cases "tf_Coalition t = coalition \<and> isValidTrack L t")
        case True
        then show ?thesis using a(1) False n by (auto simp: enumerate_step_def Let_def own)
      next
        case invalid: False
        then have "uid = tf_ID t" using a(1) False n by (auto simp: enumerate_step_def Let_def split: if_splits)
        then have "u = t" using Cons.prems(4) a(2, 3) V(2) by metis
        then show ?thesis using invalid a by blast
      qed
    qed
  qed
  have ih: "set (snd ?s) \<subseteq> set groups' \<and>
    (\<forall>g \<in> set groups'. g \<in> set (snd ?s) \<or> (\<exists>t \<in> set ts. tf_Coalition t = coalition \<and> isValidTrack L t \<and> g = findGroupForAircraft L r t)) \<and>
    (\<forall>t \<in> set ts. tf_Coalition t = coalition \<longrightarrow> isValidTrack L t \<longrightarrow> (\<exists>g \<in> set groups'. tf_ID t \<in> set (ObjectIDs g)))"
    by (rule Cons.IH [OF f inv V(1) Cons.prems(4)])
  have new: "g \<in> set (snd ?s) \<Longrightarrow> g \<in> set groups \<or> (tf_Coalition t = coalition \<and> isValidTrack L t \<and> g = findGroupForAircraft L r t)" for g
    by (auto simp: enumerate_step_def Let_def split: if_splits)
  have "tf_ID t \<in> fst ?s" by (auto simp: enumerate_step_def Let_def)
  then have "tf_Coalition t = coalition \<Longrightarrow> isValidTrack L t \<Longrightarrow> \<exists>g \<in> set (snd ?s). tf_ID t \<in> set (ObjectIDs g)"
    using inv V(2) by blast
  note own_group = this
  show ?case
  proof (intro conjI ballI impI)
    show "set groups \<subseteq> set groups'" using ih grow by blast
    show "g \<in> set groups \<or> (\<exists>u \<in> set (t # ts). tf_Coalition u = coalition \<and> isValidTrack L u \<and> g = findGroupForAircraft L r u)"
      if "g \<in> set groups'" for g
      using ih that new [of g] by (metis list.set_intros)
    show "\<exists>g \<in> set groups'. tf_ID u \<in> set (ObjectIDs g)"
      if "u \<in> set (t # ts)" "tf_Coalition u = coalition" "isValidTrack L u" for u
      using ih own_group that by (metis set_ConsD subsetD)
  qed
qed simp

lemma enumerateGroups_found:
  assumes "db_ok (db r)"
  shows "(\<forall>g \<in> set (enumerateGroups L r coalition). \<exists>t. getByID (tf_ID t) (db r) = Some t \<and>
      tf_Coalition t = coalition \<and> isValidTrack L t \<and> g = findGroupForAircraft L r t) \<and>
    (\<forall>t. getByID (tf_ID t) (db r) = Some t \<longrightarrow> tf_Coalition t = coalition \<longrightarrow> isValidTrack L t \<longrightarrow>
      (\<exists>g \<in> set (enumerateGroups L r coalition). tf_ID t \<in> set (ObjectIDs g)))"
proof -
  let ?V = "set (scope_values L r [])"
  obtain visited groups where f: "fold (enumerate_step L r coalition) (scope_values L r []) ({}, []) = (visited, groups)"
    by fastforce
  have uniq: "t = u" if "t \<in> ?V" "u \<in> ?V" "tf_ID t = tf_ID u" for t u
    using that scope_values_iff [OF assms] by (metis option.inject)
  have e: "enumerateGroups L r coalition = groups" by (simp add: enumerateGroups_def f)
  have ef: "(\<forall>g \<in> set groups. g \<in> set [] \<or> (\<exists>t \<in> ?V. tf_Coalition t = coalition \<and> isValidTrack L t \<and> g = findGroupForAircraft L r t)) \<and>
    (\<forall>t \<in> ?V. tf_Coalition t = coalition \<longrightarrow> isValidTrack L t \<longrightarrow> (\<exists>g \<in> set groups. tf_ID t \<in> set (ObjectIDs g)))"
    by (rule enumerate_fold [OF f _ subset_refl uniq, THEN conjunct2]) simp_all
  have v: "t \<in> ?V \<longleftrightarrow> getByID (tf_ID t) (db r) = Some t" for t by (rule scope_values_iff [OF assms])
  show ?thesis unfolding e
  proof (intro conjI ballI allI impI)
    show "\<exists>t. getByID (tf_ID t) (db r) = Some t \<and> tf_Coalition t = coalition \<and> isValidTrack L t \<and> g = findGroupForAircraft L r t"
      if m: "g \<in> set groups" for g
    proof -
      have "g \<notin> set []" by simp
      then obtain t where "t \<in> ?V" "tf_Coalition t = coalition" "isValidTrack L t" "g = findGroupForAircraft L r t"
        using ef m by blast
      then show ?thesis using v by blast
    qed
    show "\<exists>g \<in> set groups. tf_ID t \<in> set (ObjectIDs g)"
      if "getByID (tf_ID t) (db r) = Some t" "tf_Coalition t = coalition" "isValidTrack L t" for t
      using ef v that by blast
  qed
qed

end
