(* ===== verification/Awareness.thy ===== *)
theory Awareness
  imports Searches
begin

text \<open>
  What the threat, merge and picture searches of the radar (\<open>Searches\<close>) guarantee: who hears a
  threat call, which contacts are merged, and how the picture is ordered.
\<close>

section \<open>Threats\<close>

lemma setGroupBRAA_same [simp]:
  "g_lead (setGroupBRAA L r pt g) = g_lead g" "g_contacts (setGroupBRAA L r pt g) = g_contacts g"
  "g_isArmed L' (setGroupBRAA L r pt g) = g_isArmed L' g"
  by (simp_all add: setGroupBRAA_def Let_def g_contacts_def g_isArmed_def)

lemma set_map_filter: "set (List.map_filter f xs) = {y. \<exists>x \<in> set xs. f x = Some y}"
  by (induction xs) (auto simp: List.map_filter_def split: option.splits)

lemma receivers_of_iff:
  "t \<in> set (receivers_of L r g friendlyGroup) \<longleftrightarrow>
     isGroupWithinThreatRadius L r g (radar_distance L r (g_point L g) (g_point L friendlyGroup)) \<and>
     \<not> (g_category L g = RotaryWing \<and> g_category L friendlyGroup = FixedWing) \<and>
     (\<exists>uid \<in> set (ObjectIDs friendlyGroup). getByID uid (db r) = Some t) \<and>
     (\<exists>c. srsClient r = Some c \<and> peer_IsOnFrequency c (tf_Name t))"
  by (cases "srsClient r") (auto simp: receivers_of_def Let_def set_map_filter)

lemma threat_of_some:
  assumes "threat_listeners L r coalition g \<noteq> []"
  shows "\<exists>g'. threat_of L r coalition g = Some (g', map tf_ID (threat_listeners L r coalition g)) \<and>
     g_lead g' = g_lead g \<and> g_contacts g' = g_contacts g \<and> g_isArmed L g' = g_isArmed L g"
proof (cases "threat_listeners L r coalition g")
  case (Cons t ts)
  then show ?thesis by (cases ts) (simp_all add: threat_of_def split: option.split)
qed (use assms in simp)

lemma threat_of_none: "threat_listeners L r coalition g = [] \<Longrightarrow> threat_of L r coalition g = None"
  by (simp add: threat_of_def)

lemma Threats_iff:
  "threat \<in> set (Threats L r coalition) \<longleftrightarrow>
     (\<exists>g \<in> set (enumerateGroups L r coalition). threat_of L r coalition g = Some threat)"
  by (auto simp: Threats_def set_map_filter)

lemma threat_listener:
  assumes "db_ok (db r)" and "t \<in> set (threat_listeners L r coalition g)"
  shows "getByID (tf_ID t) (db r) = Some t \<and> tf_Coalition t = Opposite coalition \<and> g_isArmed L g \<and>
    (\<exists>c. srsClient r = Some c \<and> peer_IsOnFrequency c (tf_Name t))"
proof -
  from assms(2) obtain fg where fg: "fg \<in> set (findNearbyGroups L r (g_point L g) 0 None (threat_search_radius L r)
      (Opposite coalition) ContactCategory.Aircraft [])" and t: "t \<in> set (receivers_of L r g fg)"
    by (auto simp: threat_listeners_def Let_def)
  from nearby_found(1) [OF fg] obtain u where u: "u \<in> set (scope_values L r [])"
    "tf_Coalition u = Opposite coalition" "fg = findGroupForAircraft L r u"
    by (auto simp: nearby_match_def isMatch_def)
  from t obtain x where x: "x \<in> set (g_contacts fg)" "getByID (tf_ID x) (db r) = Some t"
    unfolding receivers_of_iff ObjectIDs_set by auto
  have "getByID (tf_ID x) (db r) = Some x \<and> tf_Coalition x = tf_Coalition u"
    using group_members [OF assms(1), of u x L] u scope_values_iff [OF assms(1)] x(1) by blast
  then show ?thesis
    using x(2) u(2) t unfolding receivers_of_iff isGroupWithinThreatRadius_def by auto
qed


text \<open>Every valid group of the coalition in whose threat radius there is an opponent on frequency is
  reported to that opponent, unless it is a helicopter group and the opponent's a plane's.\<close>

lemma threats_complete:
  assumes "db_ok (db r)" and "h \<in> set (enumerateGroups L r coalition)"
    and "fg \<in> set (findNearbyGroups L r (g_point L h) 0 None (threat_search_radius L r) (Opposite coalition)
      ContactCategory.Aircraft [])" and "t \<in> set (receivers_of L r h fg)"
  shows "\<exists>g ids. (g, ids) \<in> set (Threats L r coalition) \<and> tf_ID t \<in> set ids \<and> g_contacts g = g_contacts h"
proof -
  have t: "t \<in> set (threat_listeners L r coalition h)"
    using assms(3, 4) by (auto simp: threat_listeners_def Let_def)
  then have ne: "threat_listeners L r coalition h \<noteq> []" by auto
  from threat_of_some [OF ne] obtain g where g: "threat_of L r coalition h = Some (g, map tf_ID (threat_listeners L r coalition h))"
    "g_contacts g = g_contacts h" by blast
  then have "(g, map tf_ID (threat_listeners L r coalition h)) \<in> set (Threats L r coalition)"
    using assms(2) unfolding Threats_iff by blast
  then show ?thesis using t g(2) by (metis image_eqI list.set_map)
qed

text \<open>Without a radio client no threat is ever reported, although the documentation of the radar says
  that every friendly then is a receiver.\<close>

theorem no_client_no_threats: "Threats L (r\<lparr>srsClient := None\<rparr>) coalition = []"
proof -
  have "t \<notin> set (receivers_of L (r\<lparr>srsClient := None\<rparr>) g fg)" for t g fg
    unfolding receivers_of_iff by simp
  then have "receivers_of L (r\<lparr>srsClient := None\<rparr>) g fg = []" for g fg
    by (meson last_in_set)
  then have "threat_listeners L (r\<lparr>srsClient := None\<rparr>) coalition g = []" for g
    by (simp add: threat_listeners_def)
  then have "threat_of L (r\<lparr>srsClient := None\<rparr>) coalition g = None" for g by (rule threat_of_none)
  then have "set (Threats L (r\<lparr>srsClient := None\<rparr>) coalition) = {}" unfolding set_eq_iff Threats_iff by simp
  then show ?thesis by simp
qed

section \<open>Merges\<close>

lemma mergesForContact_iff:
  assumes "db_ok (db r)"
  shows "other \<in> set (mergesForContact L r t) \<longleftrightarrow>
    \<not> IsLastKnownPointZero t \<and> \<not> IsLastKnownPointZero other \<and> getByID (tf_ID other) (db r) = Some other \<and>
    tf_Coalition t \<noteq> tf_Coalition other \<and>
    radar_distance L r (last_point t) (last_point other) < MergeExitDistance (lib_units L)"
  by (auto simp: mergesForContact_def scope_values_iff [OF assms])

lemma fold_update_by_ID:
  "map_of (fold (\<lambda>other. AList.update (tf_ID other) other) others m) =
     map_of m ++ map_of (rev (map (\<lambda>other. (tf_ID other, other)) others))"
proof (induction others arbitrary: m)
  case (Cons x xs)
  have "map_of (AList.update (tf_ID x) x m) = map_of m ++ map_of [(tf_ID x, x)]"
    by (simp add: map_of_update)
  then show ?case by (simp add: Cons.IH del: update_conv' fun_upd_apply)
qed simp

lemma merged_with_concat:
  "merged_with L r g = fold (\<lambda>other. AList.update (tf_ID other) other) (concat (map (mergesForContact L r) (g_contacts g))) []"
proof -
  have "fold (\<lambda>t m. fold (\<lambda>other. AList.update (tf_ID other) other) (f t) m) ts m =
      fold (\<lambda>other. AList.update (tf_ID other) other) (concat (map f ts)) m"
    for ts and m :: "(u64, Trackfile) gomap" and f
    by (induction ts arbitrary: m) simp_all
  then show ?thesis by (simp add: merged_with_def)
qed

lemma merged_with_ok: "gomap_ok (merged_with L r g)"
proof -
  have "gomap_ok m \<Longrightarrow> gomap_ok (fold (\<lambda>other. AList.update (tf_ID other) other) others m)"
    for others and m :: "(u64, Trackfile) gomap"
    by (induction others arbitrary: m) (simp_all add: gomap.ok_put)
  then show ?thesis by (simp add: merged_with_concat)
qed

lemma merged_with_iff:
  assumes "db_ok (db r)"
  shows "f \<in> snd ` set (merged_with L r g) \<longleftrightarrow> (\<exists>t \<in> set (g_contacts g). f \<in> set (mergesForContact L r t))"
proof -
  let ?fs = "concat (map (mergesForContact L r) (g_contacts g))"
  have m: "map_of (merged_with L r g) = map_of (rev (map (\<lambda>other. (tf_ID other, other)) ?fs))"
    by (simp add: merged_with_concat fold_update_by_ID)
  have uniq: "f = f'" if "f \<in> set ?fs" "f' \<in> set ?fs" "tf_ID f = tf_ID f'" for f f'
  proof -
    from that(1, 2) obtain t t' where "f \<in> set (mergesForContact L r t)" "f' \<in> set (mergesForContact L r t')" by auto
    then have "getByID (tf_ID f) (db r) = Some f" "getByID (tf_ID f') (db r) = Some f'"
      using mergesForContact_iff [OF assms] by blast+
    then show ?thesis using that(3) by (metis option.inject)
  qed
  have "f \<in> snd ` set (merged_with L r g) \<longleftrightarrow> (\<exists>uid. map_of (merged_with L r g) uid = Some f)"
  proof -
    have "(uid, f) \<in> set (merged_with L r g) \<longleftrightarrow> map_of (merged_with L r g) uid = Some f" for uid
      by (rule gomap.items_get [OF merged_with_ok])
    then show ?thesis by (metis image_iff prod.collapse snd_conv)
  qed
  also have "\<dots> \<longleftrightarrow> f \<in> set ?fs"
  proof
    assume "\<exists>uid. map_of (merged_with L r g) uid = Some f"
    then show "f \<in> set ?fs" unfolding m by (auto dest!: map_of_SomeD)
  next
    assume f: "f \<in> set ?fs"
    then have "(tf_ID f, f) \<in> set (rev (map (\<lambda>other. (tf_ID other, other)) ?fs))" by simp
    then obtain f' where f': "map_of (rev (map (\<lambda>other. (tf_ID other, other)) ?fs)) (tf_ID f) = Some f'"
      using weak_map_of_SomeI by fast
    then have "(tf_ID f, f') \<in> set (rev (map (\<lambda>other. (tf_ID other, other)) ?fs))" by (rule map_of_SomeD)
    then have "f' \<in> set ?fs \<and> tf_ID f' = tf_ID f" by (simp add: image_iff)
    then have "f' = f" using uniq f by blast
    then show "\<exists>uid. map_of (merged_with L r g) uid = Some f" using f' unfolding m by blast
  qed
  finally show ?thesis by simp
qed

text \<open>The search for merges collects groups like the search around a point does, and then keeps the
  groups that are merged with something.\<close>

definition merge_hostile :: "radar_lib \<Rightarrow> Coalition \<Rightarrow> Trackfile \<Rightarrow> bool" where
  "merge_hostile L coalition t \<longleftrightarrow> tf_Coalition t = Opposite coalition \<and> isValidTrack L t \<and>
     \<not> (case aircraft_of L t of None \<Rightarrow> False | Some data \<Rightarrow> Category data = RotaryWing)"

definition merge_of :: "radar_lib \<Rightarrow> Radar \<Rightarrow> group \<Rightarrow> (group \<times> Trackfile list) option" where
  "merge_of L r g = (if merged_with L r g = [] then None
     else Some (g\<lparr>g_isThreat := True, g_declaration := Furball\<rparr>, map snd (merged_with L r g)))"

lemma map_filter_append: "List.map_filter f (xs @ ys) = List.map_filter f xs @ List.map_filter f ys"
  by (simp add: List.map_filter_def)

lemma merges_as_nearby:
  "fold (merges_step L r coalition) ts (visited, List.map_filter (merge_of L r) groups) =
     (let (visited', groups') = fold (nearby_step L r (merge_hostile L coalition) []) ts (visited, groups)
      in (visited', List.map_filter (merge_of L r) groups'))"
proof (induction ts arbitrary: visited groups)
  case (Cons t ts)
  show ?case
  proof (cases "tf_ID t \<in> visited \<or> \<not> merge_hostile L coalition t")
    case True
    then have "merges_step L r coalition t (visited, List.map_filter (merge_of L r) groups) = (visited, List.map_filter (merge_of L r) groups)"
      "nearby_step L r (merge_hostile L coalition) [] t (visited, groups) = (visited, groups)"
      by (auto simp: merges_step_def nearby_step_def merge_hostile_def)
    then show ?thesis using Cons.IH by simp
  next
    case False
    let ?g = "findGroupForAircraft L r t"
    have "merges_step L r coalition t (visited, List.map_filter (merge_of L r) groups) =
        (visited \<union> set (ObjectIDs ?g), List.map_filter (merge_of L r) (groups @ [?g]))"
      using False by (simp add: merges_step_def merge_hostile_def Let_def map_filter_append merge_of_def List.map_filter_simps)
    moreover have "nearby_step L r (merge_hostile L coalition) [] t (visited, groups) =
        (visited \<union> set (ObjectIDs ?g), groups @ [?g])"
      using False by (simp add: nearby_step_def Let_def)
    ultimately show ?thesis using Cons.IH by simp
  qed
qed (simp add: Let_def)

lemma Merges_collected:
  "Merges L r coalition = List.map_filter (merge_of L r)
     (snd (fold (nearby_step L r (merge_hostile L coalition) []) (scope_values L r []) ({}, [])))"
proof -
  have "List.map_filter (merge_of L r) [] = []" by (simp add: List.map_filter_def)
  then show ?thesis
    using merges_as_nearby [of L r coalition "scope_values L r []" "{}" "[]"]
    by (simp add: Merges_def Let_def split: prod.splits)
qed

text \<open>Each merge that is reported is a furball of a valid enemy aircraft's group with contacts, at least
  one, that are less than the exit distance from a member of it and not of that member's
  coalition. And all are reported: if anything is that near to a member of the groups around an
  enemy aircraft (no helicopter), a group with that aircraft is reported.\<close>

lemma merges_found:
  assumes "db_ok (db r)"
  shows "(g, fs) \<in> set (Merges L r coalition) \<Longrightarrow>
      (\<exists>t. getByID (tf_ID t) (db r) = Some t \<and> merge_hostile L coalition t \<and>
         g_contacts g = g_contacts (findGroupForAircraft L r t)) \<and> g_declaration g = Furball \<and> fs \<noteq> [] \<and>
      set fs = (\<Union>t \<in> set (g_contacts g). set (mergesForContact L r t))"
    and "getByID (tf_ID t) (db r) = Some t \<Longrightarrow> merge_hostile L coalition t \<Longrightarrow> f \<in> set (mergesForContact L r t) \<Longrightarrow>
      \<exists>g fs. (g, fs) \<in> set (Merges L r coalition) \<and> tf_ID t \<in> set (ObjectIDs g) \<and> f \<in> set fs"
proof -
  obtain visited groups where f: "fold (nearby_step L r (merge_hostile L coalition) []) (scope_values L r []) ({}, []) = (visited, groups)"
    by fastforce
  note n = nearby_fold [OF f]
  have M: "m \<in> set (Merges L r coalition) \<longleftrightarrow> (\<exists>g \<in> set groups. merge_of L r g = Some m)" for m
    by (simp add: Merges_collected f set_map_filter)
  have c: "g_contacts (g\<lparr>g_isThreat := x, g_declaration := y\<rparr>) = g_contacts g" for g x y
    by (simp add: g_contacts_def)
  have fs: "set (map snd (merged_with L r g)) = (\<Union>t \<in> set (g_contacts g). set (mergesForContact L r t))" for g
    using merged_with_iff [OF assms, of _ L g] by auto
  {
    assume "(g, fs) \<in> set (Merges L r coalition)"
    then obtain h where h: "h \<in> set groups" "merged_with L r h \<noteq> []" "fs = map snd (merged_with L r h)"
      "g = h\<lparr>g_isThreat := True, g_declaration := Furball\<rparr>"
      unfolding M merge_of_def by (auto split: if_splits)
    have "\<exists>t \<in> set (scope_values L r []). merge_hostile L coalition t \<and> h = findGroupForAircraft L r t"
      using n h(1) by simp
    then show "(\<exists>t. getByID (tf_ID t) (db r) = Some t \<and> merge_hostile L coalition t \<and>
         g_contacts g = g_contacts (findGroupForAircraft L r t)) \<and> g_declaration g = Furball \<and> fs \<noteq> [] \<and>
      set fs = (\<Union>t \<in> set (g_contacts g). set (mergesForContact L r t))"
      using h(2) unfolding h(3, 4) c fs scope_values_iff [OF assms] Bex_def by auto
  }
  {
    assume t: "getByID (tf_ID t) (db r) = Some t" "merge_hostile L coalition t" "f \<in> set (mergesForContact L r t)"
    then have "t \<in> set (scope_values L r [])" using scope_values_iff [OF assms] by blast
    then obtain h where h: "h \<in> set groups" "tf_ID t \<in> set (ObjectIDs h)" using n t(2) by auto
    obtain u where u: "getByID (tf_ID u) (db r) = Some u" "h = findGroupForAircraft L r u"
      using n h(1) scope_values_iff [OF assms] by auto
    obtain x where x: "x \<in> set (g_contacts h)" "tf_ID x = tf_ID t" using h(2) unfolding ObjectIDs_set by force
    have "getByID (tf_ID x) (db r) = Some x" using group_members [OF assms u(1)] x(1) u(2) by blast
    then have "x = t" using x(2) t(1) by (metis option.inject)
    then have in_h: "f \<in> set (map snd (merged_with L r h))" using x(1) t(3) unfolding fs by blast
    then have "merge_of L r h = Some (h\<lparr>g_isThreat := True, g_declaration := Furball\<rparr>, map snd (merged_with L r h))"
      by (auto simp: merge_of_def)
    then have "(h\<lparr>g_isThreat := True, g_declaration := Furball\<rparr>, map snd (merged_with L r h)) \<in> set (Merges L r coalition)"
      using M h(1) by blast
    moreover have "tf_ID t \<in> set (ObjectIDs (h\<lparr>g_isThreat := True, g_declaration := Furball\<rparr>))"
      using h(2) by (simp add: ObjectIDs_def c)
    ultimately show "\<exists>g fs. (g, fs) \<in> set (Merges L r coalition) \<and> tf_ID t \<in> set (ObjectIDs g) \<and> f \<in> set fs"
      using in_h by blast
  }
qed


section \<open>A fight\<close>

definition demo_bandit :: Trackfile where "demo_bandit = demo_contact 9 ''Bandit'' Red (33, 45)"
definition demo_pilot :: Trackfile where "demo_pilot = demo_contact 8 ''Hitman 1-1'' Blue (33, 46)"

definition demo_fight :: Radar where
  "demo_fight = (demo_radar (demo_pair demo_bandit demo_pilot))
     \<lparr>srsClient := Some (demo_client\<lparr>clients := [(replicate 22 2, demo_peer)]\<rparr>)\<rparr>"

lemma demo_fight_get:
  "getByID uid (db demo_fight) = (if uid = 9 then Some demo_bandit else if uid = 8 then Some demo_pilot else None)"
proof -
  have "db demo_fight = demo_pair demo_bandit demo_pilot" by (simp add: demo_fight_def demo_radar_def)
  then show ?thesis unfolding demo_pair_get [of uid demo_bandit demo_pilot, symmetric] 
    by (simp add: demo_pair_get) (simp add: demo_bandit_def demo_pilot_def)
qed

lemma demo_fight_ok: "db_ok (db demo_fight)"
proof -
  have "db demo_fight = demo_pair demo_bandit demo_pilot" by (simp add: demo_fight_def demo_radar_def)
  then show ?thesis using demo_pair_ok [of demo_bandit demo_pilot] by (simp add: demo_bandit_def demo_pilot_def)
qed

lemma demo_fight_contacts:
  "tf_ID demo_bandit = 9" "tf_ID demo_pilot = 8" "tf_Coalition demo_bandit = Red" "tf_Coalition demo_pilot = Blue"
  "isValidTrack demo_radar_lib demo_bandit" "isValidTrack demo_radar_lib demo_pilot"
  "last_point demo_bandit = (33, 45)" "last_point demo_pilot = (33, 46)"
  "\<not> IsLastKnownPointZero demo_bandit" "\<not> IsLastKnownPointZero demo_pilot"
  "aircraft_of demo_radar_lib demo_bandit = None" "aircraft_of demo_radar_lib demo_pilot = None"
  "frame_Altitude (LastKnown demo_pilot) = 3000" "tf_Name demo_pilot = ''Hitman 1-1''"
  by (simp_all add: demo_bandit_def demo_pilot_def last_point_def demo_frame_def IsLastKnownPointZero_def IsZero_def)

lemma demo_fight_distance:
  "radar_distance demo_radar_lib demo_fight a b = \<bar>fst a - fst b\<bar> + \<bar>snd a - snd b\<bar>"
  by (simp add: radar_distance_def Distance_def withProjection_def demo_fight_def demo_radar_def)
    (simp add: demo_geo_def si_units_def)

lemma demo_fight_merge: "demo_pilot \<in> set (mergesForContact demo_radar_lib demo_fight demo_bandit)"
  unfolding mergesForContact_iff [OF demo_fight_ok] demo_fight_contacts demo_fight_get demo_fight_distance
  using demo_fight_contacts by (simp add: MergeExitDistance_def si_units_def)


text \<open>A contact alone in its coalition is a group of its own.\<close>

lemma lone_group:
  assumes "db_ok (db r)" and "getByID (tf_ID t) (db r) = Some t"
    and "\<And>x. getByID (tf_ID x) (db r) = Some x \<Longrightarrow> tf_Coalition x = tf_Coalition t \<Longrightarrow> x = t"
  shows "g_others (findGroupForAircraft L r t) = []"
proof -
  let ?g = "findGroupForAircraft L r t"
  have all: "set (g_contacts ?g) \<subseteq> {t}" using group_members [OF assms(1, 2)] assms(3) by blast
  show ?thesis
  proof (cases "IsLastKnownPointZero t")
    case True
    then show ?thesis by (simp add: findGroupForAircraft_def Let_def)
  next
    case False
    then have "distinct (map tf_ID (g_contacts ?g))" using group_closure [OF assms(1, 2)] by blast
    then show ?thesis using all by (cases "g_others ?g") (auto simp: g_contacts_def)
  qed
qed

lemma demo_fight_alone:
  "getByID (tf_ID x) (db demo_fight) = Some x \<Longrightarrow> x = demo_bandit \<or> x = demo_pilot"
  unfolding demo_fight_get by (metis option.inject option.distinct(1))

lemma demo_fight_others:
  "g_others (findGroupForAircraft demo_radar_lib demo_fight demo_bandit) = []"
  "g_others (findGroupForAircraft demo_radar_lib demo_fight demo_pilot) = []"
proof -
  have b: "getByID (tf_ID demo_bandit) (db demo_fight) = Some demo_bandit"
    and p: "getByID (tf_ID demo_pilot) (db demo_fight) = Some demo_pilot"
    by (simp_all add: demo_fight_get demo_fight_contacts)
  show "g_others (findGroupForAircraft demo_radar_lib demo_fight demo_bandit) = []"
    by (rule lone_group [OF demo_fight_ok b]) (use demo_fight_alone demo_fight_contacts coalitions_distinct in metis)
  show "g_others (findGroupForAircraft demo_radar_lib demo_fight demo_pilot) = []"
    by (rule lone_group [OF demo_fight_ok p]) (use demo_fight_alone demo_fight_contacts coalitions_distinct in metis)
qed

lemma demo_fight_groups:
  "g_point demo_radar_lib (findGroupForAircraft demo_radar_lib demo_fight demo_bandit) = (33, 45)"
  "g_point demo_radar_lib (findGroupForAircraft demo_radar_lib demo_fight demo_pilot) = (33, 46)"
  using demo_fight_contacts(7, 8) by (simp_all add: g_point_def last_point_def demo_fight_others)

lemma demo_fight_threat:
  "\<exists>g ids. (g, ids) \<in> set (Threats demo_radar_lib demo_fight Red) \<and> 8 \<in> set ids"
proof -
  let ?L = demo_radar_lib and ?r = demo_fight
  let ?h = "findGroupForAircraft ?L ?r demo_bandit" and ?fg = "findGroupForAircraft ?L ?r demo_pilot"
  note e = enumerateGroups_found [where L = ?L and coalition = Red, OF demo_fight_ok]
  have b: "getByID (tf_ID demo_bandit) (db ?r) = Some demo_bandit" "getByID (tf_ID demo_pilot) (db ?r) = Some demo_pilot"
    by (simp_all add: demo_fight_get demo_fight_contacts)
  obtain h where h: "h \<in> set (enumerateGroups ?L ?r Red)"
    using e b(1) demo_fight_contacts by blast
  then have h: "?h \<in> set (enumerateGroups ?L ?r Red)"
    using e demo_fight_alone demo_fight_contacts(4) coalitions_distinct by metis
  let ?near = "findNearbyGroups ?L ?r (g_point ?L ?h) 0 None (threat_search_radius ?L ?r) (Opposite Red) ContactCategory.Aircraft []"
  have v: "demo_pilot \<in> set (scope_values ?L ?r [])" using scope_values_iff [OF demo_fight_ok] b(2) by blast
  have match: "nearby_match ?L (g_point ?L ?h) 0 None (threat_search_radius ?L ?r) (Opposite Red) ContactCategory.Aircraft demo_pilot"
    by (simp add: nearby_match_def isMatch_def demo_fight_contacts) (simp add: demo_radar_lib_def)
  obtain fg where fg: "fg \<in> set ?near" using nearby_found(2) [OF v match, of "[]"] by auto
  obtain t where t: "t \<in> set (scope_values ?L ?r [])" "tf_Coalition t = Blue" "fg = findGroupForAircraft ?L ?r t"
    using nearby_found(1) [OF fg] by (auto simp: nearby_match_def isMatch_def)
  then have "t = demo_pilot"
    using scope_values_iff [OF demo_fight_ok] demo_fight_alone demo_fight_contacts(3) coalitions_distinct by metis
  then have fg: "?fg \<in> set ?near" using fg t(3) by simp
  have armed: "g_isArmed ?L ?h"
    using demo_fight_contacts(11) by (simp add: g_isArmed_def g_contacts_def List.map_filter_def demo_fight_others)
  have freq: "peer_IsOnFrequency (demo_client\<lparr>clients := [(replicate 22 2, demo_peer)]\<rparr>) ''Hitman 1-1''"
    using demo_peer_qualifies(3) by (simp add: peer_IsOnFrequency_def on_frequency_def) (simp add: demo_peer_def)
  have helo: "g_category ?L ?h \<noteq> RotaryWing" using demo_fight_contacts(11) by (simp add: g_category_def)
  have close: "isGroupWithinThreatRadius ?L ?r ?h (radar_distance ?L ?r (g_point ?L ?h) (g_point ?L ?fg))"
    unfolding isGroupWithinThreatRadius_def demo_fight_groups demo_fight_distance
    using armed by (simp add: demo_fight_def demo_radar_def)
  have "demo_pilot \<in> set (receivers_of ?L ?r ?h ?fg)"
    unfolding receivers_of_iff
    using close helo freq b(2) demo_fight_contacts(14)
    by (auto simp: demo_fight_def ObjectIDs_set g_contacts_def)
  from threats_complete [OF demo_fight_ok h fg this] show ?thesis
    using demo_fight_contacts(2) by auto
qed


section \<open>The picture\<close>

text \<open>No two groups found near a point have the same lead.\<close>

lemma nearby_distinct:
  "distinct (map (\<lambda>g. tf_ID (g_lead g)) (findNearbyGroups L r poi lo hi radius coalition category excluded))"
proof -
  obtain visited found where f: "fold (nearby_step L r (nearby_match L poi lo hi radius coalition category) excluded)
      (scope_values L r []) ({}, []) = (visited, found)"
    by fastforce
  have "sorted_wrt (\<lambda>g h. tf_ID (g_lead h) \<notin> set (ObjectIDs g)) found"
    using nearby_fold [OF f] by simp
  then have "distinct (map (\<lambda>g. tf_ID (g_lead g)) found)"
    by (induction found) (force simp: ObjectIDs_set g_contacts_def)+
  moreover have "mset (findNearbyGroups L r poi lo hi radius coalition category excluded) = mset found"
    by (simp add: findNearbyGroups_def f)
  ultimately show ?thesis by (metis mset_eq_imp_distinct_iff mset_map)
qed


lemma compare_swapped: "compareThreat L r b a = - compareThreat L r a b"
proof -
  have o: "or_else (- x) (- y) = - or_else x y" for x y by (simp add: or_else_def)
  have p: "prefer_by y x = - prefer_by x y" for x y by (simp add: prefer_by_def)
  have c: "cmp_real y x = - cmp_real x y" for x y by (simp add: cmp_real_def)
  have w: "compare_weighted u y x = - compare_weighted u x y" for u x y
    by (auto simp: compare_weighted_def abs_minus_commute split: option.split)
  have l: "or_else a (or_else b (or_else c (or_else d (or_else e f)))) = - or_else a' (or_else b' (or_else c' (or_else d' (or_else e' f'))))"
    if "a = - a'" "b = - b'" "c = - c'" "d = - d'" "e = - e'" "f = - f'" for a b c d e f a' b' c' d' e' f'
    using that by (simp add: o)
  have n: "(if \<bar>x - y\<bar> > 3 then cmp_real dx dy else 0) = - (if \<bar>y - x\<bar> > 3 then cmp_real dy dx else 0)"
    for x y dx dy :: real
    by (simp add: abs_minus_commute cmp_real_def)
  have f: "(if P \<and> Q then prefer_by a b else 0) = - (if Q \<and> P then prefer_by b a else 0)" for P Q a b
    by (auto simp: prefer_by_def)
  show ?thesis
    unfolding compareThreat_def Let_def by (rule l; rule p f w n c)
qed

text \<open>Swapping the arguments of the threat comparison swaps its result.\<close>

theorem compareThreat_antisym: "compareThreat L r b a = - compareThreat L r a b"
  by (rule compare_swapped)

text \<open>Sorting with a comparison that is antisymmetric, and transitive on the elements, puts no element
  behind one that is greater.\<close>

lemma insert_back_ordered:
  assumes "\<And>a b. cmp b a = - cmp a b"
    and "\<And>a b c. a \<in> insert x (set ys) \<Longrightarrow> b \<in> insert x (set ys) \<Longrightarrow> c \<in> insert x (set ys) \<Longrightarrow> cmp a b \<le> 0 \<Longrightarrow> cmp b c \<le> 0 \<Longrightarrow> cmp a c \<le> 0"
    and "sorted_wrt (\<lambda>a b. cmp b a \<le> 0) ys"
  shows "sorted_wrt (\<lambda>a b. cmp b a \<le> 0) (insert_back cmp x ys)"
  using assms(2, 3)
proof (induction ys)
  case (Cons y ys)
  have s: "set (insert_back cmp x ys) = insert x (set ys)"
    by (metis insert_back_mset set_mset_add_mset_insert set_mset_mset)
  show ?case
  proof (cases "cmp x y < 0")
    case True
    have "sorted_wrt (\<lambda>a b. cmp b a \<le> 0) (insert_back cmp x ys)"
      by (rule Cons.IH) (use Cons.prems in \<open>auto intro: Cons.prems(1)\<close>)
    then show ?thesis using True Cons.prems(2) s by simp
  next
    case False
    then have yx: "cmp y x \<le> 0" using assms(1) [of y x] by simp
    have "cmp z x \<le> 0" if "z \<in> set ys" for z
      by (rule Cons.prems(1) [OF _ _ _ _ yx]) (use that Cons.prems(2) in simp_all)
    then show ?thesis using False yx Cons.prems(2) by simp
  qed
qed simp

lemma SortFunc_ordered:
  assumes "\<And>a b. cmp b a = - cmp a b"
    and "\<And>a b c. a \<in> set xs \<Longrightarrow> b \<in> set xs \<Longrightarrow> c \<in> set xs \<Longrightarrow> cmp a b \<le> 0 \<Longrightarrow> cmp b c \<le> 0 \<Longrightarrow> cmp a c \<le> 0"
  shows "sorted_wrt (\<lambda>a b. cmp a b \<le> 0) (SortFunc cmp xs)"
proof -
  have "set zs \<subseteq> set xs \<Longrightarrow> set ys \<subseteq> set xs \<Longrightarrow> sorted_wrt (\<lambda>a b. cmp b a \<le> 0) ys \<Longrightarrow>
      sorted_wrt (\<lambda>a b. cmp b a \<le> 0) (fold (insert_back cmp) zs ys)" for ys zs
  proof (induction zs arbitrary: ys)
    case (Cons z zs)
    have s: "set (insert_back cmp z ys) = insert z (set ys)"
      by (metis insert_back_mset set_mset_add_mset_insert set_mset_mset)
    have "sorted_wrt (\<lambda>a b. cmp b a \<le> 0) (insert_back cmp z ys)"
    proof (rule insert_back_ordered [OF assms(1) _ Cons.prems(3)])
      fix a b c
      assume m: "a \<in> insert z (set ys)" "b \<in> insert z (set ys)" "c \<in> insert z (set ys)" and le: "cmp a b \<le> 0" "cmp b c \<le> 0"
      show "cmp a c \<le> 0" by (rule assms(2) [OF _ _ _ le]) (use m Cons.prems in auto)
    qed
    then show ?case using Cons.IH [of "insert_back cmp z ys"] Cons.prems s by simp
  qed simp
  from this [of xs "[]"] show ?thesis by (simp add: SortFunc_def sorted_wrt_rev)
qed

text \<open>C17. The picture counts the groups of the search and shows at most three of them; as long as the
  threat comparison is transitive on these groups, no group that is left out is a higher threat
  than one that is shown.\<close>

theorem picture_shows_highest_threats:
  assumes "Picture L r radius coalition category = (n, shown)"
    and "groups = findNearbyGroups L r (if IsZero (center r) then bullseye_of coalition r else center r) 0 None radius coalition category []"
    and "\<And>a b c. a \<in> set groups \<Longrightarrow> b \<in> set groups \<Longrightarrow> c \<in> set groups \<Longrightarrow>
      compareThreat L r a b \<le> 0 \<Longrightarrow> compareThreat L r b c \<le> 0 \<Longrightarrow> compareThreat L r a c \<le> 0"
  shows "n = int (length groups) \<and> length shown = min (length groups) 3 \<and>
    (\<exists>rest. mset groups = mset shown + mset rest \<and> (\<forall>g \<in> set shown. \<forall>h \<in> set rest. compareThreat L r g h \<le> 0))"
proof -
  let ?sorted = "SortFunc (compareThreat L r) groups"
  have p: "n = int (length groups)" "shown = take 3 ?sorted"
    using assms(1, 2) by (auto simp: Picture_def Let_def min_def)
  have "sorted_wrt (\<lambda>a b. compareThreat L r a b \<le> 0) ?sorted"
    by (rule SortFunc_ordered [OF compare_swapped assms(3)])
  then have "sorted_wrt (\<lambda>a b. compareThreat L r a b \<le> 0) (take 3 ?sorted @ drop 3 ?sorted)" by simp
  then have "\<forall>g \<in> set shown. \<forall>h \<in> set (drop 3 ?sorted). compareThreat L r g h \<le> 0"
    unfolding sorted_wrt_append p(2) by blast
  moreover have "mset groups = mset shown + mset (drop 3 ?sorted)"
    unfolding p(2) by (metis SortFunc_mset append_take_drop_id mset_append)
  ultimately show ?thesis using p by auto
qed

theorem picture_shows_highest_threats_witness:
  "\<exists>n shown g. Picture demo_radar_lib demo_fight 100 Red FixedWing = (n, shown) \<and> shown = [g] \<and> n = 1"
proof -
  let ?G = "findGroupForAircraft demo_radar_lib demo_fight demo_bandit"
  define groups where "groups = findNearbyGroups demo_radar_lib demo_fight
    (if IsZero (center demo_fight) then bullseye_of Red demo_fight else center demo_fight) 0 None 100 Red FixedWing []"
  obtain n shown where p: "Picture demo_radar_lib demo_fight 100 Red FixedWing = (n, shown)" by fastforce
  have only: "g = ?G" if "g \<in> set groups" for g
  proof -
    from nearby_found(1) [OF that [unfolded groups_def]] obtain t where
      t: "t \<in> set (scope_values demo_radar_lib demo_fight [])" "tf_Coalition t = Red" "g = findGroupForAircraft demo_radar_lib demo_fight t"
      by (auto simp: nearby_match_def isMatch_def)
    then show ?thesis
      using scope_values_iff [OF demo_fight_ok] demo_fight_alone demo_fight_contacts(4) coalitions_distinct by metis
  qed
  have "compareThreat demo_radar_lib demo_fight ?G ?G = 0"
    using compare_swapped [of demo_radar_lib demo_fight ?G ?G] by simp
  then have tr: "compareThreat demo_radar_lib demo_fight a c \<le> 0"
    if "a \<in> set groups" "b \<in> set groups" "c \<in> set groups" for a b c
    using only that by (metis order_refl)
  have b: "demo_bandit \<in> set (scope_values demo_radar_lib demo_fight [])"
    using scope_values_iff [OF demo_fight_ok] by (simp add: demo_fight_get demo_fight_contacts)
  have m: "nearby_match demo_radar_lib poi 0 None 100 Red FixedWing demo_bandit" for poi
    by (simp add: nearby_match_def isMatch_def demo_fight_contacts)
      (simp add: demo_radar_lib_def demo_bandit_def demo_frame_def)
  have "tf_ID demo_bandit \<notin> set []" by simp
  from nearby_found(2) [OF b m this] have "groups \<noteq> []" unfolding groups_def by (metis empty_iff list.set(1))
  moreover have "distinct (map (\<lambda>g. tf_ID (g_lead g)) groups)"
    unfolding groups_def by (rule nearby_distinct)
  ultimately have "groups = [?G]" using only
    by (cases groups; cases "tl groups") auto
  then show ?thesis
    using p picture_shows_highest_threats [OF p groups_def] tr
    by (cases shown; cases "tl shown") (simp_all add: length_Suc_conv)
qed

text \<open>The comparison is not transitive in general: the third of three groups at 30, 32 and 34 miles
  that are the higher the farther they are comes before the second (it is higher), the second
  before the first, and the first before the third (it is nearer by more than three miles).\<close>

definition demo_group_at :: "real \<Rightarrow> real \<Rightarrow> group" where
  "demo_group_at miles feet = \<lparr>g_isThreat = False,
     g_lead = (demo_trackfile 5 ''Bandit'' Red)\<lparr>track := [(demo_frame (0, miles * 1852))\<lparr>frame_Altitude := feet * 3048 / 10000\<rparr>]\<rparr>,
     g_others = [], g_bullseye = None, g_braa = None, g_aspect = None, g_declaration = Unable, g_mergedWith = 0\<rparr>"

lemma demo_group_at_simps:
  assumes "0 \<le> miles"
  shows "radar_distance demo_radar_lib demo_scope (center demo_scope) (g_point demo_radar_lib (demo_group_at miles feet)) = miles * 1852"
    "g_threatRadius demo_radar_lib (demo_group_at miles feet) = 25 * 1852"
    "g_category demo_radar_lib (demo_group_at miles feet) = FixedWing"
    "g_Altitude si_units (demo_group_at miles feet) = NormalizeAltitude si_units (feet * 3048 / 10000)"
proof -
  have a: "aircraft_of demo_radar_lib (g_lead (demo_group_at miles feet)) = None"
    by (simp add: demo_group_at_def aircraft_of_def GetAircraftData_def demo_radar_lib_def)
  have l: "LastKnown (g_lead (demo_group_at miles feet)) = (demo_frame (0, miles * 1852))\<lparr>frame_Altitude := feet * 3048 / 10000\<rparr>"
    "g_others (demo_group_at miles feet) = []"
    by (simp_all add: demo_group_at_def LastKnown_def Newest_def)
  show "radar_distance demo_radar_lib demo_scope (center demo_scope) (g_point demo_radar_lib (demo_group_at miles feet)) = miles * 1852"
    using assms by (simp add: demo_distance g_point_def l demo_frame_def) (simp add: demo_scope_def demo_radar_def)
  show "g_threatRadius demo_radar_lib (demo_group_at miles feet) = 25 * 1852"
    by (simp add: g_threatRadius_def g_contacts_def l contact_threat_radius_def a SAR2AR1Threat_def si_units_def)
  show "g_category demo_radar_lib (demo_group_at miles feet) = FixedWing"
    by (simp add: g_category_def a)
  show "g_Altitude si_units (demo_group_at miles feet) = NormalizeAltitude si_units (feet * 3048 / 10000)"
    by (simp add: g_Altitude_def g_Stacks_def g_contacts_def l Stacks_def stack_step_def)
qed

theorem compareThreat_cycle:
  "compareThreat demo_radar_lib demo_scope (demo_group_at 34 30000) (demo_group_at 32 20000) < 0 \<and>
   compareThreat demo_radar_lib demo_scope (demo_group_at 32 20000) (demo_group_at 30 10000) < 0 \<and>
   compareThreat demo_radar_lib demo_scope (demo_group_at 30 10000) (demo_group_at 34 30000) < 0"
proof -
  have n: "NormalizeAltitude si_units (10000 * 3048 / 10000) = 3048"
    "NormalizeAltitude si_units (20000 * 3048 / 10000) = 6096"
    "NormalizeAltitude si_units (30000 * 3048 / 10000) = 9144"
    by (simp_all add: NormalizeAltitude_def si_units_def Feet_def go_round_def go_trunc_def Let_def)
  have k: "compareThreat demo_radar_lib demo_scope (demo_group_at d f) (demo_group_at d' f') =
      or_else (if \<bar>d - d'\<bar> > 3 then cmp_real d d' else 0)
        (cmp_real (NormalizeAltitude si_units (f' * 3048 / 10000)) (NormalizeAltitude si_units (f * 3048 / 10000)))"
    if "25 \<le> d" "25 \<le> d'" for d d' f f'
    using that
    by (simp add: compareThreat_def Let_def demo_group_at_simps or_else_def prefer_by_def compare_weighted_def
      weightedDistance_def NauticalMiles_def cmp_real_def) (simp add: si_units_def)
  have "compareThreat demo_radar_lib demo_scope (demo_group_at 34 30000) (demo_group_at 32 20000) < 0"
    by (subst k) (simp_all only: n or_else_def cmp_real_def, simp_all)
  moreover have "compareThreat demo_radar_lib demo_scope (demo_group_at 32 20000) (demo_group_at 30 10000) < 0"
    by (subst k) (simp_all only: n or_else_def cmp_real_def, simp_all)
  moreover have "compareThreat demo_radar_lib demo_scope (demo_group_at 30 10000) (demo_group_at 34 30000) < 0"
    by (subst k) (simp_all only: n or_else_def cmp_real_def, simp_all)
  ultimately show ?thesis by blast
qed

end
