(* ===== verification/Trackers.thy ===== *)
theory Trackers
  imports Store
begin

text \<open>
  The two trackers of the controller: cooldowns per unit ID (\<open>pkg/controller/threat.go\<close>) and the
  merges of hostile with friendly IDs (\<open>pkg/controller/merged.go\<close>). The merge tracker is a map of
  sets that implements a relation between IDs; the relation is its abstract specification, stated
  as a locale and interpreted on the tracker.
\<close>

section \<open>Cooldowns\<close>

record cooldownTracker =
  cooldown :: int
  cooldowns :: "(u64, int) gomap"

definition newCooldownTracker :: "int \<Rightarrow> cooldownTracker" where
  "newCooldownTracker d = \<lparr>cooldown = d, cooldowns = []\<rparr>"

definition extendCooldown :: "int \<Rightarrow> u64 \<Rightarrow> cooldownTracker \<Rightarrow> cooldownTracker" where
  "extendCooldown now uid t = t\<lparr>cooldowns := AList.update uid (now + cooldown t) (cooldowns t)\<rparr>"

definition isOnCooldown :: "int \<Rightarrow> u64 \<Rightarrow> cooldownTracker \<Rightarrow> bool" where
  "isOnCooldown now uid t = (case map_of (cooldowns t) uid of None \<Rightarrow> False | Some until \<Rightarrow> now < until)"

definition cooldown_reset :: "cooldownTracker \<Rightarrow> cooldownTracker" where
  "cooldown_reset t = t\<lparr>cooldowns := []\<rparr>"

definition cooldown_remove :: "u64 \<Rightarrow> cooldownTracker \<Rightarrow> cooldownTracker" where
  "cooldown_remove uid t = t\<lparr>cooldowns := AList.delete uid (cooldowns t)\<rparr>"

lemma isOnCooldown_extend:
  "isOnCooldown later x (extendCooldown now uid t) = (if x = uid then later < now + cooldown t else isOnCooldown later x t)"
  by (simp add: isOnCooldown_def extendCooldown_def map_of_update)

lemma isOnCooldown_remove: "isOnCooldown now x (cooldown_remove uid t) = (x \<noteq> uid \<and> isOnCooldown now x t)"
  by (simp add: isOnCooldown_def cooldown_remove_def map_of_delete)

lemma isOnCooldown_reset [simp]: "\<not> isOnCooldown now x (cooldown_reset t)"
  by (simp add: isOnCooldown_def cooldown_reset_def)

lemma cooldown_same [simp]:
  "cooldown (extendCooldown now uid t) = cooldown t" "cooldown (cooldown_remove uid t) = cooldown t"
  "cooldown (cooldown_reset t) = cooldown t" "cooldown (newCooldownTracker d) = d"
  by (simp_all add: extendCooldown_def cooldown_remove_def cooldown_reset_def newCooldownTracker_def)

lemma isOnCooldown_extends:
  "isOnCooldown later x (fold (extendCooldown now) uids t) =
     (if x \<in> set uids then later < now + cooldown t else isOnCooldown later x t)"
  by (induction uids arbitrary: t) (auto simp: isOnCooldown_extend)

lemma cooldown_fold [simp]: "cooldown (fold (extendCooldown now) uids t) = cooldown t"
  by (induction uids arbitrary: t) simp_all

section \<open>The merge tracker\<close>

text \<open>Hostile IDs and the set of friendly IDs each has merged with, as a list without duplicates.\<close>

type_synonym mergeTracker = "(u64, u64 list) gomap"

definition newMergeTracker :: mergeTracker where
  "newMergeTracker = []"

definition merge :: "u64 \<Rightarrow> u64 \<Rightarrow> mergeTracker \<Rightarrow> mergeTracker" where
  "merge hostileID friendID t =
     (let friendIDs = (case map_of t hostileID of None \<Rightarrow> [] | Some ids \<Rightarrow> ids)
      in AList.update hostileID (List.insert friendID friendIDs) t)"

definition isMerged :: "u64 \<Rightarrow> u64 \<Rightarrow> mergeTracker \<Rightarrow> bool" where
  "isMerged hostileID friendID t =
     (case map_of t hostileID of None \<Rightarrow> False | Some friendIDs \<Rightarrow> friendID \<in> set friendIDs)"

definition friendliesMergedWith :: "u64 list \<Rightarrow> mergeTracker \<Rightarrow> u64 list" where
  "friendliesMergedWith hostileIDs t =
     remdups (concat (map (\<lambda>hostileID. case map_of t hostileID of None \<Rightarrow> [] | Some friendIDs \<Rightarrow> friendIDs) hostileIDs))"

definition separate :: "u64 \<Rightarrow> u64 \<Rightarrow> mergeTracker \<Rightarrow> mergeTracker" where
  "separate hostileID friendID t =
     (case map_of t hostileID of
        None \<Rightarrow> t
      | Some friendIDs \<Rightarrow>
          (let friendIDs = removeAll friendID friendIDs
           in if friendIDs = [] then AList.delete hostileID t else AList.update hostileID friendIDs t))"

definition merge_remove :: "u64 \<Rightarrow> mergeTracker \<Rightarrow> mergeTracker" where
  "merge_remove uid t =
     (case map_of t uid of
        Some _ \<Rightarrow> AList.delete uid t
      | None \<Rightarrow> filter (\<lambda>(_, friendIDs). friendIDs \<noteq> []) (map (\<lambda>(hostileID, friendIDs). (hostileID, removeAll uid friendIDs)) t))"

definition keep :: "u64 list \<Rightarrow> mergeTracker \<Rightarrow> mergeTracker" where
  "keep idsToKeep t = filter (\<lambda>(uid, _). uid \<in> set idsToKeep) t"

definition merge_reset :: "mergeTracker \<Rightarrow> mergeTracker" where
  "merge_reset t = []"

section \<open>The relation it implements\<close>

locale pair_tracker =
  fixes rel :: "'s \<Rightarrow> ('a \<times> 'a) set"
    and ok :: "'s \<Rightarrow> bool"
    and join :: "'a \<Rightarrow> 'a \<Rightarrow> 's \<Rightarrow> 's"
    and part :: "'a \<Rightarrow> 'a \<Rightarrow> 's \<Rightarrow> 's"
    and forget :: "'a \<Rightarrow> 's \<Rightarrow> 's"
    and restrict_to :: "'a list \<Rightarrow> 's \<Rightarrow> 's"
  assumes rel_join: "ok s \<Longrightarrow> rel (join h f s) = insert (h, f) (rel s)"
    and rel_part: "ok s \<Longrightarrow> rel (part h f s) = rel s - {(h, f)}"
    and rel_forget: "ok s \<Longrightarrow> rel (forget x s) =
      (if x \<in> Domain (rel s) then {(h, f) \<in> rel s. h \<noteq> x} else {(h, f) \<in> rel s. f \<noteq> x})"
    and rel_restrict: "ok s \<Longrightarrow> rel (restrict_to ids s) = {(h, f) \<in> rel s. h \<in> set ids}"
    and ok_join: "ok s \<Longrightarrow> ok (join h f s)"
    and ok_part: "ok s \<Longrightarrow> ok (part h f s)"
    and ok_forget: "ok s \<Longrightarrow> ok (forget x s)"
    and ok_restrict: "ok s \<Longrightarrow> ok (restrict_to ids s)"
begin

text \<open>A pair joins when it enters and parts when it exits, so in between it stays as it was.\<close>

definition watch :: "bool \<Rightarrow> bool \<Rightarrow> 'a \<Rightarrow> 'a \<Rightarrow> 's \<Rightarrow> 's" where
  "watch entered exited h f s =
     (if (h, f) \<notin> rel s \<and> entered then join h f s
      else if (h, f) \<in> rel s \<and> exited then part h f s else s)"

lemma ok_watch: "ok s \<Longrightarrow> ok (watch entered exited h f s)"
  by (simp add: watch_def ok_join ok_part)

lemma rel_watch:
  "ok s \<Longrightarrow> \<not> (entered \<and> exited) \<Longrightarrow>
   p \<in> rel (watch entered exited h f s) \<longleftrightarrow> (if p = (h, f) then entered \<or> (h, f) \<in> rel s \<and> \<not> exited else p \<in> rel s)"
  by (auto simp: watch_def rel_join rel_part)

lemma ok_parts: "ok s \<Longrightarrow> ok (fold (part h) fs s)"
  by (induction fs arbitrary: s) (simp_all add: ok_part)

lemma rel_parts: "ok s \<Longrightarrow> rel (fold (part h) fs s) = rel s - {h} \<times> set fs"
  by (induction fs arbitrary: s) (auto simp: ok_part rel_part)

lemma rel_forget_subset: "ok s \<Longrightarrow> rel (forget x s) \<subseteq> rel s"
  by (auto simp: rel_forget)

end

definition merged_pairs :: "mergeTracker \<Rightarrow> (u64 \<times> u64) set" where
  "merged_pairs t = {(h, f). isMerged h f t}"

text \<open>No hostile is kept without a friend.\<close>

definition merges_ok :: "mergeTracker \<Rightarrow> bool" where
  "merges_ok t \<longleftrightarrow> gomap_ok t \<and> gomap.holds (\<lambda>_ friendIDs. friendIDs \<noteq> []) t"

lemma merges_ok_Nil [simp]: "merges_ok []"
  by (simp add: merges_ok_def gomap.holds_def)

lemma merged_domain:
  assumes "merges_ok t"
  shows "h \<in> Domain (merged_pairs t) \<longleftrightarrow> map_of t h \<noteq> None"
proof (cases "map_of t h")
  case None
  then show ?thesis by (simp add: merged_pairs_def isMerged_def Domain_unfold)
next
  case (Some ids)
  then have "ids \<noteq> []" using assms gomap.holds_get [of "\<lambda>_ ids. ids \<noteq> []" t h ids] by (simp add: merges_ok_def)
  then have "hd ids \<in> set ids" by simp
  then show ?thesis using Some by (auto simp: merged_pairs_def isMerged_def Domain_unfold)
qed

lemma removeAll_Nil: "removeAll x ids = [] \<Longrightarrow> f \<in> set ids \<Longrightarrow> f = x"
  by (induction ids) (auto split: if_splits)

lemma isMerged_merge: "isMerged h f (merge h' f' t) \<longleftrightarrow> (h = h' \<and> f = f') \<or> isMerged h f t"
  by (auto simp: isMerged_def merge_def Let_def map_of_update split: option.splits)

lemma isMerged_separate: "isMerged h f (separate h' f' t) \<longleftrightarrow> isMerged h f t \<and> (h, f) \<noteq> (h', f')"
proof (cases "map_of t h'")
  case None
  then show ?thesis by (auto simp: separate_def isMerged_def)
next
  case (Some ids)
  show ?thesis
  proof (cases "removeAll f' ids = []")
    case True
    then have "f \<in> set ids \<Longrightarrow> f = f'" by (rule removeAll_Nil)
    then show ?thesis using Some True
      by (auto simp: separate_def isMerged_def Let_def map_of_delete)
  next
    case False
    then show ?thesis using Some by (auto simp: separate_def isMerged_def Let_def map_of_update)
  qed
qed

lemma map_of_filter_values:
  "gomap_ok t \<Longrightarrow> map_of (filter (\<lambda>(k, v). P k v) t) k = (case map_of t k of None \<Rightarrow> None | Some v \<Rightarrow> if P k v then Some v else None)"
  by (induction t) (auto simp: gomap_ok_def map_of_eq_None_iff [symmetric] split: option.splits if_splits)

lemma map_of_map_values: "map_of (map (\<lambda>(k, v). (k, g v)) t) k = map_option g (map_of t k)"
  by (induction t) auto

lemma isMerged_remove:
  assumes "merges_ok t"
  shows "isMerged h f (merge_remove x t) \<longleftrightarrow> isMerged h f t \<and> (if map_of t x \<noteq> None then h \<noteq> x else f \<noteq> x)"
proof (cases "map_of t x")
  case (Some ids)
  then show ?thesis by (auto simp: merge_remove_def isMerged_def map_of_delete)
next
  case None
  have "gomap_ok (map (\<lambda>(h, ids). (h, removeAll x ids)) t)"
    using assms gomap_ok_map_values [of "\<lambda>_. removeAll x" t] by (simp add: merges_ok_def)
  then show ?thesis using None
    by (auto simp: merge_remove_def isMerged_def map_of_filter_values map_of_map_values split: option.splits
      dest: removeAll_Nil)
qed

lemma isMerged_keep: "merges_ok t \<Longrightarrow> isMerged h f (keep ids t) \<longleftrightarrow> isMerged h f t \<and> h \<in> set ids"
  by (auto simp: isMerged_def keep_def merges_ok_def map_of_filter_values [where P = "\<lambda>uid _. uid \<in> set ids"] split: option.splits)

lemma tracker_ok [inv_intros]:
  "merges_ok t \<Longrightarrow> merges_ok (merge h f t)"
  "merges_ok t \<Longrightarrow> merges_ok (separate h f t)"
  "merges_ok t \<Longrightarrow> merges_ok (merge_remove x t)"
  "merges_ok t \<Longrightarrow> merges_ok (keep ids t)"
proof -
  assume ok: "merges_ok t"
  then have g: "gomap_ok t" and n: "gomap.holds (\<lambda>_ friendIDs. friendIDs \<noteq> []) t" by (simp_all add: merges_ok_def)
  show "merges_ok (merge h f t)"
    using g n by (auto simp: merges_ok_def merge_def Let_def gomap.ok_put intro!: gomap.holds_put)
      (metis List.insert_def in_set_insert list.distinct(1) list.set_intros(1) not_Cons_self2 empty_iff list.set(1))+
  show "merges_ok (separate h f t)"
    using g n by (auto simp: merges_ok_def separate_def Let_def gomap.ok_put gomap.ok_del
      intro!: gomap.holds_put gomap.holds_del split: option.split)
  have m: "gomap_ok (map (\<lambda>(h, ids). (h, removeAll x ids)) t)"
    using g gomap_ok_map_values [of "\<lambda>_. removeAll x" t] by simp
  show "merges_ok (merge_remove x t)"
  proof (cases "map_of t x")
    case None
    then show ?thesis
      using gomap_ok_filter [OF m] m
      by (auto simp: merges_ok_def merge_remove_def gomap.holds_def map_of_filter_values [where P = "\<lambda>_ ids. ids \<noteq> []"] split: option.splits if_splits)
  next
    case (Some ids)
    then show ?thesis using g n by (simp add: merges_ok_def merge_remove_def gomap.ok_del gomap.holds_del)
  qed
  show "merges_ok (keep ids t)"
    using g n gomap_ok_filter [OF g]
    by (auto simp: merges_ok_def keep_def gomap.holds_def map_of_filter_values [where P = "\<lambda>uid _. uid \<in> set ids"] split: option.splits if_splits)
qed

interpretation merged: pair_tracker merged_pairs merges_ok merge separate merge_remove keep
proof unfold_locales
  fix s :: mergeTracker and h f x :: u64 and ids :: "u64 list"
  assume ok: "merges_ok s"
  show "merged_pairs (merge h f s) = insert (h, f) (merged_pairs s)"
    by (auto simp: merged_pairs_def isMerged_merge)
  show "merged_pairs (separate h f s) = merged_pairs s - {(h, f)}"
    by (auto simp: merged_pairs_def isMerged_separate)
  show "merged_pairs (merge_remove x s) =
      (if x \<in> Domain (merged_pairs s) then {(h, f) \<in> merged_pairs s. h \<noteq> x} else {(h, f) \<in> merged_pairs s. f \<noteq> x})"
    unfolding merged_domain [OF ok] by (auto simp: merged_pairs_def isMerged_remove [OF ok])
  show "merged_pairs (keep ids s) = {(h, f) \<in> merged_pairs s. h \<in> set ids}"
    by (auto simp: merged_pairs_def isMerged_keep [OF ok])
qed (auto intro: tracker_ok)

lemma isMerged_pairs: "isMerged h f t \<longleftrightarrow> (h, f) \<in> merged_pairs t"
  by (simp add: merged_pairs_def)

lemma friendliesMergedWith_pairs: "set (friendliesMergedWith ids t) = merged_pairs t `` set ids"
  by (auto simp: friendliesMergedWith_def merged_pairs_def isMerged_def split: option.splits)
    (metis option.simps(5))

text \<open>C10. The merge tracker refines a relation between hostile and friendly IDs: every operation keeps its
  representation invariant (no hostile without friends) and changes the relation as it should;
  removing an ID forgets it as a hostile if it is one, and as a friend otherwise.\<close>

theorem merge_tracker_refines_relation:
  assumes "merges_ok t"
  shows "merged_pairs newMergeTracker = {} \<and>
    merges_ok (merge h f t) \<and> merged_pairs (merge h f t) = insert (h, f) (merged_pairs t) \<and>
    merges_ok (separate h f t) \<and> merged_pairs (separate h f t) = merged_pairs t - {(h, f)} \<and>
    merges_ok (keep ids t) \<and> merged_pairs (keep ids t) = {(h, f) \<in> merged_pairs t. h \<in> set ids} \<and>
    merges_ok (merge_remove x t) \<and> merged_pairs (merge_remove x t) =
      (if x \<in> Domain (merged_pairs t) then {(h, f) \<in> merged_pairs t. h \<noteq> x} else {(h, f) \<in> merged_pairs t. f \<noteq> x}) \<and>
    (isMerged h f t \<longleftrightarrow> (h, f) \<in> merged_pairs t) \<and> set (friendliesMergedWith ids t) = merged_pairs t `` set ids"
  by (intro conjI merged.rel_join merged.rel_part merged.rel_restrict merged.rel_forget tracker_ok assms
    isMerged_pairs friendliesMergedWith_pairs) (simp add: newMergeTracker_def merged_pairs_def isMerged_def)

theorem merge_tracker_refines_relation_witness:
  "merged_pairs (merge_remove 7 (merge 8 7 (merge 8 9 newMergeTracker))) = {(8, 9)}"
proof -
  have n: "merges_ok newMergeTracker" "merged_pairs newMergeTracker = {}"
    by (simp_all add: newMergeTracker_def merged_pairs_def isMerged_def)
  note m1 = merge_tracker_refines_relation [OF n(1), of 8 9 "[]" 0]
  then have ok1: "merges_ok (merge 8 9 newMergeTracker)" by blast
  note m2 = merge_tracker_refines_relation [OF ok1, of 8 7 "[]" 0]
  then have ok2: "merges_ok (merge 8 7 (merge 8 9 newMergeTracker))" by blast
  note m3 = merge_tracker_refines_relation [OF ok2, of 0 0 "[]" 7]
  show ?thesis using m1 m2 m3 n(2) by auto
qed

end
