(* ===== verification/Collation.thy ===== *)
theory Collation
  imports Normalize Searches "HOL-Library.List_Lexorder" "HOL-Library.Char_ord"
begin

text \<open>
  The collation of callsigns into flights (\<open>pkg/controller/callsigns.go\<close>): the callsigns of a
  broadcast are parsed, gathered in a trie of codewords, flights and positions, and read out with
  one entry for a whole flight where every known member of it is addressed. The main result says
  whom the collated entries address.
\<close>

section \<open>Strict callsigns\<close>

record strictCallsign =
  codeword :: string
  flight :: int
  position :: int

definition strict_String :: "strictCallsign \<Rightarrow> string" where
  "strict_String c = codeword c @ '' '' @ Itoa (flight c) @ '' '' @ Itoa (position c)"

definition parseStrictCallsign :: "string \<Rightarrow> strictCallsign option" where
  "parseStrictCallsign s =
     (let ws = Fields s
      in if length ws < 3 then None
         else case Atoi (ws ! (length ws - 2)) of
           None \<Rightarrow> None
         | Some f \<Rightarrow>
             if f < 0 then None
             else case Atoi (ws ! (length ws - 1)) of
               None \<Rightarrow> None
             | Some element \<Rightarrow>
                 if element < 0 then None
                 else let cw = Join (take (length ws - 2) ws) '' ''
                      in if cw = [] then None
                         else if list_ex IsDigit cw then None
                         else Some \<lparr>codeword = cw, flight = f, position = element\<rparr>)"

section \<open>Ordered maps\<close>

text \<open>The maps of the package \<open>omap\<close> are represented by their entries. Their iteration goes through
  the keys in increasing order; the order is a parameter here, since nothing below depends on it.\<close>

definition permute :: "('a list \<Rightarrow> 'a list) \<Rightarrow> 'a list \<Rightarrow> 'a list" where
  "permute order xs = (if mset (order xs) = mset xs then order xs else xs)"

lemma permute_mset [simp]: "mset (permute order xs) = mset xs"
  by (simp add: permute_def)

lemma permute_set [simp]: "set (permute order xs) = set xs"
  by (rule mset_eq_setD) simp

lemma permute_length [simp]: "length (permute order xs) = length xs"
  by (rule mset_eq_length) simp

definition omap_All :: "('k list \<Rightarrow> 'k list) \<Rightarrow> ('k, 'v) gomap \<Rightarrow> ('k \<times> 'v) list" where
  "omap_All order m = List.map_filter (\<lambda>k. map_option (Pair k) (map_of m k)) (permute order (map fst m))"

lemma omap_All_iff: "(k, v) \<in> set (omap_All order m) \<longleftrightarrow> map_of m k = Some v"
proof -
  have "map_of m k = Some v \<Longrightarrow> k \<in> fst ` set m" by (metis domI dom_map_of_conv_image_fst)
  then show ?thesis
    by (auto simp: omap_All_def List.map_filter_def comp_def image_iff Bex_def split: option.splits)
qed

record omap_order =
  word_order :: "string list \<Rightarrow> string list"
  int_order :: "int list \<Rightarrow> int list"

section \<open>The trie of a broadcast\<close>

type_synonym positions = "(int, bool) gomap"
type_synonym callsign_trie = "(string, (int, positions) gomap) gomap"

definition go_get :: "('k, 'v list) gomap \<Rightarrow> 'k \<Rightarrow> 'v list" where
  "go_get m k = (case map_of m k of None \<Rightarrow> [] | Some v \<Rightarrow> v)"

definition add_member :: "string list \<Rightarrow> strictCallsign \<Rightarrow> callsign_trie \<Rightarrow> callsign_trie" where
  "add_member listeners c members =
     (let flights = go_get members (codeword c);
          positions = go_get flights (flight c);
          isReceiver = (strict_String c \<in> set listeners)
      in AList.update (codeword c) (AList.update (flight c) (AList.update (position c) isReceiver positions) flights) members)"

definition compare_strict :: "strictCallsign \<Rightarrow> strictCallsign \<Rightarrow> int" where
  "compare_strict a b =
     (if codeword a \<noteq> codeword b then (if codeword a < codeword b then -1 else 1)
      else if flight a \<noteq> flight b then flight a - flight b
      else position a - position b)"

fun position_entries :: "string \<Rightarrow> int \<Rightarrow> bool \<Rightarrow> (int \<times> bool) list \<Rightarrow> string list" where
  "position_entries cw f isFirst [] = []"
| "position_entries cw f isFirst ((p, isReceiver) # ps) =
     (if \<not> isReceiver then position_entries cw f isFirst ps
      else (if isFirst then cw @ '' '' @ Itoa f @ '' '' @ Itoa p else Itoa f @ '' '' @ Itoa p)
        # position_entries cw f False ps)"

definition flight_call :: "string \<Rightarrow> int \<Rightarrow> string" where
  "flight_call cw f = cw @ '' '' @ Itoa f @ '' flight''"

definition flight_entries :: "omap_order \<Rightarrow> string \<Rightarrow> int \<Rightarrow> positions \<Rightarrow> string list" where
  "flight_entries ord cw f ps =
     (let isEntireFlightReceiver = list_all snd (omap_All (int_order ord) ps)
      in if isEntireFlightReceiver \<and> length ps > 1 then [flight_call cw f]
         else position_entries cw f True (omap_All (int_order ord) ps))"

definition collateCallsigns :: "omap_order \<Rightarrow> string list \<Rightarrow> string list \<Rightarrow> string list" where
  "collateCallsigns ord listeners everyone =
     (if length listeners \<le> 1 then listeners
      else let listeners = sort listeners; everyone = sort everyone;
               strictCallsigns = SortFunc compare_strict (List.map_filter parseStrictCallsign everyone);
               members = fold (add_member listeners) strictCallsigns [];
               collated = concat (map (\<lambda>(cw, flights).
                 concat (map (\<lambda>(f, ps). flight_entries ord cw f ps) (omap_All (int_order ord) flights)))
                 (omap_All (word_order ord) members))
           in collated @ filter (\<lambda>s. parseStrictCallsign s = None) listeners)"

section \<open>Whom the entries address\<close>

definition trie_at :: "callsign_trie \<Rightarrow> strictCallsign \<Rightarrow> bool option" where
  "trie_at t c = map_of (go_get (go_get t (codeword c)) (flight c)) (position c)"

lemma go_get_update: "go_get (AList.update k v m) k' = (if k' = k then v else go_get m k')"
  by (simp add: go_get_def map_of_update)

lemma trie_at_add:
  "trie_at (add_member listeners c t) d = (if d = c then Some (strict_String c \<in> set listeners) else trie_at t d)"
proof -
  have "d = c" if "codeword d = codeword c" "flight d = flight c" "position d = position c"
    using that by simp
  then show ?thesis
    by (auto simp: trie_at_def add_member_def Let_def go_get_update map_of_update)
qed

lemma trie_at_build:
  "trie_at (fold (add_member listeners) cs t) d =
     (if d \<in> set cs then Some (strict_String d \<in> set listeners) else trie_at t d)"
  by (induction cs arbitrary: t) (auto simp: trie_at_add)

text \<open>In a trie that was built no flight is empty and every position occurs once.\<close>

definition trie_ok :: "callsign_trie \<Rightarrow> bool" where
  "trie_ok t \<longleftrightarrow> (\<forall>cw flights. map_of t cw = Some flights \<longrightarrow> (\<forall>f ps. map_of flights f = Some ps \<longrightarrow> gomap_ok ps))"

lemma trie_ok_build: "trie_ok t \<Longrightarrow> trie_ok (fold (add_member listeners) cs t)"
proof (induction cs arbitrary: t)
  case (Cons c cs)
  have "gomap_ok (go_get (go_get t (codeword c)) (flight c))"
    using Cons.prems by (auto simp: trie_ok_def go_get_def split: option.split)
  then have "trie_ok (add_member listeners c t)"
    using Cons.prems
    by (auto simp: trie_ok_def add_member_def Let_def map_of_update gomap.ok_put go_get_def split: if_splits option.splits)
  then show ?case using Cons.IH by simp
qed simp

lemma position_entries_iff:
  "e \<in> set (position_entries cw f isFirst ps) \<Longrightarrow>
     \<exists>p. (p, True) \<in> set ps \<and> (e = cw @ '' '' @ Itoa f @ '' '' @ Itoa p \<or> e = Itoa f @ '' '' @ Itoa p)"
  by (induction cw f isFirst ps rule: position_entries.induct) (auto split: if_splits)

lemma position_entries_all:
  "(p, True) \<in> set ps \<Longrightarrow>
     cw @ '' '' @ Itoa f @ '' '' @ Itoa p \<in> set (position_entries cw f isFirst ps) \<or>
     Itoa f @ '' '' @ Itoa p \<in> set (position_entries cw f isFirst ps)"
  by (induction cw f isFirst ps rule: position_entries.induct) auto

definition short_call :: "strictCallsign \<Rightarrow> string" where
  "short_call c = Itoa (flight c) @ '' '' @ Itoa (position c)"

text \<open>The members of a flight among the known callsigns.\<close>

definition flight_members :: "string list \<Rightarrow> string \<Rightarrow> int \<Rightarrow> strictCallsign set" where
  "flight_members everyone cw f =
     {c. codeword c = cw \<and> flight c = f \<and> (\<exists>s \<in> set everyone. parseStrictCallsign s = Some c)}"

definition addresses_only :: "string list \<Rightarrow> string list \<Rightarrow> string \<Rightarrow> bool" where
  "addresses_only listeners everyone e \<longleftrightarrow>
     e \<in> set listeners \<and> parseStrictCallsign e = None \<or>
     (\<exists>c. strict_String c \<in> set listeners \<and> (e = strict_String c \<or> e = short_call c)) \<or>
     (\<exists>cw f. e = flight_call cw f \<and> 1 < card (flight_members everyone cw f) \<and>
        strict_String ` flight_members everyone cw f \<subseteq> set listeners)"

lemma flight_entries_sound:
  assumes ps: "\<And>p b. map_of ps p = Some b \<longleftrightarrow>
      \<lparr>codeword = cw, flight = f, position = p\<rparr> \<in> flight_members everyone cw f \<and>
      b = (strict_String \<lparr>codeword = cw, flight = f, position = p\<rparr> \<in> set listeners)"
    and ok: "gomap_ok ps" and e: "e \<in> set (flight_entries ord cw f ps)"
  shows "addresses_only listeners everyone e"
proof (cases "list_all snd (omap_All (int_order ord) ps) \<and> length ps > 1")
  case True
  let ?c = "\<lambda>p. \<lparr>codeword = cw, flight = f, position = p\<rparr>"
  have c: "c \<in> flight_members everyone cw f \<Longrightarrow> c = ?c (position c)" for c
    by (simp add: flight_members_def)
  have all: "b" if "map_of ps p = Some b" for p b
    using True that omap_All_iff [of p b "int_order ord" ps] by (auto simp: list_all_iff)
  have members: "flight_members everyone cw f = ?c ` fst ` set ps"
  proof (intro set_eqI iffI)
    fix c assume m: "c \<in> flight_members everyone cw f"
    then have "map_of ps (position c) = Some (strict_String (?c (position c)) \<in> set listeners)"
      using c [OF m] ps by metis
    then have "position c \<in> fst ` set ps" by (metis domI dom_map_of_conv_image_fst)
    then show "c \<in> ?c ` fst ` set ps" using c [OF m] by blast
  next
    fix c assume "c \<in> ?c ` fst ` set ps"
    then obtain p where p: "p \<in> fst ` set ps" "c = ?c p" by auto
    then obtain b where "map_of ps p = Some b" by (metis domD dom_map_of_conv_image_fst)
    then show "c \<in> flight_members everyone cw f" using ps p(2) by blast
  qed
  have "inj ?c" by (rule injI) simp
  then have "card (flight_members everyone cw f) = card (fst ` set ps)"
    unfolding members by (metis card_image inj_on_subset subset_UNIV)
  also have "\<dots> = length ps" using ok distinct_card [of "map fst ps"] by (simp add: gomap_ok_def)
  finally have "1 < card (flight_members everyone cw f)" using True by simp
  moreover have "strict_String ` flight_members everyone cw f \<subseteq> set listeners"
  proof
    fix x assume "x \<in> strict_String ` flight_members everyone cw f"
    then obtain p where p: "p \<in> fst ` set ps" "x = strict_String (?c p)" unfolding members by auto
    then obtain b where b: "map_of ps p = Some b" by (metis domD dom_map_of_conv_image_fst)
    then show "x \<in> set listeners" using all [OF b] ps p(2) by blast
  qed
  moreover have "e = flight_call cw f" using e True by (simp add: flight_entries_def Let_def)
  ultimately show ?thesis unfolding addresses_only_def by blast
next
  case False
  then have "e \<in> set (position_entries cw f True (omap_All (int_order ord) ps))"
    using e by (auto simp: flight_entries_def Let_def)
  then obtain p where p: "map_of ps p = Some True"
      "e = cw @ '' '' @ Itoa f @ '' '' @ Itoa p \<or> e = Itoa f @ '' '' @ Itoa p"
    using position_entries_iff by (metis omap_All_iff)
  let ?c = "\<lparr>codeword = cw, flight = f, position = p\<rparr>"
  have "strict_String ?c \<in> set listeners" using ps [of p True] p(1) by (simp only: simp_thms)
  moreover have "e = strict_String ?c \<or> e = short_call ?c" using p(2) by (simp add: strict_String_def short_call_def)
  ultimately show ?thesis unfolding addresses_only_def by blast
qed

lemma flight_entries_complete:
  assumes "map_of ps (position c) = Some True"
  shows "{strict_String c, short_call c, flight_call (codeword c) (flight c)} \<inter>
    set (flight_entries ord (codeword c) (flight c) ps) \<noteq> {}"
proof -
  have "(position c, True) \<in> set (omap_All (int_order ord) ps)" using assms by (simp add: omap_All_iff)
  then show ?thesis
    using position_entries_all [of "position c" _ "codeword c" "flight c" True]
    by (auto simp: flight_entries_def Let_def strict_String_def short_call_def)
qed

lemma built_positions:
  assumes "map_of members cw = Some flights" "map_of flights f = Some ps"
  shows "map_of ps p = trie_at members \<lparr>codeword = cw, flight = f, position = p\<rparr>"
  using assms by (simp add: trie_at_def go_get_def)

lemma built_flight:
  assumes "trie_at members c = Some b"
  shows "\<exists>flights ps. map_of members (codeword c) = Some flights \<and> map_of flights (flight c) = Some ps \<and>
    map_of ps (position c) = Some b"
  using assms by (auto simp: trie_at_def go_get_def split: option.splits)

lemma concat_omap_All:
  "e \<in> set (concat (map g (omap_All ord m))) \<longleftrightarrow> (\<exists>k v. map_of m k = Some v \<and> e \<in> set (g (k, v)))"
proof -
  have "e \<in> set (concat (map g (omap_All ord m))) \<longleftrightarrow> (\<exists>x \<in> set (omap_All ord m). e \<in> set (g x))" by simp
  also have "\<dots> \<longleftrightarrow> (\<exists>k v. map_of m k = Some v \<and> e \<in> set (g (k, v)))"
    unfolding Bex_def split_paired_Ex omap_All_iff ..
  finally show ?thesis .
qed

lemma collateCallsigns_iff:
  assumes "1 < length listeners"
  shows "e \<in> set (collateCallsigns ord listeners everyone) \<longleftrightarrow>
    (\<exists>cw flights f ps. map_of (fold (add_member (sort listeners))
        (SortFunc compare_strict (List.map_filter parseStrictCallsign (sort everyone))) []) cw = Some flights \<and>
      map_of flights f = Some ps \<and> e \<in> set (flight_entries ord cw f ps)) \<or>
    e \<in> set listeners \<and> parseStrictCallsign e = None"
proof -
  have "\<not> length listeners \<le> 1" using assms by simp
  then show ?thesis
    by (simp add: collateCallsigns_def Let_def concat_omap_All del: set_concat)
qed

lemma strict_members: "c \<in> set (List.map_filter parseStrictCallsign everyone) \<longleftrightarrow>
    (\<exists>s \<in> set everyone. parseStrictCallsign s = Some c)"
  by (force simp: List.map_filter_def)

text \<open>The trie the callsigns are collated from.\<close>

definition built_trie :: "string list \<Rightarrow> string list \<Rightarrow> callsign_trie" where
  "built_trie listeners everyone = fold (add_member (sort listeners))
     (SortFunc compare_strict (List.map_filter parseStrictCallsign (sort everyone))) []"

lemma built_trie_at: "trie_at (built_trie listeners everyone) c =
    (if \<exists>s \<in> set everyone. parseStrictCallsign s = Some c then Some (strict_String c \<in> set listeners) else None)"
  unfolding built_trie_def trie_at_build SortFunc_set strict_members by (simp add: trie_at_def go_get_def)

lemma built_trie_ok: "trie_ok (built_trie listeners everyone)"
  unfolding built_trie_def by (rule trie_ok_build) (simp add: trie_ok_def)

lemmas collated_iff = collateCallsigns_iff [folded built_trie_def]

lemma collated_sound:
  assumes "1 < length listeners" and e: "e \<in> set (collateCallsigns ord listeners everyone)"
  shows "addresses_only listeners everyone e"
proof -
  let ?t = "built_trie listeners everyone"
  consider cw flights f ps where "map_of ?t cw = Some flights" "map_of flights f = Some ps" "e \<in> set (flight_entries ord cw f ps)"
    | "e \<in> set listeners" "parseStrictCallsign e = None" using e collated_iff [OF assms(1)] by auto
  then show ?thesis
  proof cases
    case 1
    show ?thesis
    proof (rule flight_entries_sound [OF _ _ 1(3)])
      show "gomap_ok ps" using built_trie_ok 1(1,2) by (fastforce simp: trie_ok_def)
      show "map_of ps p = Some b \<longleftrightarrow>
          \<lparr>codeword = cw, flight = f, position = p\<rparr> \<in> flight_members everyone cw f \<and>
          b = (strict_String \<lparr>codeword = cw, flight = f, position = p\<rparr> \<in> set listeners)" for p b
        unfolding built_positions [OF 1(1,2)] built_trie_at by (auto simp: flight_members_def)
    qed
  next
    case 2
    then show ?thesis by (simp add: addresses_only_def)
  qed
qed

lemma collated_complete:
  assumes "1 < length listeners" and "s \<in> set everyone" and "parseStrictCallsign s = Some c" and "strict_String c \<in> set listeners"
  shows "{strict_String c, short_call c, flight_call (codeword c) (flight c)} \<inter> set (collateCallsigns ord listeners everyone) \<noteq> {}"
proof -
  have "trie_at (built_trie listeners everyone) c = Some True" using built_trie_at assms(2-4) by auto
  from built_flight [OF this] obtain flights ps where b: "map_of (built_trie listeners everyone) (codeword c) = Some flights"
      "map_of flights (flight c) = Some ps" "map_of ps (position c) = Some True" by blast
  from flight_entries_complete [OF b(3), of ord] obtain e where
    "e \<in> {strict_String c, short_call c, flight_call (codeword c) (flight c)}"
    "e \<in> set (flight_entries ord (codeword c) (flight c) ps)" by blast
  moreover from this(2) have "e \<in> set (collateCallsigns ord listeners everyone)"
    unfolding collated_iff [OF assms(1)] using b(1,2) by (intro disjI1 exI conjI)
  ultimately show ?thesis by (metis IntI empty_iff)
qed

text \<open>C24. With two receivers or more, every collated entry addresses only receivers, in the last case
  all known members of a flight of two or more; every receiver whose callsign is not strict is
  addressed by itself; and every strict callsign that is known and a receiver is addressed in full,
  by flight and position, or with its whole flight.\<close>

theorem collation_addresses_receivers:
  assumes "1 < length listeners"
  shows "(\<forall>e \<in> set (collateCallsigns ord listeners everyone). addresses_only listeners everyone e) \<and>
    (\<forall>s \<in> set listeners. parseStrictCallsign s = None \<longrightarrow> s \<in> set (collateCallsigns ord listeners everyone)) \<and>
    (\<forall>s \<in> set everyone. \<forall>c. parseStrictCallsign s = Some c \<and> strict_String c \<in> set listeners \<longrightarrow>
       {strict_String c, short_call c, flight_call (codeword c) (flight c)} \<inter>
         set (collateCallsigns ord listeners everyone) \<noteq> {})"
  using collated_sound [OF assms] collated_complete [OF assms] collated_iff [OF assms] by blast

definition demo_order :: omap_order where
  "demo_order = \<lparr>word_order = sort, int_order = sort\<rparr>"

definition demo_names :: "string list" where
  "demo_names = [''eagle 1 1'', ''eagle 1 2'', ''mobius 1'']"

lemma demo_strict:
  "parseStrictCallsign ''eagle 1 1'' = Some \<lparr>codeword = ''eagle'', flight = 1, position = 1\<rparr>"
  "parseStrictCallsign ''eagle 1 2'' = Some \<lparr>codeword = ''eagle'', flight = 1, position = 2\<rparr>"
  "parseStrictCallsign ''mobius 1'' = None"
  by code_simp+

theorem collation_addresses_receivers_witness:
  "''mobius 1'' \<in> set (collateCallsigns demo_order demo_names demo_names) \<and>
   addresses_only demo_names demo_names (hd (collateCallsigns demo_order demo_names demo_names))"
proof -
  have "1 < length demo_names" by (simp add: demo_names_def)
  note r = collation_addresses_receivers [OF this, of demo_order demo_names]
  then have "''mobius 1'' \<in> set (collateCallsigns demo_order demo_names demo_names)"
    using demo_strict(3) by (auto simp: demo_names_def)
  moreover from this have "hd (collateCallsigns demo_order demo_names demo_names) \<in> set (collateCallsigns demo_order demo_names demo_names)"
    by (cases "collateCallsigns demo_order demo_names demo_names") auto
  ultimately show ?thesis using r by blast
qed

end
