(* ===== verification/Locations.thy ===== *)
theory Locations
  imports GoStrings Spatial
begin

text \<open>
  Named locations (\<open>pkg/locations/location.go\<close>): what makes one valid, and the loading of a list of
  them. Decoding JSON and YAML is a parameter: a decoder returns the locations of the data, or an
  error.
\<close>

record Location =
  Names :: "string list"
  Longitude :: real
  Latitude :: real

definition ReservedNames :: "string list" where
  "ReservedNames = [''tanker'', ''bullseye'']"

definition location_Point :: "Location \<Rightarrow> point" where
  "location_Point l = (Longitude l, Latitude l)"

datatype location_error =
    NoNames
  | BlankName
  | ReservedName string
  | LatitudeOutside real
  | LongitudeOutside real
  | Undecodable

definition EqualFold :: "string \<Rightarrow> string \<Rightarrow> bool" where
  "EqualFold a b = (ToLower a = ToLower b)"

fun check_names :: "string list \<Rightarrow> location_error option" where
  "check_names [] = None"
| "check_names (name # names) =
     (if TrimSpace name = [] then Some BlankName
      else if list_ex (EqualFold name) ReservedNames then Some (ReservedName name)
      else check_names names)"

definition Validate :: "Location \<Rightarrow> location_error option" where
  "Validate l =
     (if length (Names l) = 0 then Some NoNames
      else case check_names (Names l) of
        Some err \<Rightarrow> Some err
      | None \<Rightarrow>
          if Latitude l < -90 \<or> Latitude l > 90 then Some (LatitudeOutside (Latitude l))
          else if Longitude l < -180 \<or> Longitude l > 180 then Some (LongitudeOutside (Longitude l))
          else None)"

fun validate_all :: "Location list \<Rightarrow> location_error option" where
  "validate_all [] = None"
| "validate_all (loc # locs) = (case Validate loc of Some err \<Rightarrow> Some err | None \<Rightarrow> validate_all locs)"

definition LoadLocations ::
    "('d \<Rightarrow> Location list option) \<Rightarrow> ('d \<Rightarrow> Location list option) \<Rightarrow> 'd \<Rightarrow> location_error + Location list" where
  "LoadLocations json yaml data =
     (case (case json data of Some locs \<Rightarrow> Some locs | None \<Rightarrow> yaml data) of
        None \<Rightarrow> Inl Undecodable
      | Some locs \<Rightarrow> (case validate_all locs of Some err \<Rightarrow> Inl err | None \<Rightarrow> Inr locs))"

section \<open>Properties\<close>

definition location_ok :: "Location \<Rightarrow> bool" where
  "location_ok l \<longleftrightarrow> Names l \<noteq> [] \<and>
     (\<forall>n \<in> set (Names l). TrimSpace n \<noteq> [] \<and> ToLower n \<notin> set ReservedNames) \<and>
     \<bar>Latitude l\<bar> \<le> 90 \<and> \<bar>Longitude l\<bar> \<le> 180"

lemma reserved_folded: "list_ex (EqualFold n) ReservedNames \<longleftrightarrow> ToLower n \<in> set ReservedNames"
proof -
  have "ToLower ''tanker'' = ''tanker''" "ToLower ''bullseye'' = ''bullseye''" by code_simp+
  then show ?thesis by (auto simp: ReservedNames_def EqualFold_def)
qed

lemma check_names_None: "check_names ns = None \<longleftrightarrow> (\<forall>n \<in> set ns. TrimSpace n \<noteq> [] \<and> ToLower n \<notin> set ReservedNames)"
  by (induction ns) (auto simp: reserved_folded)

lemma Validate_ok: "Validate l = None \<longleftrightarrow> location_ok l"
  by (auto simp: Validate_def location_ok_def check_names_None [symmetric] split: option.split)

lemma validate_all_ok: "validate_all ls = None \<longleftrightarrow> (\<forall>l \<in> set ls. location_ok l)"
  by (induction ls) (auto simp: Validate_ok [symmetric] split: option.split)

lemma LoadLocations_ok: "LoadLocations json yaml data = Inr locs \<Longrightarrow> l \<in> set locs \<Longrightarrow> location_ok l"
  by (auto simp: LoadLocations_def validate_all_ok split: option.splits)

text \<open>A location whose name can be asked for never takes the name that stands for the tanker.\<close>

lemma no_location_is_tanker: "location_ok l \<Longrightarrow> ''tanker'' \<notin> set (Names l)"
proof
  assume "location_ok l" "''tanker'' \<in> set (Names l)"
  moreover have "ToLower ''tanker'' = ''tanker''" by code_simp
  ultimately show False by (force simp: location_ok_def ReservedNames_def)
qed

end
