(* ===== verification/Controller.thy ===== *)
theory Controller
  imports Awareness Trackers Collation Locations Radar
begin

text \<open>
  The controller (\<open>pkg/controller\<close>): its state, the responses to the pilots' requests, the calls it
  broadcasts on its own (merges, threats, pictures, the sunrise call) and the callbacks it gets from
  the radar. Every operation returns the calls it sends, in order. A handler reads the clock once
  here, at \<open>now\<close>; the scope is the radar's state at that moment.
\<close>

section \<open>Calls\<close>

record VectorReport =
  vector_Callsign :: string
  vector_Location :: string
  vector_Contact :: bool
  vector_Status :: bool
  vector_Vector :: "Vector option"
  vector_BRA :: "BRA option"
  vector_Track :: Track

record DeclareReport =
  report_Callsign :: string
  report_Sour :: bool
  report_Readback :: "Bullseye option"
  report_Declaration :: Declaration
  report_Group :: "group option"

text \<open>The response types of \<open>pkg/brevity\<close> that the controller sends.\<close>

datatype Call =
    AlphaCheckResponse string bool "Bullseye option"
  | NegativeRadarContactResponse string
  | BogeyDopeResponse string "group option"
  | CheckInResponse string
  | DeclareResponse DeclareReport
  | PictureResponse int "group list"
  | RadioCheckResponse string bool
  | ShoppingResponse string
  | SnaplockResponse string Declaration "group option"
  | SpikedResponseV2 string "Bearing option" bool "group option"
  | StrobeResponse string "Bearing option" bool "group option"
  | TripwireResponse string
  | VectorResponse VectorReport
  | SayAgainResponse string
  | SunriseCall "real list"
  | FadedCall group
  | MergedCall "string list"
  | ThreatCall "string list" group

section \<open>State\<close>

record Controller =
  c_coalition :: Coalition
  scope :: Radar
  c_locations :: "Location list"
  c_srsClient :: Client
  enableAutomaticPicture :: bool
  pictureBroadcastInterval :: int
  pictureBroadcastDeadline :: int
  wasLastPictureClean :: bool
  enableThreatMonitoring :: bool
  threatCooldowns :: cooldownTracker
  threatMonitoringCooldown :: int
  threatMonitoringRequiresSRS :: bool
  merges :: mergeTracker
  mergeCooldowns :: cooldownTracker

text \<open>What the controller takes from outside: that of the radar, and the orders in which Go ranges over
  maps and sets.\<close>

record control_lib =
  ctl_radar :: radar_lib
  ctl_omap :: omap_order
  ctl_threats_order :: "(group \<times> u64 list) list \<Rightarrow> (group \<times> u64 list) list"
  ctl_merges_order :: "(group \<times> Trackfile list) list \<Rightarrow> (group \<times> Trackfile list) list"
  ctl_friends_order :: "Trackfile list \<Rightarrow> Trackfile list"

abbreviation ctl_units :: "control_lib \<Rightarrow> units" where
  "ctl_units C \<equiv> lib_units (ctl_radar C)"

definition NewController ::
    "int \<Rightarrow> Radar \<Rightarrow> Client \<Rightarrow> Coalition \<Rightarrow> bool \<Rightarrow> int \<Rightarrow> bool \<Rightarrow> int \<Rightarrow> bool \<Rightarrow> Location list \<Rightarrow> Controller" where
  "NewController now rdr srs coalition automaticPicture interval monitoring monitoringCooldown requiresSRS locs =
     \<lparr>c_coalition = coalition, scope = rdr, c_locations = locs, c_srsClient = srs,
      enableAutomaticPicture = automaticPicture, pictureBroadcastInterval = interval,
      pictureBroadcastDeadline = now + interval, wasLastPictureClean = False,
      enableThreatMonitoring = monitoring, threatCooldowns = newCooldownTracker monitoringCooldown,
      threatMonitoringCooldown = monitoringCooldown, threatMonitoringRequiresSRS = requiresSRS,
      merges = newMergeTracker, mergeCooldowns = newCooldownTracker (30 * second)\<rparr>"

definition lowestAltitude :: real where "lowestAltitude = 0"
definition highestAltitude :: "units \<Rightarrow> real" where "highestAltitude u = 100000 * Foot u"

section \<open>Finding the caller\<close>

definition findCallsign :: "control_lib \<Rightarrow> Controller \<Rightarrow> string \<Rightarrow> string \<times> Trackfile option \<times> bool" where
  "findCallsign C c callsign =
     (case FindCallsign (lib_fuzzy (ctl_radar C)) callsign (c_coalition c) (db (scope c)) of
        (_, None) \<Rightarrow> ([], None, False)
      | (foundCallsign, Some t) \<Rightarrow> (foundCallsign, Some t, \<not> IsLastKnownPointZero t))"

text \<open>The callsign and trackfile when the third result is true.\<close>

definition located :: "control_lib \<Rightarrow> Controller \<Rightarrow> string \<Rightarrow> (string \<times> Trackfile) option" where
  "located C c callsign =
     (case findCallsign C c callsign of
        (foundCallsign, Some t, ok) \<Rightarrow> if ok then Some (foundCallsign, t) else None
      | _ \<Rightarrow> None)"

definition getFriendlyCallsigns :: "control_lib \<Rightarrow> Controller \<Rightarrow> string list" where
  "getFriendlyCallsigns C c =
     List.map_filter (\<lambda>friendly. let (callsign, ok) = ParsePilotCallsign (tf_Name friendly) in if ok then Some callsign else None)
       (FindByCoalition (lib_order (ctl_radar C)) (c_coalition c) (db (scope c)))"

section \<open>Merge details\<close>

definition fillInMergeDetails :: "Controller \<Rightarrow> group \<Rightarrow> group" where
  "fillInMergeDetails c g =
     (let count = int (length (friendliesMergedWith (ObjectIDs g) (merges c)));
          g = g\<lparr>g_mergedWith := count\<rparr>
      in if g_mergedWith g > 0 then g\<lparr>g_declaration := Furball\<rparr> else g)"

definition isGroupMergedWithFriendly :: "Controller \<Rightarrow> group \<Rightarrow> u64 \<Rightarrow> bool" where
  "isGroupMergedWithFriendly c g friendID = list_ex (\<lambda>hostileID. isMerged hostileID friendID (merges c)) (ObjectIDs g)"

section \<open>Requests\<close>

definition HandleAlphaCheck :: "control_lib \<Rightarrow> Controller \<Rightarrow> string \<Rightarrow> Call list" where
  "HandleAlphaCheck C c callsign =
     (case located C c callsign of
        None \<Rightarrow> [AlphaCheckResponse callsign False None]
      | Some (foundCallsign, t) \<Rightarrow>
          let bullseye = bullseye_of (tf_Coalition t) (scope c);
              location = track_Bullseye (lib_geo (ctl_radar C)) (lib_calendar (ctl_radar C)) None bullseye t
          in [AlphaCheckResponse foundCallsign True (Some location)])"

definition HandleBogeyDope :: "control_lib \<Rightarrow> Controller \<Rightarrow> string \<Rightarrow> ContactCategory \<Rightarrow> Call list" where
  "HandleBogeyDope C c callsign category =
     (case located C c callsign of
        None \<Rightarrow> [NegativeRadarContactResponse callsign]
      | Some (foundCallsign, t) \<Rightarrow>
          (case FindNearestGroupWithBRAA (ctl_radar C) (scope c) (last_point t) lowestAltitude (highestAltitude (ctl_units C))
                  (300 * NauticalMile (ctl_units C)) (Opposite (c_coalition c)) category of
             None \<Rightarrow> [BogeyDopeResponse foundCallsign None]
           | Some nearestGroup \<Rightarrow>
               [BogeyDopeResponse foundCallsign (Some (fillInMergeDetails c (nearestGroup\<lparr>g_declaration := Hostile\<rparr>)))]))"

definition HandleCheckIn :: "control_lib \<Rightarrow> Controller \<Rightarrow> string \<Rightarrow> Call list" where
  "HandleCheckIn C c callsign =
     (case located C c callsign of
        None \<Rightarrow> [NegativeRadarContactResponse callsign]
      | Some (foundCallsign, _) \<Rightarrow> [CheckInResponse foundCallsign])"

definition HandleShopping :: "control_lib \<Rightarrow> Controller \<Rightarrow> string \<Rightarrow> Call list" where
  "HandleShopping C c callsign =
     (case located C c callsign of
        None \<Rightarrow> [NegativeRadarContactResponse callsign]
      | Some (foundCallsign, _) \<Rightarrow> [ShoppingResponse foundCallsign])"

definition HandleTripwire :: "control_lib \<Rightarrow> Controller \<Rightarrow> string \<Rightarrow> Call list" where
  "HandleTripwire C c callsign =
     (case located C c callsign of
        None \<Rightarrow> [NegativeRadarContactResponse callsign]
      | Some (foundCallsign, _) \<Rightarrow> [TripwireResponse foundCallsign])"

definition HandleRadioCheck :: "control_lib \<Rightarrow> Controller \<Rightarrow> string \<Rightarrow> Call list" where
  "HandleRadioCheck C c callsign =
     (case located C c callsign of
        None \<Rightarrow> [RadioCheckResponse callsign False]
      | Some (foundCallsign, _) \<Rightarrow> [RadioCheckResponse foundCallsign True])"

definition LastCaller :: string where "LastCaller = ''Last caller''"

definition HandleUnableToUnderstand :: "control_lib \<Rightarrow> Controller \<Rightarrow> string \<Rightarrow> Call list" where
  "HandleUnableToUnderstand C c callsign =
     (case FindCallsign (lib_fuzzy (ctl_radar C)) callsign (c_coalition c) (db (scope c)) of
        (found, Some _) \<Rightarrow> [SayAgainResponse found]
      | (_, None) \<Rightarrow> [SayAgainResponse LastCaller])"

record correlation =
  corr_Callsign :: string
  corr_Bearing :: "Bearing option"
  corr_Group :: "group option"

definition correlate :: "control_lib \<Rightarrow> Controller \<Rightarrow> string \<Rightarrow> Bearing \<Rightarrow> correlation" where
  "correlate C c callsign bearing =
     (case located C c callsign of
        None \<Rightarrow> \<lparr>corr_Callsign = [], corr_Bearing = None, corr_Group = None\<rparr>
      | Some (foundCallsign, t) \<Rightarrow>
          (let nearestGroup = FindNearestGroupInSector (ctl_radar C) (scope c) (last_point t) lowestAltitude
                 (highestAltitude (ctl_units C)) (120 * NauticalMile (ctl_units C)) bearing 30
                 (Opposite (c_coalition c)) FixedWing
           in \<lparr>corr_Callsign = foundCallsign, corr_Bearing = Some bearing,
               corr_Group = map_option (\<lambda>g. g\<lparr>g_declaration := Hostile\<rparr>) nearestGroup\<rparr>))"

definition HandleSpiked :: "control_lib \<Rightarrow> Controller \<Rightarrow> string \<Rightarrow> Bearing \<Rightarrow> Call list" where
  "HandleSpiked C c callsign bearing =
     (let corr = correlate C c callsign bearing
      in if corr_Callsign corr = [] then [NegativeRadarContactResponse callsign]
         else [SpikedResponseV2 (corr_Callsign corr) (corr_Bearing corr) (corr_Group corr \<noteq> None) (corr_Group corr)])"

definition HandleStrobe :: "control_lib \<Rightarrow> Controller \<Rightarrow> string \<Rightarrow> Bearing \<Rightarrow> Call list" where
  "HandleStrobe C c callsign bearing =
     (let corr = correlate C c callsign bearing
      in if corr_Callsign corr = [] then [NegativeRadarContactResponse callsign]
         else [StrobeResponse (corr_Callsign corr) (corr_Bearing corr) (corr_Group corr \<noteq> None) (corr_Group corr)])"

text \<open>Where a DECLARE asks about. A bearing that is missing is dereferenced: the handler panics
  (\<open>Inl True\<close>). Without a bullseye the caller is told that the controller is unable
  (\<open>Inl False\<close>).\<close>

definition declare_point :: "control_lib \<Rightarrow> Controller \<Rightarrow> Trackfile \<Rightarrow> DeclareRequest \<Rightarrow> bool + point" where
  "declare_point C c t req =
     (let L = ctl_radar C; r = scope c
      in if IsBRAA req
         then (case declare_Bearing req of
             None \<Rightarrow> Inl True
           | Some b \<Rightarrow>
               (let origin_pt = last_point t; bearing = to_True b (radar_Declination L r origin_pt)
                in Inr (PointAtBearingAndDistance (lib_geo L) (withProjection r) origin_pt bearing (declare_Range req))))
         else (case declare_Bullseye req of
             None \<Rightarrow> Inl False
           | Some bulls \<Rightarrow>
               (let origin_pt = bullseye_of (tf_Coalition t) r; bearing = to_True (v_bearing bulls) (radar_Declination L r origin_pt)
                in Inr (PointAtBearingAndDistance (lib_geo L) (withProjection r) origin_pt bearing (Range (lib_units L) bulls)))))"

definition declare_block :: "units \<Rightarrow> real \<Rightarrow> real \<times> real" where
  "declare_block u altitude =
     (if altitude \<noteq> 0 then (altitude - 5000 * Foot u, altitude + 5000 * Foot u) else (lowestAltitude, highestAltitude u))"

definition declare_groups :: "control_lib \<Rightarrow> Controller \<Rightarrow> Trackfile \<Rightarrow> DeclareRequest \<Rightarrow> point \<Rightarrow> Coalition \<Rightarrow> group list" where
  "declare_groups C c t req pointOfInterest coalition =
     (let (minAltitude, maxAltitude) = declare_block (ctl_units C) (declare_Altitude req)
      in FindNearbyGroupsWithBullseye (ctl_radar C) (scope c) pointOfInterest minAltitude maxAltitude
           (7 * NauticalMile (ctl_units C)) coalition ContactCategory.Aircraft [tf_ID t])"

definition declaration_of :: "group list \<Rightarrow> group list \<Rightarrow> Declaration" where
  "declaration_of friendlyGroups hostileGroups =
     (if length friendlyGroups + length hostileGroups = 0 then Clean
      else if length friendlyGroups > 0 \<and> length hostileGroups = 0 then Friendly
      else if length friendlyGroups = 0 \<and> length hostileGroups > 0 then Hostile
      else Furball)"

definition declare_group :: "group list \<Rightarrow> group list \<Rightarrow> group option" where
  "declare_group friendlyGroups hostileGroups =
     (case declaration_of friendlyGroups hostileGroups of
        Friendly \<Rightarrow> Some (hd friendlyGroups)
      | Hostile \<Rightarrow> Some (hd hostileGroups)
      | Furball \<Rightarrow> if length hostileGroups = 1 then Some (hd hostileGroups) else None
      | _ \<Rightarrow> None)"

definition HandleDeclare :: "control_lib \<Rightarrow> Controller \<Rightarrow> DeclareRequest \<Rightarrow> Call list option" where
  "HandleDeclare C c req =
     (case located C c (declare_Callsign req) of
        None \<Rightarrow> Some [NegativeRadarContactResponse (declare_Callsign req)]
      | Some (foundCallsign, t) \<Rightarrow>
          if declare_Sour req
          then Some [DeclareResponse \<lparr>report_Callsign = foundCallsign, report_Sour = True, report_Readback = None,
            report_Declaration = Unable, report_Group = None\<rparr>]
          else (case declare_point C c t req of
              Inl True \<Rightarrow> None
            | Inl False \<Rightarrow> Some [DeclareResponse \<lparr>report_Callsign = foundCallsign, report_Sour = False,
                report_Readback = None, report_Declaration = Unable, report_Group = None\<rparr>]
            | Inr pointOfInterest \<Rightarrow>
                (let friendlyGroups = declare_groups C c t req pointOfInterest (c_coalition c);
                     hostileGroups = declare_groups C c t req pointOfInterest (Opposite (c_coalition c));
                     declaration = declaration_of friendlyGroups hostileGroups;
                     g = map_option (\<lambda>g. let g = g\<lparr>g_declaration := declaration\<rparr>
                           in if g_declaration g = Hostile then fillInMergeDetails c g else g)
                         (declare_group friendlyGroups hostileGroups)
                 in Some [DeclareResponse \<lparr>report_Callsign = foundCallsign, report_Sour = False,
                      report_Readback = (if IsAmbiguous req then declare_Bullseye req else None),
                      report_Declaration = declaration, report_Group = g\<rparr>])))"

definition snaplock_groups :: "control_lib \<Rightarrow> Controller \<Rightarrow> Trackfile \<Rightarrow> BRA \<Rightarrow> Coalition \<Rightarrow> group list" where
  "snaplock_groups C c t bra coalition =
     (let L = ctl_radar C; r = scope c; u = lib_units L;
          origin_pt = last_point t;
          pointOfInterest = PointAtBearingAndDistance (lib_geo L) (withProjection r) origin_pt
            (to_True (v_bearing bra) (radar_Declination L r origin_pt)) (Range u bra);
          minAltitude = BRA_Altitude u bra - 5000 * Foot u;
          maxAltitude = BRA_Altitude u bra + 5000 * Foot u
      in FindNearbyGroupsWithBRAA L r origin_pt pointOfInterest minAltitude maxAltitude (10 * NauticalMile u)
           coalition ContactCategory.Aircraft [tf_ID t])"

definition snaplock_group :: "group list \<Rightarrow> group list \<Rightarrow> group option" where
  "snaplock_group friendlyGroups hostileGroups =
     (case declaration_of friendlyGroups hostileGroups of
        Friendly \<Rightarrow> Some (hd friendlyGroups)
      | Hostile \<Rightarrow> (case List.find (\<lambda>g. g_Aspect g = Hot) hostileGroups of Some g \<Rightarrow> Some g | None \<Rightarrow> Some (hd hostileGroups))
      | _ \<Rightarrow> None)"

definition HandleSnaplock :: "control_lib \<Rightarrow> Controller \<Rightarrow> string \<Rightarrow> BRA \<Rightarrow> Call list" where
  "HandleSnaplock C c callsign bra =
     (case located C c callsign of
        None \<Rightarrow> [NegativeRadarContactResponse callsign]
      | Some (foundCallsign, t) \<Rightarrow>
          (let friendlyGroups = snaplock_groups C c t bra (c_coalition c);
               hostileGroups = snaplock_groups C c t bra (Opposite (c_coalition c));
               declaration = declaration_of friendlyGroups hostileGroups
           in [SnaplockResponse foundCallsign declaration
                (map_option (\<lambda>g. fillInMergeDetails c (g\<lparr>g_declaration := declaration\<rparr>))
                  (snaplock_group friendlyGroups hostileGroups))]))"

definition handleTankerVector :: "control_lib \<Rightarrow> Controller \<Rightarrow> Trackfile \<Rightarrow> VectorReport \<Rightarrow> Call list" where
  "handleTankerVector C c t response =
     (if \<not> vector_Contact response then [VectorResponse response]
      else let L = ctl_radar C; r = scope c; u = lib_units L;
               origin_pt = last_point t;
               refuelingMethod = (case aircraft_of L t of
                   Some data \<Rightarrow> if fuelReceiver data \<noteq> NoAirRefueling then fuelReceiver data else ProbeAndDrogue
                 | None \<Rightarrow> ProbeAndDrogue)
           in case FindNearestTanker L r origin_pt (c_coalition c) refuelingMethod of
                None \<Rightarrow> [VectorResponse (response\<lparr>vector_Status := False\<rparr>)]
              | Some tanker \<Rightarrow>
                  (let bearing = to_Magnetic (TrueBearingBetween (lib_geo L) None origin_pt (last_point tanker))
                         (radar_Declination L r origin_pt);
                       distance = Distance (lib_geo L) None origin_pt (last_point tanker);
                       altitude = frame_Altitude (LastKnown tanker)
                   in [VectorResponse (response\<lparr>vector_Status := True, vector_Location := tf_Name tanker,
                        vector_BRA := Some (NewBRA u bearing distance [altitude]),
                        vector_Track := Direction (lib_geo L) (lib_calendar L) tanker\<rparr>)]))"

definition HandleVector :: "control_lib \<Rightarrow> Controller \<Rightarrow> string \<Rightarrow> string \<Rightarrow> Call list" where
  "HandleVector C c callsign location =
     (let response = \<lparr>vector_Callsign = callsign, vector_Location = location, vector_Contact = False,
        vector_Status = False, vector_Vector = None, vector_BRA = None, vector_Track = NoTrack\<rparr>
      in case located C c callsign of
           None \<Rightarrow> [VectorResponse response]
         | Some (foundCallsign, t) \<Rightarrow>
             (let response = response\<lparr>vector_Callsign := foundCallsign, vector_Contact := True\<rparr>
              in if location = LocationTanker then handleTankerVector C c t response
                 else case List.find (\<lambda>l. location \<in> set (Names l)) (c_locations c) of
                   None \<Rightarrow> [VectorResponse response]
                 | Some targetLocation \<Rightarrow>
                     (let L = ctl_radar C;
                          response = (if length (Names targetLocation) > 0
                            then response\<lparr>vector_Location := hd (Names targetLocation)\<rparr> else response);
                          origin_pt = last_point t;
                          target = location_Point targetLocation;
                          bearing = to_Magnetic (TrueBearingBetween (lib_geo L) None origin_pt target)
                            (radar_Declination L (scope c) origin_pt);
                          distance = Distance (lib_geo L) None origin_pt target
                      in [VectorResponse (response\<lparr>vector_Status := True, vector_Vector := Some (NewVector bearing distance)\<rparr>)])))"

section \<open>Pictures\<close>

definition DefaultPictureRadius :: "units \<Rightarrow> real" where
  "DefaultPictureRadius u = 300 * NauticalMile u"

text \<open>Waiting until the radar has no fades pending: \<open>polls\<close> are the states the controller is in at the
  following polls, as the other goroutines leave it. When the context ends there is no further poll,
  and the caller goes on.\<close>

fun WaitUntilFadesResolve :: "Controller \<Rightarrow> Controller list \<Rightarrow> Controller" where
  "WaitUntilFadesResolve c [] = c"
| "WaitUntilFadesResolve c (c' # polls) =
     (if areFadesPending (scope c) then WaitUntilFadesResolve c' polls else c)"

definition broadcastPicture :: "control_lib \<Rightarrow> int \<Rightarrow> bool \<Rightarrow> Controller list \<Rightarrow> Controller \<Rightarrow> Controller \<times> Call list" where
  "broadcastPicture C now forceBroadcast polls c0 =
     (if \<not> forceBroadcast \<and> ClientsOnFrequency (c_srsClient c0) = 0 then (c0, [])
      else let c = (if forceBroadcast then c0 else WaitUntilFadesResolve c0 polls);
               (count, groups) = Picture (ctl_radar C) (scope c) (DefaultPictureRadius (ctl_units C))
                 (Opposite (c_coalition c)) FixedWing;
               isPictureClean = (count = 0);
               groups = map (\<lambda>g. fillInMergeDetails c (g\<lparr>g_declaration := Hostile\<rparr>)) groups;
               calls = (if wasLastPictureClean c \<and> isPictureClean \<and> \<not> forceBroadcast then []
                        else [PictureResponse count groups])
           in (c\<lparr>pictureBroadcastDeadline := now + pictureBroadcastInterval c, wasLastPictureClean := isPictureClean\<rparr>, calls))"

definition HandlePicture :: "control_lib \<Rightarrow> int \<Rightarrow> Controller \<Rightarrow> Controller \<times> Call list" where
  "HandlePicture C now c = broadcastPicture C now True [] c"

definition broadcastAutomaticPicture :: "control_lib \<Rightarrow> int \<Rightarrow> Controller list \<Rightarrow> Controller \<Rightarrow> Controller \<times> Call list" where
  "broadcastAutomaticPicture C now polls c =
     (if \<not> enableAutomaticPicture c then (c, [])
      else if now > pictureBroadcastDeadline c then broadcastPicture C now False polls c
      else (c, []))"

section \<open>Threats\<close>

definition threat_names :: "Controller \<Rightarrow> group \<Rightarrow> u64 list \<Rightarrow> string list" where
  "threat_names c hostileGroup friendIDs =
     fold (\<lambda>friendID names.
         if isGroupMergedWithFriendly c hostileGroup friendID then names
         else case FindUnit friendID (db (scope c)) of
             None \<Rightarrow> names
           | Some friendly \<Rightarrow>
               (let (callsign, ok) = ParsePilotCallsign (tf_Name friendly)
                in if \<not> ok then names else if callsign \<in> set names then names else names @ [callsign]))
       friendIDs []"

definition broadcastThreat :: "control_lib \<Rightarrow> int \<Rightarrow> group \<Rightarrow> u64 list \<Rightarrow> Controller \<Rightarrow> Controller \<times> Call list" where
  "broadcastThreat C now g friendIDs c =
     (let g = (fillInMergeDetails c (g\<lparr>g_declaration := Hostile\<rparr>))\<lparr>g_isThreat := True\<rparr>;
          recentlyNotified = list_all (\<lambda>threatID. isOnCooldown now threatID (threatCooldowns c)) (ObjectIDs g);
          names = threat_names c g friendIDs
      in if recentlyNotified then (c, [])
         else if length names = 0 then (c, [])
         else (c\<lparr>threatCooldowns := fold (extendCooldown now) (ObjectIDs g) (threatCooldowns c)\<rparr>,
               [ThreatCall (collateCallsigns (ctl_omap C) names (getFriendlyCallsigns C c)) g]))"

text \<open>Running an operation for each element in turn, and collecting what they send.\<close>

fun run_each :: "('a \<Rightarrow> 's \<Rightarrow> 's \<times> 'c list) \<Rightarrow> 'a list \<Rightarrow> 's \<Rightarrow> 's \<times> 'c list" where
  "run_each step [] s = (s, [])"
| "run_each step (x # xs) s =
     (let (s1, calls1) = step x s; (s2, calls2) = run_each step xs s1 in (s2, calls1 @ calls2))"

definition broadcastThreats :: "control_lib \<Rightarrow> int \<Rightarrow> Controller \<Rightarrow> Controller \<times> Call list" where
  "broadcastThreats C now c =
     (if \<not> enableThreatMonitoring c then (c, [])
      else let threats = permute (ctl_threats_order C) (Threats (ctl_radar C) (scope c) (Opposite (c_coalition c)))
           in run_each (\<lambda>(hostileGroup, friendIDs). broadcastThreat C now hostileGroup friendIDs) threats c)"

section \<open>Merges\<close>

definition addFriendlyToBroadcast :: "Controller \<Rightarrow> Trackfile \<Rightarrow> string list \<Rightarrow> string list" where
  "addFriendlyToBroadcast c friendly friendlyCallsigns =
     (let isOnFrequency = peer_IsOnFrequency (c_srsClient c) (tf_Name friendly);
          shouldBroadcast = (\<not> threatMonitoringRequiresSRS c \<or> isOnFrequency)
      in if \<not> shouldBroadcast then friendlyCallsigns
         else let (callsign, ok) = ParsePilotCallsign (tf_Name friendly)
              in if ok \<and> callsign \<notin> set friendlyCallsigns then friendlyCallsigns @ [callsign] else friendlyCallsigns)"

definition createMergedCall :: "control_lib \<Rightarrow> Controller \<Rightarrow> Trackfile list \<Rightarrow> string list" where
  "createMergedCall C c friendlies =
     collateCallsigns (ctl_omap C) (fold (addFriendlyToBroadcast c) friendlies []) (getFriendlyCallsigns C c)"

definition updateMergesForContact :: "control_lib \<Rightarrow> Radar \<Rightarrow> Trackfile \<Rightarrow> Trackfile \<Rightarrow> mergeTracker \<Rightarrow> mergeTracker \<times> bool" where
  "updateMergesForContact C r hostile friendly t =
     (let already = isMerged (tf_ID hostile) (tf_ID friendly) t
      in if IsLastKnownPointZero friendly \<or> IsLastKnownPointZero hostile
         then (separate (tf_ID hostile) (tf_ID friendly) t, False)
         else let distance = radar_distance (ctl_radar C) r (last_point friendly) (last_point hostile);
                  enteredMerge = (distance < MergeEntryDistance (ctl_units C));
                  exitedMerge = (distance > MergeExitDistance (ctl_units C))
              in if \<not> already \<and> enteredMerge then (merge (tf_ID hostile) (tf_ID friendly) t, True)
                 else if already \<and> exitedMerge then (separate (tf_ID hostile) (tf_ID friendly) t, False)
                 else (t, False))"

definition updateMergesForHostile :: "control_lib \<Rightarrow> Radar \<Rightarrow> Trackfile list \<Rightarrow> u64 \<Rightarrow> mergeTracker \<Rightarrow> mergeTracker \<times> Trackfile list" where
  "updateMergesForHostile C r friendlies hostileID t =
     (let friendIDs = map tf_ID friendlies;
          t = fold (separate hostileID) (filter (\<lambda>oldMergedFriendly. oldMergedFriendly \<notin> set friendIDs)
                (friendliesMergedWith [hostileID] t)) t
      in case FindUnit hostileID (db r) of
           None \<Rightarrow> (merge_remove hostileID t, [])
         | Some hostile \<Rightarrow>
             run_each (\<lambda>friendly t. let (t', isNewMerge) = updateMergesForContact C r hostile friendly t
                 in (t', if isNewMerge then [friendly] else [])) friendlies t)"

definition updateMergesForGroup :: "control_lib \<Rightarrow> Radar \<Rightarrow> group \<Rightarrow> Trackfile list \<Rightarrow> mergeTracker \<Rightarrow> mergeTracker \<times> Trackfile list" where
  "updateMergesForGroup C r hostileGroup friendlies t =
     run_each (updateMergesForHostile C r friendlies) (ObjectIDs hostileGroup) t"

definition notify_step :: "int \<Rightarrow> Trackfile \<Rightarrow> cooldownTracker \<Rightarrow> cooldownTracker \<times> Trackfile list" where
  "notify_step now friendly cds =
     (if isOnCooldown now (tf_ID friendly) cds then (cds, [])
      else (extendCooldown now (tf_ID friendly) cds, [friendly]))"

definition broadcastMerge :: "control_lib \<Rightarrow> int \<Rightarrow> group \<times> Trackfile list \<Rightarrow> Controller \<Rightarrow> Controller \<times> Call list" where
  "broadcastMerge C now m c =
     (let (hostileGroup, friendlies) = m;
          (t, newMergedFriendlies) = updateMergesForGroup C (scope c) hostileGroup friendlies (merges c);
          (cds, friendliesToNotify) = run_each (notify_step now) newMergedFriendlies (mergeCooldowns c);
          c = c\<lparr>merges := t, mergeCooldowns := cds\<rparr>;
          names = createMergedCall C c friendliesToNotify
      in (c, if length names > 0 then [MergedCall names] else []))"

definition broadcastMerges :: "control_lib \<Rightarrow> int \<Rightarrow> Controller \<Rightarrow> Controller \<times> Call list" where
  "broadcastMerges C now c =
     (let ms = map (\<lambda>(g, friendlies). (g, permute (ctl_friends_order C) friendlies))
                 (permute (ctl_merges_order C) (Merges (ctl_radar C) (scope c) (c_coalition c)));
          hostileIDs = concat (map (\<lambda>(g, _). ObjectIDs g) ms);
          c = c\<lparr>merges := keep hostileIDs (merges c)\<rparr>
      in run_each (broadcastMerge C now) ms c)"

section \<open>The other broadcasts and the callbacks of the radar\<close>

text \<open>Frequencies are numbers of hertz.\<close>

definition Frequencies :: "Client \<Rightarrow> (real \<times> Modulation) list" where
  "Frequencies c = map (\<lambda>radio. (radio_Frequency radio, radio_Modulation radio)) (Radios (client_RadioInfo (clientInfo c)))"

definition broadcastSunrise :: "Controller \<Rightarrow> Call list" where
  "broadcastSunrise c = [SunriseCall (map fst (Frequencies (c_srsClient c)))]"

definition fadeBroadcastRadius :: "units \<Rightarrow> real" where
  "fadeBroadcastRadius u = 55 * NauticalMile u"

definition ctl_handleStarted :: "Controller \<Rightarrow> Controller" where
  "ctl_handleStarted c = c\<lparr>merges := merge_reset (merges c), threatCooldowns := cooldown_reset (threatCooldowns c),
     mergeCooldowns := cooldown_reset (mergeCooldowns c), wasLastPictureClean := False\<rparr>"

definition ctl_remove :: "u64 \<Rightarrow> Controller \<Rightarrow> Controller" where
  "ctl_remove uid c = c\<lparr>threatCooldowns := cooldown_remove uid (threatCooldowns c),
     mergeCooldowns := cooldown_remove uid (mergeCooldowns c), merges := merge_remove uid (merges c)\<rparr>"

definition ctl_handleFaded :: "control_lib \<Rightarrow> point \<Rightarrow> group \<Rightarrow> Coalition \<Rightarrow> Controller \<Rightarrow> Controller \<times> Call list" where
  "ctl_handleFaded C location g coalition c0 =
     (let c = fold ctl_remove (ObjectIDs g) c0;
          isHostile = (coalition = Opposite (c_coalition c));
          areHumansOnFrequency = (HumansOnFrequency (c_srsClient c) > 0);
          nearbyFriendlies = FindNearbyGroupsWithBullseye (ctl_radar C) (scope c) location lowestAltitude
            (highestAltitude (ctl_units C)) (fadeBroadcastRadius (ctl_units C)) (c_coalition c) ContactCategory.Aircraft [];
          isNearFriendly = (length nearbyFriendlies > 0)
      in (c, if isHostile \<and> isNearFriendly \<and> areHumansOnFrequency
             then [FadedCall (g\<lparr>g_declaration := Hostile\<rparr>)] else []))"

definition ctl_handleRemoved :: "Trackfile \<Rightarrow> Controller \<Rightarrow> Controller" where
  "ctl_handleRemoved t c = ctl_remove (tf_ID t) c"

text \<open>The callbacks that \<open>Run\<close> attaches to the radar.\<close>

fun handle_event :: "control_lib \<Rightarrow> RadarEvent \<Rightarrow> Controller \<Rightarrow> Controller \<times> Call list" where
  "handle_event C StartedEvent c = (ctl_handleStarted c, [])"
| "handle_event C (FadedEvent location g coalition) c = ctl_handleFaded C location g coalition c"
| "handle_event C (RemovedEvent t) c = (ctl_handleRemoved t c, [])"

section \<open>The controller at work\<close>

text \<open>What \<open>Run\<close> and the handlers do to the state, in steps between which the goroutines of the radar
  can run: the parts of a tick (forgetting the hostiles that are merged with nothing, one group that
  is merged, one threat, the automatic picture), a PICTURE request (the other requests change
  nothing), and a step of the radar with the callbacks it causes. The groups of a tick are read from
  the scope at its start, so here they may be any. An automatic picture that waits is the step at
  the end of its wait, when no fades are pending or the context has ended.\<close>

datatype control_event = Tick | Scope "RadarEvent list"

inductive control_step :: "control_lib \<Rightarrow> int \<Rightarrow> Controller \<Rightarrow> control_event \<Rightarrow> Call list \<Rightarrow> Controller \<Rightarrow> bool" for C now where
  kept: "control_step C now c Tick [] (c\<lparr>merges := keep hostileIDs (merges c)\<rparr>)"
| merged: "broadcastMerge C now m c = (c', calls) \<Longrightarrow> control_step C now c Tick calls c'"
| threat: "broadcastThreat C now g friendIDs c = (c', calls) \<Longrightarrow> enableThreatMonitoring c \<Longrightarrow> control_step C now c Tick calls c'"
| picture: "broadcastAutomaticPicture C now [] c = (c', calls) \<Longrightarrow> control_step C now c Tick calls c'"
| request: "HandlePicture C now c = (c', calls) \<Longrightarrow> control_step C now c Tick calls c'"
| radar: "radar_step (ctl_radar C) now (scope c) events r' \<Longrightarrow>
    run_each (handle_event C) events (c\<lparr>scope := r'\<rparr>) = (c', calls) \<Longrightarrow>
    control_step C now c (Scope events) calls c'"

inductive_cases control_step_cases: "control_step C now c e calls c'"

text \<open>A run: each step with its time and event.\<close>

inductive control_run :: "control_lib \<Rightarrow> Controller \<Rightarrow> (int \<times> control_event) list \<Rightarrow> Controller \<Rightarrow> bool" for C where
  stop: "control_run C c [] c"
| step: "control_step C now c e calls c1 \<Longrightarrow> control_run C c1 trace c' \<Longrightarrow> control_run C c ((now, e) # trace) c'"

end
