(* ===== verification/Composer.thy ===== *)
theory Composer
  imports Controller
begin

text \<open>
  The composer (\<open>pkg/composer\<close>): brevity calls as natural language, as spoken text and as subtitle.
  The code picks among variants of a reply at random; the choice is an argument here (an index
  \<open>i\<close>, of which the remainder counts). Where the code dereferences a nil group, bearing or location
  it panics: the result is then \<open>None\<close>.
\<close>

section \<open>Text\<close>

record NaturalLanguageResponse =
  Subtitle :: string
  Speech :: string

definition both :: "string \<Rightarrow> NaturalLanguageResponse" where
  "both s = \<lparr>Subtitle = s, Speech = s\<rparr>"

definition addSpacing :: "string \<Rightarrow> string" where
  "addSpacing s = (if length s = 0 then s else if IsLetter (hd s) \<or> IsDigit (hd s) then '' '' @ s else s)"

definition join_text :: "string \<Rightarrow> string \<Rightarrow> string" where
  "join_text a b =
     (if length a = 0 then b
      else if \<not> IsSpace (last a) then a @ addSpacing b
      else a @ b)"

definition Write :: "string \<Rightarrow> string \<Rightarrow> NaturalLanguageResponse \<Rightarrow> NaturalLanguageResponse" where
  "Write speech subtitle r = r\<lparr>Speech := join_text (Speech r) speech, Subtitle := join_text (Subtitle r) subtitle\<rparr>"

definition WriteBoth :: "string \<Rightarrow> NaturalLanguageResponse \<Rightarrow> NaturalLanguageResponse" where
  "WriteBoth s r = Write s s r"

definition WriteResponse :: "NaturalLanguageResponse \<Rightarrow> NaturalLanguageResponse \<Rightarrow> NaturalLanguageResponse" where
  "WriteResponse response r = Write (Speech response) (Subtitle response) r"

definition emptyResponse :: NaturalLanguageResponse where
  "emptyResponse = \<lparr>Subtitle = [], Speech = []\<rparr>"

definition lowerFirst :: "string \<Rightarrow> string" where
  "lowerFirst s = (if s = [] then s else ToLower (take 1 s) @ drop 1 s)"

section \<open>Numbers\<close>

function pronounce_nat :: "nat \<Rightarrow> string" where
  "pronounce_nat d = (if d \<ge> 10 then pronounce_nat (d div 10) @ '' '' @ pronounce_nat (d mod 10) else Itoa (int d))"
  by pat_completeness auto
termination by (relation "measure id") auto

declare pronounce_nat.simps [simp del]

definition pronounceInt :: "int \<Rightarrow> string" where
  "pronounceInt d = (if d < 0 then ''minus '' @ pronounce_nat (nat (- d)) else pronounce_nat (nat d))"

definition pronounceBearing :: "Bearing \<Rightarrow> string" where
  "pronounceBearing bearing =
     (let d = RoundedDegrees bearing;
          s = pronounceInt d;
          s = (if d < 10 then ''0 '' @ s else s);
          s = (if d < 100 then ''0 '' @ s else s)
      in s)"

text \<open>\<open>fmt.Sprintf("%.*f")\<close>: the decimal nearest to the number, at a tie the even one.\<close>

definition round_even :: "real \<Rightarrow> int" where
  "round_even x =
     (let n = \<lfloor>x\<rfloor>; d = x - of_int n
      in if d < 1 / 2 then n else if d > 1 / 2 then n + 1 else if even n then n else n + 1)"

definition zero_padded :: "nat \<Rightarrow> nat \<Rightarrow> string" where
  "zero_padded width n = replicate (width - length (Itoa_nat n)) (CHR ''0'') @ Itoa_nat n"

definition format_fixed :: "nat \<Rightarrow> real \<Rightarrow> string" where
  "format_fixed precision f =
     (let n = nat (round_even (\<bar>f\<bar> * 10 ^ precision))
      in (if f < 0 then ''-'' else []) @ Itoa_nat (n div 10 ^ precision) @
         (if precision = 0 then [] else ''.'' @ zero_padded precision (n mod 10 ^ precision)))"

definition defaultDecimalSeparator :: string where
  "defaultDecimalSeparator = ''point''"

definition pronounceDecimal :: "real \<Rightarrow> nat \<Rightarrow> string \<Rightarrow> string option" where
  "pronounceDecimal f precision separator0 =
     (let separator = (if separator0 = [] then defaultDecimalSeparator else separator0);
          integerPart = go_trunc f;
          fractionalPartFloat = f - of_int integerPart;
          fractionalPartStr = fst (snd (Cut (format_fixed precision fractionalPartFloat) ''.''));
          fractionalPartStr = (if fractionalPartStr = [] then replicate precision (CHR ''0'') else fractionalPartStr)
      in if fractionalPartStr = [] then Some (pronounceInt integerPart)
         else case Atoi fractionalPartStr of
             None \<Rightarrow> None
           | Some fractionalPart \<Rightarrow>
               Some (pronounceInt integerPart @ '' '' @ separator @ '' '' @ pronounceInt fractionalPart))"

section \<open>Callsigns, positions and altitudes\<close>

definition composeCallsigns :: "string list \<Rightarrow> string" where
  "composeCallsigns callsigns =
     (let callsigns = map (\<lambda>callsign. if callsign \<noteq> LastCaller then ToUpper callsign else callsign) callsigns
      in if length callsigns = 1 then hd callsigns else Join callsigns '', '')"

definition nautical :: "units \<Rightarrow> real \<Rightarrow> string" where
  "nautical u d = Itoa (go_trunc (NauticalMiles u d))"

definition composeAltitude :: "units \<Rightarrow> real \<Rightarrow> Declaration \<Rightarrow> string" where
  "composeAltitude u altitude declaration =
     (let hundreds = go_round (Feet u altitude / 100);
          thousands = go_round (Feet u altitude / 1000)
      in if hundreds = 0 then ''altitude unknown''
         else if declaration = Friendly
         then (if altitude < 1000 * Foot u then ''cherubs '' @ Itoa hundreds else ''angels '' @ Itoa thousands)
         else if altitude < 1000 * Foot u then Itoa (hundreds * 100)
         else Itoa (thousands * 1000))"

definition composeAltitudeStacks :: "units \<Rightarrow> Stack list \<Rightarrow> Declaration \<Rightarrow> string" where
  "composeAltitudeStacks u stacks declaration =
     (case stacks of
        [] \<Rightarrow> ''altitude unknown''
      | [s] \<Rightarrow> composeAltitude u (stack_Altitude s) declaration
      | s # ss \<Rightarrow> ''stack '' @ composeAltitude u (stack_Altitude s) declaration @
          concat (map (\<lambda>t. '', '' @ composeAltitude u (stack_Altitude t) declaration) (butlast ss)) @
          '' and '' @ composeAltitude u (stack_Altitude (last ss)) declaration)"

definition composeAltitudeFillIns :: "Stack list \<Rightarrow> string" where
  "composeAltitudeFillIns stacks =
     (case stacks of
        [a, b] \<Rightarrow> Itoa (stack_Count a) @ '' high, '' @ Itoa (stack_Count b) @ '' low''
      | [a, b, c] \<Rightarrow> Itoa (stack_Count a) @ '' high, '' @ Itoa (stack_Count b) @ '' medium, '' @ Itoa (stack_Count c) @ '' low''
      | _ \<Rightarrow> [])"

definition composeBRAA :: "units \<Rightarrow> BRAA \<Rightarrow> Declaration \<Rightarrow> NaturalLanguageResponse" where
  "composeBRAA u braa declaration =
     (let bearing = pronounceBearing (v_bearing braa);
          rng = nautical u (Range u braa);
          altitude = composeAltitudeStacks u (bra_stacks braa) declaration;
          resp = \<lparr>Subtitle = ''BRAA '' @ bearing_String (v_bearing braa) @ ''/'' @ rng @ '', '' @ altitude,
            Speech = ''bra '' @ bearing @ '', '' @ rng @ '', '' @ altitude\<rparr>;
          isAspectKnown = (braa_aspect braa \<noteq> UnknownAspect \<and> declaration \<notin> {Furball, Unable, Clean});
          aspect = '', '' @ aspect_string (braa_aspect braa)
      in if isAspectKnown then \<lparr>Subtitle = Subtitle resp @ aspect, Speech = Speech resp @ aspect\<rparr> else resp)"

definition composeBullseye :: "units \<Rightarrow> Bullseye \<Rightarrow> NaturalLanguageResponse" where
  "composeBullseye u bullseye =
     (let rng = Range u bullseye; bullseyeRadius = 5 * NauticalMile u
      in if rng \<le> bullseyeRadius then both ''at bullseye''
         else \<lparr>Subtitle = ''bullseye '' @ bearing_String (v_bearing bullseye) @ ''/'' @ nautical u rng,
               Speech = ''bullseye '' @ pronounceBearing (v_bearing bullseye) @ '', '' @ nautical u rng\<rparr>)"

section \<open>Groups\<close>

definition composeContacts :: "int \<Rightarrow> NaturalLanguageResponse" where
  "composeContacts n = both (if n > 1 then '', '' @ Itoa n @ '' contacts'' else [])"

definition composeDeclaration :: "group \<Rightarrow> NaturalLanguageResponse" where
  "composeDeclaration g =
     (let response = WriteBoth (declaration_string (g_declaration g)) emptyResponse;
          response = (if g_mergedWith g = 1 then WriteBoth '', merged with 1 friendly'' response else response)
      in if g_mergedWith g > 1 then WriteBoth ('', merged with '' @ Itoa (g_mergedWith g) @ '' friendlies'') response
         else response)"

definition composeFillIns :: "radar_lib \<Rightarrow> group \<Rightarrow> NaturalLanguageResponse" where
  "composeFillIns L g =
     (let u = lib_units L;
          isFurball = (g_declaration g = Furball);
          response = emptyResponse;
          response = (if isFurball then response
            else let response = (if g_Heavy g then WriteBoth '', heavy'' response else response);
                     response = WriteResponse (composeContacts (g_Contacts g)) response;
                     stacks = g_Stacks u g
                 in if \<not> g_High u g \<and> length stacks > 1 \<and> g_Contacts g > 2
                    then WriteBoth ('', '' @ composeAltitudeFillIns stacks) response else response);
          response = (if length (g_Platforms L g) > 0
            then WriteBoth (Join (g_Platforms L g) '', '') (WriteBoth '', '' response) else response)
      in if isFurball then response
         else let response = (if g_High u g then WriteBoth '', high'' response else response)
              in if g_Fast L g then WriteBoth '', fast'' response
                 else if g_VeryFast L g then WriteBoth '', very fast'' response
                 else response)"

definition composeGroup :: "radar_lib \<Rightarrow> group \<Rightarrow> NaturalLanguageResponse" where
  "composeGroup L g =
     (let u = lib_units L;
          label = (if g_isThreat g then ''Threat'' else ''Group'');
          stacks = g_Stacks u g;
          isTrackKnown = (g_Track L g \<noteq> UnknownDirection);
          track = track_string (g_Track L g);
          response = (case g_bullseye g of
              Some b \<Rightarrow>
                (let bullseye = composeBullseye u b;
                     altitude = composeAltitudeStacks u stacks (g_declaration g);
                     response = Write (label @ '' '' @ Speech bullseye @ '', '' @ altitude)
                       (label @ '' '' @ Subtitle bullseye @ '', '' @ altitude) emptyResponse
                 in if isTrackKnown then WriteBoth ('', track '' @ track) response else response)
            | None \<Rightarrow> (case g_braa g of
                Some b \<Rightarrow>
                  (let braa = composeBRAA u b (g_declaration g);
                       response = Write (label @ '' '' @ Speech braa) (label @ '' '' @ Subtitle braa) emptyResponse
                   in if IsCardinal (braa_aspect b) \<and> isTrackKnown then WriteBoth ('' '' @ track) response else response)
              | None \<Rightarrow> emptyResponse));
          response = WriteBoth '', '' response;
          response = WriteResponse (composeDeclaration g) response;
          response = WriteResponse (composeFillIns L g) response
      in WriteBoth ''.'' response)"

fun composeGroups :: "radar_lib \<Rightarrow> group list \<Rightarrow> NaturalLanguageResponse" where
  "composeGroups L [] = emptyResponse"
| "composeGroups L [g] = composeGroup L g"
| "composeGroups L (g # gs) =
     (let r = composeGroup L g; rest = composeGroups L gs
      in \<lparr>Subtitle = Subtitle r @ '' '' @ Subtitle rest, Speech = Speech r @ '' '' @ Speech rest\<rparr>)"

definition composeCoreInformationFormat :: "radar_lib \<Rightarrow> group list \<Rightarrow> NaturalLanguageResponse" where
  "composeCoreInformationFormat L gs =
     (if length gs = 0 then both (declaration_string Clean) else composeGroups L gs)"

text \<open>The answer to SPIKED and STROBE. \<open>requestType\<close> is the word for what was reported.\<close>

definition composeCorrelation ::
    "radar_lib \<Rightarrow> string \<Rightarrow> string \<Rightarrow> string \<Rightarrow> bool \<Rightarrow> Bearing option \<Rightarrow> group option \<Rightarrow> NaturalLanguageResponse option" where
  "composeCorrelation L own requestType callsign status bearing grp =
     (let callerCallsign = composeCallsigns [callsign]; u = lib_units L
      in if status
         then (case grp of
             None \<Rightarrow> None
           | Some g \<Rightarrow> (case g_braa g of
               None \<Rightarrow> None
             | Some braa \<Rightarrow>
                 (let nlr = WriteBoth callerCallsign emptyResponse;
                      nlr = WriteBoth ('', '' @ requestType @ '' range '' @ nautical u (Range u braa)) nlr;
                      nlr = WriteBoth '', '' nlr;
                      nlr = WriteBoth (composeAltitudeStacks u (g_Stacks u g) (g_declaration g)) nlr;
                      nlr = WriteBoth ('', '' @ aspect_string (braa_aspect braa)) nlr;
                      nlr = (if IsCardinal (braa_aspect braa) \<and> g_Track L g \<noteq> UnknownDirection
                             then WriteBoth ('' '' @ track_string (g_Track L g)) nlr else nlr);
                      nlr = WriteBoth '', '' nlr;
                      nlr = WriteResponse (composeDeclaration g) nlr;
                      fillIns = composeFillIns L g;
                      nlr = (if length (Subtitle fillIns) > 0 then WriteResponse fillIns nlr else nlr)
                  in Some (WriteBoth ''.'' nlr))))
         else case bearing of
             None \<Rightarrow> Some (WriteBoth (callerCallsign @ '', '' @ declaration_string Unable) emptyResponse)
           | Some b \<Rightarrow>
               (let controllerCallsign = composeCallsigns [own]
                in Some \<lparr>Subtitle = callerCallsign @ '', '' @ controllerCallsign @ '' clean '' @ Itoa (go_trunc (Degrees b)) @ ''.'',
                     Speech = callerCallsign @ '', '' @ controllerCallsign @ '', clean '' @ pronounceBearing b\<rparr>))"

section \<open>Calls\<close>

text \<open>The variants of the replies; a leading \<open>%s\<close> of the code is the caller's callsign, written in front.\<close>

definition variant_of :: "nat \<Rightarrow> string list \<Rightarrow> string" where
  "variant_of i xs = xs ! (i mod length xs)"

definition contact_suffixes :: "string list" where
  "contact_suffixes =
     [''Double check your callsign.'',
      ''Check your callsign.'',
      ''Verify your callsign.'',
      ''Confirm your callsign.'',
      ''Send it again for me.'',
      ''I might have misheard your callsign.'',
      ''Is that the right callsign?'',
      ''Possible I misheard the callsign.'',
      ''No contact with that callsign on scope.'',
      ''Can't find that callsign on scope.'',
      ''I don't see that callsign on scope.'',
      ''I don't have that callsign on scope.'',
      ''I do not have that callsign on scope.'']"

definition checkin_replies :: "string list" where
  "checkin_replies =
     ['', I'm not sure if you wanted a radio check or an alpha check. Or did you just want to say hi?'',
      '', I'm not sure if you wanted a radio check or an alpha check. Or are you trying to flirt? In that case, if you find me in the officer's club later, you can buy me an old fashioned.'',
      '', did you want a radio check or an alpha check? Or are you just trying to get my attention? In that case, I'm flattered.'',
      '', did you want a radio check or an alpha check? Or is this some kind of awkward attempt at asking for my number?'',
      '', were you wanting a radio check, an alpha check, or the dinner check? I'm not sure what you're asking for.'',
      '', were you wanting a radio check, an alpha check, or a sanity check?'',
      '', what kind of check did you want? A radio check, an alpha check, or a coat check?'',
      '', what kind of check did you want? A radio check, an alpha check, or a reality check?'',
      '', I can't tell if you wanted a radio check or an alpha check.'',
      '', did you want a radio check or an alpha check? Or maybe you were checking up on me? That's so sweet.'',
      '', did you want a radio check or an alpha check? Or are you just checking if I'm still here?'']"

definition radiocheck_replies :: "string list" where
  "radiocheck_replies =
     ['', 5 by 5.'',
      '', 5 by 5!'',
      '', I read you 5 by 5.'',
      '', I've got you 5 by 5.'',
      '', loud and clear.'',
      '', I read you loud and clear.'',
      '', I've got you loud and clear.'',
      '', Lima Charlie.'',
      '', Lima Charlie!'']"

definition radiocheck_replies1 :: "string list" where
  "radiocheck_replies1 =
     ['', I've got you 5 by 5'',
      '', I read you 5 by 5'',
      '', I've got you loud and clear'',
      '', I read you loud and clear'',
      '', I heard you'']"

definition radiocheck_replies2 :: "string list" where
  "radiocheck_replies2 =
     [''but I don't see you on the scope.'',
      ''but I don't see you on the radar.'',
      ''but I don't see you on the scope.'',
      ''but I don't see you on the radar.'',
      ''but you are not on the scope.'',
      ''but you are not on my radar.'']"

definition shopping_replies1 :: "string list" where
  "shopping_replies1 =
     ['', SHOPPING is a brevity code related to air-to-ground operations. It is not an air-to-air combat term.'',
      '', I'm an air battle manager, not a JTAC or Forward Air Controller. SHOPPING is an air-to-surface brevity code.'',
      '', if you flip to page 38 of MULTI-SERVICE TACTICS, TECHNIQUES, AND PROCEDURES FOR MULTI-SERVICE BREVITY CODES, you'll see SHOPPING is an air-to-surface brevity code used by JTACs and FACs.'',
      '', SHOPPING is something you'd request from a JTAC or FAC. It's specific to air-to-surface warfare.'',
      '', the brevity code SHOPPING means you're requesting a ground target. As an air battle manager, I'm not the right person to ask for that.'',
      '', why am I not surprised that you didn't read the manual? SHOPPING is a brevity code for air-to-surface warfare, not air-to-air combat.'']"

definition shopping_replies2 :: "string list" where
  "shopping_replies2 =
     [''You can ask for a BOGEY DOPE for information on the nearest air threat, or a PICTURE for a ranked list of the most immediate threats to your coalition.'',
      ''Instead, you can ask me for a BOGEY DOPE to get information on the nearest air threat, or a PICTURE for a ranked list of the most immediate threats to your coalition.'',
      ''What I can help you with is a BOGEY DOPE for information on the nearest air threat, or a PICTURE for a ranked list of the most immediate threats to your coalition.'',
      ''Instead of SHOPPING, you can ask for a BOGEY DOPE for information on the nearest air threat, or a PICTURE for a ranking of the most immediate threats to your coalition.'']"

definition sayagain_known :: "string list" where
  "sayagain_known =
     ['', sorry, I didn't understand. Say again.'',
      '', I didn't catch that. Say again.'',
      '', I didn't understand. Say again.'',
      '', say again.'',
      '', I didn't get that. Say again.'',
      '', I only got the first part of that. Say again.'']"

definition sayagain_unknown :: "string list" where
  "sayagain_unknown =
     [''I heard my callsign, but I did not understand the request. Say again.'',
      ''I heard someone call me, but I didn't understand what they said. Say again.'',
      ''I only got the first part of that. Say again.'',
      ''Sorry, I only caught part of that. Say again.'']"

definition ComposeAlphaCheckResponse :: "units \<Rightarrow> string \<Rightarrow> string \<Rightarrow> bool \<Rightarrow> Bullseye option \<Rightarrow> NaturalLanguageResponse option" where
  "ComposeAlphaCheckResponse u own callsign status location =
     (if status
      then (case location of
          None \<Rightarrow> None
        | Some l \<Rightarrow>
            (let callerCallsign = composeCallsigns [callsign]; controllerCallsign = composeCallsigns [own];
                 start = callerCallsign @ '', '' @ controllerCallsign @ '', contact, alpha check bullseye ''
             in Some \<lparr>Subtitle = start @ bearing_String (v_bearing l) @ ''/'' @ nautical u (Range u l),
                  Speech = start @ pronounceBearing (v_bearing l) @ '', '' @ nautical u (Range u l)\<rparr>))
      else Some (both (composeCallsigns [callsign] @ '', negative contact.'')))"

definition ComposeBogeyDopeResponse :: "radar_lib \<Rightarrow> string \<Rightarrow> group option \<Rightarrow> NaturalLanguageResponse option" where
  "ComposeBogeyDopeResponse L callsign grp =
     (case grp of
        None \<Rightarrow> Some (both (composeCallsigns [callsign] @ '', '' @ declaration_string Clean))
      | Some g \<Rightarrow>
          if g_braa g = None then None
          else let info = composeCoreInformationFormat L [g]
               in Some \<lparr>Subtitle = composeCallsigns [callsign] @ '', '' @ lowerFirst (Subtitle info),
                    Speech = composeCallsigns [callsign] @ '', '' @ Speech info\<rparr>)"

definition ComposeCheckInResponse :: "nat \<Rightarrow> string \<Rightarrow> NaturalLanguageResponse" where
  "ComposeCheckInResponse i callsign = both (composeCallsigns [callsign] @ variant_of i checkin_replies)"

definition ComposeDeclareResponse :: "radar_lib \<Rightarrow> DeclareReport \<Rightarrow> NaturalLanguageResponse option" where
  "ComposeDeclareResponse L response =
     (let reply = WriteBoth (composeCallsigns [report_Callsign response] @ '', '') emptyResponse
      in if report_Sour response
         then Some (WriteBoth ''unable, timber sour. Repeat your request with bullseye or BRAA position included.'' reply)
         else if report_Declaration response \<in> {Furball, Unable, Clean}
         then let reply = (case report_Readback response of
                    None \<Rightarrow> reply
                  | Some b \<Rightarrow> WriteBoth '','' (WriteResponse (composeBullseye (lib_units L) b) reply));
                  reply = WriteBoth '' '' reply
              in (case (report_Declaration response, report_Group response) of
                    (Furball, Some g) \<Rightarrow>
                      (let reply = WriteResponse (composeDeclaration g) reply; fillIns = composeFillIns L g
                       in Some (if Subtitle fillIns \<noteq> [] then WriteResponse fillIns reply else reply))
                  | (declaration, _) \<Rightarrow> Some (WriteBoth (declaration_string declaration) reply))
         else case report_Group response of
             None \<Rightarrow> None
           | Some g \<Rightarrow>
               (let info = composeCoreInformationFormat L [g]
                in Some (WriteResponse (info\<lparr>Subtitle := lowerFirst (Subtitle info)\<rparr>) reply)))"

definition ComposeFadedCall :: "radar_lib \<Rightarrow> string \<Rightarrow> group \<Rightarrow> NaturalLanguageResponse" where
  "ComposeFadedCall L own g =
     (let response = WriteBoth (composeCallsigns [own] @ '', '') emptyResponse;
          response = (if g_Contacts g = 1 then WriteBoth ''single contact faded,'' response
            else WriteBoth (Itoa (g_Contacts g) @ '' contacts faded,'') response);
          response = (case g_bullseye g of None \<Rightarrow> response
            | Some b \<Rightarrow> WriteResponse (composeBullseye (lib_units L) b) response);
          response = (if g_Track L g \<noteq> UnknownDirection
            then WriteBoth ('', track '' @ track_string (g_Track L g)) response else response);
          response = (if g_declaration g \<noteq> Unable
            then WriteBoth ('', '' @ declaration_string (g_declaration g)) response else response);
          response = fold (\<lambda>platform. WriteBoth ('', '' @ platform)) (g_Platforms L g) response
      in WriteBoth ''.'' response)"

definition ComposeMergedCall :: "string list \<Rightarrow> NaturalLanguageResponse" where
  "ComposeMergedCall callsigns = both (composeCallsigns callsigns @ '', merged.'')"

definition ComposeNegativeRadarContactResponse :: "nat \<Rightarrow> string \<Rightarrow> NaturalLanguageResponse" where
  "ComposeNegativeRadarContactResponse i callsign =
     both (composeCallsigns [callsign] @ '', negative radar contact. '' @ variant_of i contact_suffixes)"

definition ComposePictureResponse :: "radar_lib \<Rightarrow> string \<Rightarrow> int \<Rightarrow> group list \<Rightarrow> NaturalLanguageResponse" where
  "ComposePictureResponse L own n groups =
     (let info = composeCoreInformationFormat L groups;
          controllerCallsign = composeCallsigns [own]
      in if n = 0
         then \<lparr>Subtitle = controllerCallsign @ '', '' @ declaration_string Clean @ ''.'',
               Speech = controllerCallsign @ '', '' @ declaration_string Clean\<rparr>
         else let groupCountFillIn = (if n > 1 then Itoa n @ '' groups.'' else ''single group.'')
              in \<lparr>Subtitle = controllerCallsign @ '', '' @ groupCountFillIn @ '' '' @ TrimSpace (Subtitle info),
                  Speech = controllerCallsign @ '', '' @ groupCountFillIn @ '' '' @ TrimSpace (Speech info)\<rparr>)"

definition ComposeRadioCheckResponse :: "nat \<Rightarrow> nat \<Rightarrow> string \<Rightarrow> bool \<Rightarrow> NaturalLanguageResponse" where
  "ComposeRadioCheckResponse i j callsign radarContact =
     both (composeCallsigns [callsign] @
       (if radarContact then variant_of i radiocheck_replies
        else variant_of i radiocheck_replies1 @ '', '' @ variant_of j radiocheck_replies2))"

definition ComposeShoppingResponse :: "nat \<Rightarrow> nat \<Rightarrow> string \<Rightarrow> NaturalLanguageResponse" where
  "ComposeShoppingResponse i j callsign =
     both (composeCallsigns [callsign] @ variant_of i shopping_replies1 @ '' '' @ variant_of j shopping_replies2)"

definition ComposeSnaplockResponse :: "radar_lib \<Rightarrow> string \<Rightarrow> Declaration \<Rightarrow> group option \<Rightarrow> NaturalLanguageResponse option" where
  "ComposeSnaplockResponse L callsign declaration grp =
     (let callerCallsign = composeCallsigns [callsign]
      in if declaration = Hostile \<or> declaration = Friendly
         then (case grp of
             None \<Rightarrow> None
           | Some g \<Rightarrow>
               (let info = composeCoreInformationFormat L [g]
                in Some \<lparr>Subtitle = callerCallsign @ '', '' @ Subtitle info, Speech = callerCallsign @ '', '' @ Speech info\<rparr>))
         else Some (both (callerCallsign @ '', '' @ declaration_string declaration)))"

definition ComposeSpikedResponse ::
    "radar_lib \<Rightarrow> string \<Rightarrow> string \<Rightarrow> Bearing option \<Rightarrow> bool \<Rightarrow> group option \<Rightarrow> NaturalLanguageResponse option" where
  "ComposeSpikedResponse L own callsign bearing status grp = composeCorrelation L own ''spike'' callsign status bearing grp"

definition ComposeStrobeResponse ::
    "radar_lib \<Rightarrow> string \<Rightarrow> string \<Rightarrow> Bearing option \<Rightarrow> bool \<Rightarrow> group option \<Rightarrow> NaturalLanguageResponse option" where
  "ComposeStrobeResponse L own callsign bearing status grp = composeCorrelation L own ''strobe'' callsign status bearing grp"

definition ComposeThreatCall :: "radar_lib \<Rightarrow> string list \<Rightarrow> group \<Rightarrow> NaturalLanguageResponse" where
  "ComposeThreatCall L callsigns g =
     (let grp = composeGroup L g; callsignList = composeCallsigns callsigns
      in \<lparr>Subtitle = callsignList @ '', '' @ lowerFirst (Subtitle grp), Speech = callsignList @ '', '' @ Speech grp\<rparr>)"

definition ComposeTripwireResponse :: "string \<Rightarrow> NaturalLanguageResponse" where
  "ComposeTripwireResponse callsign =
     both (composeCallsigns [callsign] @
       '', I'm not OverlordBot. Tripwires are not real brevity per the MULTI-SERVICE TACTICS TECHNIQUES AND PROCEDURES for Air Control Communication. If your name is set correctly in-game and in SRS, I'll automatically monitor you on the radar and provide threat warnings. You can also send requests such as picture, bogey dope, snaplock, spiked, declare and alpha check.'')"

definition ComposeSayAgainResponse :: "nat \<Rightarrow> string \<Rightarrow> NaturalLanguageResponse" where
  "ComposeSayAgainResponse i callsign =
     both (if callsign \<noteq> [] then composeCallsigns [callsign] @ variant_of i sayagain_known else variant_of i sayagain_unknown)"

text \<open>The frequency as decimal number: three places, without trailing zeros but at least one place.\<close>

definition frequency_decimal :: "real \<Rightarrow> string" where
  "frequency_decimal mhz =
     (let decimal = rev (dropWhile (\<lambda>c. c = CHR ''0'') (rev (format_fixed 3 mhz)))
      in if HasSuffix decimal ''.'' then decimal @ ''0'' else decimal)"

definition Megahertz :: "real \<Rightarrow> real" where
  "Megahertz f = f / 1000000"

fun sunrise_frequencies :: "real list \<Rightarrow> NaturalLanguageResponse \<Rightarrow> NaturalLanguageResponse option" where
  "sunrise_frequencies [] message = Some message"
| "sunrise_frequencies (f # fs) message =
     (let decimal = frequency_decimal (Megahertz f);
          splits = Split decimal ''.''
      in if length splits < 2 then None
         else case pronounceDecimal (Megahertz f) (length (splits ! 1)) ''point'' of
             None \<Rightarrow> None
           | Some spoken \<Rightarrow>
               (let message = \<lparr>Subtitle = Subtitle message @ decimal, Speech = Speech message @ spoken\<rparr>;
                    message = (if length fs = 1 then WriteBoth '' and '' message
                      else if length fs > 1 then WriteBoth '', '' message else message)
                in sunrise_frequencies fs message))"

definition ComposeSunriseCall :: "string \<Rightarrow> real list \<Rightarrow> NaturalLanguageResponse option" where
  "ComposeSunriseCall own frequencies =
     sunrise_frequencies frequencies
       \<lparr>Subtitle = ''All players: GCI '' @ composeCallsigns [own] @ '' (bot) sunrise on '',
        Speech = ''All players, GCI '' @ composeCallsigns [own] @ '' sunrise on ''\<rparr>"

definition composeTankerVectorResponse :: "units \<Rightarrow> VectorReport \<Rightarrow> BRA \<Rightarrow> NaturalLanguageResponse" where
  "composeTankerVectorResponse u response bra =
     (let callsign = composeCallsigns [vector_Callsign response];
          rng = nautical u (Range u bra);
          altitude = composeAltitudeStacks u (bra_stacks bra) Friendly;
          start = callsign @ '', nearest tanker, '' @ vector_Location response;
          resp = \<lparr>Subtitle = start @ '', BRA '' @ bearing_String (v_bearing bra) @ ''/'' @ rng @ '', '' @ altitude,
            Speech = start @ '', bra '' @ pronounceBearing (v_bearing bra) @ '', '' @ rng @ '', '' @ altitude\<rparr>;
          track = '', track '' @ track_string (vector_Track response)
      in if vector_Track response \<noteq> UnknownDirection
         then \<lparr>Subtitle = Subtitle resp @ track, Speech = Speech resp @ track\<rparr> else resp)"

definition ComposeVectorResponse :: "units \<Rightarrow> VectorReport \<Rightarrow> NaturalLanguageResponse option" where
  "ComposeVectorResponse u response =
     (let callsign = composeCallsigns [vector_Callsign response]
      in if \<not> vector_Contact response then Some (both (callsign @ '', negative contact''))
         else if \<not> vector_Status response
         then (if vector_Location response = LocationTanker then Some (both (callsign @ '', no compatible tankers available''))
               else Some (both (callsign @ '', unable to provide vector to '' @ vector_Location response)))
         else case vector_BRA response of
             Some bra \<Rightarrow> Some (composeTankerVectorResponse u response bra)
           | None \<Rightarrow> (case vector_Vector response of
               None \<Rightarrow> None
             | Some v \<Rightarrow>
                 (let start = callsign @ '', vector to '' @ vector_Location response @ '', ''
                  in Some \<lparr>Subtitle = start @ bearing_String (v_bearing v) @ ''/'' @ nautical u (Range u v),
                       Speech = start @ pronounceBearing (v_bearing v) @ '', '' @ nautical u (Range u v)\<rparr>)))"

section \<open>Any call\<close>

text \<open>\<open>composeCall\<close> of \<open>internal/application/compose.go\<close>: every call has its composition.\<close>

fun composeCall :: "radar_lib \<Rightarrow> string \<Rightarrow> nat \<Rightarrow> nat \<Rightarrow> Call \<Rightarrow> NaturalLanguageResponse option" where
  "composeCall L own i j (AlphaCheckResponse callsign status location) = ComposeAlphaCheckResponse (lib_units L) own callsign status location"
| "composeCall L own i j (BogeyDopeResponse callsign g) = ComposeBogeyDopeResponse L callsign g"
| "composeCall L own i j (CheckInResponse callsign) = Some (ComposeCheckInResponse i callsign)"
| "composeCall L own i j (DeclareResponse report) = ComposeDeclareResponse L report"
| "composeCall L own i j (FadedCall g) = Some (ComposeFadedCall L own g)"
| "composeCall L own i j (NegativeRadarContactResponse callsign) = Some (ComposeNegativeRadarContactResponse i callsign)"
| "composeCall L own i j (PictureResponse n groups) = Some (ComposePictureResponse L own n groups)"
| "composeCall L own i j (RadioCheckResponse callsign contact) = Some (ComposeRadioCheckResponse i j callsign contact)"
| "composeCall L own i j (ShoppingResponse callsign) = Some (ComposeShoppingResponse i j callsign)"
| "composeCall L own i j (SnaplockResponse callsign declaration g) = ComposeSnaplockResponse L callsign declaration g"
| "composeCall L own i j (SpikedResponseV2 callsign bearing status g) = ComposeSpikedResponse L own callsign bearing status g"
| "composeCall L own i j (StrobeResponse callsign bearing status g) = ComposeStrobeResponse L own callsign bearing status g"
| "composeCall L own i j (TripwireResponse callsign) = Some (ComposeTripwireResponse callsign)"
| "composeCall L own i j (VectorResponse report) = ComposeVectorResponse (lib_units L) report"
| "composeCall L own i j (SunriseCall frequencies) = ComposeSunriseCall own frequencies"
| "composeCall L own i j (ThreatCall callsigns g) = Some (ComposeThreatCall L callsigns g)"
| "composeCall L own i j (MergedCall callsigns) = Some (ComposeMergedCall callsigns)"
| "composeCall L own i j (SayAgainResponse callsign) = Some (ComposeSayAgainResponse i callsign)"

end
