(* ===== verification/Replacements.thy ===== *)
theory Replacements
  imports GoStrings "HOL-Library.Multiset"
begin

text \<open>
  The table of misheard request words (\<open>pkg/parser/replacements.go\<close>), in the order of the
  source, and the request words of \<open>pkg/parser/parser.go\<close> it refers to.
\<close>

section \<open>Request words\<close>

definition alphaCheck :: string where "alphaCheck = ''alpha''"
definition bogeyDope :: string where "bogeyDope = ''bogey''"
definition checkIn :: string where "checkIn = ''check in''"
definition declare_word :: string where "declare_word = ''declare''"
definition picture :: string where "picture = ''picture''"
definition radioCheck :: string where "radioCheck = ''radio''"
definition shopping :: string where "shopping = ''shopping''"
definition snaplock :: string where "snaplock = ''snaplock''"
definition spiked :: string where "spiked = ''spiked''"
definition strobe :: string where "strobe = ''strobe''"
definition tripwire :: string where "tripwire = ''tripwire''"
definition vector_word :: string where "vector_word = ''vector''"

lemmas request_word_defs = alphaCheck_def bogeyDope_def checkIn_def declare_word_def picture_def
  radioCheck_def shopping_def snaplock_def spiked_def strobe_def tripwire_def vector_word_def

definition requestWords :: "string list" where
  "requestWords = [radioCheck, alphaCheck, bogeyDope, declare_word, picture, spiked, strobe, snaplock,
     tripwire, shopping, vector_word]"

section \<open>The table\<close>

definition replacementLUT_1 :: "(string \<times> string) list" where
  "replacementLUT_1 = [
    (''alphacheck'', alphaCheck), (''alphachek'', alphaCheck), (''alphajack'', alphaCheck),
    (''alphajuck'', alphaCheck), (''arfa check'', alphaCheck), (''arfachek'', alphaCheck),
    (''arfatcheck'', alphaCheck), (''baggy dope'', bogeyDope), (''baguette out'', bogeyDope),
    (''bakito'', bogeyDope), (''begged out'', bogeyDope), (''beggido'', bogeyDope),
    (''beggie do'', bogeyDope), (''begito'', bogeyDope), (''bergido'', bogeyDope),
    (''berkado'', bogeyDope), (''bloggedoop'', bogeyDope), (''bo g'', bogeyDope),
    (''bo i doke'', bogeyDope), (''bo ki dope'', bogeyDope), (''bo kido'', bogeyDope),
    (''boado'', bogeyDope), (''boat be dope'', bogeyDope), (''bobbiedope'', bogeyDope),
    (''bobbitoop'', bogeyDope), (''bobby do'', bogeyDope), (''bobby doke'', bogeyDope),
    (''bobby dope'', bogeyDope), (''bobbydo'', bogeyDope), (''bobi dop'', bogeyDope),
    (''bobi dubba'', bogeyDope), (''bobido'', bogeyDope), (''bobie'', bogeyDope),
    (''bobito'', bogeyDope), (''boby do'', bogeyDope), (''boby dope'', bogeyDope),
    (''bobydo'', bogeyDope), (''bochy do'', bogeyDope), (''bochy'', bogeyDope),
    (''bodhi'', bogeyDope), (''bodidoda'', bogeyDope), (''bodydope'', bogeyDope),
    (''boedo'', bogeyDope), (''bog it'', bogeyDope), (''bogado'', bogeyDope),
    (''bogan doe'', bogeyDope), (''bogd'', bogeyDope), (''bogdoge'', bogeyDope),
    (''bogdope'', bogeyDope), (''boged'', bogeyDope), (''bogeder'', bogeyDope),
    (''bogedop'', bogeyDope), (''bogeeta'', bogeyDope), (''bogeido'', bogeyDope),
    (''bogeied'', bogeyDope), (''bogeito'', bogeyDope), (''bogey-doke'', bogeyDope),
    (''bogeydoke'', bogeyDope), (''bogeydome'', bogeyDope), (''bogeydope'', bogeyDope),
    (''bogeydote'', bogeyDope), (''bogeydough'', bogeyDope), (''bogeydove'', bogeyDope),
    (''bogeyedope'', bogeyDope), (''bogeynope'', bogeyDope), (''bogga'', bogeyDope),
    (''bogge'', bogeyDope), (''boggeto'', bogeyDope), (''boggid'', bogeyDope),
    (''boggido'', bogeyDope), (''boggie'', bogeyDope), (''bogginop'', bogeyDope),
    (''boggit'', bogeyDope), (''boggy'', bogeyDope), (''boghi'', bogeyDope),
    (''bogi'', bogeyDope), (''bogido'', bogeyDope), (''bogidope'', bogeyDope),
    (''bogie'', bogeyDope), (''bogit'', bogeyDope), (''boglope'', bogeyDope),
    (''bogo d'', bogeyDope), (''bogod'', bogeyDope), (''bogota'', bogeyDope),
    (''bogotov'', bogeyDope), (''bogu'', bogeyDope), (''bogudo'', bogeyDope),
    (''bogue'', bogeyDope), (''bogueed'', bogeyDope), (''bogueto'', bogeyDope),
    (''boguetto'', bogeyDope), (''boguido'', bogeyDope), (''boguie'', bogeyDope),
    (''bogy'', bogeyDope), (''bohi'', bogeyDope), (''bohy'', bogeyDope), (''boid op'', bogeyDope),
    (''boido'', bogeyDope), (''boj do'', bogeyDope), (''bojedo'', bogeyDope),
    (''boji'', bogeyDope), (''bojudo'', bogeyDope), (''bojy'', bogeyDope),
    (''boke it up'', bogeyDope), (''boke it'', bogeyDope), (''bokeh'', bogeyDope),
    (''bokeido'', bogeyDope), (''bokey'', bogeyDope), (''bokeydope'', bogeyDope),
    (''boki'', bogeyDope), (''boky'', bogeyDope), (''bollgy'', bogeyDope),
    (''bologito'', bogeyDope), (''boly dop'', bogeyDope), (''bombdo'', bogeyDope),
    (''booby doo'', bogeyDope), (''booby dop'', bogeyDope), (''boobydope'', bogeyDope),
    (''boog it'', bogeyDope), (''boogado'', bogeyDope), (''boogalup'', bogeyDope)]"

definition replacementLUT_2 :: "(string \<times> string) list" where
  "replacementLUT_2 = [
    (''boogdopy'', bogeyDope), (''booged'', bogeyDope), (''boogido'', bogeyDope),
    (''boogie'', bogeyDope), (''boogiedope'', bogeyDope), (''boogiedote'', bogeyDope),
    (''boogit up'', bogeyDope), (''boogit'', bogeyDope), (''boogito'', bogeyDope),
    (''boogitope'', bogeyDope), (''boogitup'', bogeyDope), (''boogity'', bogeyDope),
    (''boogy'', bogeyDope), (''book it out'', bogeyDope), (''book it up'', bogeyDope),
    (''booy dope'', bogeyDope), (''bop do'', bogeyDope), (''boqido'', bogeyDope),
    (''boti'', bogeyDope), (''bougie dough'', bogeyDope), (''bougie'', bogeyDope),
    (''bovido'', bogeyDope), (''bovito'', bogeyDope), (''bow it up'', bogeyDope),
    (''bowido'', bogeyDope), (''bowie dope'', bogeyDope), (''boy do'', bogeyDope),
    (''boy dope'', bogeyDope), (''boyadop'', bogeyDope), (''boyido'', bogeyDope),
    (''brogitup'', bogeyDope), (''broke it up'', bogeyDope), (''bubby do'', bogeyDope),
    (''bubby dope'', bogeyDope), (''bubbydo'', bogeyDope), (''buck it'', bogeyDope),
    (''buckd'', bogeyDope), (''bucket up'', bogeyDope), (''bucky do'', bogeyDope),
    (''bucky dope'', bogeyDope), (''budgie'', bogeyDope), (''bug a dope'', bogeyDope),
    (''bug do'', bogeyDope), (''bug it out'', bogeyDope), (''bug it'', bogeyDope),
    (''bugado'', bogeyDope), (''bugadobe'', bogeyDope), (''bugadoop'', bogeyDope),
    (''bugadope'', bogeyDope), (''bugd'', bogeyDope), (''bugga'', bogeyDope),
    (''bugged d'', bogeyDope), (''bugged o'', bogeyDope), (''bugged u'', bogeyDope),
    (''bugged up'', bogeyDope), (''buggedup'', bogeyDope), (''bugger dope'', bogeyDope),
    (''bugget'', bogeyDope), (''buggetoo'', bogeyDope), (''buggetto'', bogeyDope),
    (''buggettope'', bogeyDope), (''buggido'', bogeyDope), (''buggidop'', bogeyDope),
    (''buggie'', bogeyDope), (''buggit'', bogeyDope), (''buggy'', bogeyDope),
    (''buggydoke'', bogeyDope), (''buggydope'', bogeyDope), (''bugi'', bogeyDope),
    (''bugido'', bogeyDope), (''bugidup'', bogeyDope), (''bugidy'', bogeyDope),
    (''bugie'', bogeyDope), (''bugit'', bogeyDope), (''bugito'', bogeyDope),
    (''buke it up'', bogeyDope), (''bulgie'', bogeyDope), (''burgy'', bogeyDope),
    (''buvido'', bogeyDope), (''buvidu'', bogeyDope), (''buzzy'', bogeyDope),
    (''by vito'', bogeyDope), (''checkin in'', checkIn), (''checking in'', checkIn),
    (''chicken'', checkIn), (''com check'', radioCheck), (''comchack'', radioCheck),
    (''comcheck'', radioCheck), (''come check'', radioCheck), (''comes check'', radioCheck),
    (''comm'', radioCheck), (''comms'', radioCheck), (''commscheck'', radioCheck),
    (''commshack'', radioCheck), (''comp check'', radioCheck), (''comps check'', radioCheck),
    (''coms'', radioCheck), (''comsjack'', radioCheck), (''cons check'', radioCheck),
    (''declared'', declare_word), (''dody dot'', bogeyDope), (''doggy dope'', bogeyDope),
    (''dogito'', bogeyDope), (''dravia check'', radioCheck), (''fog it up'', bogeyDope),
    (''fogey'', bogeyDope), (''fogeyed'', bogeyDope), (''foggy'', bogeyDope),
    (''foggydope'', bogeyDope), (''fogido'', bogeyDope), (''fogy dope'', bogeyDope),
    (''fogy'', bogeyDope), (''for your dope'', bogeyDope), (''go be dope'', bogeyDope),
    (''go geeto'', bogeyDope), (''gogido'', bogeyDope), (''gogito'', bogeyDope),
    (''hogidop'', bogeyDope), (''how copy'', radioCheck), (''log it up'', bogeyDope),
    (''lucky dope'', bogeyDope)]"

definition replacementLUT_3 :: "(string \<times> string) list" where
  "replacementLUT_3 = [
    (''mic check'', radioCheck), (''microphone check'', radioCheck), (''mike check'', radioCheck),
    (''mo ki dope'', bogeyDope), (''mogi do'', bogeyDope), (''mogito'', bogeyDope),
    (''moji'', bogeyDope), (''obey dope'', bogeyDope), (''odi'', bogeyDope),
    (''ody do'', bogeyDope), (''og da'', bogeyDope), (''og do'', bogeyDope),
    (''og dope'', bogeyDope), (''ogedo'', bogeyDope), (''ogeeta'', bogeyDope),
    (''ogeydo'', bogeyDope), (''oggy do'', bogeyDope), (''oghi'', bogeyDope),
    (''ogi do'', bogeyDope), (''ogi doke'', bogeyDope), (''ogi dop'', bogeyDope),
    (''ogi dope'', bogeyDope), (''ogidope'', bogeyDope), (''ogie'', bogeyDope),
    (''ogiido'', bogeyDope), (''ogiito'', bogeyDope), (''ogydo'', bogeyDope),
    (''oido'', bogeyDope), (''okdug'', bogeyDope), (''okey'', bogeyDope),
    (''oki dope'', bogeyDope), (''omidok'', bogeyDope), (''oogie'', bogeyDope),
    (''ovi dope'', bogeyDope), (''ovido'', bogeyDope), (''pegi dope'', bogeyDope),
    (''perimeter'', tripwire), (''poby dope'', bogeyDope), (''pogado'', bogeyDope),
    (''pogadope'', bogeyDope), (''pogdedo'', bogeyDope), (''pogeddope'', bogeyDope),
    (''pogedo'', bogeyDope), (''poget'', bogeyDope), (''pogeto'', bogeyDope),
    (''pogey'', bogeyDope), (''poggit'', bogeyDope), (''poggy dope'', bogeyDope),
    (''poggy'', bogeyDope), (''poggybo'', bogeyDope), (''pogido'', bogeyDope),
    (''pogidop'', bogeyDope), (''pogidu'', bogeyDope), (''pogito'', bogeyDope),
    (''pogy'', bogeyDope), (''poke it open'', bogeyDope), (''poke it up'', bogeyDope),
    (''pokedo'', bogeyDope), (''pokedome'', bogeyDope), (''poketo'', bogeyDope),
    (''poketop'', bogeyDope), (''pokido'', bogeyDope), (''povey'', bogeyDope),
    (''pubg dope'', bogeyDope), (''pugg it up'', bogeyDope), (''puggido'', bogeyDope),
    (''puggy dope'', bogeyDope), (''pugi dope'', bogeyDope), (''pugito'', bogeyDope),
    (''pugy dope'', bogeyDope), (''pukido'', bogeyDope), (''radiocheck'', radioCheck),
    (''radiochick'', radioCheck), (''radiotric'', radioCheck), (''read a check'', radioCheck),
    (''read it check'', radioCheck), (''sent warning'', tripwire),
    (''set threat radius'', tripwire), (''set threat range'', tripwire),
    (''set warning radius'', tripwire), (''set warning range'', tripwire),
    (''set warning'', tripwire), (''settrip'', tripwire), (''snap lock'', snaplock),
    (''spite'', spiked), (''spokie'', bogeyDope), (''tokyo dope'', bogeyDope),
    (''trip bar'', tripwire), (''trip wire'', tripwire), (''vaughi'', bogeyDope),
    (''vegado'', bogeyDope), (''vog it up'', bogeyDope), (''vogadope'', bogeyDope),
    (''voged hope'', bogeyDope), (''vogedope'', bogeyDope), (''vogee'', bogeyDope),
    (''vogeto'', bogeyDope), (''vogidobe'', bogeyDope), (''vogie doe'', bogeyDope),
    (''vogie'', bogeyDope), (''vogito'', bogeyDope), (''voguadove'', bogeyDope),
    (''vogue it up'', bogeyDope), (''vogue'', bogeyDope), (''voguy'', bogeyDope),
    (''voji'', bogeyDope), (''voki'', bogeyDope), (''votigo'', bogeyDope),
    (''wajidoke'', bogeyDope), (''warn me'', tripwire), (''wiggidope'', bogeyDope),
    (''woged up'', bogeyDope), (''wogidoke'', bogeyDope), (''wogit up'', bogeyDope),
    (''wogitop'', bogeyDope), (''wogitup'', bogeyDope), (''wogue it up'', bogeyDope),
    (''wokado'', bogeyDope), (''wookitup'', bogeyDope), (''wugito'', bogeyDope)]"

definition replacementLUT :: "(string \<times> string) list" where
  "replacementLUT = replacementLUT_1 @ replacementLUT_2 @ replacementLUT_3"

text \<open>
  \<open>init\<close> appends the entries in the random order of map iteration and sorts them with the
  longer originals first; the sort is not stable, so any such arrangement can result.
\<close>

definition is_replacements :: "(string \<times> string) list \<Rightarrow> bool" where
  "is_replacements rs \<longleftrightarrow> mset rs = mset replacementLUT \<and>
     sorted_wrt (\<lambda>a b. length (fst b) \<le> length (fst a)) rs"

definition replacements :: "(string \<times> string) list" where
  "replacements = sort_key (\<lambda>r. - int (length (fst r))) replacementLUT"

definition apply_replacements :: "(string \<times> string) list \<Rightarrow> string \<Rightarrow> string" where
  "apply_replacements rs tx = fold (\<lambda>r tx. ReplaceAll tx (fst r) (snd r)) rs tx"

lemmas LUT_defs = replacementLUT_def replacementLUT_1_def replacementLUT_2_def replacementLUT_3_def

lemma replacements_ok: "is_replacements replacements"
proof -
  have "sorted (map (\<lambda>r. - int (length (fst r))) replacements)"
    unfolding replacements_def by (rule sorted_sort_key)
  then show ?thesis
    by (simp add: is_replacements_def replacements_def sorted_map)
qed

text \<open>A longer original never comes after a shorter one, whatever the arrangement.\<close>

lemma longer_first:
  assumes "is_replacements rs" "i < j" "j < length rs"
  shows "length (fst (rs ! j)) \<le> length (fst (rs ! i))"
  using assms by (auto simp: is_replacements_def sorted_wrt_iff_nth_less)

end
