(* ===== verification/TokenStream.thy ===== *)
theory TokenStream
  imports GoStrings
begin

text \<open>
  The token stream of the parser (\<open>internal/parser/token/stream.go\<close>): the words of the text,
  a position, and the unread rest of a word that was consumed in part.
\<close>

section \<open>The contract of a cursor\<close>

text \<open>
  What the parsing functions need of the stream: advancing when not at the end makes
  progress, so loops over it end; the invariant survives every operation.
\<close>

locale cursor =
  fixes at_end :: "'s \<Rightarrow> bool" and cur_text :: "'s \<Rightarrow> string" and advance :: "'s \<Rightarrow> 's"
    and inv :: "'s \<Rightarrow> bool" and left :: "'s \<Rightarrow> nat"
  assumes advance_left: "inv s \<Longrightarrow> \<not> at_end s \<Longrightarrow> left (advance s) < left s"
    and advance_le: "inv s \<Longrightarrow> left (advance s) \<le> left s"
    and advance_inv: "inv s \<Longrightarrow> inv (advance s)"
    and end_text: "inv s \<Longrightarrow> at_end s \<Longrightarrow> cur_text s = []"
    and left_end: "inv s \<Longrightarrow> left s = 0 \<Longrightarrow> at_end s"
begin

lemma advances_inv: "inv s \<Longrightarrow> inv ((advance ^^ n) s)"
  by (induction n) (simp_all add: advance_inv)

lemma advances_left: "inv s \<Longrightarrow> left ((advance ^^ n) s) \<le> left s"
proof (induction n)
  case (Suc n)
  then show ?case using advance_le [OF advances_inv [OF Suc.prems, of n]] by simp
qed simp

text \<open>Advancing as often as the measure says reaches the end.\<close>

lemma advance_to_end: "inv s \<Longrightarrow> \<exists>n \<le> left s. at_end ((advance ^^ n) s)"
proof (induction "left s" arbitrary: s rule: less_induct)
  case less
  show ?case
  proof (cases "at_end s")
    case True
    then show ?thesis by (intro exI [of _ 0]) simp
  next
    case False
    then have lt: "left (advance s) < left s" using advance_left less.prems by blast
    obtain n where n: "n \<le> left (advance s)" "at_end ((advance ^^ n) (advance s))"
      using less.hyps [OF lt advance_inv [OF less.prems]] by blast
    have "(advance ^^ Suc n) s = (advance ^^ n) (advance s)" by (simp only: funpow_Suc_right o_apply)
    then show ?thesis using n lt by (intro exI [of _ "Suc n"]) simp
  qed
qed

end

section \<open>The stream\<close>

record Token =
  Text :: string
  token_Position :: nat

record Stream =
  tokens :: "Token list"
  pos :: nat
  partialToken :: string

definition New :: "string \<Rightarrow> Stream" where
  "New normalizedText =
     \<lparr>tokens = map (\<lambda>(i, f). \<lparr>Text = f, token_Position = i\<rparr>) (enumerate 0 (Fields normalizedText)),
      pos = 0, partialToken = []\<rparr>"

definition Current :: "Stream \<Rightarrow> Token option" where
  "Current s =
     (if partialToken s \<noteq> [] then Some \<lparr>Text = partialToken s, token_Position = pos s\<rparr>
      else if pos s \<ge> length (tokens s) then None
      else Some (tokens s ! pos s))"

definition Peek :: "Stream \<Rightarrow> int \<Rightarrow> Token option" where
  "Peek s offset =
     (let idx = int (pos s) + offset
      in if idx < 0 \<or> idx \<ge> int (length (tokens s)) then None else Some (tokens s ! nat idx))"

text \<open>\<open>Advance\<close>: the new stream and whether there is a current token in it.\<close>

definition Advance :: "Stream \<Rightarrow> Stream \<times> bool" where
  "Advance s =
     (let s = s\<lparr>partialToken := []\<rparr>
      in if pos s \<ge> length (tokens s) then (s, False)
         else let s = s\<lparr>pos := pos s + 1\<rparr> in (s, pos s < length (tokens s)))"

definition SavePosition :: "Stream \<Rightarrow> nat" where
  "SavePosition s = pos s"

definition RestorePosition :: "int \<Rightarrow> Stream \<Rightarrow> Stream" where
  "RestorePosition p s = (if p \<ge> 0 \<and> p \<le> int (length (tokens s)) then s\<lparr>pos := nat p\<rparr> else s)"

definition AtEnd :: "Stream \<Rightarrow> bool" where
  "AtEnd s \<longleftrightarrow> partialToken s = [] \<and> pos s \<ge> length (tokens s)"

definition Remaining :: "Stream \<Rightarrow> Token list" where
  "Remaining s = (if pos s \<ge> length (tokens s) then [] else drop (pos s) (tokens s))"

definition RemainingText :: "Stream \<Rightarrow> string" where
  "RemainingText s =
     (let remaining = Remaining s
      in if length remaining = 0 then [] else Join (map Text remaining) sp)"

definition stream_Text :: "Stream \<Rightarrow> string" where
  "stream_Text s = (case Current s of None \<Rightarrow> [] | Some token \<Rightarrow> Text token)"

definition SetPartialToken :: "string \<Rightarrow> Stream \<Rightarrow> Stream" where
  "SetPartialToken remaining s = s\<lparr>partialToken := remaining\<rparr>"

definition ConsumeChars :: "nat \<Rightarrow> Stream \<Rightarrow> Stream \<times> string \<times> bool" where
  "ConsumeChars n s =
     (let txt = stream_Text s
      in if length txt < n then (s, [], False)
         else let consumed = take n txt; remaining = drop n txt
              in (if remaining \<noteq> [] then s\<lparr>partialToken := remaining\<rparr> else fst (Advance s), consumed, True))"

section \<open>Progress\<close>

definition stream_ok :: "Stream \<Rightarrow> bool" where
  "stream_ok s \<longleftrightarrow> pos s \<le> length (tokens s) \<and> list_all (\<lambda>t. is_word (Text t)) (tokens s)"

definition stream_left :: "Stream \<Rightarrow> nat" where
  "stream_left s = 2 * (length (tokens s) - pos s) + (if partialToken s = [] then 0 else 1)"

abbreviation next_token :: "Stream \<Rightarrow> Stream" where
  "next_token s \<equiv> fst (Advance s)"

lemma Advance_eq:
  "next_token s = s\<lparr>partialToken := [], pos := (if pos s < length (tokens s) then pos s + 1 else pos s)\<rparr>"
  by (auto simp: Advance_def Let_def)

lemma stream_Text_eq:
  "stream_Text s = (if partialToken s \<noteq> [] then partialToken s
     else if pos s < length (tokens s) then Text (tokens s ! pos s) else [])"
  by (auto simp: stream_Text_def Current_def)

lemma Advance_left: "\<not> AtEnd s \<Longrightarrow> stream_left (next_token s) < stream_left s"
  by (auto simp: stream_left_def Advance_eq AtEnd_def)

lemma Advance_ok: "stream_ok s \<Longrightarrow> stream_ok (next_token s)"
  by (auto simp: stream_ok_def Advance_eq)

interpretation tok: cursor AtEnd stream_Text next_token stream_ok stream_left
proof
  show "stream_ok s \<Longrightarrow> \<not> AtEnd s \<Longrightarrow> stream_left (next_token s) < stream_left s" for s
    by (rule Advance_left)
  show "stream_ok s \<Longrightarrow> stream_ok (next_token s)" for s by (rule Advance_ok)
qed (auto simp: stream_left_def Advance_eq AtEnd_def stream_Text_eq split: if_splits)

text \<open>\<open>Skip\<close> advances past the tokens that match a predicate.\<close>

function Skip :: "(string \<Rightarrow> bool) \<Rightarrow> Stream \<Rightarrow> Stream" where
  "Skip predicate s =
     (if AtEnd s then s
      else case Current s of None \<Rightarrow> s
           | Some token \<Rightarrow> if \<not> predicate (Text token) then s else Skip predicate (next_token s))"
  by pat_completeness auto
termination
  by (relation "measure (\<lambda>(predicate, s). stream_left s)") (auto simp: Advance_left)

declare Skip.simps [simp del]

lemma New_ok: "stream_ok (New s)"
  using Fields_words [of s]
  by (auto simp: stream_ok_def New_def list_all_iff enumerate_eq_zip dest: set_zip_rightD)

lemma New_texts: "map Text (tokens (New s)) = Fields s"
  by (simp add: New_def enumerate_eq_zip case_prod_beta comp_def)

lemma SetPartialToken_ok: "stream_ok s \<Longrightarrow> stream_ok (SetPartialToken r s)"
  by (simp add: stream_ok_def SetPartialToken_def)

lemma Advance_tokens [simp]: "tokens (next_token s) = tokens s"
  by (simp add: Advance_eq)

text \<open>What is still to be read: the rest of a partial token stands for the current word.\<close>

definition unread :: "Stream \<Rightarrow> string list" where
  "unread s = (if partialToken s = [] then map Text (drop (pos s) (tokens s))
     else partialToken s # map Text (drop (pos s + 1) (tokens s)))"

lemma unread_New: "unread (New s) = Fields s"
  by (simp add: unread_def New_texts [symmetric]) (simp add: New_def)

lemma unread_step:
  assumes "stream_ok s"
  shows "unread s = (if AtEnd s then [] else stream_Text s # unread (next_token s))"
proof (cases "partialToken s = []")
  case True
  then show ?thesis
    by (auto simp: unread_def AtEnd_def stream_Text_eq Advance_eq Cons_nth_drop_Suc [symmetric])
next
  case False
  then show ?thesis
    by (auto simp: unread_def AtEnd_def stream_Text_eq Advance_eq)
qed

lemma unread_AtEnd: "stream_ok s \<Longrightarrow> AtEnd s \<longleftrightarrow> unread s = []"
  using unread_step [of s] by auto

lemma stream_Text_word: "stream_ok s \<Longrightarrow> \<not> AtEnd s \<Longrightarrow> stream_Text s \<noteq> []"
  by (auto simp: stream_Text_eq AtEnd_def stream_ok_def list_all_length is_word_def)

lemma stream_Text_unread: "stream_ok s \<Longrightarrow> stream_Text s = (case unread s of [] \<Rightarrow> [] | w # _ \<Rightarrow> w)"
  using unread_step [of s] tok.end_text [of s] by (auto split: if_splits)

lemma SetPartialToken_unread:
  "stream_ok s \<Longrightarrow> \<not> AtEnd s \<Longrightarrow> r \<noteq> [] \<Longrightarrow> unread (SetPartialToken r s) = r # unread (next_token s)"
  by (auto simp: unread_def SetPartialToken_def Advance_eq AtEnd_def)

lemma Skip_ok: "stream_ok s \<Longrightarrow> stream_ok (Skip p s)"
  by (induction p s rule: Skip.induct) (subst Skip.simps, auto simp: Advance_ok split: option.split)

lemma Skip_unread: "stream_ok s \<Longrightarrow> unread (Skip p s) = dropWhile p (unread s)"
proof (induction p s rule: Skip.induct)
  case (1 p s)
  show ?case
  proof (cases "AtEnd s")
    case True
    then show ?thesis using 1 by (simp add: Skip.simps [of p s] unread_step [of s])
  next
    case False
    then have "Current s \<noteq> None" by (auto simp: Current_def AtEnd_def)
    then obtain t where t: "Current s = Some t" "stream_Text s = Text t"
      by (auto simp: stream_Text_def)
    show ?thesis using 1 False t Advance_ok [of s]
      by (simp add: Skip.simps [of p s] unread_step [of s])
  qed
qed

text \<open>Reading the stream token by token visits exactly the words of the text: a fresh stream
  has all of them unread, \<open>ConsumeChars\<close> splits the first unread word without losing a
  character, and skipping removes the longest matching prefix of words.\<close>

theorem stream_reads_words:
  assumes "s = New txt" and "Fields txt = w # ws" and "n \<le> length w" and "0 < n"
  shows "unread s = w # ws \<and>
    (\<exists>s'. ConsumeChars n s = (s', take n w, True) \<and>
      unread s' = (if n = length w then ws else drop n w # ws)) \<and>
    unread (Skip p s) = dropWhile p (w # ws)"
proof -
  have ok: "stream_ok s" using assms(1) by (simp add: New_ok)
  have u: "unread s = w # ws" using assms by (simp add: unread_New)
  then have t: "stream_Text s = w" and nt: "unread (next_token s) = ws" and e: "\<not> AtEnd s"
    using unread_step [OF ok] by (auto split: if_splits)
  have "\<exists>s'. ConsumeChars n s = (s', take n w, True) \<and>
      unread s' = (if n = length w then ws else drop n w # ws)"
  proof (cases "n = length w")
    case True
    then show ?thesis using t nt by (simp add: ConsumeChars_def)
  next
    case False
    then have "drop n w \<noteq> []" using assms(3) by simp
    with False show ?thesis
      using t nt assms(3) SetPartialToken_unread [OF ok e, of "drop n w"]
      by (simp add: ConsumeChars_def SetPartialToken_def)
  qed
  then show ?thesis using u Skip_unread [OF ok, of p] by simp
qed

theorem stream_reads_words_witness:
  "unread (New ''13015 track'') = [''13015'', ''track''] \<and>
   unread (Skip (\<lambda>w. HasPrefix w ''1'') (New ''13015 track'')) = [''track'']"
proof -
  have f: "Fields ''13015 track'' = [''13015'', ''track'']" by code_simp
  have p: "dropWhile (\<lambda>w. HasPrefix w ''1'') [''13015'', ''track''] = [''track'']" by code_simp
  show ?thesis using stream_reads_words [OF refl f, of 3 "\<lambda>w. HasPrefix w ''1''"] p by simp
qed

end
