(* ===== verification/Parser.thy ===== *)
theory Parser
  imports Replacements Normalize TokenStream Brevity
begin

text \<open>
  The brevity parser (\<open>pkg/parser\<close>): finding the controller's callsign, the request word and
  the pilot's callsign, and parsing the arguments of each request from the token stream.
  Fuzzy matching (\<open>go-edlib\<close>) and number words (\<open>numwords\<close>) are third-party: parameters.
\<close>

record parser_lib =
  StringsSimilarity :: "string \<Rightarrow> string \<Rightarrow> real option"
  ParseInt :: "string \<Rightarrow> int option"
  ParseString :: "string \<Rightarrow> string"
  lib_units :: units

section \<open>Similarity\<close>

definition similarityThreshold :: real where "similarityThreshold = 6 / 10"
definition halfFieldMinLength :: nat where "halfFieldMinLength = 8"

definition isSimilar :: "parser_lib \<Rightarrow> string \<Rightarrow> string \<Rightarrow> bool" where
  "isSimilar lib a b =
     (case StringsSimilarity lib (ToLower a) (ToLower b) of
        None \<Rightarrow> False | Some v \<Rightarrow> v > similarityThreshold)"

section \<open>Numbers, bearings, ranges, altitudes\<close>

definition parseNaturalNumber :: "parser_lib \<Rightarrow> Stream \<Rightarrow> int option \<times> Stream" where
  "parseNaturalNumber lib stream =
     (case ParseInt lib (stream_Text stream) of
        None \<Rightarrow> (None, stream)
      | Some d \<Rightarrow> (Some d, next_token stream))"

text \<open>
  The inner loop of \<open>parseBearing\<close> over the characters of one token: the bearing and the
  digit count so far, and the number of characters consumed when the third digit is found.
\<close>

fun bearing_chars :: "parser_lib \<Rightarrow> int \<Rightarrow> nat \<Rightarrow> nat \<Rightarrow> string \<Rightarrow> int \<times> nat \<times> nat option" where
  "bearing_chars lib bearing n consumed [] = (bearing, n, None)"
| "bearing_chars lib bearing n consumed (c # cs) =
     (case ParseInt lib [c] of
        None \<Rightarrow> bearing_chars lib bearing n consumed cs
      | Some d \<Rightarrow>
          (let bearing = bearing * 10 + d; n = n + 1; consumed = consumed + 1
           in if n = 3 then (bearing, n, Some consumed)
              else bearing_chars lib bearing n consumed cs))"

function bearing_loop :: "parser_lib \<Rightarrow> int \<Rightarrow> nat \<Rightarrow> Stream \<Rightarrow> (Bearing \<times> bool) \<times> Stream" where
  "bearing_loop lib bearing n stream =
     (if \<not> (n < 3 \<and> \<not> AtEnd stream)
      then ((NewMagneticBearing (of_int bearing), n = 3), stream)
      else let tokenText = stream_Text stream in
        if tokenText = [] then bearing_loop lib bearing n (next_token stream)
        else if \<not> HasDigits tokenText then bearing_loop lib bearing n (next_token stream)
        else (case bearing_chars lib bearing n 0 tokenText of
                (bearing, n, Some consumed) \<Rightarrow>
                  ((NewMagneticBearing (of_int bearing), True),
                   if consumed < length tokenText
                   then SetPartialToken (drop consumed tokenText) stream else next_token stream)
              | (bearing, n, None) \<Rightarrow> bearing_loop lib bearing n (next_token stream)))"
  by pat_completeness auto
termination
  by (relation "measure (\<lambda>(lib, bearing, n, stream). stream_left stream)") (auto simp: Advance_left)

declare bearing_loop.simps [simp del]

definition parseBearing :: "parser_lib \<Rightarrow> Stream \<Rightarrow> (Bearing \<times> bool) \<times> Stream" where
  "parseBearing lib stream = bearing_loop lib 0 0 stream"

definition parseRange :: "parser_lib \<Rightarrow> Stream \<Rightarrow> real option \<times> Stream" where
  "parseRange lib stream =
     (if AtEnd stream then (None, stream)
      else let stream = (if isSimilar lib (stream_Text stream) ''for'' then next_token stream else stream)
           in if AtEnd stream then (None, stream)
              else case parseNaturalNumber lib stream of
                     (None, stream) \<Rightarrow> (None, stream)
                   | (Some d, stream) \<Rightarrow> (Some (of_int d * NauticalMile (lib_units lib)), stream))"

text \<open>The altitude is 0 when none is found; the flag is only logged by the callers.\<close>

definition parseAltitude :: "parser_lib \<Rightarrow> Stream \<Rightarrow> (real \<times> bool) \<times> Stream" where
  "parseAltitude lib stream =
     (if AtEnd stream then ((0, False), stream)
      else let txt = stream_Text stream;
               stream = (if isSimilar lib txt ''at'' \<or> isSimilar lib txt ''altitude'' \<or> isSimilar lib txt ''angels''
                         then next_token stream else stream)
           in if AtEnd stream then ((0, False), stream)
              else case parseNaturalNumber lib stream of
                     (None, stream) \<Rightarrow> ((0, False), stream)
                   | (Some d, stream) \<Rightarrow>
                       (let altitude = of_int d * Foot (lib_units lib);
                            altitude = (if d < 100 then altitude * 1000 else altitude)
                        in ((altitude, True), stream)))"

function skip_track :: "parser_lib \<Rightarrow> Stream \<Rightarrow> Stream option" where
  "skip_track lib stream =
     (if isSimilar lib (stream_Text stream) ''track''
      then if \<not> snd (Advance stream) then None else skip_track lib (next_token stream)
      else Some stream)"
  by pat_completeness auto
termination
proof (relation "measure (\<lambda>(lib, stream). stream_left stream)", goal_cases)
  case (2 lib stream)
  then have "\<not> AtEnd stream" by (auto simp: Advance_def AtEnd_def Let_def split: if_splits)
  then show ?case by (simp add: Advance_left)
qed simp

declare skip_track.simps [simp del]

definition parseTrack :: "parser_lib \<Rightarrow> Stream \<Rightarrow> Track" where
  "parseTrack lib stream =
     (if AtEnd stream then UnknownDirection
      else case skip_track lib stream of
             None \<Rightarrow> UnknownDirection
           | Some stream \<Rightarrow>
               if AtEnd stream then UnknownDirection
               else let t = stream_Text stream in
                 if t = ''north'' then North else if t = ''northeast'' then Northeast
                 else if t = ''east'' then East else if t = ''southeast'' then Southeast
                 else if t = ''south'' then South else if t = ''southwest'' then Southwest
                 else if t = ''west'' then West else if t = ''northwest'' then Northwest
                 else UnknownDirection)"

definition parseBearingOnly :: "parser_lib \<Rightarrow> Stream \<Rightarrow> (Bearing \<times> bool) \<times> Stream" where
  "parseBearingOnly lib stream =
     (case parseBearing lib stream of
        ((bearing, True), stream) \<Rightarrow> ((bearing, True), stream)
      | ((bearing, False), stream) \<Rightarrow> ((NewMagneticBearing 0, False), stream))"

section \<open>Bullseye and BRA\<close>

definition bullseyeWords :: "string list" where "bullseyeWords = [''bullseye'', ''bulls'']"
definition braaWords :: "string list" where "braaWords = [''bra'', ''brah'', ''braa'']"

definition skip_keyword :: "parser_lib \<Rightarrow> string list \<Rightarrow> Stream \<Rightarrow> Stream" where
  "skip_keyword lib words stream =
     (if list_ex (isSimilar lib (stream_Text stream)) words then next_token stream else stream)"

definition parseBullseye :: "parser_lib \<Rightarrow> Stream \<Rightarrow> Bullseye option \<times> Stream" where
  "parseBullseye lib stream =
     (case parseBearing lib (skip_keyword lib bullseyeWords stream) of
        ((b, False), stream) \<Rightarrow> (None, stream)
      | ((b, True), stream) \<Rightarrow>
          (case parseRange lib stream of
             (None, stream) \<Rightarrow> (None, stream)
           | (Some r, stream) \<Rightarrow> (Some (NewBullseye b r), stream)))"

definition parseBRA :: "parser_lib \<Rightarrow> Stream \<Rightarrow> BRA option" where
  "parseBRA lib stream =
     (case parseBearing lib (skip_keyword lib braaWords stream) of
        ((b, False), stream) \<Rightarrow> None
      | ((b, True), stream) \<Rightarrow>
          (case parseRange lib stream of
             (None, stream) \<Rightarrow> None
           | (Some r, stream) \<Rightarrow>
               (case parseAltitude lib stream of
                  ((a, _), stream) \<Rightarrow> Some (NewBRA (lib_units lib) b r [a]))))"

section \<open>Requests with arguments\<close>

definition bogeyFilterMap :: "(string \<times> ContactCategory) list" where
  "bogeyFilterMap =
     [(''airplane'', FixedWing), (''planes'', FixedWing), (''fighter'', FixedWing),
      (''fixed wing'', FixedWing), (''helicopter'', RotaryWing), (''chopper'', RotaryWing),
      (''helo'', RotaryWing), (''rotary wing'', RotaryWing)]"

text \<open>\<open>order\<close> is the order in which the map happens to be iterated.\<close>

definition parseBogeyDope :: "(string \<times> ContactCategory) list \<Rightarrow> string \<Rightarrow> Stream \<Rightarrow> Request" where
  "parseBogeyDope order callsign stream =
     (let remainingText = RemainingText stream
      in BogeyDopeRequest callsign
           (case List.find (\<lambda>(k, v). Contains remainingText k) order of
              None \<Rightarrow> Aircraft | Some (k, v) \<Rightarrow> v))"

definition parseDeclareAsBRAA :: "parser_lib \<Rightarrow> string \<Rightarrow> Stream \<Rightarrow> DeclareRequest option" where
  "parseDeclareAsBRAA lib callsign stream =
     (case parseBearing lib stream of
        ((bearing, False), stream) \<Rightarrow> None
      | ((bearing, True), stream) \<Rightarrow>
          (case parseRange lib stream of
             (None, stream) \<Rightarrow> None
           | (Some rng, stream) \<Rightarrow>
               (case parseAltitude lib stream of
                  ((altitude, _), stream) \<Rightarrow>
                    Some \<lparr>declare_Callsign = callsign, declare_Sour = False, IsBRAA = True,
                      IsAmbiguous = False, declare_Bullseye = None, declare_Bearing = Some bearing,
                      declare_Range = rng, declare_Altitude = altitude,
                      declare_Track = parseTrack lib stream\<rparr>)))"

definition parseDeclareAsBullseye :: "parser_lib \<Rightarrow> string \<Rightarrow> bool \<Rightarrow> Stream \<Rightarrow> DeclareRequest option" where
  "parseDeclareAsBullseye lib callsign isAmbiguous stream =
     (case parseBullseye lib stream of
        (None, stream) \<Rightarrow> None
      | (Some bullseye, stream) \<Rightarrow>
          (case parseAltitude lib stream of
             ((altitude, _), stream) \<Rightarrow>
               Some \<lparr>declare_Callsign = callsign, declare_Sour = False, IsBRAA = False,
                 IsAmbiguous = isAmbiguous, declare_Bullseye = Some bullseye, declare_Bearing = None,
                 declare_Range = 0, declare_Altitude = altitude,
                 declare_Track = parseTrack lib stream\<rparr>))"

definition sour_declare :: "string \<Rightarrow> DeclareRequest" where
  "sour_declare callsign = \<lparr>declare_Callsign = callsign, declare_Sour = True, IsBRAA = False,
     IsAmbiguous = False, declare_Bullseye = None, declare_Bearing = None, declare_Range = 0,
     declare_Altitude = 0, declare_Track = NoTrack\<rparr>"

function declare_loop :: "parser_lib \<Rightarrow> string \<Rightarrow> Stream \<Rightarrow> DeclareRequest option" where
  "declare_loop lib callsign stream =
     (if AtEnd stream then None
      else let txt = stream_Text stream in
        if list_ex (isSimilar lib txt) braaWords
        then parseDeclareAsBRAA lib callsign (next_token stream)
        else if list_ex (isSimilar lib txt) bullseyeWords
        then parseDeclareAsBullseye lib callsign False (next_token stream)
        else if list_all IsDigit txt then parseDeclareAsBullseye lib callsign True stream
        else declare_loop lib callsign (next_token stream))"
  by pat_completeness auto
termination
  by (relation "measure (\<lambda>(lib, callsign, stream). stream_left stream)") (auto simp: Advance_left)

declare declare_loop.simps [simp del]

definition parseDeclare :: "parser_lib \<Rightarrow> string \<Rightarrow> Stream \<Rightarrow> DeclareRequest option" where
  "parseDeclare lib callsign stream =
     (if AtEnd stream then Some (sour_declare callsign) else declare_loop lib callsign stream)"

definition parseSpiked :: "parser_lib \<Rightarrow> string \<Rightarrow> Stream \<Rightarrow> Request option" where
  "parseSpiked lib callsign stream =
     (case parseBearingOnly lib stream of
        ((bearing, True), _) \<Rightarrow> Some (SpikedRequest callsign bearing) | _ \<Rightarrow> None)"

definition parseStrobe :: "parser_lib \<Rightarrow> string \<Rightarrow> Stream \<Rightarrow> Request option" where
  "parseStrobe lib callsign stream =
     (case parseBearingOnly lib stream of
        ((bearing, True), _) \<Rightarrow> Some (StrobeRequest callsign bearing) | _ \<Rightarrow> None)"

definition parseSnaplock :: "parser_lib \<Rightarrow> string \<Rightarrow> Stream \<Rightarrow> Request option" where
  "parseSnaplock lib callsign stream = map_option (SnaplockRequest callsign) (parseBRA lib stream)"

text \<open>
  \<open>parseVector\<close> reads all words, then looks at every span of them and every location; the best
  match so far is a location with its width and start.
\<close>

function stream_words :: "Stream \<Rightarrow> string list" where
  "stream_words stream =
     (if AtEnd stream then [] else ToLower (stream_Text stream) # stream_words (next_token stream))"
  by pat_completeness auto
termination by (relation "measure stream_left") (auto simp: Advance_left)

declare stream_words.simps [simp del]

definition vector_better :: "(string \<times> nat \<times> nat) option \<Rightarrow> nat \<Rightarrow> nat \<Rightarrow> bool" where
  "vector_better best width i =
     (case best of None \<Rightarrow> True
      | Some (bestLocation, bestSpan, bestStart) \<Rightarrow> width > bestSpan \<or> (width = bestSpan \<and> i < bestStart))"

definition vector_step ::
  "parser_lib \<Rightarrow> string list \<Rightarrow> nat \<times> nat \<times> string \<Rightarrow> (string \<times> nat \<times> nat) option \<Rightarrow> (string \<times> nat \<times> nat) option" where
  "vector_step lib words c best =
     (case c of (i, j, location) \<Rightarrow>
        (let sequence = Join (take (j + 1 - i) (drop i words)) sp
         in if \<not> isSimilar lib sequence location then best
            else let width = j - i + 1
                 in if vector_better best width i then Some (location, width, i) else best))"

definition vector_candidates :: "nat \<Rightarrow> string list \<Rightarrow> (nat \<times> nat \<times> string) list" where
  "vector_candidates n locations =
     concat (map (\<lambda>i. concat (map (\<lambda>j. map (\<lambda>l. (i, j, l)) locations) [i..<n])) [0..<n])"

definition parseVector :: "parser_lib \<Rightarrow> string list \<Rightarrow> string \<Rightarrow> Stream \<Rightarrow> Request option" where
  "parseVector lib locations callsign stream =
     (let words = stream_words stream
      in case fold (vector_step lib words) (vector_candidates (length words) locations) None of
           None \<Rightarrow> None
         | Some (bestLocation, _, _) \<Rightarrow> Some (VectorRequest callsign bestLocation))"

section \<open>The parser\<close>

definition maxInputLength :: nat where "maxInputLength = 1000"
definition Anyface :: string where "Anyface = ''anyface''"

record Parser =
  controllerCallsign :: string
  vectorLocations :: "string list"

definition NewParser :: "string \<Rightarrow> string list \<Rightarrow> Parser" where
  "NewParser callsign locations =
     \<lparr>controllerCallsign = ReplaceAll callsign sp [], vectorLocations = locations @ [LocationTanker]\<rparr>"

definition wake_phrases :: "Parser \<Rightarrow> string list" where
  "wake_phrases p = [controllerCallsign p, Anyface]"

fun controller_loop :: "parser_lib \<Rightarrow> Parser \<Rightarrow> string list \<Rightarrow> nat list \<Rightarrow> (string \<times> string) option" where
  "controller_loop lib p words [] = None"
| "controller_loop lib p words (i # is) =
     (let candidate = Join (take (i + 1) words) sp
      in if list_ex (\<lambda>wakePhrase. isSimilar lib (TrimSpace candidate) (ToLower wakePhrase)) (wake_phrases p)
         then Some (candidate, Join (drop (i + 1) words) sp)
         else controller_loop lib p words is)"

definition findControllerCallsign :: "parser_lib \<Rightarrow> Parser \<Rightarrow> string list \<Rightarrow> (string \<times> string) option" where
  "findControllerCallsign lib p words = controller_loop lib p words [0..<length words]"

definition request_word_match :: "parser_lib \<Rightarrow> string \<Rightarrow> string \<Rightarrow> bool" where
  "request_word_match lib field word \<longleftrightarrow>
     isSimilar lib word field \<or>
     (length field > halfFieldMinLength \<and> isSimilar lib word (take (length field div 2) field))"

fun request_word_loop :: "parser_lib \<Rightarrow> nat \<Rightarrow> string list \<Rightarrow> (string \<times> nat) option" where
  "request_word_loop lib i [] = None"
| "request_word_loop lib i (field # words) =
     (case List.find (request_word_match lib (TrimPrefix field ''request'')) requestWords of
        Some word \<Rightarrow> Some (word, i)
      | None \<Rightarrow> request_word_loop lib (i + 1) words)"

definition findRequestWord :: "parser_lib \<Rightarrow> string list \<Rightarrow> (string \<times> nat) option" where
  "findRequestWord lib words = request_word_loop lib 0 words"

definition handleNoRequestWord :: "string \<Rightarrow> string \<Rightarrow> Request" where
  "handleNoRequestWord tx pilotCallsign =
     (if Contains tx checkIn then CheckInRequest pilotCallsign else UnableToUnderstandRequest pilotCallsign)"

definition uncrushCallsign :: "Parser \<Rightarrow> string \<Rightarrow> string" where
  "uncrushCallsign p s =
     (case List.find (\<lambda>callsign. HasPrefix s (ToLower callsign)) (wake_phrases p) of
        Some callsign \<Rightarrow> ToLower callsign @ sp @ drop (length (ToLower callsign)) s
      | None \<Rightarrow> s)"

definition parseRequestWithArgs ::
  "parser_lib \<Rightarrow> (string \<times> ContactCategory) list \<Rightarrow> Parser \<Rightarrow> string \<Rightarrow> string \<Rightarrow> string list \<Rightarrow> Request" where
  "parseRequestWithArgs lib order p requestWord pilotCallsign requestArgs =
     (let stream = New (Join requestArgs sp);
          request =
            (if requestWord = bogeyDope then Some (parseBogeyDope order pilotCallsign stream)
             else if requestWord = declare_word then map_option Declare (parseDeclare lib pilotCallsign stream)
             else if requestWord = spiked then parseSpiked lib pilotCallsign stream
             else if requestWord = strobe then parseStrobe lib pilotCallsign stream
             else if requestWord = snaplock then parseSnaplock lib pilotCallsign stream
             else if requestWord = vector_word then parseVector lib (vectorLocations p) pilotCallsign stream
             else None)
      in case request of Some r \<Rightarrow> r | None \<Rightarrow> UnableToUnderstandRequest pilotCallsign)"

text \<open>The text as \<open>Parse\<close> searches it, and the split at the request word.\<close>

definition prepare :: "(string \<times> string) list \<Rightarrow> string \<Rightarrow> string" where
  "prepare rs tx =
     apply_replacements rs (Normalize (if length tx > maxInputLength then take maxInputLength tx else tx))"

definition pilot_request ::
  "parser_lib \<Rightarrow> (string \<times> ContactCategory) list \<Rightarrow> Parser \<Rightarrow> string \<Rightarrow> string option \<Rightarrow> string list \<Rightarrow> string \<Rightarrow> Request" where
  "pilot_request lib order p tx requestWord requestArgs rest =
     (case ParsePilotCallsign (ParseString lib rest) of
        (pilotCallsign, False) \<Rightarrow>
          (if requestWord = Some picture then PictureRequest [] else UnableToUnderstandRequest [])
      | (pilotCallsign, True) \<Rightarrow>
          (case requestWord of
             None \<Rightarrow> handleNoRequestWord tx pilotCallsign
           | Some w \<Rightarrow>
               if w = alphaCheck then AlphaCheckRequest pilotCallsign
               else if w = radioCheck then RadioCheckRequest pilotCallsign
               else if w = picture then PictureRequest pilotCallsign
               else if w = tripwire then TripwireRequest pilotCallsign
               else if w = shopping then ShoppingRequest pilotCallsign
               else parseRequestWithArgs lib order p w pilotCallsign requestArgs))"

definition Parse ::
  "parser_lib \<Rightarrow> (string \<times> string) list \<Rightarrow> (string \<times> ContactCategory) list \<Rightarrow> Parser \<Rightarrow> string \<Rightarrow> Request option" where
  "Parse lib rs order p tx0 =
     (if tx0 = [] then None
      else let tx = prepare rs tx0 in
        if tx = [] then None
        else let tx = uncrushCallsign p tx; words = Fields tx;
                 (requestWord, before, requestArgs) =
                   (case findRequestWord lib words of
                      Some (w, idx) \<Rightarrow> (Some w, take idx words, drop (idx + 1) words)
                    | None \<Rightarrow> (None, words, []))
             in case findControllerCallsign lib p before of
                  None \<Rightarrow> None
                | Some (heard, rest) \<Rightarrow> Some (pilot_request lib order p tx requestWord requestArgs rest))"

section \<open>Bearings are read digit by digit\<close>

text \<open>What the documentation of \<open>numwords.ParseInt\<close> gives for a single character.\<close>

definition digit_lib :: "parser_lib \<Rightarrow> bool" where
  "digit_lib lib \<longleftrightarrow> (\<forall>c. ParseInt lib [c] = (if IsDigit c then Some (int (digit_value c)) else None))"

definition digits_of :: "string list \<Rightarrow> string" where
  "digits_of ws = filter IsDigit (concat ws)"

definition add_digits :: "int \<Rightarrow> string \<Rightarrow> int" where
  "add_digits b ds = foldl (\<lambda>b d. b * 10 + int (digit_value d)) b ds"

lemma digits_of_simps [simp]:
  "digits_of [] = []" "digits_of (w # ws) = filter IsDigit w @ digits_of ws"
  by (simp_all add: digits_of_def)

lemma add_digits_Cons [simp]: "add_digits b (d # ds) = add_digits (b * 10 + int (digit_value d)) ds"
  by (simp add: add_digits_def)

lemma add_digits_Nil [simp]: "add_digits b [] = b"
  by (simp add: add_digits_def)

lemma bearing_chars_few:
  "digit_lib lib \<Longrightarrow> n + length (filter IsDigit w) < 3 \<Longrightarrow>
   bearing_chars lib b n k w = (add_digits b (filter IsDigit w), n + length (filter IsDigit w), None)"
  by (induction lib b n k w rule: bearing_chars.induct) (auto simp: digit_lib_def Let_def)

lemma bearing_chars_enough:
  "digit_lib lib \<Longrightarrow> n < 3 \<Longrightarrow> 3 \<le> n + length (filter IsDigit w) \<Longrightarrow>
   bearing_chars lib b n k w = (add_digits b (take (3 - n) (filter IsDigit w)), 3, Some (k + 3 - n))"
proof (induction lib b n k w rule: bearing_chars.induct)
  case (2 lib b n k c cs)
  show ?case
  proof (cases "IsDigit c")
    case False
    then show ?thesis using 2 by (simp add: digit_lib_def)
  next
    case True
    show ?thesis
    proof (cases "n = 2")
      case True
      then show ?thesis using \<open>IsDigit c\<close> 2 by (simp add: digit_lib_def)
    next
      case no: False
      then have n: "3 - n = Suc (2 - n)" "3 - Suc n = 2 - n" "n < 2" using 2 by auto
      have p: "ParseInt lib [c] = Some (int (digit_value c))" using True 2 by (simp add: digit_lib_def)
      show ?thesis using 2(2) [OF p refl refl refl] 2 True n no p by (simp add: Let_def)
    qed
  qed
qed simp

lemma HasDigits_filter: "HasDigits w \<longleftrightarrow> filter IsDigit w \<noteq> []"
  by (simp add: HasDigits_def list_ex_iff filter_empty_conv)

lemma bearing_loop_end: "AtEnd s \<Longrightarrow> bearing_loop lib b n s = ((NewMagneticBearing (of_int b), n = 3), s)"
  by (simp add: bearing_loop.simps [of lib b n s])

lemma bearing_loop_skip:
  "n < 3 \<Longrightarrow> \<not> AtEnd s \<Longrightarrow> \<not> HasDigits (stream_Text s) \<Longrightarrow>
   bearing_loop lib b n s = bearing_loop lib b n (next_token s)"
  by (simp add: bearing_loop.simps [of lib b n s] Let_def)

lemma bearing_loop_few_token:
  "digit_lib lib \<Longrightarrow> \<not> AtEnd s \<Longrightarrow> n + length (filter IsDigit (stream_Text s)) < 3 \<Longrightarrow>
   bearing_loop lib b n s =
     bearing_loop lib (add_digits b (filter IsDigit (stream_Text s))) (n + length (filter IsDigit (stream_Text s)))
       (next_token s)"
proof (cases "HasDigits (stream_Text s)")
  case True
  assume *: "digit_lib lib" "\<not> AtEnd s" "n + length (filter IsDigit (stream_Text s)) < 3"
  moreover have "stream_Text s \<noteq> []" using True by (auto simp: HasDigits_def)
  ultimately show ?thesis using True
    by (simp add: bearing_loop.simps [of lib b n s] bearing_chars_few Let_def)
next
  case False
  assume "digit_lib lib" "\<not> AtEnd s" "n + length (filter IsDigit (stream_Text s)) < 3"
  moreover have "filter IsDigit (stream_Text s) = []" using False by (simp add: HasDigits_filter)
  ultimately show ?thesis using False by (simp add: bearing_loop_skip)
qed

lemma bearing_loop_last_token:
  assumes "digit_lib lib" "\<not> AtEnd s" "n < 3" "3 \<le> n + length (filter IsDigit (stream_Text s))"
  shows "bearing_loop lib b n s =
     ((NewMagneticBearing (of_int (add_digits b (take (3 - n) (filter IsDigit (stream_Text s))))), True),
      if 3 - n < length (stream_Text s) then SetPartialToken (drop (3 - n) (stream_Text s)) s else next_token s)"
proof -
  have "HasDigits (stream_Text s)" using assms by (auto simp: HasDigits_filter)
  moreover from this have "stream_Text s \<noteq> []" by (auto simp: HasDigits_def)
  ultimately show ?thesis using assms
    by (simp add: bearing_loop.simps [of lib b n s] bearing_chars_enough Let_def)
qed

lemma unread_cases:
  assumes "stream_ok s" "w # ws = unread s"
  shows "\<not> AtEnd s" "stream_Text s = w" "unread (next_token s) = ws" "stream_ok (next_token s)"
  using unread_step [OF assms(1)] assms tok.advance_inv [OF assms(1)] by (auto split: if_splits)

lemma add_digits_append: "add_digits b (xs @ ys) = add_digits (add_digits b xs) ys"
  by (simp add: add_digits_def)

lemma bearing_loop_few:
  assumes "digit_lib lib" "stream_ok s" "n + length (digits_of (unread s)) < 3"
  shows "snd (fst (bearing_loop lib b n s)) = False \<and> AtEnd (snd (bearing_loop lib b n s))"
  using assms
proof (induction "unread s" arbitrary: s n b)
  case Nil
  then show ?case by (simp add: bearing_loop_end unread_AtEnd)
next
  case (Cons w ws)
  note u = unread_cases [OF Cons.prems(2) Cons.hyps(2)]
  have "bearing_loop lib b n s =
      bearing_loop lib (add_digits b (filter IsDigit w)) (n + length (filter IsDigit w)) (next_token s)"
    using bearing_loop_few_token [OF Cons.prems(1) u(1), of n b] u Cons.prems(3)
    by (simp add: Cons.hyps(2) [symmetric])
  then show ?case
    using Cons.hyps(1) [OF u(3) [symmetric] Cons.prems(1) u(4), of "n + length (filter IsDigit w)"] Cons.prems(3) u(3)
    by (simp add: Cons.hyps(2) [symmetric])
qed

lemma bearing_loop_enough:
  assumes "digit_lib lib" "stream_ok s" "n < 3" "3 \<le> n + length (digits_of (unread s))"
  shows "fst (bearing_loop lib b n s) =
      (NewMagneticBearing (of_int (add_digits b (take (3 - n) (digits_of (unread s))))), True) \<and>
    (list_all (\<lambda>w. HasDigits w \<longrightarrow> list_all IsDigit w) (unread s) \<longrightarrow>
      digits_of (unread (snd (bearing_loop lib b n s))) = drop (3 - n) (digits_of (unread s)))"
  using assms
proof (induction "unread s" arbitrary: s n b)
  case Nil
  then show ?case by simp
next
  case (Cons w ws)
  note u = unread_cases [OF Cons.prems(2) Cons.hyps(2)]
  have us: "unread s = w # ws" using Cons.hyps(2) by simp
  show ?case
  proof (cases "n + length (filter IsDigit w) < 3")
    case few: True
    let ?b = "add_digits b (filter IsDigit w)" and ?n = "n + length (filter IsDigit w)"
    have l: "bearing_loop lib b n s = bearing_loop lib ?b ?n (next_token s)"
      using bearing_loop_few_token [OF Cons.prems(1) u(1), of n b] u few by simp
    have IH: "fst (bearing_loop lib ?b ?n (next_token s)) =
        (NewMagneticBearing (of_int (add_digits ?b (take (3 - ?n) (digits_of ws)))), True) \<and>
      (list_all (\<lambda>w. HasDigits w \<longrightarrow> list_all IsDigit w) ws \<longrightarrow>
        digits_of (unread (snd (bearing_loop lib ?b ?n (next_token s)))) = drop (3 - ?n) (digits_of ws))"
      using Cons.hyps(1) [OF u(3) [symmetric] Cons.prems(1) u(4), of ?n ?b] few Cons.prems(4) u(3)
      by (simp add: us)
    have "take (3 - n) (digits_of (unread s)) = filter IsDigit w @ take (3 - ?n) (digits_of ws)"
      "drop (3 - n) (digits_of (unread s)) = drop (3 - ?n) (digits_of ws)"
      using few by (simp_all add: us)
    then show ?thesis using IH by (simp add: l us add_digits_append)
  next
    case many: False
    let ?s = "if 3 - n < length w then SetPartialToken (drop (3 - n) w) s else next_token s"
    have l: "bearing_loop lib b n s =
        ((NewMagneticBearing (of_int (add_digits b (take (3 - n) (filter IsDigit w)))), True), ?s)"
      using bearing_loop_last_token [OF Cons.prems(1) u(1) Cons.prems(3), of b] u many by simp
    have t: "take (3 - n) (digits_of (unread s)) = take (3 - n) (filter IsDigit w)"
      using many by (simp add: us)
    have "digits_of (unread ?s) = drop (3 - n) (digits_of (unread s))"
      if all: "list_all (\<lambda>w. HasDigits w \<longrightarrow> list_all IsDigit w) (unread s)"
    proof -
      have "filter IsDigit w \<noteq> []" using many Cons.prems(3) by auto
      then have w: "list_all IsDigit w" using all by (simp add: us HasDigits_filter)
      then have d: "filter IsDigit w = w" by (auto simp: list_all_iff intro: filter_True)
      have dr: "filter IsDigit (drop (3 - n) w) = drop (3 - n) w"
        using w by (auto simp: list_all_iff intro!: filter_True dest: in_set_dropD)
      show ?thesis
      proof (cases "3 - n < length w")
        case True
        then have "unread ?s = drop (3 - n) w # ws"
          using SetPartialToken_unread [OF Cons.prems(2) u(1), of "drop (3 - n) w"] u(3) by simp
        then show ?thesis using d dr True by (simp add: us)
      next
        case False
        then show ?thesis using d u(3) many by (simp add: us)
      qed
    qed
    then show ?thesis using l t by simp
  qed
qed

text \<open>A bearing is the first three digits still unread, in order, wherever they are split
  over words ("1 3 0", "130", "13 015"); it is found exactly when there are three of them, and
  when words with digits hold nothing else, no later digit is lost: what follows in the same
  word stays to be read as the range.\<close>

theorem parseBearing_first_three_digits:
  assumes "digit_lib lib" and "stream_ok s" and "ds = digits_of (unread s)"
  shows "if 3 \<le> length ds
    then fst (parseBearing lib s) =
        (NewMagneticBearing (of_int (100 * int (digit_value (ds ! 0)) + 10 * int (digit_value (ds ! 1))
           + int (digit_value (ds ! 2)))), True)
      \<and> (list_all (\<lambda>w. HasDigits w \<longrightarrow> list_all IsDigit w) (unread s) \<longrightarrow>
           digits_of (unread (snd (parseBearing lib s))) = drop 3 ds)
    else snd (fst (parseBearing lib s)) = False \<and> AtEnd (snd (parseBearing lib s))"
proof (cases "3 \<le> length ds")
  case True
  then obtain a b c rest where ds: "ds = a # b # c # rest"
    by (cases ds; cases "tl ds"; cases "tl (tl ds)") auto
  show ?thesis
    using bearing_loop_enough [OF assms(1, 2), of 0 0] assms(3) [symmetric] True
    unfolding parseBearing_def by (simp add: ds algebra_simps)
next
  case False
  then show ?thesis using bearing_loop_few [OF assms(1, 2), of 0 0] assms(3) by (simp add: parseBearing_def)
qed

text \<open>A concrete library for the witnesses: exact matching, and decimal digits for numbers.\<close>

definition demo_lib :: parser_lib where
  "demo_lib = \<lparr>StringsSimilarity = (\<lambda>a b. Some (if a = b then 1 else 0)),
     ParseInt = (\<lambda>s. if s \<noteq> [] \<and> list_all IsDigit s then Some (int (decimal_value s)) else None),
     ParseString = (\<lambda>s. s), lib_units = si_units\<rparr>"

lemma demo_lib_digits: "digit_lib demo_lib"
  by (auto simp: digit_lib_def demo_lib_def decimal_value_def)

theorem parseBearing_first_three_digits_witness:
  "fst (parseBearing demo_lib (New ''0 13015 track'')) = (NewMagneticBearing 13, True) \<and>
   digits_of (unread (snd (parseBearing demo_lib (New ''0 13015 track'')))) = ''015''"
proof -
  have u: "unread (New ''0 13015 track'') = [''0'', ''13015'', ''track'']"
  proof -
    have "Fields ''0 13015 track'' = [''0'', ''13015'', ''track'']" by code_simp
    then show ?thesis by (simp only: unread_New)
  qed
  have d: "''013015'' = digits_of [''0'', ''13015'', ''track'']" by code_simp
  have v: "digit_value (''013015'' ! 0) = 0" "digit_value (''013015'' ! 1) = 1" "digit_value (''013015'' ! 2) = 3"
    "3 \<le> length ''013015''" "drop 3 ''013015'' = ''015''" by code_simp+
  have w: "list_all (\<lambda>w. HasDigits w \<longrightarrow> list_all IsDigit w) [''0'', ''13015'', ''track'']" by code_simp
  show ?thesis
    using parseBearing_first_three_digits [OF demo_lib_digits New_ok, of "''013015''" "''0 13015 track''"]
    unfolding u d [symmetric] by (simp only: v w if_True simp_thms) (simp add: v)
qed

section \<open>The best location\<close>

definition vector_match :: "parser_lib \<Rightarrow> string list \<Rightarrow> string list \<Rightarrow> nat \<times> nat \<times> string \<Rightarrow> bool" where
  "vector_match lib words locations c \<longleftrightarrow>
     (case c of (i, j, l) \<Rightarrow> i \<le> j \<and> j < length words \<and> l \<in> set locations \<and>
        isSimilar lib (Join (take (j + 1 - i) (drop i words)) sp) l)"

definition vector_not_worse :: "(string \<times> nat \<times> nat) \<Rightarrow> nat \<times> nat \<times> string \<Rightarrow> bool" where
  "vector_not_worse best c \<longleftrightarrow>
     (case (best, c) of ((_, w, i), (i', j', _)) \<Rightarrow> j' - i' + 1 < w \<or> (j' - i' + 1 = w \<and> i \<le> i'))"

lemma vector_fold:
  assumes "\<And>c. P c \<longleftrightarrow> (case c of (i, j, l) \<Rightarrow> isSimilar lib (Join (take (j + 1 - i) (drop i words)) sp) l)"
  shows "case fold (vector_step lib words) cs best of
      None \<Rightarrow> best = None \<and> (\<forall>c \<in> set cs. \<not> P c)
    | Some b \<Rightarrow> (best = Some b \<or> (\<exists>(i, j, l) \<in> set cs. P (i, j, l) \<and> b = (l, j - i + 1, i))) \<and>
        (\<forall>c \<in> set cs. P c \<longrightarrow> vector_not_worse b c) \<and>
        (\<forall>l w i. best = Some (l, w, i) \<longrightarrow> w < fst (snd b) \<or> (w = fst (snd b) \<and> snd (snd b) \<le> i))"
proof (induction cs arbitrary: best)
  case Nil
  then show ?case by (cases best) auto
next
  case (Cons c cs)
  obtain i j l where c: "c = (i, j, l)" by (cases c)
  let ?best = "vector_step lib words c best"
  have step: "?best = (if P c \<and> vector_better best (j - i + 1) i then Some (l, j - i + 1, i) else best)"
    by (simp add: assms c vector_step_def Let_def)
  show ?case
  proof (cases "fold (vector_step lib words) cs ?best")
    case None
    then have "?best = None" "\<forall>c \<in> set cs. \<not> P c" using Cons.IH [of ?best] by auto
    then show ?thesis using None step by (auto simp: vector_better_def split: if_splits)
  next
    case (Some b)
    obtain bl bw bi where b: "b = (bl, bw, bi)" by (cases b)
    have IH: "?best = Some b \<or> (\<exists>(i, j, l) \<in> set cs. P (i, j, l) \<and> b = (l, j - i + 1, i))"
      "\<forall>c \<in> set cs. P c \<longrightarrow> vector_not_worse b c"
      "\<And>l w i. ?best = Some (l, w, i) \<Longrightarrow> w < bw \<or> (w = bw \<and> bi \<le> i)"
      using Cons.IH [of ?best] Some b by auto
    have "best = Some b \<or> (\<exists>(i, j, l) \<in> set (c # cs). P (i, j, l) \<and> b = (l, j - i + 1, i))"
      using IH(1) step c by (auto split: if_splits)
    moreover have "vector_not_worse b c" if "P c"
    proof (cases "vector_better best (j - i + 1) i")
      case True
      then show ?thesis using IH(3) [of l "j - i + 1" i] step that by (auto simp: b c vector_not_worse_def)
    next
      case False
      then obtain l' w' i' where best: "best = Some (l', w', i')"
        by (cases best) (auto simp: vector_better_def)
      then show ?thesis using IH(3) [of l' w' i'] False step
        by (auto simp: b c vector_not_worse_def vector_better_def)
    qed
    moreover have "w < bw \<or> (w = bw \<and> bi \<le> i')" if "best = Some (l', w, i')" for l' w i'
      using IH(3) that step by (auto simp: vector_better_def split: if_splits)
    ultimately show ?thesis using Some IH(2) b by auto
  qed
qed

lemma vector_candidates_set:
  "(i, j, l) \<in> set (vector_candidates n locations) \<longleftrightarrow> i \<le> j \<and> j < n \<and> l \<in> set locations"
proof
  assume "i \<le> j \<and> j < n \<and> l \<in> set locations"
  then have "(i, j, l) \<in> set (map (\<lambda>l. (i, j, l)) locations)" "j \<in> set [i..<n]" "i \<in> set [0..<n]" by auto
  then show "(i, j, l) \<in> set (vector_candidates n locations)"
    unfolding vector_candidates_def set_concat set_map image_image UN_iff by blast
qed (auto simp: vector_candidates_def)

lemma stream_words_unread: "stream_ok s \<Longrightarrow> stream_words s = map ToLower (unread s)"
proof (induction "unread s" arbitrary: s)
  case Nil
  then show ?case by (simp add: stream_words.simps [of s] unread_AtEnd)
next
  case (Cons w ws)
  note u = unread_cases [OF Cons.prems Cons.hyps(2)]
  show ?case using Cons.hyps(1) [OF u(3) [symmetric] u(4)] u
    by (simp add: stream_words.simps [of s] Cons.hyps(2) [symmetric])
qed

text \<open>A VECTOR request names a location similar to some run of the words; no run of more
  words is similar to any location, and none of equally many words that starts earlier. The
  request fails exactly when no run of words is similar to any location.\<close>

theorem parseVector_longest_match:
  assumes "stream_ok s" and "words = map ToLower (unread s)"
  shows "case parseVector lib locations callsign s of
      None \<Rightarrow> \<forall>c. \<not> vector_match lib words locations c
    | Some r \<Rightarrow> \<exists>i j l. r = VectorRequest callsign l \<and> vector_match lib words locations (i, j, l) \<and>
        (\<forall>i' j' l'. vector_match lib words locations (i', j', l') \<longrightarrow>
           j' - i' < j - i \<or> (j' - i' = j - i \<and> i \<le> i'))"
proof -
  let ?cs = "vector_candidates (length words) locations"
  let ?P = "\<lambda>(i, j, l). isSimilar lib (Join (take (j + 1 - i) (drop i words)) sp) l"
  have w: "stream_words s = words" using assms by (simp add: stream_words_unread)
  have m: "vector_match lib words locations c \<longleftrightarrow> c \<in> set ?cs \<and> ?P c" for c
    by (cases c) (auto simp: vector_match_def vector_candidates_set)
  note f = vector_fold [where P = ?P and lib = lib and words = words and cs = ?cs and best = None, OF refl]
  show ?thesis
  proof (cases "fold (vector_step lib words) ?cs None")
    case None
    then show ?thesis using f by (auto simp: parseVector_def w m)
  next
    case (Some b)
    obtain bl bw bi where b: "b = (bl, bw, bi)" by (cases b)
    obtain i j l where c: "(i, j, l) \<in> set ?cs" "?P (i, j, l)" "b = (l, j - i + 1, i)"
      and best: "\<forall>c \<in> set ?cs. ?P c \<longrightarrow> vector_not_worse b c"
      using f Some by auto
    have "j' - i' < j - i \<or> (j' - i' = j - i \<and> i \<le> i')" if "vector_match lib words locations (i', j', l')" for i' j' l'
      using best that unfolding m by (auto simp: vector_not_worse_def c(3))
    moreover have "vector_match lib words locations (i, j, l)" using c m by auto
    moreover have "parseVector lib locations callsign s = Some (VectorRequest callsign l)"
      using Some c(3) by (simp add: parseVector_def w)
    ultimately show ?thesis by auto blast
  qed
qed

theorem parseVector_longest_match_witness:
  "case parseVector demo_lib [''home'', ''home plate''] ''eagle 1'' (New ''home plate'') of
      None \<Rightarrow> False | Some r \<Rightarrow> \<exists>l. r = VectorRequest ''eagle 1'' l \<and> l \<in> {''home'', ''home plate''}"
proof -
  have f: "Fields ''home plate'' = [''home'', ''plate'']" by code_simp
  have w: "[''home'', ''plate''] = map ToLower (unread (New ''home plate''))"
    unfolding unread_New f by code_simp
  have low: "ToLower ''home plate'' = ''home plate''" by code_simp
  have m: "vector_match demo_lib [''home'', ''plate''] [''home'', ''home plate''] (0, 1, ''home plate'')"
    by (simp add: vector_match_def isSimilar_def demo_lib_def similarityThreshold_def low)
  show ?thesis
    using parseVector_longest_match [OF New_ok w, of demo_lib "[''home'', ''home plate'']" "''eagle 1''"] m
    by (auto simp only: vector_match_def split: option.splits) auto
qed

section \<open>Who is addressed, and who is answered\<close>

fun req_callsign :: "Request \<Rightarrow> string" where
  "req_callsign (Declare d) = declare_Callsign d"
| "req_callsign (AlphaCheckRequest c) = c"
| "req_callsign (RadioCheckRequest c) = c"
| "req_callsign (BogeyDopeRequest c f) = c"
| "req_callsign (PictureRequest c) = c"
| "req_callsign (SpikedRequest c b) = c"
| "req_callsign (StrobeRequest c b) = c"
| "req_callsign (SnaplockRequest c b) = c"
| "req_callsign (TripwireRequest c) = c"
| "req_callsign (ShoppingRequest c) = c"
| "req_callsign (VectorRequest c l) = c"
| "req_callsign (CheckInRequest c) = c"
| "req_callsign (UnableToUnderstandRequest c) = c"

lemma declare_loop_callsign: "declare_loop lib c s = Some d \<Longrightarrow> declare_Callsign d = c"
proof (induction lib c s rule: declare_loop.induct)
  case (1 lib c s)
  then show ?case
    unfolding declare_loop.simps [of lib c s]
    by (auto simp: Let_def parseDeclareAsBRAA_def parseDeclareAsBullseye_def
        split: if_splits prod.splits option.splits bool.splits)
qed

lemma parseRequestWithArgs_callsign: "req_callsign (parseRequestWithArgs lib order p w c args) = c"
proof -
  let ?s = "New (Join args sp)"
  have "parseDeclare lib c ?s = Some d \<Longrightarrow> declare_Callsign d = c" for d
    by (auto simp: parseDeclare_def sour_declare_def declare_loop_callsign split: if_splits)
  moreover have "parseSpiked lib c ?s = Some r \<Longrightarrow> req_callsign r = c"
    "parseStrobe lib c ?s = Some r \<Longrightarrow> req_callsign r = c" for r
    by (auto simp: parseSpiked_def parseStrobe_def split: prod.splits bool.splits)
  moreover have "parseSnaplock lib c ?s = Some r \<Longrightarrow> req_callsign r = c" for r
    by (auto simp: parseSnaplock_def)
  moreover have "parseVector lib ls c ?s = Some r \<Longrightarrow> req_callsign r = c" for ls r
    by (auto simp: parseVector_def Let_def split: option.splits)
  moreover have "req_callsign (parseBogeyDope order c ?s) = c"
    by (simp add: parseBogeyDope_def Let_def)
  ultimately show ?thesis
    unfolding parseRequestWithArgs_def Let_def by (auto split: option.split)
qed

lemma pilot_request_callsign:
  "req_callsign (pilot_request lib order p tx w args rest) = fst (ParsePilotCallsign (ParseString lib rest))"
proof (cases "ParsePilotCallsign (ParseString lib rest)")
  case (Pair c ok)
  then have "\<not> ok \<Longrightarrow> c = []" by (auto simp: ParsePilotCallsign_def Let_def split: if_splits)
  then show ?thesis using Pair
    by (cases ok) (auto simp: pilot_request_def handleNoRequestWord_def parseRequestWithArgs_callsign
        split: option.split)
qed

lemma controller_loop_found:
  "controller_loop lib p ws is = Some (heard, rest) \<Longrightarrow>
   \<exists>i \<in> set is. \<exists>wake \<in> set (wake_phrases p). heard = Join (take (i + 1) ws) sp \<and>
     rest = Join (drop (i + 1) ws) sp \<and> isSimilar lib (TrimSpace heard) (ToLower wake)"
  by (induction lib p ws "is" rule: controller_loop.induct) (auto simp: Let_def list_ex_iff split: if_splits)

lemma valid_callsign_spaced:
  "fst (ParsePilotCallsign tx) = c \<Longrightarrow> c = [] \<or> SpaceDigits c = c"
  using SpaceDigits_fixed [OF SpaceDigits_spaced]
  by (auto simp: ParsePilotCallsign_def Let_def split: if_splits)

text \<open>C34. The parser answers only when it is addressed: a request comes from a text whose first
  words, before any request word, are similar to the controller's callsign or to "anyface".
  The callsign of the request is the one heard after them, in canonical form; only a PICTURE or
  a request that was not understood can be without one.\<close>

theorem Parse_addressed:
  assumes "Parse lib rs order p tx = Some r"
  shows "(\<exists>i wake. i < length (Fields (uncrushCallsign p (prepare rs tx))) \<and> wake \<in> {controllerCallsign p, Anyface} \<and>
      isSimilar lib (Join (take (i + 1) (Fields (uncrushCallsign p (prepare rs tx)))) sp) (ToLower wake)) \<and>
    (if req_callsign r = [] then r \<in> {PictureRequest [], UnableToUnderstandRequest []}
     else SpaceDigits (req_callsign r) = req_callsign r)"
proof -
  let ?tx = "uncrushCallsign p (prepare rs tx)"
  let ?fields = "Fields ?tx"
  obtain w before args heard rest where
    b: "before = (case findRequestWord lib ?fields of Some (_, idx) \<Rightarrow> take idx ?fields | None \<Rightarrow> ?fields)"
    and h: "findControllerCallsign lib p before = Some (heard, rest)"
    and r: "r = pilot_request lib order p ?tx w args rest"
    using assms by (auto simp: Parse_def Let_def split: if_splits option.splits prod.splits)
  obtain i wake where i: "i < length before" "wake \<in> set (wake_phrases p)"
    "isSimilar lib (TrimSpace (Join (take (i + 1) before) sp)) (ToLower wake)"
    using controller_loop_found [of lib p before "[0..<length before]" heard rest] h
    by (auto simp: findControllerCallsign_def)
  obtain k where k: "before = take k ?fields"
    using b by (cases "findRequestWord lib ?fields") (auto intro: that [of "length ?fields"])
  have "take (i + 1) before = take (i + 1) ?fields" "i < length ?fields"
    using i(1) by (auto simp: k min_def split: if_splits)
  moreover have "list_all is_word (take (i + 1) ?fields)"
    using Fields_words [of ?tx] by (auto simp: list_all_iff dest: in_set_takeD)
  then have "TrimSpace (Join (take (i + 1) ?fields) sp) = Join (take (i + 1) ?fields) sp"
    by (rule TrimSpace_Join)
  ultimately have "isSimilar lib (Join (take (i + 1) ?fields) sp) (ToLower wake) \<and> i < length ?fields"
    using i(3) by simp
  moreover have "req_callsign r = [] \<or> SpaceDigits (req_callsign r) = req_callsign r"
    unfolding r pilot_request_callsign using valid_callsign_spaced by blast
  moreover have "r \<in> {PictureRequest [], UnableToUnderstandRequest []}" if "req_callsign r = []"
  proof -
    have "fst (ParsePilotCallsign (ParseString lib rest)) = []"
      using that unfolding r pilot_request_callsign .
    then have "ParsePilotCallsign (ParseString lib rest) = ([], False)"
      by (auto simp: ParsePilotCallsign_def Let_def split: if_splits)
    then show ?thesis by (simp add: r pilot_request_def)
  qed
  ultimately show ?thesis using i(2) by (auto simp: wake_phrases_def)
qed

text \<open>A transmission heard and understood, for the witness.\<close>

lemma isSimilar_demo: "isSimilar demo_lib a b \<longleftrightarrow> ToLower a = ToLower b"
  by (simp add: isSimilar_def demo_lib_def similarityThreshold_def)

definition demo_parser :: Parser where
  "demo_parser = NewParser ''Magic'' [''home plate'']"

lemmas demo_string_defs = ToLower_def to_lower_def IsUpper_def IsSpace_def code_of_def HasPrefix_def

lemma demo_parse_steps:
  "prepare [] ''Anyface, Eagle 1-1, picture'' = ''anyface eagle 1 1 picture''"
  "controllerCallsign demo_parser = ''Magic''"
  "Fields ''anyface  eagle 1 1 picture'' = [''anyface'', ''eagle'', ''1'', ''1'', ''picture'']"
  "ParsePilotCallsign ''eagle 1 1'' = (''eagle 1 1'', True)"
  by code_simp+

lemma demo_request_word:
  "findRequestWord demo_lib [''anyface'', ''eagle'', ''1'', ''1'', ''picture''] = Some (picture, 4)"
  by (simp add: findRequestWord_def request_word_match_def isSimilar_demo requestWords_def
      request_word_defs demo_string_defs TrimPrefix_def halfFieldMinLength_def)

lemma demo_controller_callsign:
  "findControllerCallsign demo_lib demo_parser [''anyface'', ''eagle'', ''1'', ''1''] = Some (''anyface'', ''eagle 1 1'')"
  by (simp add: findControllerCallsign_def isSimilar_demo demo_parse_steps(2) wake_phrases_def Anyface_def
      upt_rec TrimSpace_def demo_string_defs)

lemma demo_uncrush:
  "uncrushCallsign demo_parser ''anyface eagle 1 1 picture'' = ''anyface  eagle 1 1 picture''"
  by (simp add: uncrushCallsign_def wake_phrases_def demo_parse_steps(2) Anyface_def demo_string_defs)

lemma demo_parse:
  "Parse demo_lib [] bogeyFilterMap demo_parser ''Anyface, Eagle 1-1, picture'' = Some (PictureRequest ''eagle 1 1'')"
proof -
  have p: "ParseString demo_lib x = x" for x by (simp add: demo_lib_def)
  show ?thesis
    by (simp add: Parse_def demo_parse_steps demo_uncrush demo_request_word demo_controller_callsign pilot_request_def p)
      (simp add: request_word_defs)
qed

theorem Parse_addressed_witness:
  "req_callsign (PictureRequest ''eagle 1 1'') \<noteq> [] \<and>
   SpaceDigits (req_callsign (PictureRequest ''eagle 1 1'')) = req_callsign (PictureRequest ''eagle 1 1'')"
  using Parse_addressed [OF demo_parse] by simp

text \<open>When all filter words that occur in the text of a BOGEY DOPE name one category, the
  category of the request does not depend on the random order in which the code iterates over
  its map of filter words.\<close>

theorem parseBogeyDope_order:
  assumes "set order = set bogeyFilterMap" and "set order' = set bogeyFilterMap"
    and "\<forall>(k, v) \<in> set bogeyFilterMap. Contains (RemainingText s) k \<longrightarrow> v = category"
  shows "parseBogeyDope order callsign s = parseBogeyDope order' callsign s"
proof -
  let ?P = "\<lambda>(k, v). Contains (RemainingText s) k"
  have find: "(case List.find ?P ord of None \<Rightarrow> Aircraft | Some (k, v) \<Rightarrow> v) =
      (if \<exists>kv \<in> set bogeyFilterMap. ?P kv then category else Aircraft)"
    if "set ord = set bogeyFilterMap" for ord
  proof (cases "List.find ?P ord")
    case None
    then have "\<not> (\<exists>kv \<in> set bogeyFilterMap. ?P kv)" using that by (auto simp: find_None_iff)
    then show ?thesis using None by (simp only: if_False option.case)
  next
    case (Some kv)
    then have "kv \<in> set ord" "?P kv" 
      by (metis find_Some_iff nth_mem)+
    then have "kv \<in> set bogeyFilterMap" "?P kv" using that by simp_all
    then show ?thesis using Some assms(3) by auto
  qed
  show ?thesis using find [OF assms(1)] find [OF assms(2)] by (simp add: parseBogeyDope_def Let_def)
qed

theorem parseBogeyDope_order_witness:
  "parseBogeyDope (rev bogeyFilterMap) ''eagle 1'' (New ''fixed wing fighter'') =
   parseBogeyDope bogeyFilterMap ''eagle 1'' (New ''fixed wing fighter'')"
proof (rule parseBogeyDope_order [where category = FixedWing])
  have "RemainingText (New ''fixed wing fighter'') = ''fixed wing fighter''" by code_simp
  moreover have "list_all (\<lambda>(k, v). Contains ''fixed wing fighter'' k \<longrightarrow> v = FixedWing) bogeyFilterMap"
    by code_simp
  ultimately show "\<forall>(k, v) \<in> set bogeyFilterMap.
      Contains (RemainingText (New ''fixed wing fighter'')) k \<longrightarrow> v = FixedWing"
    by (auto simp: list_all_iff)
qed simp_all

text \<open>With filter words of both categories in the text, the category does depend on that order:
  the same request can be answered for fixed wing or for rotary wing aircraft.\<close>

theorem parseBogeyDope_ambiguous:
  "\<exists>order order'. mset order = mset bogeyFilterMap \<and> mset order' = mset bogeyFilterMap \<and>
     parseBogeyDope order callsign (New ''helo or fighter'') = BogeyDopeRequest callsign FixedWing \<and>
     parseBogeyDope order' callsign (New ''helo or fighter'') = BogeyDopeRequest callsign RotaryWing"
proof (intro exI conjI)
  have t: "RemainingText (New ''helo or fighter'') = ''helo or fighter''" by code_simp
  have a: "List.find (\<lambda>(k, v). Contains ''helo or fighter'' k) bogeyFilterMap = Some (''fighter'', FixedWing)"
    "List.find (\<lambda>(k, v). Contains ''helo or fighter'' k) (rev bogeyFilterMap) = Some (''helo'', RotaryWing)"
    by code_simp+
  show "parseBogeyDope bogeyFilterMap callsign (New ''helo or fighter'') = BogeyDopeRequest callsign FixedWing"
    "parseBogeyDope (rev bogeyFilterMap) callsign (New ''helo or fighter'') = BogeyDopeRequest callsign RotaryWing"
    by (simp_all add: parseBogeyDope_def t a)
qed simp_all

lemma Index_char: "Index s p = Some i \<Longrightarrow> c \<in> set p \<Longrightarrow> c \<in> set s"
proof (induction s p arbitrary: i rule: Index.induct)
  case (2 a s p)
  then show ?case
    by (auto simp: HasPrefix_def split: if_splits dest: in_set_takeD) (metis in_set_takeD set_ConsD)
qed (auto split: if_splits)

text \<open>
  The table entry "bogey-doke" is dead: normalization turns every hyphen into a space before
  the table is applied, so it occurs in no text the table sees first.
\<close>

lemma bogey_doke_dead: "(''bogey-doke'', bogeyDope) \<in> set replacementLUT \<and> \<not> Contains (Normalize tx) ''bogey-doke''"
proof
  show "(''bogey-doke'', bogeyDope) \<in> set replacementLUT" by (simp add: LUT_defs)
  have "list_all normal_char (Normalize tx)" by (rule text_normal [OF Normalize_plain])
  then have "CHR ''-'' \<notin> set (Normalize tx)"
    using normal_char_no_separator by (auto simp: list_all_iff)
  then show "\<not> Contains (Normalize tx) ''bogey-doke''"
    using Index_char [of "Normalize tx" "''bogey-doke''" _ "CHR ''-''"]
    by (cases "Index (Normalize tx) ''bogey-doke''") (auto simp: Contains_def)
qed

end
