(* ===== verification/Spoken.thy ===== *)
theory Spoken
  imports Composer Parser
begin

text \<open>
  What the composer says: numbers are spoken digit by digit, a spoken bearing is understood by the
  parser as the bearing that is shown, and the fraction of a decimal loses its leading zeros.
\<close>

section \<open>Digits one by one\<close>

definition spell :: "string \<Rightarrow> string" where
  "spell ds = Join (map (\<lambda>c. [c]) ds) sp"

lemma Join_snoc: "xs \<noteq> [] \<Longrightarrow> Join (xs @ [y]) sep = Join xs sep @ sep @ y"
  by (induction xs sep rule: Join.induct) auto

lemma spell_snoc: "ds \<noteq> [] \<Longrightarrow> spell (ds @ [c]) = spell ds @ sp @ [c]"
  by (simp add: spell_def Join_snoc)

lemma spell_Cons: "ds \<noteq> [] \<Longrightarrow> spell (c # ds) = c # sp @ spell ds"
  by (cases ds) (simp_all add: spell_def)

lemma Itoa_digit: "n < 10 \<Longrightarrow> Itoa (int n) = [digit_char n]"
  by (simp add: Itoa_def Itoa_nat.simps [of n])

lemma pronounce_digit: "n < 10 \<Longrightarrow> pronounce_nat n = [digit_char n]"
  by (simp add: pronounce_nat.simps [of n] Itoa_digit)

lemma pronounce_nat_digits: "pronounce_nat n = spell (Itoa_nat n)"
proof (induction n rule: pronounce_nat.induct)
  case (1 d)
  show ?case
  proof (cases "d \<ge> 10")
    case False
    then show ?thesis by (simp add: pronounce_nat.simps [of d] Itoa_digit Itoa_nat.simps [of d] spell_def)
  next
    case True
    have "digit_char (d mod 10) = digit_char d" by (simp add: digit_char_def)
    then have last: "pronounce_nat (d mod 10) = [digit_char d]"
      using pronounce_digit [of "d mod 10"] by simp
    have "pronounce_nat d = spell (Itoa_nat (d div 10)) @ sp @ [digit_char d]"
      using 1(1) [OF True] True by (simp add: pronounce_nat.simps [of d] last)
    then show ?thesis
      using Itoa_nat_digits [of "d div 10"] True by (simp add: Itoa_nat.simps [of d] spell_snoc)
  qed
qed

lemma Fields_spell: "list_all IsDigit ds \<Longrightarrow> Fields (spell ds) = map (\<lambda>c. [c]) ds"
  unfolding spell_def
  by (rule Fields_Join) (auto simp: list_all_iff is_word_def digit_not_space)

lemma length_Itoa_nat: "length (Itoa_nat n) = (if n < 10 then 1 else Suc (length (Itoa_nat (n div 10))))"
  by (simp add: Itoa_nat.simps [of n])

lemma digit_zero: "digit_char 0 = CHR ''0''" "IsDigit (CHR ''0'')" "digit_value (CHR ''0'') = 0"
  by code_simp+

section \<open>Bearings\<close>

lemma RoundedDegrees_range: "0 \<le> RoundedDegrees b \<and> RoundedDegrees b \<le> 360"
proof -
  have "0 \<le> Degrees b" "Degrees b \<le> of_int 360" using Degrees_range [of b] by auto
  then show ?thesis
    using go_round_mono [of "Degrees b" "of_int 360"] by (auto simp: RoundedDegrees_def go_round_def)
qed

lemma pronounceBearing_shown: "pronounceBearing b = spell (bearing_String b)"
proof -
  obtain n where n: "RoundedDegrees b = int n" "n \<le> 360"
    using RoundedDegrees_range [of b] by (metis nat_le_iff nonneg_int_cases of_nat_numeral nat_int)
  let ?s = "Itoa_nat n"
  have I: "Itoa (int n) = ?s" by (simp add: Itoa_def)
  have ne: "?s \<noteq> []" using Itoa_nat_digits by blast
  consider "n < 10" | "10 \<le> n" "n < 100" | "100 \<le> n" by linarith
  then show ?thesis
  proof cases
    case 1
    then have "length ?s = 1" by (simp add: length_Itoa_nat)
    then have "bearing_String b = CHR ''0'' # CHR ''0'' # ?s"
      by (simp add: bearing_String_def n I Let_def numeral_2_eq_2)
    then show ?thesis
      using 1 ne by (simp add: pronounceBearing_def n pronounceInt_def pronounce_nat_digits spell_Cons)
  next
    case 2
    then have "n div 10 < 10" by simp
    then have "length ?s = 2" using 2 by (simp only: length_Itoa_nat [of n] length_Itoa_nat [of "n div 10"]) simp
    then have "bearing_String b = CHR ''0'' # ?s" by (simp add: bearing_String_def n I Let_def)
    then show ?thesis
      using 2 ne by (simp add: pronounceBearing_def n pronounceInt_def pronounce_nat_digits spell_Cons)
  next
    case 3
    moreover have "n div 10 \<ge> 10" "n div 10 div 10 < 10" "n div 10 div 10 > 0" using 3 n(2) by auto
    ultimately have "length ?s = 3"
      by (simp add: length_Itoa_nat [of n] length_Itoa_nat [of "n div 10"] length_Itoa_nat [of "n div 10 div 10"] del: div_mult2_eq)
    then have "bearing_String b = ?s" by (simp add: bearing_String_def n I Let_def)
    then show ?thesis
      using 3 by (simp add: pronounceBearing_def n pronounceInt_def pronounce_nat_digits)
  qed
qed

lemma bearing_String_digits:
  "list_all IsDigit (bearing_String b) \<and> length (bearing_String b) = 3 \<and>
   int (decimal_value (bearing_String b)) = RoundedDegrees b"
proof -
  obtain n where n: "RoundedDegrees b = int n" "n \<le> 360"
    using RoundedDegrees_range [of b] by (metis nat_le_iff nonneg_int_cases of_nat_numeral nat_int)
  have "length (Itoa_nat n) \<le> 3"
  proof -
    have "n div 10 div 10 < 10" using n(2) by simp
    then show ?thesis
      by (simp add: length_Itoa_nat [of n] length_Itoa_nat [of "n div 10"] length_Itoa_nat [of "n div 10 div 10"])
  qed
  moreover have "decimal_value (replicate k (CHR ''0'') @ ds) = decimal_value ds" for k ds
    by (induction k) (simp_all add: decimal_value_def digit_zero)
  moreover have "Itoa (int n) = Itoa_nat n" by (simp add: Itoa_def)
  ultimately show ?thesis using Itoa_nat_digits [of n]
    by (simp add: bearing_String_def n Let_def decimal_value_Itoa_nat digit_zero list_all_iff set_replicate_conv_if)
qed

lemma digits_of_spell: "list_all IsDigit ds \<Longrightarrow> digits_of (Fields (spell ds)) = ds"
proof -
  assume d: "list_all IsDigit ds"
  then have "digits_of (map (\<lambda>c. [c]) ds) = ds" by (induction ds) auto
  then show ?thesis by (simp add: Fields_spell d)
qed

text \<open>C35. A bearing survives the radio: what the composer speaks is the text it shows, digit by digit,
  and the parser reads it back as a magnetic bearing of the same whole degrees. (The degrees are
  those rounded; a bearing shown as 000 is read as 360.)\<close>

theorem spoken_bearing_understood:
  assumes "digit_lib lib"
  shows "Fields (pronounceBearing b) = map (\<lambda>c. [c]) (bearing_String b) \<and>
    fst (parseBearing lib (New (pronounceBearing b))) = (NewMagneticBearing (of_int (RoundedDegrees b)), True)"
proof -
  note bs = bearing_String_digits [of b]
  obtain x y z where xyz: "bearing_String b = [x, y, z]" using bs by (auto simp: length_Suc_conv numeral_3_eq_3)
  have u: "digits_of (unread (New (pronounceBearing b))) = bearing_String b"
    using bs by (simp add: unread_New pronounceBearing_shown digits_of_spell)
  have "real (decimal_value (bearing_String b)) = of_int (RoundedDegrees b)"
    using bs by (metis of_int_of_nat_eq)
  moreover have "add_digits 0 (bearing_String b) = int (decimal_value (bearing_String b))"
    by (simp add: xyz decimal_value_def)
  ultimately have "fst (parseBearing lib (New (pronounceBearing b))) = (NewMagneticBearing (of_int (RoundedDegrees b)), True)"
    using bearing_loop_enough [OF assms New_ok, of 0 "pronounceBearing b" 0] u bs
    by (simp add: parseBearing_def xyz)
  then show ?thesis using bs by (simp add: pronounceBearing_shown Fields_spell)
qed

theorem spoken_bearing_understood_witness:
  "fst (parseBearing demo_lib (New (pronounceBearing (NewMagneticBearing 45)))) = (NewMagneticBearing 45, True)"
proof -
  have "RoundedDegrees (NewMagneticBearing 45) = 45"
    by (simp add: RoundedDegrees_def normalize_id go_round_def)
  then show ?thesis using spoken_bearing_understood [OF demo_lib_digits, of "NewMagneticBearing 45"] by simp
qed

section \<open>Decimals\<close>

lemma go_trunc_add: "0 \<le> x \<Longrightarrow> x < 1 \<Longrightarrow> go_trunc (of_nat n + x) = int n"
  by (simp add: go_trunc_def floor_eq_iff)

lemma round_even_int: "round_even (of_nat n) = int n"
  by (simp add: round_even_def)

lemma Index_dot: "list_all IsDigit ds \<Longrightarrow> Index (ds @ ''.'' @ s) ''.'' = Some (length ds)"
  by (induction ds) (auto simp: HasPrefix_def IsDigit_def code_of_def)

lemma Cut_dot: "list_all IsDigit ds \<Longrightarrow> Cut (ds @ ''.'' @ s) ''.'' = (ds, s, True)"
  using Index_dot [of ds s] by (simp add: Cut_def)

lemma zero_padded_digits: "list_all IsDigit (zero_padded w m) \<and> zero_padded w m \<noteq> [] \<and> decimal_value (zero_padded w m) = m"
proof -
  have "decimal_value (replicate k (CHR ''0'') @ ds) = decimal_value ds" for k ds
    by (induction k) (simp_all add: decimal_value_def digit_zero)
  then show ?thesis
    using Itoa_nat_digits [of m]
    by (simp add: zero_padded_def decimal_value_Itoa_nat list_all_iff set_replicate_conv_if digit_zero)
qed

lemma Atoi_digits: "list_all IsDigit ds \<Longrightarrow> ds \<noteq> [] \<Longrightarrow> decimal_value ds < 2 ^ 63 \<Longrightarrow> Atoi ds = Some (int (decimal_value ds))"
proof -
  assume d: "list_all IsDigit ds" "ds \<noteq> []" "decimal_value ds < 2 ^ 63"
  then obtain c cs where c: "ds = c # cs" "IsDigit c" "list_all IsDigit cs" by (cases ds) auto
  have "c \<noteq> CHR ''-''" "c \<noteq> CHR ''+''" using c(2) by (auto simp: IsDigit_def code_of_def)
  moreover have "int (decimal_value ds) < 2 ^ 63" using d(3) by (metis of_nat_less_iff of_nat_numeral of_nat_power)
  ultimately show ?thesis using c d by (auto simp: Atoi_def Let_def)
qed

lemma format_fixed_exact:
  assumes "m < 10 ^ p" "0 < p"
  shows "format_fixed p (of_nat n + of_nat m / 10 ^ p) = Itoa_nat n @ ''.'' @ zero_padded p m"
proof -
  have "\<bar>of_nat n + of_nat m / 10 ^ p\<bar> * (10 ^ p :: real) = of_nat (n * 10 ^ p + m)"
    by (simp add: field_simps)
  then have "nat (round_even (\<bar>of_nat n + of_nat m / 10 ^ p :: real\<bar> * 10 ^ p)) = n * 10 ^ p + m"
    by (simp only: round_even_int nat_int)
  moreover have "\<not> (of_nat n + of_nat m / 10 ^ p :: real) < 0" by (simp add: not_less)
  ultimately show ?thesis using assms by (simp add: format_fixed_def)
qed

lemma pronounceDecimal_exact:
  assumes "m < 10 ^ p" "0 < p" "m < 2 ^ 63"
  shows "pronounceDecimal (of_nat n + of_nat m / 10 ^ p) p ''point'' =
    Some (pronounce_nat n @ '' point '' @ pronounce_nat m)"
proof -
  have "of_nat m < (10 ^ p :: real)" using assms(1) by (metis of_nat_less_iff of_nat_numeral of_nat_power)
  then have t: "go_trunc (of_nat n + of_nat m / 10 ^ p) = int n" by (intro go_trunc_add) simp_all
  have f: "format_fixed p (of_nat m / 10 ^ p) = Itoa_nat 0 @ ''.'' @ zero_padded p m"
    using format_fixed_exact [OF assms(1, 2), of 0] by simp
  have c: "fst (snd (Cut (format_fixed p (of_nat m / 10 ^ p)) ''.'')) = zero_padded p m"
    using Cut_dot [of "Itoa_nat 0"] Itoa_nat_digits [of 0] by (simp only: f) simp
  show ?thesis
    using zero_padded_digits [of p m] Atoi_digits [of "zero_padded p m"] assms(3)
    by (simp add: pronounceDecimal_def t c Let_def pronounceInt_def)
qed

text \<open>The fraction of a decimal is spoken as a number, so that its leading zeros are lost: of two
  decimals that differ in such a zero both are spoken alike. The sunrise call announces 132.05 MHz
  and 132.5 MHz in the same words.\<close>

lemma frequency_decimal_places:
  assumes "m < 1000"
  shows "frequency_decimal (of_nat n + of_nat m / 1000) =
    (let d = rev (dropWhile (\<lambda>c. c = CHR ''0'') (rev (Itoa_nat n @ ''.'' @ zero_padded 3 m)))
     in if HasSuffix d ''.'' then d @ ''0'' else d)"
  using format_fixed_exact [of m 3 n] assms by (simp add: frequency_decimal_def)

lemma sunrise_single:
  assumes "frequency_decimal (Megahertz f) = a @ ''.'' @ b" "list_all IsDigit a" "list_all IsDigit b"
    "pronounceDecimal (Megahertz f) (length b) ''point'' = Some spoken"
  shows "ComposeSunriseCall own [f] = Some
    \<lparr>Subtitle = ''All players: GCI '' @ composeCallsigns [own] @ '' (bot) sunrise on '' @ a @ ''.'' @ b,
     Speech = ''All players, GCI '' @ composeCallsigns [own] @ '' sunrise on '' @ spoken\<rparr>"
proof -
  have "Index b ''.'' = None"
    using assms(3) by (induction b) (auto simp: HasPrefix_def IsDigit_def code_of_def)
  then have "Split (a @ ''.'' @ b) ''.'' = [a, b]"
    using Index_dot [OF assms(2), of b] by (simp add: Split.simps [of "a @ CHR ''.'' # b" "''.''"] Split.simps [of b "''.''"])
  then show ?thesis using assms(1, 4) by (simp add: ComposeSunriseCall_def Let_def)
qed

theorem fraction_loses_zeros:
  assumes "m < 10 ^ p" and "0 < p" and "m < 2 ^ 63"
  shows "pronounceDecimal (of_nat n + of_nat m / 10 ^ p) p ''point'' =
      Some (pronounce_nat n @ '' point '' @ pronounce_nat m) \<and>
    pronounceDecimal (of_nat n + of_nat m / 10 ^ (p + 1)) (p + 1) ''point'' =
      pronounceDecimal (of_nat n + of_nat m / 10 ^ p) p ''point'' \<and>
    map_option Speech (ComposeSunriseCall own [132050000]) = map_option Speech (ComposeSunriseCall own [132500000]) \<and>
    map_option Subtitle (ComposeSunriseCall own [132050000]) \<noteq> map_option Subtitle (ComposeSunriseCall own [132500000])"
proof -
  have "m < 10 ^ (p + 1)" using assms(1) by simp
  note exact = pronounceDecimal_exact [OF this zero_less_Suc [of p, unfolded Suc_eq_plus1] assms(3), of n]
    pronounceDecimal_exact [OF assms, of n]
  have mhz: "Megahertz 132050000 = of_nat 132 + of_nat 50 / 1000" "Megahertz 132500000 = of_nat 132 + of_nat 500 / 1000"
    by (simp_all add: Megahertz_def)
  have "(50 :: nat) < 1000" "(500 :: nat) < 1000" by simp_all
  note places = frequency_decimal_places [OF this(1), of 132] frequency_decimal_places [OF this(2), of 132]
  have d: "frequency_decimal (Megahertz 132050000) = ''132'' @ ''.'' @ ''05''"
    unfolding mhz places by code_simp
  have d': "frequency_decimal (Megahertz 132500000) = ''132'' @ ''.'' @ ''5''"
    unfolding mhz places by code_simp
  have mhz': "Megahertz 132050000 = of_nat 132 + of_nat 5 / 10 ^ 2" "Megahertz 132500000 = of_nat 132 + of_nat 5 / 10 ^ 1"
    by (simp_all add: Megahertz_def)
  have "pronounceDecimal (Megahertz 132050000) 2 ''point'' = Some (pronounce_nat 132 @ '' point '' @ pronounce_nat 5)"
    unfolding mhz' by (rule pronounceDecimal_exact) simp_all
  moreover have "pronounceDecimal (Megahertz 132500000) 1 ''point'' = Some (pronounce_nat 132 @ '' point '' @ pronounce_nat 5)"
    unfolding mhz' by (rule pronounceDecimal_exact) simp_all
  ultimately have s: "pronounceDecimal (Megahertz 132050000) (length ''05'') ''point'' = Some (pronounce_nat 132 @ '' point '' @ pronounce_nat 5)"
      "pronounceDecimal (Megahertz 132500000) (length ''5'') ''point'' = Some (pronounce_nat 132 @ '' point '' @ pronounce_nat 5)"
    by (simp_all add: numeral_2_eq_2)
  have l: "list_all IsDigit ''132''" "list_all IsDigit ''05''" "list_all IsDigit ''5''" by code_simp+
  show ?thesis
    using sunrise_single [OF d l(1, 2) s(1), of own] sunrise_single [OF d' l(1, 3) s(2), of own] exact by simp
qed

theorem fraction_loses_zeros_witness:
  "pronounceDecimal (of_nat 251 + of_nat 25 / 10 ^ 3) 3 ''point'' = pronounceDecimal (of_nat 251 + of_nat 25 / 10 ^ 2) 2 ''point''"
  using fraction_loses_zeros [of 25 2 251] by simp

end
