(* ===== verification/Traces.thy ===== *)
theory Traces
  imports Composer
begin

text \<open>
  Request contexts and their reports (\<open>pkg/traces\<close>). A context is the list of the values that were
  put in it, the latest first. Times and durations are numbers of nanoseconds, and the zero time is 0;
  a time can itself serve as key. An error is its message.
\<close>

section \<open>Contexts\<close>

datatype contextKey =
    traceIDKey | errorKey | radioFrequencyKey | clientNameKey | playerNameKey | requestKey | requestTextKey
  | callTextKey | receivedAtKey | recognizedAtKey | parsedAtKey | handledAtKey | composedAtKey
  | synthesizedAtKey | submittedAtKey
  | TimeKey int

datatype context_value = VText string | VError string | VTime int | VRequest Request | VNil

type_synonym Context = "(contextKey \<times> context_value) list"

definition WithValue :: "contextKey \<Rightarrow> context_value \<Rightarrow> Context \<Rightarrow> Context" where
  "WithValue k v ctx = (k, v) # ctx"

definition ctx_Value :: "contextKey \<Rightarrow> Context \<Rightarrow> context_value" where
  "ctx_Value k ctx = (case map_of ctx k of None \<Rightarrow> VNil | Some v \<Rightarrow> v)"

text \<open>\<open>getValue\<close> at the types it is used with. The type assertions never fail, since each key only
  has values of its type.\<close>

definition get_text :: "contextKey \<Rightarrow> Context \<Rightarrow> string" where
  "get_text k ctx = (case ctx_Value k ctx of VText s \<Rightarrow> s | _ \<Rightarrow> [])"

definition get_time :: "contextKey \<Rightarrow> Context \<Rightarrow> int" where
  "get_time k ctx = (case ctx_Value k ctx of VTime t \<Rightarrow> t | _ \<Rightarrow> 0)"

definition WithTraceID :: "string \<Rightarrow> Context \<Rightarrow> Context" where "WithTraceID s = WithValue traceIDKey (VText s)"
definition GetTraceID :: "Context \<Rightarrow> string" where "GetTraceID = get_text traceIDKey"
definition WithRequestError :: "string \<Rightarrow> Context \<Rightarrow> Context" where "WithRequestError e = WithValue errorKey (VError e)"
definition GetRequestError :: "Context \<Rightarrow> string option" where
  "GetRequestError ctx = (case ctx_Value errorKey ctx of VError e \<Rightarrow> Some e | _ \<Rightarrow> None)"
definition WithClientName :: "string \<Rightarrow> Context \<Rightarrow> Context" where "WithClientName s = WithValue clientNameKey (VText s)"
definition GetClientName :: "Context \<Rightarrow> string" where "GetClientName = get_text clientNameKey"
definition WithPlayerName :: "string \<Rightarrow> Context \<Rightarrow> Context" where "WithPlayerName s = WithValue playerNameKey (VText s)"
definition GetPlayerName :: "Context \<Rightarrow> string" where "GetPlayerName = get_text playerNameKey"
definition WithRequest :: "Request \<Rightarrow> Context \<Rightarrow> Context" where "WithRequest r = WithValue requestKey (VRequest r)"
definition GetRequest :: "Context \<Rightarrow> Request option" where
  "GetRequest ctx = (case ctx_Value requestKey ctx of VRequest r \<Rightarrow> Some r | _ \<Rightarrow> None)"
definition WithRequestText :: "string \<Rightarrow> Context \<Rightarrow> Context" where "WithRequestText s = WithValue requestTextKey (VText s)"
definition GetRequestText :: "Context \<Rightarrow> string" where "GetRequestText = get_text requestTextKey"
definition WithoutRequestText :: "Context \<Rightarrow> Context" where "WithoutRequestText = WithValue requestTextKey VNil"
definition WithCallText :: "string \<Rightarrow> Context \<Rightarrow> Context" where "WithCallText s = WithValue callTextKey (VText s)"
definition GetCallText :: "Context \<Rightarrow> string" where "GetCallText = get_text callTextKey"
definition WithReceivedAt :: "int \<Rightarrow> Context \<Rightarrow> Context" where "WithReceivedAt t = WithValue receivedAtKey (VTime t)"
definition GetReceivedAt :: "Context \<Rightarrow> int" where "GetReceivedAt = get_time receivedAtKey"
definition WithRecognizedAt :: "int \<Rightarrow> Context \<Rightarrow> Context" where "WithRecognizedAt t = WithValue recognizedAtKey (VTime t)"
definition GetRecognizedAt :: "Context \<Rightarrow> int" where "GetRecognizedAt = get_time recognizedAtKey"
definition WithParsedAt :: "int \<Rightarrow> Context \<Rightarrow> Context" where "WithParsedAt t = WithValue (TimeKey t) (VTime t)"
definition GetParsedAt :: "Context \<Rightarrow> int" where "GetParsedAt = get_time parsedAtKey"
definition WithHandledAt :: "int \<Rightarrow> Context \<Rightarrow> Context" where "WithHandledAt t = WithValue handledAtKey (VTime t)"
definition GetHandledAt :: "Context \<Rightarrow> int" where "GetHandledAt = get_time handledAtKey"
definition WithComposedAt :: "int \<Rightarrow> Context \<Rightarrow> Context" where "WithComposedAt t = WithValue composedAtKey (VTime t)"
definition GetComposedAt :: "Context \<Rightarrow> int" where "GetComposedAt = get_time composedAtKey"
definition WithSynthesizedAt :: "int \<Rightarrow> Context \<Rightarrow> Context" where "WithSynthesizedAt t = WithValue synthesizedAtKey (VTime t)"
definition GetSynthesizedAt :: "Context \<Rightarrow> int" where "GetSynthesizedAt = get_time synthesizedAtKey"
definition WithSubmittedAt :: "int \<Rightarrow> Context \<Rightarrow> Context" where "WithSubmittedAt t = WithValue submittedAtKey (VTime t)"
definition GetSubmittedAt :: "Context \<Rightarrow> int" where "GetSubmittedAt = get_time submittedAtKey"

lemmas context_defs =
  WithTraceID_def GetTraceID_def WithRequestError_def GetRequestError_def WithClientName_def GetClientName_def
  WithPlayerName_def GetPlayerName_def WithRequest_def GetRequest_def WithRequestText_def GetRequestText_def
  WithoutRequestText_def WithCallText_def GetCallText_def WithReceivedAt_def GetReceivedAt_def
  WithRecognizedAt_def GetRecognizedAt_def WithParsedAt_def GetParsedAt_def WithHandledAt_def GetHandledAt_def
  WithComposedAt_def GetComposedAt_def WithSynthesizedAt_def GetSynthesizedAt_def WithSubmittedAt_def
  GetSubmittedAt_def

text \<open>A new trace ID is random: it is an argument.\<close>

definition NewRequestContext :: "string \<Rightarrow> Context" where
  "NewRequestContext uuid = WithTraceID uuid []"

section \<open>Requests as text\<close>

text \<open>The \<open>String\<close> methods of the requests in \<open>pkg/brevity\<close>, as \<open>fmt.Sprint\<close> uses them.\<close>

fun category_String :: "ContactCategory \<Rightarrow> string" where
  "category_String Aircraft = ''Aircraft''"
| "category_String FixedWing = ''Fixed Wing''"
| "category_String RotaryWing = ''Rotary Wing''"

definition stack_String :: "units \<Rightarrow> Stack \<Rightarrow> string" where
  "stack_String u s = Itoa (stack_Count s) @ '' '' @ format_fixed 0 (Feet u (stack_Altitude s))"

definition bullseye_text :: "units \<Rightarrow> Bullseye \<Rightarrow> string" where
  "bullseye_text u b = bearing_String (v_bearing b) @ ''/'' @ format_fixed 0 (NauticalMiles u (Range u b))"

definition bra_String :: "units \<Rightarrow> BRA \<Rightarrow> string" where
  "bra_String u b =
     ''BRA '' @ bearing_String (v_bearing b) @ ''/'' @ format_fixed 0 (NauticalMiles u (Range u b)) @ '' '' @
     format_fixed 0 (Feet u (BRA_Altitude u b)) @
     (if length (bra_stacks b) > 1 then '' (['' @ Join (map (stack_String u) (bra_stacks b)) '' '' @ ''])'' else [])"

definition declare_String :: "units \<Rightarrow> DeclareRequest \<Rightarrow> string" where
  "declare_String u r =
     (let s = ''DECLARE for '' @ declare_Callsign r @ '': ''
      in if declare_Sour r then s @ ''No coordinates provided''
         else let s = s @
             (if IsBRAA r
              then ''bearing '' @ (case declare_Bearing r of None \<Rightarrow> ''%!s(<nil>)'' | Some b \<Rightarrow> bearing_String b) @
                   '', range '' @ format_fixed 0 (NauticalMiles u (declare_Range r)) @
                   (if declare_Altitude r \<noteq> 0 then '', altitude '' @ format_fixed 0 (Feet u (declare_Altitude r)) else [])
              else ''bullseye '' @ (case declare_Bullseye r of None \<Rightarrow> ''<nil>'' | Some b \<Rightarrow> bullseye_text u b))
         in if declare_Track r \<noteq> UnknownDirection then s @ '', track '' @ track_string (declare_Track r) else s)"

fun request_String :: "units \<Rightarrow> Request \<Rightarrow> string" where
  "request_String u (AlphaCheckRequest c) = ''ALPHA CHECK for '' @ c"
| "request_String u (RadioCheckRequest c) = ''RADIO CHECK for '' @ c"
| "request_String u (BogeyDopeRequest c category) = ''BOGEY DOPE for '' @ c @ '': filter '' @ category_String category"
| "request_String u (Declare r) = declare_String u r"
| "request_String u (PictureRequest c) = (if c = [] then ''PICTURE'' else ''PICTURE for '' @ c)"
| "request_String u (SpikedRequest c b) = ''SPIKED for '' @ c @ '': bearing '' @ bearing_String b"
| "request_String u (StrobeRequest c b) = ''STROBE for '' @ c @ '': bearing '' @ bearing_String b"
| "request_String u (SnaplockRequest c b) = ''SNAPLOCK for '' @ c @ '': bra '' @ bra_String u b"
| "request_String u (TripwireRequest c) = ''TRIPWIRE for '' @ c"
| "request_String u (ShoppingRequest c) = ''SHOPPING for '' @ c"
| "request_String u (VectorRequest c l) = ''VECTOR to '' @ l @ '' for '' @ c"
| "request_String u (CheckInRequest c) = ''CHECK-IN for '' @ c"
| "request_String u (UnableToUnderstandRequest c) =
     (if c \<noteq> [] then ''UNABLE TO UNDERSTAND: callsign '' @ c else ''UNABLE TO UNDERSTAND: unknown callsign'')"

section \<open>Reports\<close>

record embed_field =
  field_Name :: string
  field_Value :: string
  field_Inline :: bool

definition escape :: "string \<Rightarrow> string" where
  "escape s = ReplaceAll s ''`'' [CHR 0x5C, CHR ''`'']"

definition sanitize :: "string \<Rightarrow> string" where
  "sanitize s = ''`'' @ escape s @ ''`''"

text \<open>\<open>fmt.Sprintf("%q")\<close> on text without control characters.\<close>

definition quoted :: "string \<Rightarrow> string" where
  "quoted s = [CHR 0x22] @ concat (map (\<lambda>c. if c = CHR 0x22 \<or> c = CHR 0x5C then [CHR 0x5C, c] else [c]) s) @ [CHR 0x22]"

definition millisecond :: int where "millisecond = 1000000"

text \<open>\<open>Duration.Round(time.Millisecond)\<close>: half away from zero.\<close>

definition round_ms :: "int \<Rightarrow> int" where
  "round_ms d = (if d < 0 then - ((- d + millisecond div 2) div millisecond * millisecond)
     else (d + millisecond div 2) div millisecond * millisecond)"

text \<open>\<open>Duration.String\<close> of a positive number of whole milliseconds.\<close>

definition duration_String :: "int \<Rightarrow> string" where
  "duration_String d =
     (let ms = nat (d div millisecond); secs = ms div 1000; frac = ms mod 1000
      in if ms < 1000 then Itoa_nat ms @ ''ms''
         else (if secs \<ge> 3600 then Itoa_nat (secs div 3600) @ ''h'' else []) @
              (if secs \<ge> 60 then Itoa_nat (secs div 60 mod 60) @ ''m'' else []) @
              Itoa_nat (secs mod 60) @
              (if frac = 0 then [] else ''.'' @ rev (dropWhile (\<lambda>c. c = CHR ''0'') (rev (zero_padded 3 frac)))) @ ''s'')"

definition addTiming :: "string \<Rightarrow> int \<Rightarrow> int \<Rightarrow> (string \<times> int) list \<Rightarrow> (string \<times> int) list" where
  "addTiming stage start finish timings =
     (if start \<noteq> 0 \<and> finish \<noteq> 0
      then let duration = round_ms (finish - start)
           in if duration > millisecond then timings @ [(stage, duration)] else timings
      else timings)"

definition timings_of :: "Context \<Rightarrow> (string \<times> int) list" where
  "timings_of ctx =
     (let receivedAt = GetReceivedAt ctx; recognizedAt = GetRecognizedAt ctx; parsedAt = GetParsedAt ctx;
          handledAt = GetHandledAt ctx; composedAt = GetComposedAt ctx; synthesizedAt = GetSynthesizedAt ctx;
          submittedAt = GetSubmittedAt ctx
      in addTiming ''Submission'' synthesizedAt submittedAt
          (addTiming ''Synthesis'' composedAt synthesizedAt
          (addTiming ''Composition'' handledAt composedAt
          (addTiming ''Handling'' parsedAt handledAt
          (addTiming ''Parsing'' recognizedAt parsedAt
          (addTiming ''Recognition'' receivedAt recognizedAt []))))))"

definition formatTimings :: "Context \<Rightarrow> embed_field list" where
  "formatTimings ctx =
     (let timings = timings_of ctx
      in if length timings > 0
         then map (\<lambda>(stage, duration). \<lparr>field_Name = stage, field_Value = duration_String duration, field_Inline = True\<rparr>) timings @
              [\<lparr>field_Name = ''Total'', field_Value = duration_String (sum_list (map snd timings)), field_Inline = True\<rparr>]
         else [])"

definition text_field :: "string \<Rightarrow> string \<Rightarrow> embed_field list" where
  "text_field name value = [\<lparr>field_Name = name, field_Value = value, field_Inline = False\<rparr>]"

definition createReport :: "units \<Rightarrow> Context \<Rightarrow> string \<times> embed_field list" where
  "createReport u ctx =
     (let clientName = GetClientName ctx; playerName = GetPlayerName ctx; text = GetRequestText ctx;
          request = GetRequest ctx; traceID = GetTraceID ctx
      in (''GCI Workflow Report'' @ (if traceID \<noteq> [] then '' '' @ sanitize traceID else []),
          (if clientName \<noteq> [] then text_field ''SRS Client Name'' (sanitize (escape clientName)) else []) @
          (if playerName \<noteq> [] then text_field ''DCS Player Name'' (sanitize (escape playerName)) else []) @
          (if text \<noteq> [] then text_field ''Request'' (quoted (escape text)) else []) @
          (case request of None \<Rightarrow> [] | Some r \<Rightarrow> text_field ''Parsed'' (sanitize (request_String u r))) @
          (case GetRequestError ctx of None \<Rightarrow> [] | Some e \<Rightarrow> text_field ''Error'' (''`'' @ e @ ''`'')) @
          (if GetCallText ctx \<noteq> []
           then text_field (if request \<noteq> None then ''Response'' else ''Broadcast'') (quoted (GetCallText ctx)) else []) @
          formatTimings ctx))"

text \<open>The fields that \<open>LogTracer\<close> writes.\<close>

datatype log_value = LogText string | LogRequest Request

definition log_fields :: "Context \<Rightarrow> (string \<times> log_value) list" where
  "log_fields ctx =
     (if GetTraceID ctx \<noteq> [] then [(''traceID'', LogText (GetTraceID ctx))] else []) @
     (if GetClientName ctx \<noteq> [] then [(''clientName'', LogText (GetClientName ctx))] else []) @
     (if GetRequestText ctx \<noteq> [] then [(''requestText'', LogText (GetRequestText ctx))] else []) @
     (case GetRequest ctx of None \<Rightarrow> [] | Some r \<Rightarrow> [(''request'', LogRequest r)]) @
     (if GetCallText ctx \<noteq> [] then [(''callText'', LogText (GetCallText ctx))] else [])"

section \<open>Reading back what was put in\<close>

lemma ctx_Value_WithValue [simp]: "ctx_Value k (WithValue k' v ctx) = (if k = k' then v else ctx_Value k ctx)"
  by (simp add: ctx_Value_def WithValue_def)

lemma get_text_WithValue [simp]:
  "get_text k (WithValue k' v ctx) = (if k = k' then (case v of VText s \<Rightarrow> s | _ \<Rightarrow> []) else get_text k ctx)"
  by (simp add: get_text_def)

lemma get_time_WithValue [simp]:
  "get_time k (WithValue k' v ctx) = (if k = k' then (case v of VTime t \<Rightarrow> t | _ \<Rightarrow> 0) else get_time k ctx)"
  by (simp add: get_time_def)

end
