(* ===== verification/SrsReceiver.thy ===== *)
theory SrsReceiver
  imports SrsClient
begin

text \<open>
  The audio side of the SRS client: routing of UDP datagrams (\<open>net.go\<close>, \<open>ping.go\<close>),
  buffering of received transmissions (\<open>receive.go\<close>), framing of outgoing audio and its
  timing (\<open>voice.go\<close>, \<open>transmit.go\<close>). The goroutines are steps of one transition relation
  that communicate over the queues the code calls channels. The Opus codec and the bits of a
  \<open>float64\<close> are parameters.
\<close>

definition frameLength :: int where "frameLength = 40 * 10 ^ 6"
definition frameSize :: nat where "frameSize = 1 * 40 * 16"
definition maxRxGap :: int where "maxRxGap = 300 * 10 ^ 6"
definition MaxTransmissionDuration :: int where "MaxTransmissionDuration = 30 * 10 ^ 9"
definition maxRxPackets :: nat where "maxRxPackets = nat (MaxTransmissionDuration div frameLength)"
definition minRxDuration :: int where "minRxDuration = 1 * 10 ^ 9"

lemma maxRxPackets_value [simp]: "maxRxPackets = 750"
  by (simp add: maxRxPackets_def MaxTransmissionDuration_def frameLength_def)

lemma frameSize_value [simp]: "frameSize = 640"
  by (simp add: frameSize_def)

section \<open>One receiver\<close>

definition receive :: "int \<Rightarrow> Packet \<Rightarrow> receiver \<Rightarrow> receiver" where
  "receive now packet r =
     (let isNewTransmission = origin r = [] \<and> rx_packetNumber r = 0;
          isNewerPacket = PacketID packet > rx_packetNumber r;
          isSameOrigin = origin r = OriginGUID packet
      in if \<not> (isNewTransmission \<or> (isNewerPacket \<and> isSameOrigin)) then r
         else r\<lparr>buffer := (if length (buffer r) < maxRxPackets then buffer r @ [packet] else buffer r),
                origin := OriginGUID packet, deadline := now + maxRxGap,
                rx_packetNumber := PacketID packet\<rparr>)"

definition hasTransmission :: "int \<Rightarrow> receiver \<Rightarrow> bool" where
  "hasTransmission now r \<longleftrightarrow> 0 < length (buffer r) \<and> now > deadline r"

definition isReceivingTransmission :: "int \<Rightarrow> receiver \<Rightarrow> bool" where
  "isReceivingTransmission now r \<longleftrightarrow> deadline r > now"

text \<open>
  A receiver is idle, or holds packets of one origin with increasing numbers, at most
  \<open>maxRxPackets\<close> of them.
\<close>

definition one_speaker :: "GUID \<Rightarrow> Packet list \<Rightarrow> bool" where
  "one_speaker g ps \<longleftrightarrow> list_all (\<lambda>p. wf_packet p \<and> OriginGUID p = g) ps \<and>
     sorted_wrt (<) (map PacketID ps) \<and> length ps \<le> maxRxPackets"

definition rx_ok :: "receiver \<Rightarrow> bool" where
  "rx_ok r \<longleftrightarrow>
     (if origin r = [] then r = empty_receiver else buffer r \<noteq> []) \<and>
     one_speaker (origin r) (buffer r) \<and> list_all (\<lambda>p. PacketID p \<le> rx_packetNumber r) (buffer r)"

lemma wf_origin: "wf_packet p \<Longrightarrow> OriginGUID p \<noteq> []"
  by (auto simp: wf_packet_def)

lemma one_speaker_snoc:
  "one_speaker g ps \<Longrightarrow> length ps < maxRxPackets \<Longrightarrow> wf_packet p \<Longrightarrow> OriginGUID p = g \<Longrightarrow>
   list_all (\<lambda>q. PacketID q < PacketID p) ps \<Longrightarrow> one_speaker g (ps @ [p])"
  by (auto simp: one_speaker_def sorted_wrt_append list_all_iff)

lemma empty_receiver_ok: "rx_ok empty_receiver"
  by (simp add: rx_ok_def empty_receiver_def one_speaker_def)

lemma receive_idle:
  "receive now p empty_receiver =
    \<lparr>buffer = [p], origin = OriginGUID p, deadline = now + maxRxGap, rx_packetNumber = PacketID p\<rparr>"
  by (simp add: receive_def empty_receiver_def)

lemma receive_busy:
  "origin r \<noteq> [] \<Longrightarrow> receive now p r =
    (if PacketID p > rx_packetNumber r \<and> origin r = OriginGUID p
     then r\<lparr>buffer := (if length (buffer r) < maxRxPackets then buffer r @ [p] else buffer r),
            origin := OriginGUID p, deadline := now + maxRxGap, rx_packetNumber := PacketID p\<rparr>
     else r)"
  by (simp add: receive_def Let_def)

lemma receive_ok: "rx_ok r \<Longrightarrow> wf_packet p \<Longrightarrow> rx_ok (receive now p r)"
proof (cases "origin r = []")
  case True
  assume "rx_ok r" "wf_packet p"
  with True have "r = empty_receiver" by (simp add: rx_ok_def)
  with \<open>wf_packet p\<close> show ?thesis
    by (simp add: receive_idle rx_ok_def one_speaker_def wf_origin)
next
  case False
  assume r: "rx_ok r" and p: "wf_packet p"
  show ?thesis
  proof (cases "PacketID p > rx_packetNumber r \<and> origin r = OriginGUID p")
    case True
    then have lt: "list_all (\<lambda>q. PacketID q < PacketID p) (buffer r)"
      using r by (auto simp: rx_ok_def list_all_iff)
    then have le: "list_all (\<lambda>q. PacketID q \<le> PacketID p) (buffer r)"
      by (auto simp: list_all_iff)
    have old: "one_speaker (origin r) (buffer r)" "buffer r \<noteq> []"
      using r False by (simp_all add: rx_ok_def)
    have new: "one_speaker (origin r) (buffer r @ [p])" if "length (buffer r) < maxRxPackets"
      by (rule one_speaker_snoc [OF old(1) that p _ lt]) (simp add: True)
    show ?thesis
      unfolding receive_busy [OF False] if_P [OF True] rx_ok_def
      using old new le wf_origin [OF p] True by simp
  next
    case no: False
    then show ?thesis using r False unfolding receive_busy [OF False] if_not_P [OF no] by simp
  qed
qed

lemma receiver_reset_empty: "receiver_reset r = empty_receiver"
  by (simp add: receiver_reset_def empty_receiver_def)

section \<open>The contract of a transmission buffer\<close>

text \<open>
  What the receiving loop needs of the buffer of one radio: packets keep its invariant, and
  whatever it hands over when it is ready satisfies \<open>complete\<close>.
\<close>

locale transmission_buffer =
  fixes recv :: "int \<Rightarrow> 'p \<Rightarrow> 'r \<Rightarrow> 'r" and ready :: "int \<Rightarrow> 'r \<Rightarrow> bool"
    and contents :: "'r \<Rightarrow> 'p list" and clear :: "'r \<Rightarrow> 'r" and inv :: "'r \<Rightarrow> bool"
    and good :: "'p \<Rightarrow> bool" and complete :: "'p list \<Rightarrow> bool"
  assumes recv_inv: "inv r \<Longrightarrow> good p \<Longrightarrow> inv (recv now p r)"
    and clear_inv: "inv (clear r)"
    and clear_idle: "\<not> ready now (clear r)"
    and ready_complete: "inv r \<Longrightarrow> ready now r \<Longrightarrow> complete (contents r)"
begin

lemma recv_all_inv: "inv r \<Longrightarrow> list_all (\<lambda>(t, p). good p) tps \<Longrightarrow> inv (fold (\<lambda>(t, p). recv t p) tps r)"
  by (induction tps arbitrary: r) (auto simp: recv_inv)

text \<open>One pass over all radios: each receives the packet some number of times.\<close>

lemma deliver_inv:
  "list_all (\<lambda>(k, r). inv r) rs \<Longrightarrow> good p \<Longrightarrow>
   list_all (\<lambda>(k, r). inv r) (map (\<lambda>(k, r). (k, fold (\<lambda>f r. if match f k then recv now p r else r) fs r)) rs)"
proof -
  assume rs: "list_all (\<lambda>(k, r). inv r) rs" and p: "good p"
  have "inv r \<Longrightarrow> inv (fold (\<lambda>f r. if match f k then recv now p r else r) fs r)" for k r
    by (induction fs arbitrary: r) (auto simp: recv_inv p)
  with rs show ?thesis by (auto simp: list_all_iff)
qed

text \<open>One tick: ready buffers are handed over and cleared, the others are left alone.\<close>

lemma tick_inv:
  "list_all (\<lambda>(k, r). inv r) rs \<Longrightarrow>
   list_all (\<lambda>(k, r). inv r \<and> \<not> ready now r)
     (map (\<lambda>(k, r). (k, if ready now r then clear r else r)) rs)"
  by (auto simp: list_all_iff clear_inv clear_idle split: if_splits)

lemma tick_complete:
  "list_all (\<lambda>(k, r). inv r) rs \<Longrightarrow>
   list_all complete (map (contents \<circ> snd) (filter (\<lambda>(k, r). ready now r) rs))"
  by (auto simp: list_all_iff ready_complete)

end

definition speech :: "Packet list \<Rightarrow> bool" where
  "speech ps \<longleftrightarrow> ps \<noteq> [] \<and> (\<exists>g. one_speaker g ps)"

interpretation rx: transmission_buffer receive hasTransmission buffer receiver_reset rx_ok wf_packet speech
proof
  show "rx_ok r \<Longrightarrow> wf_packet p \<Longrightarrow> rx_ok (receive now p r)" for r p now by (rule receive_ok)
  show "rx_ok (receiver_reset r)" for r by (simp add: receiver_reset_empty empty_receiver_ok)
  show "\<not> hasTransmission now (receiver_reset r)" for now r
    by (simp add: hasTransmission_def receiver_reset_def)
  show "rx_ok r \<Longrightarrow> hasTransmission now r \<Longrightarrow> speech (buffer r)" for r now
    by (auto simp: rx_ok_def hasTransmission_def speech_def)
qed

section \<open>The receiving loop\<close>

definition radio_match :: "(u64 \<Rightarrow> real option) \<Rightarrow> Frequency \<Rightarrow> Radio \<Rightarrow> bool" where
  "radio_match f64 f radio =
     (case f64 (freq_bits f) of None \<Rightarrow> False
      | Some hz \<Rightarrow> Radio_IsSameFrequency
          \<lparr>radio_Frequency = hz, radio_Modulation = Modulation f, IsEncrypted = (Encryption f \<noteq> 0),
           EncryptionKey = 0, GuardFrequency = 0, ShouldRetransmit = False\<rparr> radio)"

definition deliver :: "(u64 \<Rightarrow> real option) \<Rightarrow> int \<Rightarrow> Packet \<Rightarrow> Client \<Rightarrow> Client" where
  "deliver f64 now packet c =
     c\<lparr>receivers := map (\<lambda>(radio, r). (radio,
         fold (\<lambda>f r. if radio_match f64 f radio then receive now packet r else r) (Frequencies packet) r))
       (receivers c)\<rparr>"

definition is_blocked :: "Packet \<Rightarrow> Client \<Rightarrow> bool" where
  "is_blocked packet c \<longleftrightarrow> secureCoalitionRadios c \<and>
     (case map_of (clients c) (OriginGUID packet) of None \<Rightarrow> True
      | Some client \<Rightarrow> client_Coalition client \<noteq> client_Coalition (clientInfo c))"

definition voice_datagram :: "(u64 \<Rightarrow> real option) \<Rightarrow> int \<Rightarrow> byte list \<Rightarrow> Client \<Rightarrow> Client" where
  "voice_datagram f64 now b c =
     (case Decode b of Inl err \<Rightarrow> c
      | Inr packet \<Rightarrow> if is_blocked packet c then c else deliver f64 now packet c)"

definition voice_tick :: "int \<Rightarrow> Client \<Rightarrow> Client \<times> Packet list list" where
  "voice_tick now c =
     (c\<lparr>receivers := map (\<lambda>(radio, r). (radio, if hasTransmission now r then receiver_reset r else r))
          (receivers c)\<rparr>,
      filter (\<lambda>ps. int (length ps) * frameLength > minRxDuration)
        (map (buffer \<circ> snd) (filter (\<lambda>(radio, r). hasTransmission now r) (receivers c))))"

section \<open>The client as a transition system\<close>

record Srs =
  client :: Client
  pingChan :: "byte list list"
  voiceChan :: "byte list list"
  rxVoice :: "Packet list list"

text \<open>\<open>receiveUDP\<close> reads at most 1500 bytes of a datagram and routes it by length.\<close>

definition route_datagram :: "byte list \<Rightarrow> Srs \<Rightarrow> Srs" where
  "route_datagram datagram s =
     (let packet = take 1500 datagram; n = length packet
      in if n = 0 then s
         else if n < GUIDLength then s
         else if n = GUIDLength then s\<lparr>pingChan := pingChan s @ [packet]\<rparr>
         else s\<lparr>voiceChan := voiceChan s @ [packet]\<rparr>)"

definition receive_ping :: "int \<Rightarrow> byte list \<Rightarrow> Client \<Rightarrow> Client" where
  "receive_ping now b c =
     (if length b < GUIDLength then c else if length b > GUIDLength then c else c\<lparr>lastPing := now\<rparr>)"

inductive srs_step :: "(u64 \<Rightarrow> real option) \<Rightarrow> (Message \<Rightarrow> bool) \<Rightarrow> Srs \<Rightarrow> Srs \<Rightarrow> bool"
  for f64 :: "u64 \<Rightarrow> real option" and tcp :: "Message \<Rightarrow> bool" where
  step_message: "srs_step f64 tcp s (s\<lparr>client := handleMessage tcp m (client s)\<rparr>)"
| step_udp: "srs_step f64 tcp s (route_datagram datagram s)"
| step_ping: "pingChan s = b # bs \<Longrightarrow>
    srs_step f64 tcp s (s\<lparr>pingChan := bs, client := receive_ping now b (client s)\<rparr>)"
| step_voice: "voiceChan s = b # bs \<Longrightarrow>
    srs_step f64 tcp s (s\<lparr>voiceChan := bs, client := voice_datagram f64 now b (client s)\<rparr>)"
| step_tick: "voiceChan s = [] \<Longrightarrow> voice_tick now (client s) = (c, out) \<Longrightarrow>
    srs_step f64 tcp s (s\<lparr>client := c, rxVoice := rxVoice s @ out\<rparr>)"
| step_send_ping: "srs_step f64 tcp s (s\<lparr>client := SendPing tcp (client s)\<rparr>)"
| step_heal: "srs_step f64 tcp s (s\<lparr>client := autoheal_tick tcp reconnected now (client s)\<rparr>)"

inductive_cases srs_step_cases: "srs_step f64 tcp s s'"

inductive srs_reachable :: "(u64 \<Rightarrow> real option) \<Rightarrow> (Message \<Rightarrow> bool) \<Rightarrow> Client \<Rightarrow> Srs \<Rightarrow> bool"
  for f64 :: "u64 \<Rightarrow> real option" and tcp :: "Message \<Rightarrow> bool" and c :: Client where
  reach_start: "srs_reachable f64 tcp c \<lparr>client = c, pingChan = [], voiceChan = [], rxVoice = []\<rparr>"
| reach_step: "srs_reachable f64 tcp c s \<Longrightarrow> srs_step f64 tcp s s' \<Longrightarrow> srs_reachable f64 tcp c s'"

section \<open>What is published to the decoder\<close>

definition publishable :: "Packet list \<Rightarrow> bool" where
  "publishable ps \<longleftrightarrow> (\<exists>g. one_speaker g ps) \<and> 25 < length ps"

definition receivers_ok :: "Client \<Rightarrow> bool" where
  "receivers_ok c \<longleftrightarrow> list_all (\<lambda>(radio, r). rx_ok r) (receivers c)"

definition srs_ok :: "Srs \<Rightarrow> bool" where
  "srs_ok s \<longleftrightarrow> receivers_ok (client s) \<and> peers_ok (client s) \<and> list_all publishable (rxVoice s) \<and>
     list_all (\<lambda>b. length b = GUIDLength) (pingChan s) \<and>
     list_all (\<lambda>b. GUIDLength < length b \<and> length b \<le> 1500) (voiceChan s)"

lemma receivers_ok_cong: "receivers c' = receivers c \<Longrightarrow> receivers_ok c' = receivers_ok c"
  by (simp add: receivers_ok_def)

lemma SendPing_frame [simp]:
  "clients (SendPing tcp c) = clients c" "clientInfo (SendPing tcp c) = clientInfo c"
  "receivers (SendPing tcp c) = receivers c"
  by (auto simp: SendPing_def Let_def split: sum.splits dest: Send_frame)

lemma initialize_frame:
  assumes "initialize tcp c = Inr c'"
  shows "clients c' = clients c \<and> clientInfo c' = clientInfo c \<and>
    receivers c' = map (\<lambda>(radio, r). (radio, receiver_reset r)) (receivers c)"
  using assms
  by (auto simp: initialize_def sync_def connectExternalAWACSMode_def split: sum.splits dest!: Send_frame)

lemma autoheal_ok [inv_intros]:
  "receivers_ok c \<Longrightarrow> receivers_ok (autoheal_tick tcp rec now c)"
  "peers_ok c \<Longrightarrow> peers_ok (autoheal_tick tcp rec now c)"
  by (auto simp: autoheal_tick_def receivers_ok_def peers_ok_def receiver_reset_empty empty_receiver_ok
      list_all_iff split: sum.splits dest!: initialize_frame)

lemma voice_datagram_receivers_ok [inv_intros]:
  "receivers_ok c \<Longrightarrow> receivers_ok (voice_datagram f64 now b c)"
  using rx.deliver_inv [of "receivers c" _ "\<lambda>f radio. radio_match f64 f radio" now]
    Decode_accepts [of b]
  by (auto simp: voice_datagram_def deliver_def receivers_ok_def split: sum.splits)

lemma voice_datagram_frame [simp]:
  "clients (voice_datagram f64 now b c) = clients c" "clientInfo (voice_datagram f64 now b c) = clientInfo c"
  by (simp_all add: voice_datagram_def deliver_def split: sum.splits)

lemma voice_tick_ok:
  assumes "receivers_ok c" and "voice_tick now c = (c', out)"
  shows "receivers_ok c' \<and> list_all publishable out \<and> clients c' = clients c \<and> clientInfo c' = clientInfo c"
proof -
  have rs: "list_all (\<lambda>(radio, r). rx_ok r) (receivers c)" using assms(1) by (simp add: receivers_ok_def)
  have "list_all speech (map (buffer \<circ> snd) (filter (\<lambda>(radio, r). hasTransmission now r) (receivers c)))"
    using rx.tick_complete [OF rs] .
  then have "list_all publishable out"
    using assms(2)
    by (auto simp: voice_tick_def list_all_iff publishable_def speech_def minRxDuration_def frameLength_def)
  moreover have "receivers_ok c'"
    using rx.tick_inv [OF rs, of now] assms(2)
    by (auto simp: voice_tick_def receivers_ok_def list_all_iff)
  ultimately show ?thesis using assms(2) by (auto simp: voice_tick_def)
qed

lemma route_datagram_ok [inv_intros]: "srs_ok s \<Longrightarrow> srs_ok (route_datagram datagram s)"
  by (auto simp: route_datagram_def srs_ok_def Let_def packet_consts)

lemma srs_step_ok [inv_intros]: "srs_step f64 tcp s s' \<Longrightarrow> srs_ok s \<Longrightarrow> srs_ok s'"
proof (induction rule: srs_step.induct)
  case (step_message s m)
  then show ?case
    using receivers_ok_cong [of "handleMessage tcp m (client s)" "client s"]
    by (simp add: srs_ok_def handleMessage_peers_ok)
next
  case (step_udp s datagram)
  then show ?case by (rule route_datagram_ok)
next
  case (step_ping s b bs now)
  then show ?case
    by (auto simp: srs_ok_def receive_ping_def receivers_ok_def peers_ok_def)
next
  case (step_voice s b bs now)
  then show ?case
    using peers_ok_cong [of "voice_datagram f64 now b (client s)" "client s"]
    by (auto simp: srs_ok_def voice_datagram_receivers_ok)
next
  case (step_tick s now c out)
  then show ?case
    using voice_tick_ok [of "client s" now c out] peers_ok_cong [of c "client s"]
    by (auto simp: srs_ok_def)
next
  case (step_send_ping s)
  then show ?case
    using receivers_ok_cong [of "SendPing tcp (client s)" "client s"]
      peers_ok_cong [of "SendPing tcp (client s)" "client s"]
    by (simp add: srs_ok_def)
next
  case (step_heal s reconnected now)
  then show ?case by (simp add: srs_ok_def inv_intros)
qed

lemma NewClient_receivers_ok: "receivers_ok (NewClient guid now config)"
proof -
  have "list_all (\<lambda>(k, r). rx_ok r) rs \<Longrightarrow>
      list_all (\<lambda>(k, r). rx_ok r) (fold (\<lambda>radio. AList.update radio empty_receiver) radios rs)"
    for radios :: "Radio list" and rs
  proof (induction radios arbitrary: rs)
    case (Cons a radios)
    have "set (AList.update a empty_receiver rs) \<subseteq> insert (a, empty_receiver) (set rs)"
      by (induction rs) auto
    with Cons.prems have "list_all (\<lambda>(k, r). rx_ok r) (AList.update a empty_receiver rs)"
      by (auto simp: list_all_iff empty_receiver_ok)
    then show ?case using Cons.IH by simp
  qed simp
  then show ?thesis by (simp add: receivers_ok_def NewClient_def)
qed

section \<open>The first speaker wins\<close>

lemma receive_again: "rx_ok r \<Longrightarrow> wf_packet p \<Longrightarrow> receive now p (receive now p r) = receive now p r"
proof (cases "origin r = []")
  case True
  assume "rx_ok r" "wf_packet p"
  with True have "r = empty_receiver" by (simp add: rx_ok_def)
  then show ?thesis using \<open>wf_packet p\<close> by (simp add: receive_idle receive_busy wf_origin)
next
  case False
  assume "wf_packet p"
  then show ?thesis using False by (simp add: receive_busy wf_origin)
qed

lemma receive_each_frequency:
  "rx_ok r \<Longrightarrow> wf_packet p \<Longrightarrow>
   fold (\<lambda>f r. if match f then receive now p r else r) fs r = (if list_ex match fs then receive now p r else r)"
proof (induction fs arbitrary: r)
  case (Cons f fs)
  then show ?case by (auto simp: receive_again receive_ok)
qed simp

lemma receive_deadline:
  "deadline r < m \<Longrightarrow> \<forall>(t, q) \<in> set tps. t + maxRxGap < m \<Longrightarrow>
   deadline (fold (\<lambda>(t, q). receive t q) tps r) < m"
  by (induction tps arbitrary: r) (auto simp: receive_def Let_def)

lemma receive_run:
  assumes "origin r = g" "g \<noteq> []"
    and "sorted_wrt (<) (rx_packetNumber r # map PacketID (filter (\<lambda>q. OriginGUID q = g) (map snd tps)))"
    and "length (buffer r) \<le> maxRxPackets"
  shows "buffer (fold (\<lambda>(t, q). receive t q) tps r) =
      take maxRxPackets (buffer r @ filter (\<lambda>q. OriginGUID q = g) (map snd tps))"
  using assms
proof (induction tps arbitrary: r)
  case Nil
  then show ?case by simp
next
  case (Cons tq tps)
  obtain t q where tq: "tq = (t, q)" by (cases tq)
  show ?case
  proof (cases "OriginGUID q = g")
    case True
    let ?r = "receive t q r"
    have r: "?r = r\<lparr>buffer := (if length (buffer r) < maxRxPackets then buffer r @ [q] else buffer r),
        origin := g, deadline := t + maxRxGap, rx_packetNumber := PacketID q\<rparr>"
      using Cons.prems True by (simp add: tq receive_busy)
    have "buffer (fold (\<lambda>(t, q). receive t q) tps ?r) =
        take maxRxPackets (buffer ?r @ filter (\<lambda>q. OriginGUID q = g) (map snd tps))"
      by (rule Cons.IH) (use Cons.prems True in \<open>auto simp: r tq\<close>)
    then show ?thesis
      using Cons.prems(4) True by (cases "length (buffer r) < 750") (auto simp: tq r take_Cons')
  next
    case False
    then have "receive t q r = r" using Cons.prems by (auto simp: receive_busy)
    then show ?thesis using Cons.IH [of r] Cons.prems False by (auto simp: tq)
  qed
qed

lemma receive_from_idle:
  assumes p: "wf_packet p"
    and o: "sorted_wrt (<) (map PacketID (p # filter (\<lambda>q. OriginGUID q = OriginGUID p) (map snd tps)))"
  shows "buffer (fold (\<lambda>(t, q). receive t q) ((t0, p) # tps) empty_receiver) =
      take maxRxPackets (p # filter (\<lambda>q. OriginGUID q = OriginGUID p) (map snd tps))"
  using receive_run [of "receive t0 p empty_receiver" "OriginGUID p" tps] assms
  by (simp add: receive_idle wf_origin)

text \<open>On one radio the first speaker wins: packets of everybody else are dropped until the
  transmission ends, and the buffer holds exactly the first speaker's packets, up to the
  limit of thirty seconds.\<close>

theorem first_speaker_wins:
  assumes "wf_packet p"
    and "sorted_wrt (<) (map PacketID (p # filter (\<lambda>q. OriginGUID q = OriginGUID p) (map snd tps)))"
  shows "buffer (fold (\<lambda>(t, q). receive t q) ((t0, p) # tps) empty_receiver) =
    take maxRxPackets (p # filter (\<lambda>q. OriginGUID q = OriginGUID p) (map snd tps))"
  by (rule receive_from_idle [OF assms])

definition demo_frequency :: Frequency where
  "demo_frequency = \<lparr>freq_bits = 7, Modulation = 0, Encryption = 0\<rparr>"

definition demo_packet :: "byte \<Rightarrow> u64 \<Rightarrow> Packet" where
  "demo_packet speaker n = NewPacket [1, 2] [demo_frequency] 5 n 0 (replicate 22 speaker) (replicate 22 speaker)"

lemma demo_packet_wf: "wf_packet (demo_packet speaker n)"
  by (simp add: demo_packet_def NewPacket_wf)

lemma demo_packet_fields [simp]:
  "OriginGUID (demo_packet speaker n) = replicate 22 speaker" "PacketID (demo_packet speaker n) = n"
  "Frequencies (demo_packet speaker n) = [demo_frequency]"
  by (simp_all add: demo_packet_def NewPacket_fields)

theorem first_speaker_wins_witness:
  "buffer (fold (\<lambda>(t, q). receive t q)
      [(0, demo_packet 1 3), (5, demo_packet 2 4), (40, demo_packet 1 5)] empty_receiver) =
   [demo_packet 1 3, demo_packet 1 5]"
  using first_speaker_wins [OF demo_packet_wf, of 1 3 "[(5, demo_packet 2 4), (40, demo_packet 1 5)]" 0]
  by simp

section \<open>Properties of the receiving loop\<close>

lemma deliver_receivers:
  assumes "list_all (\<lambda>(radio, r). rx_ok r) rs" and "wf_packet p" and "receivers c = rs"
  shows "receivers (deliver f64 t p c) =
    map (\<lambda>(radio, r). (radio, if list_ex (\<lambda>f. radio_match f64 f radio) (Frequencies p) then receive t p r else r)) rs"
  using assms by (auto simp: deliver_def list_all_iff receive_each_frequency)

lemma deliver_all:
  assumes "rx_ok r" and "receivers c = [(radio, r)]"
    and "list_all (\<lambda>(t, p). wf_packet p \<and> list_ex (\<lambda>f. radio_match f64 f radio) (Frequencies p)) tps"
  shows "fold (\<lambda>(t, p). deliver f64 t p) tps c =
    c\<lparr>receivers := [(radio, fold (\<lambda>(t, p). receive t p) tps r)]\<rparr>"
  using assms
proof (induction tps arbitrary: c r)
  case (Cons tp tps)
  obtain t p where tp: "tp = (t, p)" by (cases tp)
  have d: "deliver f64 t p c = c\<lparr>receivers := [(radio, receive t p r)]\<rparr>"
    using deliver_receivers [of "[(radio, r)]" p c f64 t] Cons.prems
    by (auto simp: tp deliver_def receive_each_frequency)
  show ?case
    using Cons.IH [of "receive t p r" "deliver f64 t p c"] Cons.prems
    by (simp add: tp d receive_ok)
qed simp

lemma tick_publishes:
  assumes "receivers c = [(radio, empty_receiver)]"
    and "list_all (\<lambda>(t, p). wf_packet p \<and> OriginGUID p = g \<and>
           list_ex (\<lambda>f. radio_match f64 f radio) (Frequencies p)) tps"
    and "sorted_wrt (<) (map (PacketID \<circ> snd) tps)"
    and "25 < length tps" and "length tps \<le> 750"
    and "\<forall>(t, p) \<in> set tps. t + maxRxGap < now"
  shows "voice_tick now (fold (\<lambda>(t, p). deliver f64 t p) tps c) = (c, [map snd tps])"
proof -
  obtain t0 p where hd: "tps = (t0, p) # tl tps" using assms(4) by (cases tps) auto
  let ?r = "fold (\<lambda>(t, q). receive t q) tps empty_receiver"
  have c: "fold (\<lambda>(t, p). deliver f64 t p) tps c = c\<lparr>receivers := [(radio, ?r)]\<rparr>"
    by (rule deliver_all [OF empty_receiver_ok assms(1)]) (use assms(2) in \<open>auto simp: list_all_iff\<close>)
  have "(t0, p) \<in> set tps" by (subst hd) simp
  then have p: "wf_packet p" "OriginGUID p = g" and t0: "t0 + maxRxGap < now"
    using assms(2, 6) by (auto simp: list_all_iff)
  have flt: "filter (\<lambda>q. OriginGUID q = OriginGUID p) (map snd (tl tps)) = map snd (tl tps)"
    using assms(2) p list.set_sel(2) [of tps] assms(4)
    by (intro filter_True) (fastforce simp: list_all_iff)
  have ids: "sorted_wrt (<) (map PacketID (p # map snd (tl tps)))"
    using assms(3) by (subst (asm) hd) (simp add: comp_def)
  have all: "p # map snd (tl tps) = map snd tps" by (subst hd) simp
  have r: "buffer ?r = take maxRxPackets (map snd tps)"
    using receive_from_idle [of p "tl tps" t0] p ids flt by (simp only: hd [symmetric] all)
  have "deadline ?r < now"
  proof (subst hd, simp add: receive_idle, rule receive_deadline)
    show "\<forall>(t, q) \<in> set (tl tps). t + maxRxGap < now"
      using assms(4, 6) list.set_sel(2) [of tps] by fastforce
  qed (simp add: t0)
  moreover have "buffer ?r = map snd tps" using r assms(5) by simp
  ultimately have tick: "hasTransmission now ?r" using assms(4) by (auto simp: hasTransmission_def)
  have long: "int (length tps) * frameLength > minRxDuration"
    using assms(4) by (simp add: frameLength_def minRxDuration_def)
  show ?thesis
    using tick long \<open>buffer ?r = map snd tps\<close> assms(1)
    by (simp add: voice_tick_def c receiver_reset_empty)
qed

text \<open>A transmission is delivered whole: when the packets of one client arrive in order on a
  radio that is idle, and there are more than 25 and at most 750 of them, the first check
  after 300 ms of silence hands exactly these packets to the decoder and leaves the receiver
  idle again.\<close>

theorem transmission_published:
  assumes "receivers c = [(radio, empty_receiver)]"
    and "list_all (\<lambda>(t, p). wf_packet p \<and> OriginGUID p = g \<and>
           list_ex (\<lambda>f. radio_match f64 f radio) (Frequencies p)) tps"
    and "sorted_wrt (<) (map (PacketID \<circ> snd) tps)"
    and "25 < length tps" and "length tps \<le> 750"
    and "\<forall>(t, p) \<in> set tps. t + maxRxGap < now"
  shows "voice_tick now (fold (\<lambda>(t, p). deliver f64 t p) tps c) = (c, [map snd tps])"
  by (rule tick_publishes [OF assms])

lemma srs_reachable_ok: "srs_reachable f64 tcp (NewClient guid now config) s \<Longrightarrow> srs_ok s"
proof (induction rule: srs_reachable.induct)
  case reach_start
  show ?case by (simp add: srs_ok_def NewClient_receivers_ok NewClient_peers_ok)
next
  case (reach_step s s')
  then show ?case by (blast intro: srs_step_ok)
qed

text \<open>C28. Whatever datagrams and messages arrive, in whatever order and at whatever times, every
  transmission handed to the speech decoder is more than 25 packets (one second) and at most
  750 packets (thirty seconds), all well-formed, from one client, in strictly increasing
  packet order.\<close>

theorem published_transmissions:
  assumes "srs_reachable f64 tcp (NewClient guid now config) s"
  shows "list_all (\<lambda>ps. 25 < length ps \<and> length ps \<le> 750 \<and>
      (\<exists>g. list_all (\<lambda>p. wf_packet p \<and> OriginGUID p = g) ps) \<and>
      sorted_wrt (<) (map PacketID ps)) (rxVoice s)"
proof -
  have "list_all publishable (rxVoice s)" using srs_reachable_ok [OF assms] by (simp add: srs_ok_def)
  then show ?thesis by (auto simp: list_all_iff publishable_def one_speaker_def)
qed

text \<open>
  A run with one transmission in it: 26 datagrams from one client, then a tick.
\<close>

lemma srs_feed:
  assumes "srs_reachable f64 tcp c0 \<lparr>client = c, pingChan = [], voiceChan = [], rxVoice = out\<rparr>"
    and "wf_packet p" and "length (wire p 0) \<le> 1500" and "\<not> secureCoalitionRadios c"
  shows "srs_reachable f64 tcp c0 \<lparr>client = deliver f64 t p c, pingChan = [], voiceChan = [], rxVoice = out\<rparr>"
proof -
  let ?s = "\<lparr>client = c, pingChan = [], voiceChan = [], rxVoice = out\<rparr>"
  have len: "length (wire p 0) > GUIDLength"
    using assms(2) by (simp add: length_wire wf_packet_def packet_consts)
  then have "wire p 0 \<noteq> []" by auto
  have "srs_reachable f64 tcp c0 (route_datagram (wire p 0) ?s)"
    using assms(1) step_udp by (rule reach_step)
  moreover have "route_datagram (wire p 0) ?s = ?s\<lparr>voiceChan := [wire p 0]\<rparr>"
    using len assms(3) \<open>wire p 0 \<noteq> []\<close> by (simp add: route_datagram_def Let_def packet_consts)
  ultimately have "srs_reachable f64 tcp c0 (?s\<lparr>voiceChan := [wire p 0]\<rparr>)" by simp
  from reach_step [OF this step_voice [where b = "wire p 0" and bs = "[]" and now = t]]
  show ?thesis
    using assms(4) by (simp add: voice_datagram_def Decode_wire [OF assms(2)] is_blocked_def)
qed

lemma srs_feed_all:
  assumes "srs_reachable f64 tcp c0 \<lparr>client = c, pingChan = [], voiceChan = [], rxVoice = out\<rparr>"
    and "list_all (\<lambda>(t, p). wf_packet p \<and> length (wire p 0) \<le> 1500) tps" and "\<not> secureCoalitionRadios c"
  shows "srs_reachable f64 tcp c0 \<lparr>client = fold (\<lambda>(t, p). deliver f64 t p) tps c,
    pingChan = [], voiceChan = [], rxVoice = out\<rparr>"
  using assms
proof (induction tps arbitrary: c)
  case (Cons tp tps)
  obtain t p where tp: "tp = (t, p)" by (cases tp)
  show ?case
    using Cons.IH [of "deliver f64 t p c"] Cons.prems srs_feed [OF Cons.prems(1), of p t]
    by (auto simp: tp deliver_def)
qed simp

definition demo_f64 :: "u64 \<Rightarrow> real option" where
  "demo_f64 bits = (if bits = 7 then Some 251000100 else None)"

definition demo_speech :: "(int \<times> Packet) list" where
  "demo_speech = map (\<lambda>i. (40 * int i, demo_packet 1 (of_nat i))) [0..<26]"

lemma demo_receivers: "receivers demo_client = [(demo_radio, empty_receiver)]"
  by (simp add: demo_client_def NewClient_def)

lemma demo_match: "radio_match demo_f64 demo_frequency demo_radio"
  by (simp add: radio_match_def demo_f64_def demo_frequency_def Radio_IsSameFrequency_def
      demo_radio_def ModulationAM_def)

lemma demo_speech_ok:
  "list_all (\<lambda>(t, p). wf_packet p \<and> OriginGUID p = replicate 22 1 \<and>
     list_ex (\<lambda>f. radio_match demo_f64 f demo_radio) (Frequencies p)) demo_speech"
  "sorted_wrt (<) (map (PacketID \<circ> snd) demo_speech)" "length demo_speech = 26"
  "\<forall>(t, p) \<in> set demo_speech. t + maxRxGap < 10 ^ 9"
  by (simp_all add: demo_speech_def demo_packet_wf demo_match list_all_iff upt_rec maxRxGap_def)

theorem transmission_published_witness:
  "voice_tick (10 ^ 9) (fold (\<lambda>(t, p). deliver demo_f64 t p) demo_speech demo_client) =
   (demo_client, [map snd demo_speech])"
  using transmission_published [OF demo_receivers demo_speech_ok(1, 2) _ _ demo_speech_ok(4)] demo_speech_ok(3)
  by simp

lemma demo_run:
  "srs_reachable demo_f64 (\<lambda>_. True) demo_client
     \<lparr>client = fold (\<lambda>(t, p). deliver demo_f64 t p) demo_speech demo_client,
      pingChan = [], voiceChan = [], rxVoice = []\<rparr>"
proof (rule srs_feed_all [OF reach_start])
  show "list_all (\<lambda>(t, p). wf_packet p \<and> length (wire p 0) \<le> 1500) demo_speech"
    by (auto simp: demo_speech_def list_all_iff demo_packet_wf length_wire)
      (auto simp: demo_packet_def NewPacket_fields)
  show "\<not> secureCoalitionRadios demo_client" by (simp add: demo_client_def NewClient_def)
qed

lemma demo_tick:
  "voice_tick (10 ^ 9) (fold (\<lambda>(t, p). deliver demo_f64 t p) demo_speech demo_client) =
   (demo_client, [map snd demo_speech])"
  using tick_publishes [OF demo_receivers demo_speech_ok(1, 2) _ _ demo_speech_ok(4)] demo_speech_ok(3)
  by simp

theorem published_transmissions_witness:
  "\<exists>s :: Srs. rxVoice s \<noteq> [] \<and> list_all (\<lambda>ps. 25 < length ps \<and> length ps \<le> 750) (rxVoice s)"
proof -
  let ?c = "fold (\<lambda>(t, p). deliver demo_f64 t p) demo_speech demo_client"
  let ?s = "\<lparr>client = ?c, pingChan = [], voiceChan = [], rxVoice = []\<rparr>"
  let ?t = "?s\<lparr>client := demo_client, rxVoice := rxVoice ?s @ [map snd demo_speech]\<rparr>"
  have tick: "voice_tick (10 ^ 9) ?c = (demo_client, [map snd demo_speech])"
    using demo_tick .
  have "srs_reachable demo_f64 (\<lambda>_. True) demo_client ?t"
    by (rule reach_step [OF demo_run step_tick [where now = "10 ^ 9"]]) (use tick in simp_all)
  from published_transmissions [OF this [unfolded demo_client_def]]
  have "list_all (\<lambda>ps. 25 < length ps \<and> length ps \<le> 750) (rxVoice ?t)"
    by (auto simp: list_all_iff)
  then show ?thesis by (intro exI [of _ ?t]) simp
qed

text \<open>While the server enforces secure coalition radios, a datagram from a client that is not
  in the peer table, or is of another coalition, changes no receiver.\<close>

theorem secure_radio_filter:
  assumes "secureCoalitionRadios c" and "Decode b = Inr packet"
    and "\<forall>peer. map_of (clients c) (OriginGUID packet) = Some peer \<longrightarrow>
           client_Coalition peer \<noteq> client_Coalition (clientInfo c)"
  shows "voice_datagram f64 now b c = c"
  using assms by (auto simp: voice_datagram_def is_blocked_def split: option.split)

theorem secure_radio_filter_witness:
  "voice_datagram demo_f64 0 (wire (demo_packet 9 1) 0) (demo_client\<lparr>secureCoalitionRadios := True\<rparr>) =
   demo_client\<lparr>secureCoalitionRadios := True\<rparr>"
  by (rule secure_radio_filter [where packet = "demo_packet 9 1"])
    (simp_all add: Decode_wire demo_packet_wf demo_client_def NewClient_def)

end
