(* ===== verification/SrsTransmit.thy ===== *)
theory SrsTransmit
  imports SrsReceiver
begin

text \<open>
  The sending side of the SRS client: framing and packet numbering (\<open>encodeVoice\<close>), decoding
  of received packets (\<open>decodeVoice\<close>), waiting for a clear channel and the timing of the
  datagrams (\<open>transmit.go\<close>), and the reconnection backoff (\<open>net.go\<close>). The Opus encoder and
  decoder are parameters with a state; samples are real numbers.
\<close>

section \<open>Framing\<close>

text \<open>The loop over \<open>i\<close> in steps of \<open>frameSize\<close>; the last frame is padded with silence.\<close>

function frames :: "real list \<Rightarrow> real list list" where
  "frames audio =
     (if audio = [] then []
      else let frameAudio = take frameSize audio;
               padded = frameAudio @ replicate (frameSize - length frameAudio) 0
           in padded # frames (drop frameSize audio))"
  by pat_completeness auto
termination by (relation "measure length") auto

declare frames.simps [simp del]

type_synonym 'e encoder = "'e \<Rightarrow> real list \<Rightarrow> 'e \<times> byte list option"
type_synonym 'd decoder = "'d \<Rightarrow> byte list \<Rightarrow> 'd \<times> real list option"

definition frequency_list :: "(real \<Rightarrow> u64) \<Rightarrow> Client \<Rightarrow> Frequency list" where
  "frequency_list bits c =
     map (\<lambda>radio. \<lparr>freq_bits = bits (radio_Frequency radio), Modulation = radio_Modulation radio,
                    Encryption = 0\<rparr>) (Radios (client_RadioInfo (clientInfo c)))"

fun encode_frames :: "'e encoder \<Rightarrow> Frequency list \<Rightarrow> 'e \<Rightarrow> real list list \<Rightarrow> Client \<Rightarrow> Client \<times> Packet list" where
  "encode_frames enc fl e [] c = (c, [])"
| "encode_frames enc fl e (frame # rest) c =
     (let (e, result) = enc e frame in
      case result of
        None \<Rightarrow> encode_frames enc fl e rest c
      | Some audioBytes \<Rightarrow>
          (let guid = client_GUID (clientInfo c);
               voicePacket = NewPacket audioBytes fl 100000002 (tx_packetNumber c) 0 guid guid;
               c = c\<lparr>tx_packetNumber := tx_packetNumber c + 1\<rparr>;
               (c, ps) = encode_frames enc fl e rest c
           in (c, voicePacket # ps)))"

text \<open>One transmission taken from \<open>txChan\<close>; \<open>e\<close> is the new encoder, if it can be made.\<close>

definition encodeVoice :: "'e encoder \<Rightarrow> (real \<Rightarrow> u64) \<Rightarrow> 'e option \<Rightarrow> real list \<Rightarrow> Client \<Rightarrow> Client \<times> Packet list option" where
  "encodeVoice enc bits e audio c =
     (case e of None \<Rightarrow> (c, None)
      | Some e \<Rightarrow> let (c, ps) = encode_frames enc (frequency_list bits c) e (frames audio) c
                  in (c, Some ps))"

section \<open>Decoding\<close>

record Transmission =
  ClientName :: string
  Audio :: "real list"

fun decode_frames :: "'d decoder \<Rightarrow> 'd \<Rightarrow> Packet list \<Rightarrow> real list" where
  "decode_frames dec d [] = []"
| "decode_frames dec d (p # ps) =
     (let (d, result) = dec d (AudioBytes p)
      in (case result of None \<Rightarrow> [] | Some pcm \<Rightarrow> pcm) @ decode_frames dec d ps)"

definition decodeVoice :: "'d decoder \<Rightarrow> 'd option \<Rightarrow> Packet list \<Rightarrow> Client \<Rightarrow> Transmission option" where
  "decodeVoice dec d voicePackets c =
     (case d of None \<Rightarrow> None
      | Some d \<Rightarrow>
          (let transmissionPCM = decode_frames dec d voicePackets
           in if 0 < length transmissionPCM
              then Some \<lparr>ClientName = fst (getPeerName c (OriginGUID (hd voicePackets))),
                         Audio = transmissionPCM\<rparr>
              else None))"

section \<open>Transmission\<close>

text \<open>
  One round of \<open>waitForClearChannel\<close> at time \<open>now\<close>: \<open>None\<close> when the channel is clear, else
  how long to sleep before the next round.
\<close>

definition clear_channel_delay :: "int \<Rightarrow> Client \<Rightarrow> int option" where
  "clear_channel_delay now c =
     (let receiving = filter (isReceivingTransmission now) (map snd (receivers c));
          d = fold (\<lambda>r d. if deadline r > d then deadline r else d) receiving now
      in if receiving = [] then None else Some (d - now + 250 * 10 ^ 6))"

text \<open>
  \<open>writePackets\<close>: packet \<open>i\<close> is written when the clock has reached \<open>startTime\<close> plus \<open>i\<close> frames
  minus half a frame, at once if that time has passed. \<open>write\<close> is the result of the i-th
  write; a closed connection ends the loop. A panic of the encoder is \<open>None\<close>.
\<close>

datatype write_result = Written | Closed | Failed

fun write_packets :: "(nat \<Rightarrow> write_result) \<Rightarrow> int \<Rightarrow> int \<Rightarrow> nat \<Rightarrow> Packet list \<Rightarrow> (int \<times> byte list) list option" where
  "write_packets wr startTime now i [] = Some []"
| "write_packets wr startTime now i (packet # ps) =
     (case Encode packet of None \<Rightarrow> None
      | Some b \<Rightarrow>
          (let t = startTime + int i * frameLength - frameLength div 2;
               now = max now t
           in if wr i = Closed then Some []
              else map_option (\<lambda>rest. if wr i = Written then (now, b) # rest else rest)
                     (write_packets wr startTime now (i + 1) ps)))"

definition writePackets :: "(nat \<Rightarrow> write_result) \<Rightarrow> int \<Rightarrow> Packet list \<Rightarrow> (int \<times> byte list) list option" where
  "writePackets wr startTime packets = write_packets wr startTime startTime 0 packets"

text \<open>One round of \<open>transmitPackets\<close> after the channel is clear.\<close>

definition transmit_packets :: "(nat \<Rightarrow> write_result) \<Rightarrow> int \<Rightarrow> Packet list \<Rightarrow> Client \<Rightarrow> (int \<times> byte list) list option" where
  "transmit_packets wr now packets c = (if mute c then Some [] else writePackets wr now packets)"

section \<open>Reconnection\<close>

definition next_backoff :: "int \<Rightarrow> int" where
  "next_backoff backoff = min \<lfloor>of_int backoff * sqrt 2\<rfloor> (60 * 10 ^ 9)"

text \<open>
  \<open>reconnect\<close> over the outcomes of its attempts (did TCP connect, did UDP): the delays slept
  and whether it ended connected. It ends unconnected when the context is cancelled.
\<close>

fun reconnect :: "int \<Rightarrow> (bool \<times> bool) list \<Rightarrow> int list \<times> bool" where
  "reconnect backoff [] = ([], False)"
| "reconnect backoff ((tcp_ok, udp_ok) # attempts) =
     (if tcp_ok \<and> udp_ok then ([], True)
      else let (ds, ok) = reconnect (next_backoff backoff) attempts in (backoff # ds, ok))"

section \<open>Lemmas\<close>

lemma frames_length: "list_all (\<lambda>f. length f = frameSize) (frames audio)"
proof (induction audio rule: frames.induct)
  case (1 audio)
  then show ?case
    by (cases "audio = []") (simp_all add: frames.simps [of audio] frames.simps [of "[]"] Let_def)
qed

lemma frames_concat: "\<exists>k < frameSize. concat (frames audio) = audio @ replicate k 0"
proof (induction audio rule: frames.induct)
  case (1 audio)
  show ?case
  proof (cases "audio = []")
    case True
    then show ?thesis by (simp add: frames.simps)
  next
    case False
    show ?thesis
    proof (cases "length audio < frameSize")
      case True
      then show ?thesis using False
        by (intro exI [of _ "frameSize - length audio"])
          (simp add: frames.simps [of audio] frames.simps [of "[]"] Let_def)
    next
      case no: False
      obtain k where k: "k < frameSize" "concat (frames (drop frameSize audio)) = drop frameSize audio @ replicate k 0"
        using 1 False by (metis)
      have "take frameSize audio @ drop frameSize audio = audio" by (rule append_take_drop_id)
      with k no False show ?thesis
        by (intro exI [of _ k]) (simp add: frames.simps [of audio] Let_def del: append_take_drop_id)
    qed
  qed
qed

lemma encode_frames_ids:
  assumes "encode_frames enc fl e fs c = (c', ps)"
  shows "map PacketID ps = map (\<lambda>i. tx_packetNumber c + of_nat i) [0..<length ps]
    \<and> tx_packetNumber c' = tx_packetNumber c + of_nat (length ps)
    \<and> clientInfo c' = clientInfo c \<and> receivers c' = receivers c \<and> clients c' = clients c"
  using assms
proof (induction enc fl e fs c arbitrary: c' ps rule: encode_frames.induct)
  case (2 enc fl e frame rest c)
  obtain e' result where e: "enc e frame = (e', result)" by (cases "enc e frame")
  show ?case
  proof (cases result)
    case None
    then show ?thesis using 2 e by simp
  next
    case (Some audioBytes)
    let ?c = "c\<lparr>tx_packetNumber := tx_packetNumber c + 1\<rparr>"
    obtain c1 ps1 where r: "encode_frames enc fl e' rest ?c = (c1, ps1)"
      by (cases "encode_frames enc fl e' rest ?c")
    have IH: "map PacketID ps1 = map (\<lambda>i. tx_packetNumber ?c + of_nat i) [0..<length ps1]
      \<and> tx_packetNumber c1 = tx_packetNumber ?c + of_nat (length ps1)
      \<and> clientInfo c1 = clientInfo ?c \<and> receivers c1 = receivers ?c \<and> clients c1 = clients ?c"
      using 2(2) [OF e [symmetric] _ Some _ refl refl r] e by (simp add: Some)
    have ps: "ps = NewPacket audioBytes fl 100000002 (tx_packetNumber c) 0 (client_GUID (clientInfo c))
        (client_GUID (clientInfo c)) # ps1" "c' = c1"
      using 2(3) e Some r by (simp_all add: Let_def)
    have "[0..<Suc (length ps1)] = 0 # map Suc [0..<length ps1]"
      by (simp add: upt_conv_Cons map_Suc_upt del: upt_Suc)
    then show ?thesis using IH ps(2)
      by (simp add: ps(1) NewPacket_def Let_def ac_simps)
  qed
qed simp

lemma encode_frames_packets:
  assumes "encode_frames enc fl e fs c = (c', ps)"
    and "\<And>e f. case snd (enc e f) of None \<Rightarrow> True | Some b \<Rightarrow> length b \<le> 1024"
    and "length fl \<le> 1000" and "length (client_GUID (clientInfo c)) = GUIDLength"
  shows "list_all (\<lambda>p. wf_packet p \<and> OriginGUID p = client_GUID (clientInfo c) \<and> Frequencies p = fl) ps"
  using assms
proof (induction enc fl e fs c arbitrary: c' ps rule: encode_frames.induct)
  case (2 enc fl e frame rest c)
  obtain e' result where e: "enc e frame = (e', result)" by (cases "enc e frame")
  show ?case
  proof (cases result)
    case None
    then show ?thesis using 2(1) [OF e [symmetric] _ None] 2(3-) e by simp
  next
    case (Some audioBytes)
    let ?c = "c\<lparr>tx_packetNumber := tx_packetNumber c + 1\<rparr>"
    obtain c1 ps1 where r: "encode_frames enc fl e' rest ?c = (c1, ps1)"
      by (cases "encode_frames enc fl e' rest ?c")
    have len: "length audioBytes \<le> 1024" using 2(4) [of e frame] e Some by simp
    have IH: "list_all (\<lambda>p. wf_packet p \<and> OriginGUID p = client_GUID (clientInfo c) \<and> Frequencies p = fl) ps1"
      using 2(2) [OF e [symmetric] _ Some _ refl refl r] 2(4-) e Some by simp
    have ps: "ps = NewPacket audioBytes fl 100000002 (tx_packetNumber c) 0 (client_GUID (clientInfo c))
        (client_GUID (clientInfo c)) # ps1"
      using 2(3) e Some r by (simp add: Let_def)
    show ?thesis
      using IH len 2(5, 6) by (simp add: ps NewPacket_wf NewPacket_fields packet_consts)
  qed
qed simp

lemma write_packets_schedule:
  assumes "list_all wf_packet ps" and "\<And>j. wr j = Written"
    and "now \<le> startTime + int i * frameLength - frameLength div 2"
  shows "write_packets wr startTime now i ps =
    Some (map (\<lambda>(j, p). (startTime + int j * frameLength - frameLength div 2, wire p 0)) (enumerate i ps))"
  using assms
proof (induction ps arbitrary: now i)
  case (Cons p ps)
  let ?t = "startTime + int i * frameLength - frameLength div 2"
  have "?t \<le> startTime + int (i + 1) * frameLength - frameLength div 2"
    by (simp add: frameLength_def)
  from Cons.IH [OF _ Cons.prems(2) this] Cons.prems show ?case
    by (simp add: Encode_wire max_def Let_def)
qed simp

text \<open>Outgoing audio is framed without loss: the frames are exactly 640 samples each and
  their concatenation is the audio followed by less than one frame of silence.\<close>

theorem frames_lossless:
  "list_all (\<lambda>f. length f = 640) (frames audio) \<and>
   (\<exists>k < 640. concat (frames audio) = audio @ replicate k 0)"
  using frames_length [of audio] frames_concat [of audio] by simp

text \<open>With an encoder that keeps within its buffer of 1024 bytes, and at most 1000 radios,
  every packet of a transmission is well formed, carries our GUID and all our frequencies,
  and decodes at the receiver to itself; the packets are numbered consecutively from the
  client's counter, which moves on by their number, so the packets of later transmissions
  continue the sequence.\<close>

theorem encodeVoice_packets:
  assumes "encodeVoice enc bits (Some e) audio c = (c', Some ps)"
    and "\<And>e f. case snd (enc e f) of None \<Rightarrow> True | Some b \<Rightarrow> length b \<le> 1024"
    and "length (Radios (client_RadioInfo (clientInfo c))) \<le> 1000"
    and "length (client_GUID (clientInfo c)) = GUIDLength"
  shows "list_all (\<lambda>p. OriginGUID p = client_GUID (clientInfo c) \<and> Frequencies p = frequency_list bits c \<and>
      (\<exists>b. Encode p = Some b \<and> Decode b = Inr p)) ps
    \<and> map PacketID ps = map (\<lambda>i. tx_packetNumber c + of_nat i) [0..<length ps]
    \<and> tx_packetNumber c' = tx_packetNumber c + of_nat (length ps)"
proof -
  have e: "encode_frames enc (frequency_list bits c) e (frames audio) c = (c', ps)"
    using assms(1) by (auto simp: encodeVoice_def split: prod.splits)
  have "list_all (\<lambda>p. wf_packet p \<and> OriginGUID p = client_GUID (clientInfo c) \<and>
      Frequencies p = frequency_list bits c) ps"
    by (rule encode_frames_packets [OF e assms(2) _ assms(4)]) (simp add: frequency_list_def assms(3))
  then have "list_all (\<lambda>p. OriginGUID p = client_GUID (clientInfo c) \<and> Frequencies p = frequency_list bits c \<and>
      (\<exists>b. Encode p = Some b \<and> Decode b = Inr p)) ps"
    by (auto simp: list_all_iff Encode_wire Decode_wire)
  then show ?thesis using encode_frames_ids [OF e] by blast
qed

theorem encodeVoice_packets_witness:
  "\<exists>c' ps. encodeVoice (\<lambda>(e :: unit) f. (e, Some [1, 2, 3])) (\<lambda>_. 7) (Some ()) (replicate 700 0) demo_client = (c', Some ps)
    \<and> map PacketID ps = [1, 2] \<and> list_all (\<lambda>p. \<exists>b. Encode p = Some b \<and> Decode b = Inr p) ps"
proof -
  let ?enc = "\<lambda>(e :: unit) (f :: real list). (e, Some [1, 2, 3 :: byte])"
  obtain c' ps where e: "encodeVoice ?enc (\<lambda>_. 7) (Some ()) (replicate 700 0) demo_client = (c', Some ps)"
    by (cases "encode_frames ?enc (frequency_list (\<lambda>_. 7) demo_client) () (frames (replicate 700 0)) demo_client")
      (simp add: encodeVoice_def)
  have g: "length (Radios (client_RadioInfo (clientInfo demo_client))) \<le> 1000"
    "length (client_GUID (clientInfo demo_client)) = GUIDLength" "tx_packetNumber demo_client = 1"
    by (simp_all add: demo_client_def NewClient_def GUIDLength_def)
  have "length (frames (replicate 700 0)) = 2"
    by (simp add: frames.simps [of "replicate 700 0"] frames.simps [of "replicate 60 0"] frames.simps [of "[]"] Let_def)
  moreover have "length (snd (encode_frames ?enc fl () fs c)) = length fs" for fl fs c
    by (induction fs arbitrary: c) (auto simp: Let_def split: prod.splits, metis snd_conv)
  ultimately have "length ps = 2"
    using e by (auto simp: encodeVoice_def split: prod.splits) (metis snd_conv)
  then have l: "[0..<length ps] = [0, 1]" by (simp add: upt_rec)
  have "list_all (\<lambda>p. OriginGUID p = client_GUID (clientInfo demo_client) \<and>
        Frequencies p = frequency_list (\<lambda>_. 7) demo_client \<and>
        (\<exists>b. Encode p = Some b \<and> Decode b = Inr p)) ps
      \<and> map PacketID ps = map (\<lambda>i. tx_packetNumber demo_client + of_nat i) [0..<length ps]
      \<and> tx_packetNumber c' = tx_packetNumber demo_client + of_nat (length ps)"
    by (rule encodeVoice_packets [OF e]) (simp_all add: g)
  then show ?thesis using e l g(3) by (intro exI [of _ c'] exI [of _ ps]) (auto simp: list_all_iff)
qed

text \<open>Packets are paced: when every write succeeds, packet \<open>i > 0\<close> leaves half a frame before
  the time its audio starts, no packet is lost or reordered, and the encoder never panics on
  packets it produced.\<close>

theorem writePackets_paced:
  assumes "list_all wf_packet (p # ps)" and "\<And>j. wr j = Written"
  shows "writePackets wr startTime (p # ps) = Some ((startTime, wire p 0) #
    map (\<lambda>(i, q). (startTime + int i * 40000000 - 20000000, wire q 0)) (enumerate 1 ps))"
proof -
  have "write_packets wr startTime startTime 1 ps =
      Some (map (\<lambda>(j, p). (startTime + int j * frameLength - frameLength div 2, wire p 0)) (enumerate 1 ps))"
    by (rule write_packets_schedule) (use assms in \<open>auto simp: frameLength_def\<close>)
  moreover have "max startTime (startTime + int 0 * frameLength - frameLength div 2) = startTime"
    by (simp add: frameLength_def max_def)
  ultimately show ?thesis
    using assms by (simp add: writePackets_def Encode_wire Let_def) (simp add: frameLength_def)
qed

theorem writePackets_paced_witness:
  "writePackets (\<lambda>_. Written) 1000 [demo_packet 1 1, demo_packet 1 2] =
   Some [(1000, wire (demo_packet 1 1) 0), (20001000, wire (demo_packet 1 2) 0)]"
  using writePackets_paced [of "demo_packet 1 1" "[demo_packet 1 2]" "\<lambda>_. Written" 1000]
  by (simp add: demo_packet_wf)

lemma fold_deadline:
  "d \<le> fold (\<lambda>receiver d. if deadline receiver > d then deadline receiver else d) rs d
   \<and> (\<forall>r \<in> set rs. deadline r \<le> fold (\<lambda>receiver d. if deadline receiver > d then deadline receiver else d) rs d)"
proof (induction rs arbitrary: d)
  case (Cons r rs)
  show ?case using Cons.IH [of "if deadline r > d then deadline r else d"]
    by (auto split: if_splits)
qed simp

text \<open>Waiting for a clear channel ends: unless another packet is received meanwhile, the
  channel is clear after one sleep, and the client sleeps at least 250 ms past the last
  packet's deadline.\<close>

theorem clear_channel_after_sleep:
  assumes "clear_channel_delay now c = Some delay"
  shows "250 * 10 ^ 6 \<le> delay \<and> clear_channel_delay (now + delay) c = None"
proof -
  let ?rs = "filter (isReceivingTransmission now) (map snd (receivers c))"
  let ?d = "fold (\<lambda>receiver d. if deadline receiver > d then deadline receiver else d) ?rs now"
  have delay: "delay = ?d - now + 250 * 10 ^ 6"
    using assms by (auto simp: clear_channel_delay_def Let_def split: if_splits)
  have "deadline r \<le> ?d" if "r \<in> set (map snd (receivers c))" for r
    using that fold_deadline [of now ?rs] by (cases "isReceivingTransmission now r")
      (auto simp: isReceivingTransmission_def)
  then have "filter (isReceivingTransmission (now + delay)) (map snd (receivers c)) = []"
    by (auto simp: filter_empty_conv isReceivingTransmission_def delay) fastforce
  then show ?thesis using fold_deadline [of now ?rs] by (simp add: clear_channel_delay_def delay)
qed

theorem clear_channel_after_sleep_witness:
  "clear_channel_delay 550000000 (deliver demo_f64 0 (demo_packet 1 1) demo_client) = None"
proof -
  have "receivers (deliver demo_f64 0 (demo_packet 1 1) demo_client) = [(demo_radio, receive 0 (demo_packet 1 1) empty_receiver)]"
    by (simp add: deliver_def demo_receivers demo_match)
  then have "clear_channel_delay 100 (deliver demo_f64 0 (demo_packet 1 1) demo_client) = Some (300000000 - 100 + 250000000)"
    by (simp add: clear_channel_delay_def isReceivingTransmission_def receive_idle maxRxGap_def)
  from clear_channel_after_sleep [OF this] show ?thesis by simp
qed

lemma next_backoff_bounds:
  assumes "0 < b" and "b \<le> 60 * 10 ^ 9"
  shows "b \<le> next_backoff b \<and> next_backoff b \<le> 60 * 10 ^ 9"
proof -
  have "of_int b \<le> of_int b * sqrt 2" using assms(1) by simp
  then have "b \<le> \<lfloor>of_int b * sqrt 2\<rfloor>" by (simp add: le_floor_iff)
  then show ?thesis using assms(2) by (simp add: next_backoff_def)
qed

lemma reconnect_delays:
  assumes "0 < b" and "b \<le> 60 * 10 ^ 9"
  shows "sorted (fst (reconnect b attempts)) \<and> list_all (\<lambda>d. b \<le> d \<and> d \<le> 60 * 10 ^ 9) (fst (reconnect b attempts))"
  using assms
proof (induction attempts arbitrary: b)
  case (Cons a attempts)
  have nb: "0 < next_backoff b" "b \<le> next_backoff b" "next_backoff b \<le> 60 * 10 ^ 9"
    using next_backoff_bounds [of b] Cons.prems by auto
  obtain ds ok where r: "reconnect (next_backoff b) attempts = (ds, ok)"
    by (cases "reconnect (next_backoff b) attempts")
  have "sorted ds" "list_all (\<lambda>d. next_backoff b \<le> d \<and> d \<le> 60 * 10 ^ 9) ds"
    using Cons.IH [OF nb(1, 3)] r by auto
  then show ?case using Cons.prems nb r by (cases a) (auto simp: list_all_iff)
qed simp

text \<open>Reconnecting backs off: starting from one frame length, the delays between attempts
  never decrease and never exceed one minute, and the client is connected exactly when an
  attempt connected both sockets.\<close>

theorem reconnect_backoff:
  "sorted (fst (reconnect frameLength attempts)) \<and>
   list_all (\<lambda>d. 40000000 \<le> d \<and> d \<le> 60000000000) (fst (reconnect frameLength attempts)) \<and>
   (snd (reconnect frameLength attempts) \<longleftrightarrow> (True, True) \<in> set attempts)"
proof -
  have "snd (reconnect b attempts) \<longleftrightarrow> (True, True) \<in> set attempts" for b
    by (induction b attempts rule: reconnect.induct) (auto split: prod.splits)
  then show ?thesis using reconnect_delays [of frameLength attempts] by (simp add: frameLength_def)
qed

end
