(* ===== verification/Broadcasts.thy ===== *)
theory Broadcasts
  imports Controller
begin

text \<open>
  Properties of what the controller does on its own: the merge tracker follows the distances on the
  scope with hysteresis, merge and threat calls respect their cooldowns, and the state keeps its
  invariant in every step, whatever the radar does in between.
\<close>

section \<open>Running an operation for each element\<close>

lemma run_each_Cons_fst: "fst (run_each step (x # xs) s) = fst (run_each step xs (fst (step x s)))"
  by (simp add: Let_def split: prod.split)

lemma run_each_induct:
  assumes "P s" and "\<And>x s. x \<in> set xs \<Longrightarrow> P s \<Longrightarrow> P (fst (step x s))"
  shows "P (fst (run_each step xs s))"
  using assms by (induction xs arbitrary: s) (simp_all add: run_each_Cons_fst del: run_each.simps(2))

lemma run_each_sent:
  assumes "c \<in> set (snd (run_each step xs s))"
  shows "\<exists>ys x zs. xs = ys @ x # zs \<and> c \<in> set (snd (step x (fst (run_each step ys s))))"
  using assms
proof (induction xs arbitrary: s)
  case (Cons x xs)
  show ?case
  proof (cases "c \<in> set (snd (step x s))")
    case True
    then show ?thesis by (intro exI [of _ "[]"]) simp
  next
    case False
    then have "c \<in> set (snd (run_each step xs (fst (step x s))))"
      using Cons.prems by (auto simp: Let_def split: prod.splits)
    from Cons.IH [OF this] obtain ys y zs where "xs = ys @ y # zs"
      "c \<in> set (snd (step y (fst (run_each step ys (fst (step x s))))))" by blast
    then show ?thesis by (intro exI [of _ "x # ys"]) (auto simp: run_each_Cons_fst simp del: run_each.simps)
  qed
qed simp

section \<open>One pair\<close>

text \<open>Whether a hostile and a friendly are merged after an update, given whether they were before.\<close>

definition stays_merged :: "control_lib \<Rightarrow> Radar \<Rightarrow> Trackfile \<Rightarrow> Trackfile \<Rightarrow> bool \<Rightarrow> bool" where
  "stays_merged C r hostile friendly before \<longleftrightarrow>
     \<not> IsLastKnownPointZero friendly \<and> \<not> IsLastKnownPointZero hostile \<and>
     (let d = radar_distance (ctl_radar C) r (last_point friendly) (last_point hostile)
      in d < MergeEntryDistance (ctl_units C) \<or> before \<and> d \<le> MergeExitDistance (ctl_units C))"

lemma stays_idem: "stays_merged C r h f (stays_merged C r h f b) = stays_merged C r h f b"
  by (auto simp: stays_merged_def Let_def)

lemma contact_update:
  assumes "merges_ok t" and "units_ok (ctl_units C)"
  shows "merges_ok (fst (updateMergesForContact C r hostile friendly t)) \<and>
    (p \<in> merged_pairs (fst (updateMergesForContact C r hostile friendly t)) \<longleftrightarrow>
      (if p = (tf_ID hostile, tf_ID friendly) then stays_merged C r hostile friendly (p \<in> merged_pairs t) else p \<in> merged_pairs t))"
proof (cases "IsLastKnownPointZero friendly \<or> IsLastKnownPointZero hostile")
  case True
  then show ?thesis
    using merged.rel_part [OF assms(1)] by (auto simp: updateMergesForContact_def stays_merged_def Let_def tracker_ok assms(1))
next
  case False
  let ?d = "radar_distance (ctl_radar C) r (last_point friendly) (last_point hostile)"
  have "0 < NauticalMile (ctl_units C)" using assms(2) by (simp add: units_ok_def)
  then have ordered: "\<not> (?d < MergeEntryDistance (ctl_units C) \<and> ?d > MergeExitDistance (ctl_units C))"
    by (simp add: MergeEntryDistance_def MergeExitDistance_def)
  have w: "fst (updateMergesForContact C r hostile friendly t) =
      merged.watch (?d < MergeEntryDistance (ctl_units C)) (?d > MergeExitDistance (ctl_units C)) (tf_ID hostile) (tf_ID friendly) t"
    using False by (simp add: updateMergesForContact_def merged.watch_def Let_def isMerged_pairs)
  show ?thesis
    unfolding w using merged.ok_watch [OF assms(1)] merged.rel_watch [OF assms(1) ordered] False
    by (auto simp: stays_merged_def Let_def not_less)
qed

section \<open>One hostile, one group, one tick\<close>

text \<open>The friends of a group are contacts of the scope.\<close>

abbreviation on_scope :: "Radar \<Rightarrow> Trackfile list \<Rightarrow> bool" where
  "on_scope r fs \<equiv> \<forall>f \<in> set fs. getByID (tf_ID f) (db r) = Some f"

lemma friends_update:
  assumes "merges_ok t" and u: "units_ok (ctl_units C)" and "on_scope r fs"
  shows "merges_ok (fst (run_each (\<lambda>friendly t. let (t', isNewMerge) = updateMergesForContact C r hostile friendly t
           in (t', if isNewMerge then [friendly] else [])) fs t)) \<and>
    (\<forall>h f. (h, f) \<in> merged_pairs (fst (run_each (\<lambda>friendly t. let (t', isNewMerge) = updateMergesForContact C r hostile friendly t
           in (t', if isNewMerge then [friendly] else [])) fs t)) \<longleftrightarrow>
      (if h = tf_ID hostile \<and> f \<in> tf_ID ` set fs
       then stays_merged C r hostile (the (getByID f (db r))) ((h, f) \<in> merged_pairs t) else (h, f) \<in> merged_pairs t))"
    (is "merges_ok (fst (run_each ?step fs t)) \<and> _")
  using assms(1, 3)
proof (induction fs arbitrary: t)
  case (Cons x fs)
  have first: "fst (?step x t) = fst (updateMergesForContact C r hostile x t)" by (simp split: prod.split)
  note c = contact_update [OF Cons.prems(1) u, of r hostile x]
  have scope: "on_scope r fs" and x: "the (getByID (tf_ID x) (db r)) = x" using Cons.prems(2) by auto
  note IH = Cons.IH [OF conjunct1 [OF c] scope]
  show ?case
    unfolding run_each_Cons_fst first
  proof (intro conjI allI)
    show "merges_ok (fst (run_each ?step fs (fst (updateMergesForContact C r hostile x t))))" using IH by blast
    fix h f
    show "(h, f) \<in> merged_pairs (fst (run_each ?step fs (fst (updateMergesForContact C r hostile x t)))) \<longleftrightarrow>
      (if h = tf_ID hostile \<and> f \<in> tf_ID ` set (x # fs)
       then stays_merged C r hostile (the (getByID f (db r))) ((h, f) \<in> merged_pairs t) else (h, f) \<in> merged_pairs t)"
      unfolding IH [THEN conjunct2, rule_format] conjunct2 [OF c]
      using x by (cases "h = tf_ID hostile"; cases "f = tf_ID x") (auto simp: stays_idem)
  qed
qed simp

definition held :: "control_lib \<Rightarrow> Radar \<Rightarrow> Trackfile list \<Rightarrow> u64 \<Rightarrow> u64 \<Rightarrow> bool \<Rightarrow> bool" where
  "held C r fs h f before \<longleftrightarrow> f \<in> tf_ID ` set fs \<and>
     (case getByID h (db r) of None \<Rightarrow> False | Some hostile \<Rightarrow> stays_merged C r hostile (the (getByID f (db r))) before)"

lemma held_idem: "held C r fs h f (held C r fs h f b) = held C r fs h f b"
  by (cases "getByID h (db r)"; cases "f \<in> tf_ID ` set fs") (simp_all add: held_def stays_idem)

lemma separates:
  assumes "merges_ok t"
  shows "merges_ok (fold (separate h) fs t) \<and> merged_pairs (fold (separate h) fs t) = merged_pairs t - {h} \<times> set fs"
  using merged.ok_parts [OF assms] merged.rel_parts [OF assms] by blast

lemma hostile_update:
  assumes "merges_ok t" and "units_ok (ctl_units C)" and "on_scope r fs" and "db_ok (db r)"
  shows "merges_ok (fst (updateMergesForHostile C r fs h t)) \<and>
    (\<forall>h' f. getByID h (db r) \<noteq> None \<longrightarrow> (h', f) \<in> merged_pairs (fst (updateMergesForHostile C r fs h t)) \<longleftrightarrow>
      (if h' = h then held C r fs h f ((h, f) \<in> merged_pairs t) else (h', f) \<in> merged_pairs t))"
proof -
  let ?old = "filter (\<lambda>f. f \<notin> set (map tf_ID fs)) (friendliesMergedWith [h] t)"
  let ?t = "fold (separate h) ?old t"
  note sep = separates [OF assms(1), of h ?old]
  then have ok: "merges_ok ?t" ..
  have left: "(h', f) \<in> merged_pairs ?t \<longleftrightarrow> (h', f) \<in> merged_pairs t \<and> (h' = h \<longrightarrow> f \<in> tf_ID ` set fs)" for h' f
    using sep friendliesMergedWith_pairs [of "[h]" t] by auto
  show ?thesis
  proof (cases "getByID h (db r)")
    case None
    then show ?thesis using tracker_ok(3) [OF ok] by (simp add: updateMergesForHostile_def FindUnit_def Let_def)
  next
    case (Some hostile)
    then have h: "tf_ID hostile = h" using db_ok_id [OF assms(4)] by (simp add: getByID_def)
    note f = friends_update [OF ok assms(2, 3), of hostile]
    have *: "updateMergesForHostile C r fs h t = run_each (\<lambda>friendly t. let (t', isNewMerge) = updateMergesForContact C r hostile friendly t
         in (t', if isNewMerge then [friendly] else [])) fs ?t"
      using Some by (simp add: updateMergesForHostile_def FindUnit_def Let_def)
    show ?thesis
      unfolding * using f Some left h
      by (auto simp: held_def stays_merged_def Let_def)
  qed
qed

lemma group_update:
  assumes "merges_ok t" and u: "units_ok (ctl_units C)" and fs: "on_scope r fs" and d: "db_ok (db r)"
    and "\<forall>h \<in> set hs. getByID h (db r) \<noteq> None"
  shows "merges_ok (fst (run_each (updateMergesForHostile C r fs) hs t)) \<and>
    (\<forall>h f. (h, f) \<in> merged_pairs (fst (run_each (updateMergesForHostile C r fs) hs t)) \<longleftrightarrow>
      (if h \<in> set hs then held C r fs h f ((h, f) \<in> merged_pairs t) else (h, f) \<in> merged_pairs t))"
  using assms(1, 5)
proof (induction hs arbitrary: t)
  case (Cons x hs)
  note c = hostile_update [OF Cons.prems(1) u fs d, of x]
  have x: "getByID x (db r) \<noteq> None" using Cons.prems(2) by simp
  have rest: "\<forall>h \<in> set hs. getByID h (db r) \<noteq> None" using Cons.prems(2) by simp
  note IH = Cons.IH [OF conjunct1 [OF c] rest]
  show ?case
    unfolding run_each_Cons_fst
  proof (intro conjI allI)
    show "merges_ok (fst (run_each (updateMergesForHostile C r fs) hs (fst (updateMergesForHostile C r fs x t))))"
      using IH by blast
    fix h f
    show "(h, f) \<in> merged_pairs (fst (run_each (updateMergesForHostile C r fs) hs (fst (updateMergesForHostile C r fs x t)))) \<longleftrightarrow>
      (if h \<in> set (x # hs) then held C r fs h f ((h, f) \<in> merged_pairs t) else (h, f) \<in> merged_pairs t)"
      unfolding IH [THEN conjunct2, rule_format] conjunct2 [OF c, rule_format, OF x]
      by (cases "h = x") (simp_all add: held_idem)
  qed
qed simp

text \<open>The merges of the scope: their groups and friends are contacts of it.\<close>

abbreviation merges_on_scope :: "Radar \<Rightarrow> (group \<times> Trackfile list) list \<Rightarrow> bool" where
  "merges_on_scope r ms \<equiv> \<forall>(g, fs) \<in> set ms. on_scope r fs \<and> (\<forall>h \<in> set (ObjectIDs g). getByID h (db r) \<noteq> None)"

lemma broadcastMerge_fst:
  "fst (broadcastMerge C now (g, fs) c) =
     c\<lparr>merges := fst (updateMergesForGroup C (scope c) g fs (merges c)),
       mergeCooldowns := fst (run_each (notify_step now) (snd (updateMergesForGroup C (scope c) g fs (merges c))) (mergeCooldowns c))\<rparr>"
  by (simp add: broadcastMerge_def Let_def split: prod.split)

lemma tick_update:
  assumes "merges_ok (merges c)" and u: "units_ok (ctl_units C)" and d: "db_ok (db (scope c))" and "merges_on_scope (scope c) ms"
  shows "merges_ok (merges (fst (run_each (broadcastMerge C now) ms c))) \<and>
    scope (fst (run_each (broadcastMerge C now) ms c)) = scope c \<and>
    ((h, f) \<in> merged_pairs (merges (fst (run_each (broadcastMerge C now) ms c))) \<longrightarrow>
      (\<exists>(g, fs) \<in> set ms. h \<in> set (ObjectIDs g) \<and> held C (scope c) fs h f ((h, f) \<in> merged_pairs (merges c))) \<or>
      (h, f) \<in> merged_pairs (merges c) \<and> \<not> (\<exists>(g, fs) \<in> set ms. h \<in> set (ObjectIDs g))) \<and>
    ((\<forall>(g, fs) \<in> set ms. h \<in> set (ObjectIDs g) \<longrightarrow> held C (scope c) fs h f True) \<longrightarrow>
      (h, f) \<in> merged_pairs (merges c) \<or> (\<exists>(g, fs) \<in> set ms. h \<in> set (ObjectIDs g) \<and> held C (scope c) fs h f False) \<longrightarrow>
      (h, f) \<in> merged_pairs (merges (fst (run_each (broadcastMerge C now) ms c))))"
  using assms(1, 3, 4)
proof (induction ms arbitrary: c)
  case Nil
  then show ?case by simp
next
  case (Cons m ms)
  obtain g fs where m: "m = (g, fs)" by fastforce
  let ?c = "fst (broadcastMerge C now m c)"
  have scope: "scope ?c = scope c" by (simp add: m broadcastMerge_fst)
  have on: "on_scope (scope c) fs" "\<forall>h \<in> set (ObjectIDs g). getByID h (db (scope c)) \<noteq> None"
    and rest: "merges_on_scope (scope c) ms" using Cons.prems(3) by (auto simp: m)
  note gu = group_update [OF Cons.prems(1) u on(1) Cons.prems(2) on(2)]
  have ok: "merges_ok (merges ?c)" using gu by (simp add: m broadcastMerge_fst updateMergesForGroup_def)
  have step: "(h, f) \<in> merged_pairs (merges ?c) \<longleftrightarrow>
      (if h \<in> set (ObjectIDs g) then held C (scope c) fs h f ((h, f) \<in> merged_pairs (merges c)) else (h, f) \<in> merged_pairs (merges c))"
    using gu by (simp add: m broadcastMerge_fst updateMergesForGroup_def)
  note IH = Cons.IH [OF ok, unfolded scope, OF Cons.prems(2) rest]
  have mono: "held C (scope c) fs h f b \<Longrightarrow> held C (scope c) fs h f True"
    and weaken: "held C (scope c) fs' h f (held C (scope c) fs h f b) \<Longrightarrow> held C (scope c) fs' h f b" for fs fs' b
    by (auto simp: held_def stays_merged_def Let_def split: option.splits)
  show ?case
    unfolding run_each_Cons_fst
  proof (intro conjI impI)
    show "merges_ok (merges (fst (run_each (broadcastMerge C now) ms ?c)))" using IH by blast
    show "scope (fst (run_each (broadcastMerge C now) ms ?c)) = scope c" using IH by blast
    assume "(h, f) \<in> merged_pairs (merges (fst (run_each (broadcastMerge C now) ms ?c)))"
    then consider (later) g1 fs1 where "(g1, fs1) \<in> set ms" "h \<in> set (ObjectIDs g1)"
        "held C (scope c) fs1 h f ((h, f) \<in> merged_pairs (merges ?c))"
      | (here) "\<not> (\<exists>(g, fs) \<in> set ms. h \<in> set (ObjectIDs g))" "(h, f) \<in> merged_pairs (merges ?c)" using IH by blast
    then show "(\<exists>(g, fs) \<in> set (m # ms). h \<in> set (ObjectIDs g) \<and> held C (scope c) fs h f ((h, f) \<in> merged_pairs (merges c))) \<or>
      (h, f) \<in> merged_pairs (merges c) \<and> \<not> (\<exists>(g, fs) \<in> set (m # ms). h \<in> set (ObjectIDs g))"
    proof cases
      case later
      have "held C (scope c) fs1 h f ((h, f) \<in> merged_pairs (merges c))"
      proof (cases "h \<in> set (ObjectIDs g)")
        case True
        show ?thesis by (rule weaken) (use later(3) step True in simp)
      next
        case False
        then show ?thesis using later(3) step by simp
      qed
      then show ?thesis using later(1, 2) by auto
    next
      case here
      then show ?thesis using step by (auto simp: m split: if_splits)
    qed
  next
    assume all: "\<forall>(g, fs) \<in> set (m # ms). h \<in> set (ObjectIDs g) \<longrightarrow> held C (scope c) fs h f True"
      and some: "(h, f) \<in> merged_pairs (merges c) \<or> (\<exists>(g, fs) \<in> set (m # ms). h \<in> set (ObjectIDs g) \<and> held C (scope c) fs h f False)"
    have near: "held C (scope c) fs1 h f False \<Longrightarrow> held C (scope c) fs2 h f True \<Longrightarrow> held C (scope c) fs2 h f b" for fs1 fs2 b
      by (auto simp: held_def stays_merged_def Let_def split: option.splits)
    have "(h, f) \<in> merged_pairs (merges ?c) \<or> (\<exists>(g, fs) \<in> set ms. h \<in> set (ObjectIDs g) \<and> held C (scope c) fs h f False)"
    proof (cases "h \<in> set (ObjectIDs g)")
      case True
      then have h: "held C (scope c) fs h f True" using all by (simp add: m)
      consider "(h, f) \<in> merged_pairs (merges c)" | fs1 where "held C (scope c) fs1 h f False" using some by auto
      then have "held C (scope c) fs h f ((h, f) \<in> merged_pairs (merges c))"
      proof cases
        case 1
        then show ?thesis using h by simp
      next
        case 2
        then show ?thesis by (rule near [OF _ h])
      qed
      then show ?thesis using step True by simp
    next
      case False
      then show ?thesis using some step by (auto simp: m)
    qed
    then show "(h, f) \<in> merged_pairs (merges (fst (run_each (broadcastMerge C now) ms ?c)))"
      using IH all by simp
  qed
qed

section \<open>The hysteresis of merges\<close>

text \<open>Distances on the map do not depend on the direction; the library's do not by its documentation.\<close>

definition symmetric_distance :: "radar_lib \<Rightarrow> bool" where
  "symmetric_distance L \<longleftrightarrow> (\<forall>a b. geo_Distance (lib_geo L) a b = geo_Distance (lib_geo L) b a)"

lemma radar_distance_sym:
  assumes "symmetric_distance L"
  shows "radar_distance L r a b = radar_distance L r b a"
proof (cases "withProjection r")
  case (Some p)
  have "(x - y) * (x - y) = (y - x) * (y - x)" for x y :: real by (simp add: algebra_simps)
  then show ?thesis using Some by (simp only: radar_distance_def Distance_def projectedDistance_def Let_def option.case)
next
  case None
  moreover have "geo_Distance (lib_geo L) a b = geo_Distance (lib_geo L) b a"
    using assms unfolding symmetric_distance_def by blast
  ultimately show ?thesis by (simp only: radar_distance_def Distance_def option.case)
qed

definition tick_merges :: "control_lib \<Rightarrow> Controller \<Rightarrow> (group \<times> Trackfile list) list" where
  "tick_merges C c = map (\<lambda>(g, friendlies). (g, permute (ctl_friends_order C) friendlies))
     (permute (ctl_merges_order C) (Merges (ctl_radar C) (scope c) (c_coalition c)))"

lemma tick_merges_iff:
  "(g, fs) \<in> set (tick_merges C c) \<longleftrightarrow>
     (\<exists>fs0. (g, fs0) \<in> set (Merges (ctl_radar C) (scope c) (c_coalition c)) \<and> fs = permute (ctl_friends_order C) fs0)"
  by (auto simp: tick_merges_def image_iff Bex_def)

lemma broadcastMerges_tick:
  "broadcastMerges C now c = run_each (broadcastMerge C now) (tick_merges C c)
     (c\<lparr>merges := keep (concat (map (\<lambda>(g, _). ObjectIDs g) (tick_merges C c))) (merges c)\<rparr>)"
  by (simp add: broadcastMerges_def tick_merges_def Let_def)

lemma merge_group_contacts:
  assumes "db_ok (db (scope c))" and "(g, fs) \<in> set (tick_merges C c)"
  shows "(\<forall>x \<in> set (g_contacts g). getByID (tf_ID x) (db (scope c)) = Some x) \<and>
    set fs = (\<Union>t \<in> set (g_contacts g). set (mergesForContact (ctl_radar C) (scope c) t))"
proof -
  obtain fs0 where fs: "(g, fs0) \<in> set (Merges (ctl_radar C) (scope c) (c_coalition c))"
    "fs = permute (ctl_friends_order C) fs0" using assms(2) tick_merges_iff by blast
  note m = merges_found(1) [OF assms(1) fs(1)]
  then obtain t where t: "getByID (tf_ID t) (db (scope c)) = Some t"
    "g_contacts g = g_contacts (findGroupForAircraft (ctl_radar C) (scope c) t)" by blast
  show ?thesis
  proof
    show "\<forall>x \<in> set (g_contacts g). getByID (tf_ID x) (db (scope c)) = Some x"
      unfolding t(2) using group_members [OF assms(1) t(1)] by blast
    show "set fs = (\<Union>t \<in> set (g_contacts g). set (mergesForContact (ctl_radar C) (scope c) t))"
      using m fs(2) by simp
  qed
qed

lemma tick_merges_on_scope:
  assumes "db_ok (db (scope c))"
  shows "merges_on_scope (scope c) (tick_merges C c)"
proof (intro ballI, unfold split_paired_all prod.case)
  fix g fs assume m: "(g, fs) \<in> set (tick_merges C c)"
  note g = merge_group_contacts [OF assms m]
  have "on_scope (scope c) fs"
    using conjunct2 [OF g] mergesForContact_iff [OF assms] by (metis UN_iff)
  moreover have "\<forall>h \<in> set (ObjectIDs g). getByID h (db (scope c)) \<noteq> None"
    using conjunct1 [OF g] by (force simp: ObjectIDs_set)
  ultimately show "on_scope (scope c) fs \<and> (\<forall>h \<in> set (ObjectIDs g). getByID h (db (scope c)) \<noteq> None)" ..
qed

abbreviation pair_distance :: "control_lib \<Rightarrow> Controller \<Rightarrow> Trackfile \<Rightarrow> Trackfile \<Rightarrow> real" where
  "pair_distance C c hostile friendly \<equiv> radar_distance (ctl_radar C) (scope c) (last_point friendly) (last_point hostile)"

text \<open>What the tick makes of a tracked pair.\<close>

lemma tick_tracks:
  assumes "db_ok (db (scope c))" and "merges_ok (merges c)" and "units_ok (ctl_units C)"
    and c': "c' = fst (broadcastMerges C now c)"
  shows "merges_ok (merges c')"
    and "(h, f) \<in> merged_pairs (merges c') \<Longrightarrow> \<exists>(g, fs) \<in> set (tick_merges C c).
      h \<in> set (ObjectIDs g) \<and> held C (scope c) fs h f ((h, f) \<in> merged_pairs (merges c))"
    and "\<forall>(g, fs) \<in> set (tick_merges C c). h \<in> set (ObjectIDs g) \<longrightarrow> held C (scope c) fs h f True \<Longrightarrow>
      \<exists>(g, fs) \<in> set (tick_merges C c). h \<in> set (ObjectIDs g) \<and> ((h, f) \<in> merged_pairs (merges c) \<or> held C (scope c) fs h f False) \<Longrightarrow>
      (h, f) \<in> merged_pairs (merges c')"
proof -
  let ?ids = "concat (map (\<lambda>(g, _). ObjectIDs g) (tick_merges C c))"
  let ?c = "c\<lparr>merges := keep ?ids (merges c)\<rparr>"
  have kept: "(h, f) \<in> merged_pairs (merges ?c) \<longleftrightarrow> (h, f) \<in> merged_pairs (merges c) \<and> h \<in> set ?ids"
    using merged.rel_restrict [OF assms(2)] by auto
  have ids: "h \<in> set ?ids \<longleftrightarrow> (\<exists>(g, fs) \<in> set (tick_merges C c). h \<in> set (ObjectIDs g))" by auto
  have c': "c' = fst (run_each (broadcastMerge C now) (tick_merges C c) ?c)"
    using c' by (simp only: broadcastMerges_tick)
  have ok: "merges_ok (merges ?c)" using tracker_ok(4) [OF assms(2)] by simp
  have s: "scope ?c = scope c" by simp
  note u = tick_update [OF ok assms(3), unfolded s, OF assms(1) tick_merges_on_scope [OF assms(1), of C], where now = now, folded c']
  show "merges_ok (merges c')" using u by blast
  have same: "(h, f) \<in> merged_pairs (merges ?c) \<longleftrightarrow> (h, f) \<in> merged_pairs (merges c)"
    if "(g, fs) \<in> set (tick_merges C c)" "h \<in> set (ObjectIDs g)" for g fs using kept ids that by blast
  show "\<exists>(g, fs) \<in> set (tick_merges C c). h \<in> set (ObjectIDs g) \<and> held C (scope c) fs h f ((h, f) \<in> merged_pairs (merges c))"
    if tracked: "(h, f) \<in> merged_pairs (merges c')"
  proof -
    obtain g fs where g: "(g, fs) \<in> set (tick_merges C c)" "h \<in> set (ObjectIDs g)"
      "held C (scope c) fs h f ((h, f) \<in> merged_pairs (merges ?c))"
      using u [where h = h and f = f] tracked kept ids by blast
    show ?thesis using g(1,2) g(3) [unfolded same [OF g(1,2)]] by blast
  qed
  show "(h, f) \<in> merged_pairs (merges c')"
    if "\<forall>(g, fs) \<in> set (tick_merges C c). h \<in> set (ObjectIDs g) \<longrightarrow> held C (scope c) fs h f True"
      and "\<exists>(g, fs) \<in> set (tick_merges C c). h \<in> set (ObjectIDs g) \<and> ((h, f) \<in> merged_pairs (merges c) \<or> held C (scope c) fs h f False)"
    using u [where h = h and f = f] that same by blast
qed

lemma merge_tick_sound:
  assumes "db_ok (db (scope c))" and "merges_ok (merges c)" and "units_ok (ctl_units C)"
    and "c' = fst (broadcastMerges C now c)" and "(h, f) \<in> merged_pairs (merges c')"
  shows "\<exists>hostile friendly. getByID h (db (scope c)) = Some hostile \<and> getByID f (db (scope c)) = Some friendly \<and>
       pair_distance C c hostile friendly \<le> MergeExitDistance (ctl_units C) \<and>
       (pair_distance C c hostile friendly < MergeEntryDistance (ctl_units C) \<or> (h, f) \<in> merged_pairs (merges c))"
proof -
  obtain g fs where g: "(g, fs) \<in> set (tick_merges C c)" and "held C (scope c) fs h f ((h, f) \<in> merged_pairs (merges c))"
    using tick_tracks(2) [OF assms] by blast
  then obtain hostile where h: "getByID h (db (scope c)) = Some hostile" "f \<in> tf_ID ` set fs"
    "stays_merged C (scope c) hostile (the (getByID f (db (scope c)))) ((h, f) \<in> merged_pairs (merges c))"
    by (auto simp: held_def split: option.splits)
  have "on_scope (scope c) fs" using tick_merges_on_scope [OF assms(1), of C] g by blast
  then obtain friendly where "getByID f (db (scope c)) = Some friendly" using h(2) by auto
  then show ?thesis using h(1, 3)
    by (auto simp: stays_merged_def Let_def MergeEntryDistance_def MergeExitDistance_def)
      (use assms(3) in \<open>simp_all add: units_ok_def\<close>)
qed

text \<open>A hostile with a friend that near is in a group of the tick, and each such group holds the pair.\<close>

lemma merge_tick_complete:
  assumes "db_ok (db (scope c))" and "merges_ok (merges c)" and "units_ok (ctl_units C)"
    and "symmetric_distance (ctl_radar C)" and "c' = fst (broadcastMerges C now c)"
    and h: "getByID (tf_ID hostile) (db (scope c)) = Some hostile" "merge_hostile (ctl_radar C) (c_coalition c) hostile"
    and f: "getByID (tf_ID friendly) (db (scope c)) = Some friendly" "tf_Coalition friendly \<noteq> tf_Coalition hostile"
      "\<not> IsLastKnownPointZero friendly"
    and d: "pair_distance C c hostile friendly < MergeExitDistance (ctl_units C)"
      "pair_distance C c hostile friendly < MergeEntryDistance (ctl_units C) \<or> (tf_ID hostile, tf_ID friendly) \<in> merged_pairs (merges c)"
  shows "(tf_ID hostile, tf_ID friendly) \<in> merged_pairs (merges c')"
proof -
  have z: "\<not> IsLastKnownPointZero hostile" using h(2) by (auto simp: merge_hostile_def isValidTrack_def split: if_splits)
  have m: "friendly \<in> set (mergesForContact (ctl_radar C) (scope c) hostile)"
    unfolding mergesForContact_iff [OF assms(1)]
    using z f d(1) radar_distance_sym [OF assms(4)] by metis
  have near: "held C (scope c) fs (tf_ID hostile) (tf_ID friendly) b"
    if g: "(g, fs) \<in> set (tick_merges C c)" "tf_ID hostile \<in> set (ObjectIDs g)"
      and b: "b \<or> pair_distance C c hostile friendly < MergeEntryDistance (ctl_units C)" for g fs b
  proof -
    note c = merge_group_contacts [OF assms(1) g(1)]
    obtain x where "x \<in> set (g_contacts g)" "tf_ID x = tf_ID hostile" using g(2) by (auto simp: ObjectIDs_set)
    then have "hostile \<in> set (g_contacts g)" using c h(1) by (metis option.inject)
    then have "friendly \<in> set fs" using c m by blast
    then show ?thesis using h(1) f z d(1) b by (auto simp: held_def stays_merged_def Let_def)
  qed
  obtain g fs where "(g, fs) \<in> set (tick_merges C c)" "tf_ID hostile \<in> set (ObjectIDs g)"
    using merges_found(2) [OF assms(1) h m] tick_merges_iff by metis
  then show ?thesis
    using near d(2) by (intro tick_tracks(3) [OF assms(1-3,5)]) blast+
qed

text \<open>C11. After the controller's tick the tracked merges are those of the scope, with hysteresis. A tracked
  pair consists of two contacts at most 5 NM apart, which are less than 3 NM apart or were tracked
  before. And a valid enemy aircraft (no helicopter) is merged with every contact of another
  coalition less than 5 NM away that is less than 3 NM away or was merged with it before.\<close>

theorem merge_hysteresis:
  assumes "db_ok (db (scope c))" and "merges_ok (merges c)" and "units_ok (ctl_units C)"
    and "symmetric_distance (ctl_radar C)" and "c' = fst (broadcastMerges C now c)"
  shows "merges_ok (merges c') \<and>
    (\<forall>h f. isMerged h f (merges c') \<longrightarrow>
      (\<exists>hostile friendly. getByID h (db (scope c)) = Some hostile \<and> getByID f (db (scope c)) = Some friendly \<and>
         pair_distance C c hostile friendly \<le> MergeExitDistance (ctl_units C) \<and>
         (pair_distance C c hostile friendly < MergeEntryDistance (ctl_units C) \<or> isMerged h f (merges c)))) \<and>
    (\<forall>hostile friendly. getByID (tf_ID hostile) (db (scope c)) = Some hostile \<longrightarrow>
      getByID (tf_ID friendly) (db (scope c)) = Some friendly \<longrightarrow>
      merge_hostile (ctl_radar C) (c_coalition c) hostile \<longrightarrow> tf_Coalition friendly \<noteq> tf_Coalition hostile \<longrightarrow>
      \<not> IsLastKnownPointZero friendly \<longrightarrow> pair_distance C c hostile friendly < MergeExitDistance (ctl_units C) \<longrightarrow>
      pair_distance C c hostile friendly < MergeEntryDistance (ctl_units C) \<or> isMerged (tf_ID hostile) (tf_ID friendly) (merges c) \<longrightarrow>
      isMerged (tf_ID hostile) (tf_ID friendly) (merges c'))"
  unfolding isMerged_pairs
  using tick_tracks(1) [OF assms(1-3,5)] merge_tick_sound [OF assms(1-3,5)] merge_tick_complete [OF assms] by blast

section \<open>Cooldowns\<close>

lemma notify_run:
  assumes "run_each (notify_step now) fs cds = (cds', out)"
  shows "cooldown cds' = cooldown cds \<and>
    (\<forall>f \<in> set out. f \<in> set fs \<and> \<not> isOnCooldown now (tf_ID f) cds) \<and>
    (0 < cooldown cds \<longrightarrow> distinct (map tf_ID out)) \<and>
    (\<forall>later x. isOnCooldown later x cds' \<longleftrightarrow>
      (if x \<in> tf_ID ` set out then later < now + cooldown cds else isOnCooldown later x cds))"
  using assms
proof (induction fs arbitrary: cds cds' out)
  case (Cons f fs)
  show ?case
  proof (cases "isOnCooldown now (tf_ID f) cds")
    case True
    then have "notify_step now f cds = (cds, [])" by (simp add: notify_step_def)
    then have "run_each (notify_step now) fs cds = (cds', out)"
      using Cons.prems by (simp add: Let_def split: prod.splits)
    from Cons.IH [OF this] show ?thesis by auto
  next
    case False
    then have "notify_step now f cds = (extendCooldown now (tf_ID f) cds, [f])" by (simp add: notify_step_def)
    then obtain out1 where o: "run_each (notify_step now) fs (extendCooldown now (tf_ID f) cds) = (cds', out1)" "out = f # out1"
      using Cons.prems by (auto simp: Let_def split: prod.splits)
    note IH = Cons.IH [OF o(1)]
    have "tf_ID f \<notin> tf_ID ` set out1" if "0 < cooldown cds"
      using IH that by (auto simp: isOnCooldown_extend)
    moreover have "x \<in> set fs \<and> \<not> isOnCooldown now (tf_ID x) cds" if "x \<in> set out1" for x
      using IH that False by (cases "tf_ID x = tf_ID f") (auto simp: isOnCooldown_extend)
    moreover have "isOnCooldown later x cds' \<longleftrightarrow>
        (if x \<in> tf_ID ` set out then later < now + cooldown cds else isOnCooldown later x cds)" for later x
      using IH by (simp add: o(2) isOnCooldown_extend)
    ultimately show ?thesis using IH False by (simp add: o(2))
  qed
qed simp

text \<open>The friends that a group's merged call is for.\<close>

definition merge_notices :: "control_lib \<Rightarrow> int \<Rightarrow> group \<times> Trackfile list \<Rightarrow> Controller \<Rightarrow> Trackfile list" where
  "merge_notices C now m c =
     snd (run_each (notify_step now) (snd (updateMergesForGroup C (scope c) (fst m) (snd m) (merges c))) (mergeCooldowns c))"

lemma broadcastMerge_notices:
  "broadcastMerge C now m c =
     (let c' = fst (broadcastMerge C now m c); names = createMergedCall C c' (merge_notices C now m c)
      in (c', if length names > 0 then [MergedCall names] else []))"
  by (simp add: broadcastMerge_def merge_notices_def Let_def split: prod.split)

lemma broadcastMerge_cooldowns:
  "cooldown (mergeCooldowns (fst (broadcastMerge C now m c))) = cooldown (mergeCooldowns c) \<and>
   (\<forall>f \<in> set (merge_notices C now m c). \<not> isOnCooldown now (tf_ID f) (mergeCooldowns c)) \<and>
   (isOnCooldown later x (mergeCooldowns (fst (broadcastMerge C now m c))) \<longleftrightarrow>
     (if x \<in> tf_ID ` set (merge_notices C now m c) then later < now + cooldown (mergeCooldowns c)
      else isOnCooldown later x (mergeCooldowns c)))"
proof -
  obtain g fs where m: "m = (g, fs)" by fastforce
  let ?new = "snd (updateMergesForGroup C (scope c) g fs (merges c))"
  have "run_each (notify_step now) ?new (mergeCooldowns c) =
      (mergeCooldowns (fst (broadcastMerge C now m c)), merge_notices C now m c)"
    by (simp add: m broadcastMerge_fst merge_notices_def)
  from notify_run [OF this] show ?thesis by blast
qed

lemma cooldown_deadline:
  "isOnCooldown later x t \<Longrightarrow> \<not> isOnCooldown now x t \<Longrightarrow> later < now"
  by (auto simp: isOnCooldown_def split: option.splits)

text \<open>The events after which an ID is no longer on cooldown.\<close>

fun forgets_one :: "u64 \<Rightarrow> RadarEvent \<Rightarrow> bool" where
  "forgets_one x StartedEvent = True"
| "forgets_one x (FadedEvent p g coalition) = (x \<in> set (ObjectIDs g))"
| "forgets_one x (RemovedEvent t) = (tf_ID t = x)"

fun forgets :: "u64 \<Rightarrow> control_event \<Rightarrow> bool" where
  "forgets x Tick = False"
| "forgets x (Scope events) = list_ex (forgets_one x) events"

lemma ctl_removes:
  "threatCooldowns (fold ctl_remove xs c) = fold cooldown_remove xs (threatCooldowns c) \<and>
   mergeCooldowns (fold ctl_remove xs c) = fold cooldown_remove xs (mergeCooldowns c) \<and>
   merges (fold ctl_remove xs c) = fold merge_remove xs (merges c) \<and>
   scope (fold ctl_remove xs c) = scope c \<and> c_coalition (fold ctl_remove xs c) = c_coalition c \<and>
   c_srsClient (fold ctl_remove xs c) = c_srsClient c"
  by (induction xs arbitrary: c) (simp_all add: ctl_remove_def)

lemma isOnCooldown_removes: "isOnCooldown now x (fold cooldown_remove xs t) \<longleftrightarrow> x \<notin> set xs \<and> isOnCooldown now x t"
  by (induction xs arbitrary: t) (auto simp: isOnCooldown_remove)

lemma cooldown_removes [simp]: "cooldown (fold cooldown_remove xs t) = cooldown t"
  by (induction xs arbitrary: t) simp_all

lemma merge_removes_ok: "merges_ok t \<Longrightarrow> merges_ok (fold merge_remove xs t)"
  by (induction xs arbitrary: t) (simp_all add: tracker_ok)

lemma handle_event_cooldowns:
  "cooldown (threatCooldowns (fst (handle_event C e c))) = cooldown (threatCooldowns c) \<and>
   cooldown (mergeCooldowns (fst (handle_event C e c))) = cooldown (mergeCooldowns c) \<and>
   (\<not> forgets_one x e \<longrightarrow>
     isOnCooldown later x (threatCooldowns (fst (handle_event C e c))) = isOnCooldown later x (threatCooldowns c) \<and>
     isOnCooldown later x (mergeCooldowns (fst (handle_event C e c))) = isOnCooldown later x (mergeCooldowns c))"
  by (cases e)
    (simp_all add: ctl_handleStarted_def ctl_handleFaded_def ctl_handleRemoved_def Let_def ctl_removes
      isOnCooldown_removes, simp_all add: ctl_remove_def isOnCooldown_remove eq_commute)

lemma handle_events_cooldowns:
  "cooldown (threatCooldowns (fst (run_each (handle_event C) es c))) = cooldown (threatCooldowns c) \<and>
   cooldown (mergeCooldowns (fst (run_each (handle_event C) es c))) = cooldown (mergeCooldowns c) \<and>
   (\<not> list_ex (forgets_one x) es \<longrightarrow>
     isOnCooldown later x (threatCooldowns (fst (run_each (handle_event C) es c))) = isOnCooldown later x (threatCooldowns c) \<and>
     isOnCooldown later x (mergeCooldowns (fst (run_each (handle_event C) es c))) = isOnCooldown later x (mergeCooldowns c))"
proof (induction es arbitrary: c)
  case (Cons e es)
  then show ?case
    using handle_event_cooldowns [of C e c x later] by (simp add: run_each_Cons_fst del: run_each.simps(2))
qed simp

lemma broadcastThreat_cooldowns:
  "mergeCooldowns (fst (broadcastThreat C now g ids c)) = mergeCooldowns c \<and>
   cooldown (threatCooldowns (fst (broadcastThreat C now g ids c))) = cooldown (threatCooldowns c) \<and>
   (isOnCooldown later x (threatCooldowns (fst (broadcastThreat C now g ids c))) \<longleftrightarrow>
     (if snd (broadcastThreat C now g ids c) \<noteq> [] \<and> x \<in> set (ObjectIDs g) then later < now + cooldown (threatCooldowns c)
      else isOnCooldown later x (threatCooldowns c)))"
proof -
  have "ObjectIDs (fillInMergeDetails c (g\<lparr>g_declaration := Hostile\<rparr>)\<lparr>g_isThreat := True\<rparr>) = ObjectIDs g"
    by (simp add: fillInMergeDetails_def Let_def ObjectIDs_def g_contacts_def)
  then show ?thesis by (simp add: broadcastThreat_def Let_def isOnCooldown_extends)
qed

lemma picture_keeps:
  "broadcastPicture C now force [] c = (c', calls) \<Longrightarrow>
   scope c' = scope c \<and> merges c' = merges c \<and> mergeCooldowns c' = mergeCooldowns c \<and>
   threatCooldowns c' = threatCooldowns c \<and> threatMonitoringCooldown c' = threatMonitoringCooldown c"
  by (auto simp: broadcastPicture_def Let_def split: if_splits prod.splits)

lemma automatic_picture_keeps:
  "broadcastAutomaticPicture C now [] c = (c', calls) \<Longrightarrow>
   scope c' = scope c \<and> merges c' = merges c \<and> mergeCooldowns c' = mergeCooldowns c \<and>
   threatCooldowns c' = threatCooldowns c \<and> threatMonitoringCooldown c' = threatMonitoringCooldown c"
  using picture_keeps by (auto simp: broadcastAutomaticPicture_def split: if_splits)

lemma control_step_cooldowns:
  assumes "control_step C now c e calls c'"
  shows "cooldown (threatCooldowns c') = cooldown (threatCooldowns c) \<and>
    cooldown (mergeCooldowns c') = cooldown (mergeCooldowns c) \<and>
    (\<not> forgets x e \<longrightarrow> 0 \<le> cooldown (mergeCooldowns c) \<longrightarrow> isOnCooldown later x (mergeCooldowns c) \<longrightarrow>
      isOnCooldown later x (mergeCooldowns c')) \<and>
    (\<not> forgets x e \<longrightarrow> isOnCooldown later x (threatCooldowns c) \<longrightarrow> later < now + cooldown (threatCooldowns c) \<longrightarrow>
      isOnCooldown later x (threatCooldowns c'))"
  using assms
proof (cases rule: control_step.cases)
  case (kept hostileIDs)
  then show ?thesis by simp
next
  case (merged m)
  then have c': "c' = fst (broadcastMerge C now m c)" by simp
  have "threatCooldowns c' = threatCooldowns c"
    unfolding c' by (cases m) (simp add: broadcastMerge_fst)
  moreover have "isOnCooldown later x (mergeCooldowns c')" if on: "isOnCooldown later x (mergeCooldowns c)" "0 \<le> cooldown (mergeCooldowns c)"
  proof (cases "x \<in> tf_ID ` set (merge_notices C now m c)")
    case True
    then have "\<not> isOnCooldown now x (mergeCooldowns c)" using broadcastMerge_cooldowns by blast
    then have "later < now" using on(1) cooldown_deadline by blast
    then have "later < now + cooldown (mergeCooldowns c)" using on(2) by simp
    then show ?thesis unfolding c' using True broadcastMerge_cooldowns by metis
  next
    case False
    then show ?thesis unfolding c' using on(1) broadcastMerge_cooldowns by metis
  qed
  ultimately show ?thesis unfolding c' using broadcastMerge_cooldowns by metis
next
  case (threat g friendIDs)
  then have c': "c' = fst (broadcastThreat C now g friendIDs c)" by simp
  show ?thesis unfolding c' using broadcastThreat_cooldowns [of C now g friendIDs c later x] by auto
next
  case picture
  from automatic_picture_keeps [OF this(2)] show ?thesis by simp
next
  case request
  from picture_keeps [OF this(2) [unfolded HandlePicture_def]] show ?thesis by simp
next
  case (radar events r')
  then have c': "c' = fst (run_each (handle_event C) events (c\<lparr>scope := r'\<rparr>))" by simp
  show ?thesis
    unfolding c' radar(1) using handle_events_cooldowns [of C events "c\<lparr>scope := r'\<rparr>" x later] by auto
qed

lemma run_cooldowns:
  assumes "control_run C c trace c'"
  shows "cooldown (threatCooldowns c') = cooldown (threatCooldowns c) \<and>
    cooldown (mergeCooldowns c') = cooldown (mergeCooldowns c) \<and>
    (list_all (\<lambda>(_, e). \<not> forgets x e) trace \<longrightarrow> 0 \<le> cooldown (mergeCooldowns c) \<longrightarrow>
      isOnCooldown later x (mergeCooldowns c) \<longrightarrow> isOnCooldown later x (mergeCooldowns c')) \<and>
    (list_all (\<lambda>(time, e). \<not> forgets x e \<and> later < time + cooldown (threatCooldowns c)) trace \<longrightarrow>
      isOnCooldown later x (threatCooldowns c) \<longrightarrow> isOnCooldown later x (threatCooldowns c'))"
  using assms
proof induction
  case (step now c e calls c1 trace c')
  then show ?case using control_step_cooldowns [OF step.hyps(1), where x = x and later = later] by auto
qed simp


text \<open>C13. When a threat was called, no further call about any of its aircraft is sent before the cooldown
  has passed: no group that consists of some of them is called again, as long as none of them faded
  or was removed and the mission was not restarted.\<close>

theorem threat_calls_spaced:
  assumes "snd (broadcastThreat C now g ids c) \<noteq> []"
    and "control_run C (fst (broadcastThreat C now g ids c)) trace c2" and "set (ObjectIDs g2) \<subseteq> set (ObjectIDs g)"
    and "list_all (\<lambda>(time, e). now \<le> time \<and> (\<forall>x \<in> set (ObjectIDs g2). \<not> forgets x e)) trace"
    and "later < now + cooldown (threatCooldowns c)"
  shows "snd (broadcastThreat C later g2 ids2 c2) = []"
proof -
  let ?c = "fst (broadcastThreat C now g ids c)"
  have cd: "cooldown (threatCooldowns ?c) = cooldown (threatCooldowns c)" using broadcastThreat_cooldowns by blast
  have "isOnCooldown later x (threatCooldowns c2)" if x: "x \<in> set (ObjectIDs g2)" for x
  proof -
    have "isOnCooldown later x (threatCooldowns ?c)"
      using broadcastThreat_cooldowns [of C now g ids c later x] assms(1, 3, 5) x by auto
    moreover have "list_all (\<lambda>(time, e). \<not> forgets x e \<and> later < time + cooldown (threatCooldowns ?c)) trace"
      using assms(4, 5) x cd by (force simp: list_all_iff)
    ultimately show ?thesis using run_cooldowns [OF assms(2), where x = x and later = later] by blast
  qed
  then have "list_all (\<lambda>x. isOnCooldown later x (threatCooldowns c2)) (ObjectIDs g2)" by (simp add: list_all_iff)
  moreover have "ObjectIDs (fillInMergeDetails c2 (g2\<lparr>g_declaration := Hostile\<rparr>)\<lparr>g_isThreat := True\<rparr>) = ObjectIDs g2"
    by (simp add: fillInMergeDetails_def Let_def ObjectIDs_def g_contacts_def)
  ultimately show ?thesis by (simp add: broadcastThreat_def Let_def)
qed

section \<open>The invariant of the controller\<close>

definition controller_ok :: "Controller \<Rightarrow> bool" where
  "controller_ok c \<longleftrightarrow> radar_ok (scope c) \<and> merges_ok (merges c) \<and>
     cooldown (mergeCooldowns c) = 30 * second \<and> cooldown (threatCooldowns c) = threatMonitoringCooldown c"

lemma update_contact_ok: "merges_ok t \<Longrightarrow> merges_ok (fst (updateMergesForContact C r h f t))"
  by (simp add: updateMergesForContact_def Let_def tracker_ok)

lemma update_group_ok:
  assumes "merges_ok t"
  shows "merges_ok (fst (updateMergesForGroup C r g fs t))"
  unfolding updateMergesForGroup_def
proof (rule run_each_induct [where P = merges_ok, OF assms])
  fix h t assume "merges_ok (t :: mergeTracker)"
  then have s: "merges_ok (fold (separate h) hs t)" for hs using separates by blast
  show "merges_ok (fst (updateMergesForHostile C r fs h t))"
  proof (cases "FindUnit h (db r)")
    case None
    then show ?thesis using s by (simp add: updateMergesForHostile_def Let_def tracker_ok)
  next
    case (Some hostile)
    have "merges_ok (fst (run_each (\<lambda>friendly t. let (t', isNewMerge) = updateMergesForContact C r hostile friendly t
        in (t', if isNewMerge then [friendly] else [])) fs (fold (separate h) hs t)))" for hs
      by (rule run_each_induct [where P = merges_ok, OF s]) (simp add: update_contact_ok Let_def prod.case_eq_if)
    then show ?thesis by (simp add: updateMergesForHostile_def Some Let_def)
  qed
qed

lemma handle_event_ok: "controller_ok c \<Longrightarrow> controller_ok (fst (handle_event C e c))"
proof (cases e)
  case (FadedEvent p g coalition)
  have t: "threatMonitoringCooldown (fold ctl_remove xs c) = threatMonitoringCooldown c" for xs c
    by (induction xs arbitrary: c) (simp_all add: ctl_remove_def)
  assume "controller_ok c"
  then show ?thesis
    by (simp add: FadedEvent ctl_handleFaded_def Let_def controller_ok_def ctl_removes t merge_removes_ok)
qed (simp_all add: controller_ok_def ctl_handleStarted_def ctl_handleRemoved_def ctl_remove_def merge_reset_def tracker_ok)

lemma control_step_ok:
  assumes "control_step C now c e calls c'" and "counting_push (lib_push (ctl_radar C))" and "controller_ok c"
  shows "controller_ok c'"
  using assms(1)
proof (cases rule: control_step.cases)
  case (kept hostileIDs)
  then show ?thesis using assms(3) by (simp add: controller_ok_def tracker_ok)
next
  case (merged m)
  then have c': "c' = fst (broadcastMerge C now m c)" by simp
  have "cooldown (mergeCooldowns c') = cooldown (mergeCooldowns c)" unfolding c' using broadcastMerge_cooldowns by blast
  then show ?thesis unfolding c' using assms(3)
    by (cases m) (simp add: broadcastMerge_fst controller_ok_def update_group_ok)
next
  case (threat g friendIDs)
  then have c': "c' = fst (broadcastThreat C now g friendIDs c)" by simp
  show ?thesis unfolding c' using assms(3) by (simp add: broadcastThreat_def Let_def controller_ok_def)
next
  case picture
  from automatic_picture_keeps [OF this(2)] show ?thesis using assms(3) by (simp add: controller_ok_def)
next
  case request
  from picture_keeps [OF this(2) [unfolded HandlePicture_def]] show ?thesis using assms(3) by (simp add: controller_ok_def)
next
  case (radar events r')
  then have c': "c' = fst (run_each (handle_event C) events (c\<lparr>scope := r'\<rparr>))" by simp
  have "controller_ok (c\<lparr>scope := r'\<rparr>)"
    using radar_step_ok [OF radar(2) assms(2)] assms(3) by (simp add: controller_ok_def)
  then show ?thesis unfolding c' by (rule run_each_induct) (rule handle_event_ok)
qed

text \<open>C19. Whatever the radar, the simulator and the pilots do, the state of a controller that was created
  for a scope keeps its type: the scope's database is consistent, no hostile is tracked without a
  friend it is merged with, and the two cooldowns are those it was created with.\<close>

theorem controller_invariant:
  assumes "control_run C (NewController now rdr srs coalition auto interval monitoring monitoringCooldown requiresSRS locs) trace c"
    and "radar_reachable (ctl_radar C) rdr" and "counting_push (lib_push (ctl_radar C))"
  shows "db_ok (db (scope c)) \<and> merges_ok (merges c) \<and> (\<forall>h. map_of (merges c) h \<noteq> Some []) \<and>
    cooldown (mergeCooldowns c) = 30 * second \<and> cooldown (threatCooldowns c) = threatMonitoringCooldown c"
proof -
  have "controller_ok (NewController now rdr srs coalition auto interval monitoring monitoringCooldown requiresSRS locs)"
    using reachable_ok [OF assms(2, 3)] by (simp add: NewController_def controller_ok_def newMergeTracker_def)
  with assms(1) have "controller_ok c"
    by (induction rule: control_run.induct) (blast intro: control_step_ok [OF _ assms(3)])+
  then show ?thesis
    by (auto simp: controller_ok_def radar_ok_def merges_ok_def dest: gomap.holds_get)
qed

section \<open>Forgetting\<close>

lemma merge_removes_pairs:
  assumes "merges_ok t"
  shows "merged_pairs (fold merge_remove xs t) \<subseteq> merged_pairs t \<and>
    (x \<in> set xs \<longrightarrow> x \<notin> Domain (merged_pairs (fold merge_remove xs t)) \<and>
      (x \<notin> Domain (merged_pairs t) \<longrightarrow> x \<notin> Relation.Range (merged_pairs (fold merge_remove xs t))))"
  using assms
proof (induction xs arbitrary: t)
  case (Cons y ys)
  have ok: "merges_ok (merge_remove y t)" using Cons.prems tracker_ok(3) by blast
  have r: "merged_pairs (merge_remove y t) = (if y \<in> Domain (merged_pairs t) then {(h, f) \<in> merged_pairs t. h \<noteq> y}
      else {(h, f) \<in> merged_pairs t. f \<noteq> y})" by (rule merged.rel_forget [OF Cons.prems])
  note IH = Cons.IH [OF ok]
  have sub: "merged_pairs (merge_remove y t) \<subseteq> merged_pairs t" using merged.rel_forget_subset [OF Cons.prems] .
  have y: "y \<notin> Domain (merged_pairs (merge_remove y t)) \<and>
      (y \<notin> Domain (merged_pairs t) \<longrightarrow> y \<notin> Relation.Range (merged_pairs (merge_remove y t)))"
    unfolding r by (auto split: if_splits)
  show ?case using IH sub y by (auto; blast)
qed simp

text \<open>C23. When a group fades the controller forgets its aircraft: none of them is on a cooldown or tracked as
  a hostile, and those that were no hostiles are tracked as a friend of nobody. The call is
  broadcast exactly for the enemy, when humans listen and a friendly group is near.\<close>

theorem faded_forgotten:
  assumes "merges_ok (merges c)" and "handle_event C (FadedEvent location g coalition) c = (c', calls)"
  shows "(\<forall>x \<in> set (ObjectIDs g). \<not> isOnCooldown now x (threatCooldowns c') \<and> \<not> isOnCooldown now x (mergeCooldowns c') \<and>
      (\<forall>f. \<not> isMerged x f (merges c')) \<and> ((\<forall>f. \<not> isMerged x f (merges c)) \<longrightarrow> (\<forall>h. \<not> isMerged h x (merges c')))) \<and>
    (calls = [] \<or> calls = [FadedCall (g\<lparr>g_declaration := Hostile\<rparr>)]) \<and>
    (calls \<noteq> [] \<longleftrightarrow> coalition = Opposite (c_coalition c) \<and> 0 < HumansOnFrequency (c_srsClient c) \<and>
      findNearbyGroups (ctl_radar C) (scope c) location lowestAltitude (Some (highestAltitude (ctl_units C)))
        (fadeBroadcastRadius (ctl_units C)) (c_coalition c) ContactCategory.Aircraft [] \<noteq> [])"
proof -
  have c': "c' = fold ctl_remove (ObjectIDs g) c" using assms(2) by (simp add: ctl_handleFaded_def Let_def)
  have "\<not> isOnCooldown now x (threatCooldowns c') \<and> \<not> isOnCooldown now x (mergeCooldowns c') \<and>
      (\<forall>f. \<not> isMerged x f (merges c')) \<and> ((\<forall>f. \<not> isMerged x f (merges c)) \<longrightarrow> (\<forall>h. \<not> isMerged h x (merges c')))"
    if "x \<in> set (ObjectIDs g)" for x
    unfolding c' isMerged_pairs
    using merge_removes_pairs [OF assms(1), of "ObjectIDs g" x] that by (simp add: ctl_removes isOnCooldown_removes) blast
  then show ?thesis
    using assms(2) by (auto simp: ctl_handleFaded_def Let_def ctl_removes FindNearbyGroupsWithBullseye_def split: if_splits)
qed

section \<open>A controller at work\<close>

definition demo_control_lib :: control_lib where
  "demo_control_lib = \<lparr>ctl_radar = demo_radar_lib, ctl_omap = demo_order, ctl_threats_order = \<lambda>xs. xs,
     ctl_merges_order = \<lambda>xs. xs, ctl_friends_order = \<lambda>xs. xs\<rparr>"

definition demo_controller :: Controller where
  "demo_controller = NewController 0 demo_fight demo_client Blue True (60 * second) True (60 * second) False []"

definition demo_hostile_group :: group where
  "demo_hostile_group = findGroupForAircraft demo_radar_lib demo_fight demo_bandit"

lemma demo_controller_simps [simp]:
  "scope demo_controller = demo_fight" "merges demo_controller = []" "c_coalition demo_controller = Blue"
  "mergeCooldowns demo_controller = \<lparr>cooldown = 30 * second, cooldowns = []\<rparr>"
  "threatCooldowns demo_controller = \<lparr>cooldown = 60 * second, cooldowns = []\<rparr>"
  "ctl_radar demo_control_lib = demo_radar_lib"
  by (simp_all add: demo_controller_def NewController_def newMergeTracker_def newCooldownTracker_def demo_control_lib_def)

lemma demo_hostile_IDs: "ObjectIDs demo_hostile_group = [9]"
proof -
  have "g_contacts demo_hostile_group = [demo_bandit]"
    by (simp add: demo_hostile_group_def g_contacts_def demo_fight_others)
  then show ?thesis by (simp add: ObjectIDs_def demo_fight_contacts)
qed

lemma demo_symmetric: "symmetric_distance demo_radar_lib"
  by (simp add: symmetric_distance_def demo_geo_def abs_minus_commute)

lemma demo_near: "pair_distance demo_control_lib demo_controller demo_bandit demo_pilot < MergeEntryDistance (ctl_units demo_control_lib)"
  unfolding demo_controller_simps demo_fight_distance demo_fight_contacts by (simp add: MergeEntryDistance_def si_units_def)

theorem merge_hysteresis_witness:
  "isMerged 9 8 (merges (fst (broadcastMerges demo_control_lib 0 demo_controller)))"
proof -
  have ok: "db_ok (db (scope demo_controller))" "merges_ok (merges demo_controller)"
    "units_ok (ctl_units demo_control_lib)" "symmetric_distance (ctl_radar demo_control_lib)"
    using demo_fight_ok demo_symmetric si_units_ok by simp_all
  have h: "getByID (tf_ID demo_bandit) (db (scope demo_controller)) = Some demo_bandit"
    "getByID (tf_ID demo_pilot) (db (scope demo_controller)) = Some demo_pilot"
    "merge_hostile (ctl_radar demo_control_lib) (c_coalition demo_controller) demo_bandit"
    by (simp_all add: demo_fight_get demo_fight_contacts merge_hostile_def)
  have d: "pair_distance demo_control_lib demo_controller demo_bandit demo_pilot < MergeExitDistance (ctl_units demo_control_lib)"
    using demo_near by (simp add: MergeEntryDistance_def MergeExitDistance_def si_units_def)
  have "isMerged (tf_ID demo_bandit) (tf_ID demo_pilot) (merges (fst (broadcastMerges demo_control_lib 0 demo_controller)))"
    by (rule merge_hysteresis [OF ok refl, THEN conjunct2, THEN conjunct2, rule_format, OF h _ _ d])
      (use demo_fight_contacts demo_near in simp_all)
  then show ?thesis by (simp add: demo_fight_contacts)
qed

lemma demo_notices: "merge_notices demo_control_lib 0 (demo_hostile_group, [demo_pilot]) demo_controller = [demo_pilot]"
proof -
  have "updateMergesForContact demo_control_lib demo_fight demo_bandit demo_pilot [] = (merge 9 8 [], True)"
    using demo_near demo_fight_contacts by (simp add: updateMergesForContact_def isMerged_def Let_def)
  moreover have "FindUnit 9 (db demo_fight) = Some demo_bandit" by (simp add: FindUnit_def demo_fight_get)
  ultimately show ?thesis
    by (simp add: merge_notices_def updateMergesForGroup_def demo_hostile_IDs updateMergesForHostile_def
      friendliesMergedWith_def notify_step_def isOnCooldown_def Let_def)
qed


lemma demo_callsign: "ParsePilotCallsign ''Hitman 1-1'' = (''hitman 1 1'', True)"
  by code_simp

theorem threat_calls_spaced_witness:
  "snd (broadcastThreat demo_control_lib (10 * second) demo_hostile_group [8]
     (fst (broadcastThreat demo_control_lib 0 demo_hostile_group [8] demo_controller))) = []"
proof -
  have ids: "ObjectIDs (fillInMergeDetails demo_controller (demo_hostile_group\<lparr>g_declaration := Hostile\<rparr>)\<lparr>g_isThreat := True\<rparr>) = [9]"
    using demo_hostile_IDs by (simp add: fillInMergeDetails_def Let_def ObjectIDs_def g_contacts_def)
  have "isGroupMergedWithFriendly demo_controller g 8 = False" for g
    by (simp add: isGroupMergedWithFriendly_def isMerged_def list_ex_iff)
  moreover have "FindUnit 8 (db demo_fight) = Some demo_pilot" by (simp add: FindUnit_def demo_fight_get)
  ultimately have "threat_names demo_controller g [8] = [''hitman 1 1'']" for g
    by (simp add: threat_names_def demo_fight_contacts demo_callsign)
  then have "snd (broadcastThreat demo_control_lib 0 demo_hostile_group [8] demo_controller) \<noteq> []"
    using ids by (simp add: broadcastThreat_def Let_def isOnCooldown_def)
  from threat_calls_spaced [OF this control_run.stop, of demo_hostile_group "10 * second" "[8]"]
  show ?thesis by (simp add: second_def)
qed

theorem controller_invariant_witness:
  "merges_ok (merges (NewController 0 (NewRadar Blue 0 0 0 False None) demo_client Blue True 60 True 60 False []))"
  using controller_invariant [OF control_run.stop radar_reachable.new, of demo_control_lib 0 Blue 0 0 0 False None
    demo_client Blue True 60 True 60 False "[]"] demo_push_lib by simp

theorem faded_forgotten_witness:
  "\<not> isOnCooldown 0 9 (threatCooldowns (fst (handle_event demo_control_lib (FadedEvent (33, 45) demo_hostile_group Red) demo_controller)))"
proof -
  have "merges_ok (merges demo_controller)" by simp
  from faded_forgotten [OF this prod.collapse [symmetric], where C = demo_control_lib and location = "(33, 45)" and g = demo_hostile_group and coalition = Red and now = 0]
  show ?thesis by (simp only: demo_hostile_IDs) simp
qed

end
