(* ===== verification/GoParsing.thy ===== *)
theory GoParsing
  imports GoStrings Complex_Main
begin

text \<open>
  The parts of Go's \<open>strconv\<close>, \<open>strings\<close> and \<open>time\<close> with which telemetry and configuration are read:
  decimal floating-point numbers, hexadecimal output, \<open>SplitAfter\<close> and RFC 3339 times. A time is the
  number of nanoseconds since Go's zero time, 0001-01-01T00:00:00Z.
\<close>

section \<open>Numbers\<close>

definition go_sign :: "string \<Rightarrow> bool \<times> string" where
  "go_sign s = (case s of [] \<Rightarrow> (False, s)
     | c # cs \<Rightarrow> if c = CHR ''-'' then (True, cs) else if c = CHR ''+'' then (False, cs) else (False, s))"

text \<open>\<open>strconv.ParseFloat\<close> on decimal notation: an optional sign, digits with at most one point among or
  next to them, and an optional exponent. Its other notations (\<open>inf\<close>, \<open>nan\<close>, hexadecimal) and its range
  error are outside the model, in which a \<open>float64\<close> is a real number.\<close>

definition ParseFloat :: "string \<Rightarrow> real option" where
  "ParseFloat s =
     (let (neg, s) = go_sign s;
          whole = takeWhile IsDigit s; rest = dropWhile IsDigit s;
          (frac, rest) = (case rest of [] \<Rightarrow> ([], [])
            | c # cs \<Rightarrow> if c = CHR ''.'' then (takeWhile IsDigit cs, dropWhile IsDigit cs) else ([], rest));
          v = real (decimal_value (whole @ frac)) / 10 ^ length frac;
          v = (if neg then - v else v)
      in if whole = [] \<and> frac = [] then None
         else case rest of [] \<Rightarrow> Some v
         | c # cs \<Rightarrow>
             if c = CHR ''e'' \<or> c = CHR ''E''
             then let (neg_exp, ds) = go_sign cs
                  in if ds = [] \<or> \<not> list_all IsDigit ds then None
                     else Some (if neg_exp then v / 10 ^ decimal_value ds else v * 10 ^ decimal_value ds)
             else None)"

definition hex_char :: "nat \<Rightarrow> char" where
  "hex_char d = (if d mod 16 < 10 then char_of (48 + d mod 16) else char_of (87 + d mod 16))"

text \<open>\<open>strconv.FormatUint(n, 16)\<close>.\<close>

function hex_nat :: "nat \<Rightarrow> string" where
  "hex_nat n = (if n < 16 then [hex_char n] else hex_nat (n div 16) @ [hex_char n])"
  by pat_completeness auto
termination by (relation "measure id") auto

declare hex_nat.simps [simp del]

section \<open>Splitting\<close>

definition SplitAfter :: "string \<Rightarrow> string \<Rightarrow> string list" where
  "SplitAfter s sep = (let ps = Split s sep in map (\<lambda>p. p @ sep) (butlast ps) @ [last ps])"

section \<open>Times\<close>

definition leap_year :: "int \<Rightarrow> bool" where
  "leap_year y \<longleftrightarrow> y mod 4 = 0 \<and> (y mod 100 \<noteq> 0 \<or> y mod 400 = 0)"

definition month_lengths :: "int \<Rightarrow> int list" where
  "month_lengths y = [31, if leap_year y then 29 else 28, 31, 30, 31, 30, 31, 31, 30, 31, 30, 31]"

definition days_before :: "int \<Rightarrow> nat \<Rightarrow> nat \<Rightarrow> int" where
  "days_before y m d =
     365 * (y - 1) + (y - 1) div 4 - (y - 1) div 100 + (y - 1) div 400 +
     sum_list (take (m - 1) (month_lengths y)) + int d - 1"

definition number_in :: "nat \<Rightarrow> nat \<Rightarrow> string \<Rightarrow> nat option" where
  "number_in lo hi s =
     (if s \<noteq> [] \<and> list_all IsDigit s \<and> lo \<le> decimal_value s \<and> decimal_value s \<le> hi
      then Some (decimal_value s) else None)"

definition piece :: "nat \<Rightarrow> nat \<Rightarrow> string \<Rightarrow> string" where
  "piece i n s = take n (drop i s)"

text \<open>Digits after the second, of which nine count.\<close>

definition parse_nanos :: "string \<Rightarrow> int \<times> string" where
  "parse_nanos s = (case s of
       c # d # cs \<Rightarrow>
         if c = CHR ''.'' \<and> IsDigit d
         then let ds = take 9 (takeWhile IsDigit (d # cs))
              in (int (decimal_value ds) * 10 ^ (9 - length ds), dropWhile IsDigit (d # cs))
         else (0, s)
     | _ \<Rightarrow> (0, s))"

definition parse_zone :: "string \<Rightarrow> int option" where
  "parse_zone s =
     (if s = ''Z'' then Some 0
      else case s of c # cs \<Rightarrow>
        if (c = CHR ''+'' \<or> c = CHR ''-'') \<and> length cs = 5 \<and> cs ! 2 = CHR '':''
        then do {
          h \<leftarrow> number_in 0 23 (take 2 cs);
          m \<leftarrow> number_in 0 59 (drop 3 cs);
          Some ((if c = CHR ''-'' then -1 else 1) * (3600 * int h + 60 * int m))
        }
        else None
      | [] \<Rightarrow> None)"

text \<open>\<open>time.Parse\<close> with the layout \<open>time.RFC3339\<close>, on times that RFC 3339 allows. What else Go's general
  parser accepts for this layout (such as an hour of one digit) is not modelled.\<close>

definition parse_RFC3339 :: "string \<Rightarrow> int option" where
  "parse_RFC3339 s =
     (if length s < 20 \<or> s ! 4 \<noteq> CHR ''-'' \<or> s ! 7 \<noteq> CHR ''-'' \<or> s ! 10 \<noteq> CHR ''T'' \<or> s ! 13 \<noteq> CHR '':'' \<or> s ! 16 \<noteq> CHR '':''
      then None
      else do {
        year \<leftarrow> number_in 0 9999 (piece 0 4 s);
        month \<leftarrow> number_in 1 12 (piece 5 2 s);
        day \<leftarrow> number_in 1 (nat (month_lengths (int year) ! (month - 1))) (piece 8 2 s);
        hour \<leftarrow> number_in 0 23 (piece 11 2 s);
        minutes \<leftarrow> number_in 0 59 (piece 14 2 s);
        seconds \<leftarrow> number_in 0 59 (piece 17 2 s);
        let (nanos, rest) = parse_nanos (drop 19 s);
        zone \<leftarrow> parse_zone rest;
        Some ((days_before (int year) month day * 86400 + int hour * 3600 + int minutes * 60 + int seconds - zone)
              * 1000000000 + nanos)
      })"

lemma zero_time: "parse_RFC3339 ''0001-01-01T00:00:00Z'' = Some 0"
  by code_simp

lemma mission_date: "parse_RFC3339 ''1989-09-13T10:08:31Z'' = Some (62757281311 * 10 ^ 9)"
  by code_simp

end
