(* ===== verification/Handshake.thy ===== *)
theory Handshake
  imports GoParsing
begin

text \<open>
  The handshake of the real-time telemetry protocol (\<open>pkg/telemetry/handshake.go\<close>): what the host sends,
  what the client answers, and how each is read. The checksums of the password come from a library;
  they are parameters. A string is its bytes, and a password is ASCII.
\<close>

section \<open>Packets\<close>

definition newline :: string where "newline = [CHR 0x0A]"
definition terminator :: string where "terminator = [CHR 0x00]"

definition LowLevelProtocol :: string where "LowLevelProtocol = ''XtraLib.Stream''"
definition LowLevelProtocolVersion :: string where "LowLevelProtocolVersion = ''0''"
definition HighLevelProtocol :: string where "HighLevelProtocol = ''Tacview.RealTimeTelemetry''"
definition HighLevelProtocolVersion :: string where "HighLevelProtocolVersion = ''0''"

lemmas protocol_defs = newline_def terminator_def LowLevelProtocol_def LowLevelProtocolVersion_def
  HighLevelProtocol_def HighLevelProtocolVersion_def

datatype HashAlgorithm = CRC64WE | CRC32ISOHDLC

fun algorithm_String :: "HashAlgorithm \<Rightarrow> string" where
  "algorithm_String CRC64WE = ''CRC-64/WE''"
| "algorithm_String CRC32ISOHDLC = ''CRC-32/ISO-HDLC''"

record HostHandshake =
  host_LowLevelProtocolVersion :: string
  host_HighLevelProtocolVersion :: string
  host_Hostname :: string

definition EncodeHost :: "HostHandshake \<Rightarrow> string" where
  "EncodeHost h =
     LowLevelProtocol @ ''.'' @ LowLevelProtocolVersion @ newline @
     HighLevelProtocol @ ''.'' @ HighLevelProtocolVersion @ newline @
     host_Hostname h @ newline @ terminator"

text \<open>One line of a host handshake. \<open>None\<close> is the panic of an index out of range.\<close>

definition decode_host_line :: "string \<Rightarrow> HostHandshake \<Rightarrow> HostHandshake option" where
  "decode_host_line line h =
     (if line = [] \<or> line = terminator then Some h
      else if HasPrefix line LowLevelProtocol
      then map_option (\<lambda>v. h\<lparr>host_LowLevelProtocolVersion := v\<rparr>) (go_index (SplitAfter line (LowLevelProtocol @ ''.'')) 1)
      else if HasPrefix line HighLevelProtocol
      then map_option (\<lambda>v. h\<lparr>host_HighLevelProtocolVersion := v\<rparr>) (go_index (SplitAfter line (HighLevelProtocol @ ''.'')) 1)
      else if length line > 0 then Some (h\<lparr>host_Hostname := line\<rparr>)
      else Some h)"

fun decode_host_lines :: "string list \<Rightarrow> HostHandshake \<Rightarrow> HostHandshake option" where
  "decode_host_lines [] h = Some h"
| "decode_host_lines (line # lines) h = Option.bind (decode_host_line line h) (decode_host_lines lines)"

definition DecodeHostHandshake :: "string \<Rightarrow> HostHandshake option" where
  "DecodeHostHandshake packet =
     decode_host_lines (Split packet newline)
       \<lparr>host_LowLevelProtocolVersion = [], host_HighLevelProtocolVersion = [], host_Hostname = []\<rparr>"

record ClientHandshake =
  hs_LowLevelProtocolVersion :: string
  hs_HighLevelProtocolVersion :: string
  hs_Hostname :: string
  hs_password :: string
  hs_hashCRC64WE :: "string option"
  hs_hashCRC32ISOHDLC :: "string option"

definition NewClientHandshake :: "string \<Rightarrow> string \<Rightarrow> ClientHandshake" where
  "NewClientHandshake hostname password =
     \<lparr>hs_LowLevelProtocolVersion = LowLevelProtocolVersion, hs_HighLevelProtocolVersion = HighLevelProtocolVersion,
      hs_Hostname = hostname, hs_password = password, hs_hashCRC64WE = None, hs_hashCRC32ISOHDLC = None\<rparr>"

record crc_lib =
  crc_CRC64WE :: "byte list \<Rightarrow> u64"
  crc_CRC32ISOHDLC :: "byte list \<Rightarrow> u32"

text \<open>The password as UTF-16 code units in little-endian order.\<close>

definition utf16_bytes :: "string \<Rightarrow> byte list" where
  "utf16_bytes s = concat (map (\<lambda>c. le_put 2 (word_of_nat (code_of c) :: u16)) s)"

fun hashPassword :: "crc_lib \<Rightarrow> string \<Rightarrow> HashAlgorithm \<Rightarrow> string" where
  "hashPassword K password CRC64WE = hex_nat (unat (crc_CRC64WE K (utf16_bytes password)))"
| "hashPassword K password CRC32ISOHDLC = hex_nat (unat (ucast (crc_CRC32ISOHDLC K (utf16_bytes password)) :: u64))"

definition EncodeClient :: "crc_lib \<Rightarrow> HashAlgorithm \<Rightarrow> ClientHandshake \<Rightarrow> string" where
  "EncodeClient K algorithm h =
     LowLevelProtocol @ ''.'' @ LowLevelProtocolVersion @ newline @
     HighLevelProtocol @ ''.'' @ HighLevelProtocolVersion @ newline @
     hs_Hostname h @ newline @ hashPassword K (hs_password h) algorithm @ terminator"

definition HashCRC64WE :: "crc_lib \<Rightarrow> ClientHandshake \<Rightarrow> string" where
  "HashCRC64WE K h = (case hs_hashCRC64WE h of Some hash \<Rightarrow> hash | None \<Rightarrow> hashPassword K (hs_password h) CRC64WE)"

definition HashCRC32ISOHDLC :: "crc_lib \<Rightarrow> ClientHandshake \<Rightarrow> string" where
  "HashCRC32ISOHDLC K h =
     (case hs_hashCRC32ISOHDLC h of Some hash \<Rightarrow> hash | None \<Rightarrow> hashPassword K (hs_password h) CRC32ISOHDLC)"

datatype handshake_error =
    InsufficientLines | UnexpectedLowLevelProtocol | UnexpectedHighLevelProtocol | UnexpectedHostname
  | UndecodableHash | UnexpectedHashLength

text \<open>The indices are in range: a line that starts with the prefix contains the separator.\<close>

definition DecodeClientHandshake :: "string \<Rightarrow> handshake_error + ClientHandshake" where
  "DecodeClientHandshake packet =
     (let lines = Split packet newline
      in if length lines < 4 then Inl InsufficientLines
         else if \<not> HasPrefix (lines ! 0) (LowLevelProtocol @ ''.'') then Inl UnexpectedLowLevelProtocol
         else if \<not> HasPrefix (lines ! 1) (HighLevelProtocol @ ''.'') then Inl UnexpectedHighLevelProtocol
         else if \<not> HasPrefix (lines ! 2) ''Client '' then Inl UnexpectedHostname
         else let h = \<lparr>hs_LowLevelProtocolVersion = Split (lines ! 0) ''.'' ! 1,
                  hs_HighLevelProtocolVersion = Split (lines ! 1) ''.'' ! 1,
                  hs_Hostname = Split (lines ! 2) '' '' ! 1, hs_password = [],
                  hs_hashCRC64WE = None, hs_hashCRC32ISOHDLC = None\<rparr>;
                  (hash, _, ok) = Cut (lines ! 3) terminator
              in if \<not> ok then Inl UndecodableHash
                 else if length hash = 8 then Inr (h\<lparr>hs_hashCRC32ISOHDLC := Some hash\<rparr>)
                 else if length hash = 16 then Inr (h\<lparr>hs_hashCRC64WE := Some hash\<rparr>)
                 else Inl UnexpectedHashLength)"

section \<open>Lines\<close>

lemma Index_found: "c \<notin> set a \<Longrightarrow> Index (a @ c # b) [c] = Some (length a)"
  by (induction a) (auto simp: HasPrefix_def)

lemma Index_none_char: "c \<notin> set s \<Longrightarrow> Index s [c] = None"
  by (induction s) (auto simp: HasPrefix_def)

lemma Split_char: "c \<notin> set a \<Longrightarrow> Split (a @ c # b) [c] = a # Split b [c]"
  by (subst Split.simps) (simp add: Index_found)

lemma Split_char_end: "c \<notin> set a \<Longrightarrow> Split a [c] = [a]"
  by (subst Split.simps) (simp add: Index_none_char)

lemma Split_nonempty: "Split s sep \<noteq> []"
  by (subst Split.simps) (simp split: option.split)

lemma Split_absent: "Index s sep = None \<Longrightarrow> Split s sep = [s]"
  by (subst Split.simps) simp

lemma Split_present: "Index s sep = Some i \<Longrightarrow> sep \<noteq> [] \<Longrightarrow> 2 \<le> length (Split s sep)"
  using Split_nonempty [of "drop (i + length sep) s" sep]
  by (subst Split.simps) (simp add: Suc_le_eq)

text \<open>A version can be read from a line exactly if the line contains the protocol's name and a point.\<close>

lemma SplitAfter_second:
  assumes "sep \<noteq> []"
  shows "go_index (SplitAfter s sep) 1 = None \<longleftrightarrow> \<not> Contains s sep"
proof (cases "Index s sep")
  case None
  then show ?thesis by (simp add: SplitAfter_def go_index_def Contains_def Split_absent)
next
  case (Some i)
  with Split_present [OF Some assms] show ?thesis by (simp add: SplitAfter_def go_index_def Contains_def Let_def)
qed

section \<open>Reading the host\<close>

text \<open>A host handshake is read back as it was sent.\<close>

theorem host_handshake_roundtrip:
  assumes "host_Hostname h \<noteq> []" and "CHR 0x0A \<notin> set (host_Hostname h)" and "host_Hostname h \<noteq> terminator"
    and "\<not> HasPrefix (host_Hostname h) LowLevelProtocol" and "\<not> HasPrefix (host_Hostname h) HighLevelProtocol"
  shows "DecodeHostHandshake (EncodeHost h) =
     Some \<lparr>host_LowLevelProtocolVersion = LowLevelProtocolVersion, host_HighLevelProtocolVersion = HighLevelProtocolVersion,
       host_Hostname = host_Hostname h\<rparr>"
proof -
  let ?low = "''XtraLib.Stream.0''" and ?high = "''Tacview.RealTimeTelemetry.0''"
  have "EncodeHost h = ?low @ CHR 0x0A # ?high @ CHR 0x0A # host_Hostname h @ CHR 0x0A # terminator"
    by (simp add: EncodeHost_def protocol_defs)
  moreover have "Split (?low @ CHR 0x0A # x) newline = ?low # Split x newline"
    "Split (?high @ CHR 0x0A # x) newline = ?high # Split x newline" for x
    unfolding newline_def by (rule Split_char, simp)+
  moreover have "Split (host_Hostname h @ CHR 0x0A # x) newline = host_Hostname h # Split x newline" for x
    unfolding newline_def by (rule Split_char, fact)
  moreover have "Split terminator newline = [terminator]"
    unfolding newline_def terminator_def by (rule Split_char_end, simp)
  ultimately have lines: "Split (EncodeHost h) newline = [?low, ?high, host_Hostname h, terminator]" by metis
  have "decode_host_line ?low g = Some (g\<lparr>host_LowLevelProtocolVersion := ''0''\<rparr>)"
    "decode_host_line ?high g = Some (g\<lparr>host_HighLevelProtocolVersion := ''0''\<rparr>)" for g
    by (simp_all add: decode_host_line_def protocol_defs HasPrefix_def SplitAfter_def go_index_def Split.simps)
  then show ?thesis
    using assms by (simp add: DecodeHostHandshake_def lines decode_host_line_def) (simp add: protocol_defs)
qed

theorem host_handshake_roundtrip_witness:
  "DecodeHostHandshake (EncodeHost \<lparr>host_LowLevelProtocolVersion = ''1'', host_HighLevelProtocolVersion = ''2'', host_Hostname = ''Host''\<rparr>) =
     Some \<lparr>host_LowLevelProtocolVersion = ''0'', host_HighLevelProtocolVersion = ''0'', host_Hostname = ''Host''\<rparr>"
  using host_handshake_roundtrip [of "\<lparr>host_LowLevelProtocolVersion = ''1'', host_HighLevelProtocolVersion = ''2'', host_Hostname = ''Host''\<rparr>"]
  by (simp add: protocol_defs HasPrefix_def)

text \<open>C40. Reading a host handshake panics exactly if some line starts with the name of a protocol but does
  not contain this name followed by a point.\<close>

theorem host_handshake_panics:
  "DecodeHostHandshake packet = None \<longleftrightarrow>
     (\<exists>line \<in> set (Split packet newline).
        HasPrefix line LowLevelProtocol \<and> \<not> Contains line (LowLevelProtocol @ ''.'') \<or>
        HasPrefix line HighLevelProtocol \<and> \<not> Contains line (HighLevelProtocol @ ''.''))"
proof -
  have excl: "HasPrefix line HighLevelProtocol \<Longrightarrow> \<not> HasPrefix line LowLevelProtocol" for line
    by (cases line) (auto simp: HasPrefix_def protocol_defs)
  have long: "HasPrefix line p \<Longrightarrow> 2 \<le> length p \<Longrightarrow> line \<noteq> [] \<and> line \<noteq> terminator" for line p
    by (auto simp: HasPrefix_def terminator_def)
  have "decode_host_line line h = None \<longleftrightarrow>
      HasPrefix line LowLevelProtocol \<and> \<not> Contains line (LowLevelProtocol @ ''.'') \<or>
      HasPrefix line HighLevelProtocol \<and> \<not> Contains line (HighLevelProtocol @ ''.'')" for line h
    using excl [of line] long [of line LowLevelProtocol] long [of line HighLevelProtocol]
    by (auto simp: decode_host_line_def SplitAfter_second [unfolded One_nat_def] protocol_defs)
  then have "decode_host_lines ls h = None \<longleftrightarrow> (\<exists>line \<in> set ls.
      HasPrefix line LowLevelProtocol \<and> \<not> Contains line (LowLevelProtocol @ ''.'') \<or>
      HasPrefix line HighLevelProtocol \<and> \<not> Contains line (HighLevelProtocol @ ''.''))" for ls h
    by (induction ls arbitrary: h) (auto simp: bind_eq_None_conv)
  then show ?thesis by (simp add: DecodeHostHandshake_def)
qed

theorem host_handshake_panics_witness: "DecodeHostHandshake ''XtraLib.Stream'' = None"
proof -
  have "Split ''XtraLib.Stream'' newline = [''XtraLib.Stream'']"
    unfolding newline_def by (rule Split_char_end) simp
  then show ?thesis unfolding host_handshake_panics by (simp add: protocol_defs HasPrefix_def Contains_def)
qed

section \<open>Reading the client\<close>

text \<open>What a client sends is not read as what it is. A host name that does not start with
  \<open>Client\<close> and a space, as the one the client sends, is refused, and whatever is accepted is read with
  versions that no client ever sends.\<close>

theorem client_handshake_misread:
  assumes h: "CHR 0x0A \<notin> set hostname" "\<not> HasPrefix hostname ''Client ''"
  shows "DecodeClientHandshake (EncodeClient K algorithm (NewClientHandshake hostname password)) = Inl UnexpectedHostname \<and>
    (DecodeClientHandshake packet = Inr hs \<longrightarrow>
      hs_LowLevelProtocolVersion hs = ''Stream'' \<and> hs_HighLevelProtocolVersion hs = ''RealTimeTelemetry'')"
proof (intro conjI impI)
  let ?low = "''XtraLib.Stream.0''" and ?high = "''Tacview.RealTimeTelemetry.0''"
  let ?rest = "hashPassword K password algorithm @ terminator"
  have "EncodeClient K algorithm (NewClientHandshake hostname password) =
      ?low @ CHR 0x0A # ?high @ CHR 0x0A # hostname @ CHR 0x0A # ?rest"
    by (simp add: EncodeClient_def NewClientHandshake_def protocol_defs)
  moreover have "Split (?low @ CHR 0x0A # x) newline = ?low # Split x newline"
    "Split (?high @ CHR 0x0A # x) newline = ?high # Split x newline" for x
    unfolding newline_def by (rule Split_char, simp)+
  moreover have "Split (hostname @ CHR 0x0A # x) newline = hostname # Split x newline" for x
    unfolding newline_def by (rule Split_char, fact)
  ultimately have lines: "Split (EncodeClient K algorithm (NewClientHandshake hostname password)) newline =
      ?low # ?high # hostname # Split ?rest newline" by metis
  show "DecodeClientHandshake (EncodeClient K algorithm (NewClientHandshake hostname password)) = Inl UnexpectedHostname"
    using h(2) Split_nonempty [of ?rest newline]
    by (simp add: DecodeClientHandshake_def lines Let_def Suc_le_eq) (simp add: protocol_defs HasPrefix_def not_less_eq_eq)
next
  assume d: "DecodeClientHandshake packet = Inr hs"
  have second: "Split line ''.'' ! 1 = b" if "HasPrefix line (a @ CHR ''.'' # b @ ''.'')" "CHR ''.'' \<notin> set a" "CHR ''.'' \<notin> set b" for line a b
  proof -
    from that(1) obtain r where "line = a @ CHR ''.'' # b @ CHR ''.'' # r"
      unfolding HasPrefix_def by (metis append.assoc append_Cons append_Nil append_take_drop_id)
    then show ?thesis using that(2,3) by (simp add: Split_char)
  qed
  from d have "HasPrefix (Split packet newline ! 0) (LowLevelProtocol @ ''.'')" "HasPrefix (Split packet newline ! 1) (HighLevelProtocol @ ''.'')"
    "hs_LowLevelProtocolVersion hs = Split (Split packet newline ! 0) ''.'' ! 1"
    "hs_HighLevelProtocolVersion hs = Split (Split packet newline ! 1) ''.'' ! 1"
    by (auto simp: DecodeClientHandshake_def Let_def split: if_splits prod.splits)
  then have "hs_LowLevelProtocolVersion hs = ''Stream'' \<and> hs_HighLevelProtocolVersion hs = ''RealTimeTelemetry''"
    using second [of "Split packet newline ! 0" "''XtraLib''" "''Stream''"]
      second [of "Split packet newline ! 1" "''Tacview''" "''RealTimeTelemetry''"]
    by (simp add: protocol_defs)
  then show "hs_LowLevelProtocolVersion hs = ''Stream''" "hs_HighLevelProtocolVersion hs = ''RealTimeTelemetry''" by simp_all
qed

theorem client_handshake_misread_witness:
  "DecodeClientHandshake (EncodeClient \<lparr>crc_CRC64WE = (\<lambda>_. 0), crc_CRC32ISOHDLC = (\<lambda>_. 0)\<rparr> CRC64WE
     (NewClientHandshake ''Sky Eye'' [])) = Inl UnexpectedHostname"
  by (rule conjunct1 [OF client_handshake_misread]) (simp_all add: HasPrefix_def)

end
