(* ===== verification/Telemetry.thy ===== *)
theory Telemetry
  imports Handshake Trackfile Store
begin

text \<open>
  The telemetry clients (\<open>pkg/telemetry/streamer.go\<close>, \<open>telemetry.go\<close>, \<open>file.go\<close>, \<open>properties.go\<close>, and the
  messages of \<open>pkg/sim\<close>): reading the ACMI stream line by line, the state of the objects in it, and the
  updates that are sent to the radar. The ACMI library (\<open>goacmi\<close>) is a parameter: its parsers, its objects
  as a type with their operations, and its names of properties and tags. Times are nanoseconds and the
  zero time is 0; an error is its message.
\<close>

section \<open>The ACMI library\<close>

record acmi_update =
  update_ID :: u64
  IsRemoval :: bool
  Properties :: "string \<Rightarrow> string option"

record coordinates =
  coord_Longitude :: "real option"
  coord_Latitude :: "real option"
  coord_Altitude :: "real option"
  coord_Heading :: "real option"

record 'o acmi_lib =
  ParseObjectUpdate :: "string \<Rightarrow> string + acmi_update"
  ParseTimeFrame :: "string \<Rightarrow> string + int"
  object_New :: "u64 \<Rightarrow> 'o"
  object_ID :: "'o \<Rightarrow> u64"
  object_Update :: "acmi_update \<Rightarrow> real \<Rightarrow> real \<Rightarrow> 'o \<Rightarrow> 'o \<times> string option"
  GetTypes :: "'o \<Rightarrow> string + string list"
  GetProperty :: "'o \<Rightarrow> string \<Rightarrow> string option"
  GetCoordinates :: "'o \<Rightarrow> real \<Rightarrow> real \<Rightarrow> string + coordinates"
  GetLength :: "'o \<Rightarrow> string \<Rightarrow> string + real"
  GlobalObjectID :: u64
  prop_FileType :: string
  prop_ACMITacviewFileType :: string
  prop_FileVersion :: string
  prop_ReferenceTime :: string
  prop_ReferenceLongitude :: string
  prop_ReferenceLatitude :: string
  prop_Name :: string
  prop_Pilot :: string
  prop_Coalition :: string
  prop_AGL :: string
  tag_FixedWing :: string
  tag_Rotorcraft :: string
  tag_Bullseye :: string
  acmi_Allies :: string
  acmi_Enemies :: string

text \<open>An object has the identifier it was made with, also after updates.\<close>

definition keeps_IDs :: "'o acmi_lib \<Rightarrow> bool" where
  "keeps_IDs A \<longleftrightarrow> (\<forall>i. object_ID A (object_New A i) = i) \<and>
     (\<forall>up lon lat x. object_ID A (fst (object_Update A up lon lat x)) = object_ID A x)"

section \<open>State\<close>

datatype sim_event = SimStarted | SimUpdated Labels Frame | SimFaded u64

record 'o streamingClient =
  updateInterval :: int
  lastUpdateTime :: int
  referenceTime :: int
  referenceTimeSet :: bool
  referencePoint :: point
  cursorTime :: int
  objects :: "(u64, 'o) gomap"
  bullseyesIdx :: "(Coalition, u64) gomap"

definition reset_stream :: "'o streamingClient \<Rightarrow> 'o streamingClient" where
  "reset_stream c = c\<lparr>referenceTime := 0, referenceTimeSet := False, referencePoint := (0, 0), cursorTime := 0,
     objects := [], bullseyesIdx := []\<rparr>"

definition newStreamingClient :: "int \<Rightarrow> 'o streamingClient" where
  "newStreamingClient interval = reset_stream
     \<lparr>updateInterval = interval, lastUpdateTime = 0, referenceTime = 0, referenceTimeSet = False,
      referencePoint = (0, 0), cursorTime = 0, objects = [], bullseyesIdx = []\<rparr>"

definition isAircraft :: "'o acmi_lib \<Rightarrow> string list \<Rightarrow> bool" where
  "isAircraft A taglist \<longleftrightarrow> tag_FixedWing A \<in> set taglist \<or> tag_Rotorcraft A \<in> set taglist"

definition isBullseye :: "'o acmi_lib \<Rightarrow> string list \<Rightarrow> bool" where
  "isBullseye A taglist \<longleftrightarrow> tag_Bullseye A \<in> set taglist"

definition propertyToCoalition :: "'o acmi_lib \<Rightarrow> string \<Rightarrow> Coalition" where
  "propertyToCoalition A v = (if v = acmi_Allies A then Red else if v = acmi_Enemies A then Blue else Neutrals)"

section \<open>Queries\<close>

definition stream_Time :: "'o streamingClient \<Rightarrow> int" where
  "stream_Time c = cursorTime c"

text \<open>The position of a bullseye: \<open>None\<close> outside is the panic of a missing coordinate, inside an error.\<close>

definition stream_Bullseye :: "'o acmi_lib \<Rightarrow> Coalition \<Rightarrow> 'o streamingClient \<Rightarrow> point option option" where
  "stream_Bullseye A coalition c =
     (case map_of (bullseyesIdx c) coalition of None \<Rightarrow> Some None
      | Some i \<Rightarrow> (case map_of (objects c) i of None \<Rightarrow> Some None
        | Some bullseye \<Rightarrow> (case GetCoordinates A bullseye (fst (referencePoint c)) (snd (referencePoint c)) of
            Inl _ \<Rightarrow> Some None
          | Inr co \<Rightarrow> (case (coord_Longitude co, coord_Latitude co) of
              (Some lon, Some lat) \<Rightarrow> Some (Some (lon, lat))
            | _ \<Rightarrow> None))))"

text \<open>The update for one object, if it is to be sent.\<close>

definition collect_object :: "'o acmi_lib \<Rightarrow> 'o streamingClient \<Rightarrow> 'o \<Rightarrow> (Labels \<times> Frame) option option" where
  "collect_object A c x =
     (case GetTypes A x of Inl _ \<Rightarrow> Some None
      | Inr taglist \<Rightarrow> if \<not> isAircraft A taglist then Some None
        else case GetProperty A x (prop_Name A) of None \<Rightarrow> Some None
      | Some name \<Rightarrow> (case GetCoordinates A x (fst (referencePoint c)) (snd (referencePoint c)) of Inl _ \<Rightarrow> Some None
      | Inr co \<Rightarrow>
          (let callsign = (case GetProperty A x (prop_Pilot A) of Some p \<Rightarrow> p
                           | None \<Rightarrow> ''Unit '' @ Itoa_nat (unat (object_ID A x)))
           in case GetProperty A x (prop_Coalition A) of None \<Rightarrow> Some None
              | Some acmiCoalition \<Rightarrow>
                  (case (coord_Longitude co, coord_Latitude co) of
                     (Some lon, Some lat) \<Rightarrow> Some (Some
                       (\<lparr>label_ID = object_ID A x, label_Name = callsign,
                         label_Coalition = propertyToCoalition A acmiCoalition, label_ACMIName = name\<rparr>,
                        \<lparr>frame_Time = cursorTime c, frame_Point = (lon, lat),
                         frame_Altitude = (case coord_Altitude co of Some a \<Rightarrow> a | None \<Rightarrow> 0),
                         frame_AGL = (case GetLength A x (prop_AGL A) of Inr agl \<Rightarrow> Some agl | Inl _ \<Rightarrow> None),
                         frame_Heading = (case coord_Heading co of Some h \<Rightarrow> h | None \<Rightarrow> 0)\<rparr>))
                   | _ \<Rightarrow> None))))"

text \<open>The updates of all objects, in some order; here, that of the list.\<close>

fun collect_all :: "'o acmi_lib \<Rightarrow> 'o streamingClient \<Rightarrow> 'o list \<Rightarrow> (Labels \<times> Frame) list option" where
  "collect_all A c [] = Some []"
| "collect_all A c (x # xs) =
     (case collect_object A c x of None \<Rightarrow> None
      | Some u \<Rightarrow> map_option (\<lambda>us. (case u of None \<Rightarrow> us | Some u \<Rightarrow> u # us)) (collect_all A c xs))"

definition collectUpdates :: "'o acmi_lib \<Rightarrow> 'o streamingClient \<Rightarrow> (Labels \<times> Frame) list option" where
  "collectUpdates A c = collect_all A c (map snd (objects c))"

section \<open>Lines\<close>

text \<open>\<open>Reader.ReadString\<close>: the text up to and including the delimiter, or all that is left and an error.\<close>

definition ReadString :: "char \<Rightarrow> string \<Rightarrow> string \<times> bool \<times> string" where
  "ReadString d s =
     (let line = takeWhile (\<lambda>c. c \<noteq> d) s
      in if length line < length s then (line @ [d], True, drop (length line + 1) s) else (s, False, []))"

definition continued :: string where "continued = [CHR 0x5C, CHR 0x0A]"

function read_continuation :: "string \<Rightarrow> (string \<times> string) option" where
  "read_continuation s =
     (case ReadString (CHR 0x0A) s of (line, ok, rest) \<Rightarrow>
        if \<not> ok then None
        else if HasSuffix line continued then map_option (\<lambda>(t, r). (line @ t, r)) (read_continuation rest)
        else Some (line, rest))"
  by pat_completeness auto
termination
  by (relation "measure length") (auto simp: ReadString_def Let_def split: if_splits)

declare read_continuation.simps [simp del]

text \<open>A line with its continuations, and what is left of the stream; \<open>None\<close> is the end of the stream.\<close>

definition readACMILine :: "string \<Rightarrow> (string \<times> string) option" where
  "readACMILine s =
     (case ReadString (CHR 0x0A) s of (line, ok, rest) \<Rightarrow>
        if \<not> ok then None
        else if \<not> HasSuffix line continued then Some (line, rest)
        else map_option (\<lambda>(t, r). (take (length line - 2) line @ t, r)) (read_continuation rest))"

definition handleTimeFrame :: "'o acmi_lib \<Rightarrow> string \<Rightarrow> 'o streamingClient \<Rightarrow> string option \<times> 'o streamingClient" where
  "handleTimeFrame A line c =
     (if \<not> HasPrefix line ''#'' then (None, c)
      else case ParseTimeFrame A line of
        Inl e \<Rightarrow> (Some (''error parsing time frame: '' @ e), c)
      | Inr offset \<Rightarrow>
          if \<not> referenceTimeSet c then (Some ''time frame received before reference time'', c)
          else (None, c\<lparr>cursorTime := referenceTime c + offset\<rparr>))"

definition set_reference_time :: "string option \<Rightarrow> 'o streamingClient \<Rightarrow> string option \<times> 'o streamingClient" where
  "set_reference_time property c =
     (case property of None \<Rightarrow> (None, c)
      | Some v \<Rightarrow> (case parse_RFC3339 v of None \<Rightarrow> (Some ''error parsing reference time'', c)
        | Some t \<Rightarrow> (None, c\<lparr>referenceTime := t, referenceTimeSet := True,
            cursorTime := (if cursorTime c = 0 then t else cursorTime c)\<rparr>)))"

definition set_reference_longitude :: "string option \<Rightarrow> 'o streamingClient \<Rightarrow> string option \<times> 'o streamingClient" where
  "set_reference_longitude property c =
     (case property of None \<Rightarrow> (None, c)
      | Some v \<Rightarrow> (case ParseFloat v of None \<Rightarrow> (Some ''error parsing reference longitude'', c)
        | Some x \<Rightarrow> (None, c\<lparr>referencePoint := (x, snd (referencePoint c))\<rparr>)))"

definition set_reference_latitude :: "string option \<Rightarrow> 'o streamingClient \<Rightarrow> string option \<times> 'o streamingClient" where
  "set_reference_latitude property c =
     (case property of None \<Rightarrow> (None, c)
      | Some v \<Rightarrow> (case ParseFloat v of None \<Rightarrow> (Some ''error parsing reference latitude'', c)
        | Some y \<Rightarrow> (None, c\<lparr>referencePoint := (fst (referencePoint c), y)\<rparr>)))"

text \<open>One step after the other, up to the first error.\<close>

definition and_then ::
    "('s \<Rightarrow> string option \<times> 's) \<Rightarrow> ('s \<Rightarrow> string option \<times> 's) \<Rightarrow> 's \<Rightarrow> string option \<times> 's" where
  "and_then f g c = (case f c of (Some e, c) \<Rightarrow> (Some e, c) | (None, c) \<Rightarrow> g c)"

definition updateGlobalObject :: "'o acmi_lib \<Rightarrow> acmi_update \<Rightarrow> 'o streamingClient \<Rightarrow> string option \<times> 'o streamingClient" where
  "updateGlobalObject A up c =
     (if update_ID up \<noteq> GlobalObjectID A then (None, c)
      else and_then (set_reference_time (Properties up (prop_ReferenceTime A)))
        (and_then (set_reference_longitude (Properties up (prop_ReferenceLongitude A)))
           (set_reference_latitude (Properties up (prop_ReferenceLatitude A)))) c)"

text \<open>The update of an object: an error, the client, and the object that faded. An object that is new is
  recorded before it is known whether the update succeeds.\<close>

definition applyObjectUpdate ::
    "'o acmi_lib \<Rightarrow> acmi_update \<Rightarrow> 'o streamingClient \<Rightarrow> string option \<times> 'o streamingClient \<times> u64 option" where
  "applyObjectUpdate A up c =
     (let x = (case map_of (objects c) (update_ID up) of Some x \<Rightarrow> x | None \<Rightarrow> object_New A (update_ID up));
          (x, failed) = object_Update A up (fst (referencePoint c)) (snd (referencePoint c)) x;
          c = c\<lparr>objects := AList.update (update_ID up) x (objects c)\<rparr>
      in case failed of Some e \<Rightarrow> (Some (''error updating object: '' @ e), c, None)
      | None \<Rightarrow> (case GetTypes A x of
          Inl e \<Rightarrow> (Some (''attempted to update object of unknown type: '' @ e), c, None)
        | Inr taglist \<Rightarrow>
            (case (if isBullseye A taglist
                   then map_option (\<lambda>p. c\<lparr>bullseyesIdx := AList.update (propertyToCoalition A p) (object_ID A x) (bullseyesIdx c)\<rparr>)
                          (GetProperty A x (prop_Coalition A))
                   else Some c) of
               None \<Rightarrow> (Some ''bullseye object missing coalition property'', c, None)
             | Some c \<Rightarrow>
                 if IsRemoval up
                 then (None, c\<lparr>objects := AList.delete (object_ID A x) (objects c)\<rparr>, Some (object_ID A x))
                 else (None, c, None))))"

definition updateObject :: "'o acmi_lib \<Rightarrow> acmi_update \<Rightarrow> 'o streamingClient \<Rightarrow> string option \<times> 'o streamingClient \<times> sim_event list" where
  "updateObject A up c =
     (case applyObjectUpdate A up c of (e, c, fade) \<Rightarrow>
        (e, c, case fade of None \<Rightarrow> [] | Some i \<Rightarrow> [SimFaded i]))"

text \<open>One line at the wall-clock time \<open>now\<close>: an error, the client, and what is sent.\<close>

definition handleLine ::
    "'o acmi_lib \<Rightarrow> int \<Rightarrow> string \<Rightarrow> 'o streamingClient \<Rightarrow> string option \<times> 'o streamingClient \<times> sim_event list" where
  "handleLine A now line c =
     (let line = TrimSpace line
      in if line = [] then (None, c, [])
         else if HasPrefix line ''//'' then (None, c, [])
         else if line = prop_FileType A @ ''='' @ prop_ACMITacviewFileType A then (None, c, [])
         else if HasPrefix line (prop_FileVersion A @ ''='') then (None, c, [])
         else if HasPrefix line ''#''
         then (case handleTimeFrame A line c of (e, c) \<Rightarrow> (map_option (\<lambda>e. ''error handling time frame: '' @ e) e, c, []))
         else case ParseObjectUpdate A line of
           Inl e \<Rightarrow> (Some (''error parsing object update: '' @ e), c, [])
         | Inr up \<Rightarrow>
             if update_ID up = GlobalObjectID A
             then (case updateGlobalObject A up c of
                 (Some e, c) \<Rightarrow> (Some (''error updating global object: '' @ e), c, [])
               | (None, c) \<Rightarrow> (None, c\<lparr>lastUpdateTime := now\<rparr>, []))
             else (case updateObject A up c of
                 (Some e, c, events) \<Rightarrow> (Some (''error updating object: '' @ e), c, events)
               | (None, c, events) \<Rightarrow> (None, c\<lparr>lastUpdateTime := now\<rparr>, events)))"

section \<open>Streams\<close>

definition gracePeriod :: int where "gracePeriod = 10 * 60 * 1000000000"

text \<open>The tick of \<open>handleLines\<close> that comes every minute: whether the stream is given up.\<close>

definition stream_stalled :: "int \<Rightarrow> 'o streamingClient \<Rightarrow> bool" where
  "stream_stalled now c \<longleftrightarrow> now - lastUpdateTime c > gracePeriod"

text \<open>What happens to a client: \<open>handleLines\<close> starts, a line is read, a minute has passed, or the updates are
  sent. The result is an error that ends \<open>handleLines\<close>, the client, and what is sent; \<open>None\<close> is a panic.\<close>

datatype stream_input = Restart | Line string | GraceTick | SendUpdates

fun stream_step ::
    "'o acmi_lib \<Rightarrow> int \<Rightarrow> stream_input \<Rightarrow> 'o streamingClient \<Rightarrow> (string option \<times> 'o streamingClient \<times> sim_event list) option" where
  "stream_step A now Restart c = Some (None, reset_stream c, [SimStarted])"
| "stream_step A now (Line line) c = Some (handleLine A now line c)"
| "stream_step A now GraceTick c =
     Some (if stream_stalled now c then Some ''no updates received within grace period'' else None, c, [])"
| "stream_step A now SendUpdates c =
     map_option (\<lambda>us. (None, c, map (\<lambda>(labels, f). SimUpdated labels f) us)) (collectUpdates A c)"

text \<open>Any sequence of these, also past errors, where the client waits to be restarted and its updates
  are still sent.\<close>

fun stream_run ::
    "'o acmi_lib \<Rightarrow> (int \<times> stream_input) list \<Rightarrow> 'o streamingClient \<Rightarrow> ('o streamingClient \<times> sim_event list) option" where
  "stream_run A [] c = Some (c, [])"
| "stream_run A ((now, i) # inputs) c =
     (case stream_step A now i c of None \<Rightarrow> None
      | Some (_, c, events) \<Rightarrow> map_option (\<lambda>(c, later). (c, events @ later)) (stream_run A inputs c))"

text \<open>The lines of a stream up to its end.\<close>

lemma ReadString_shorter: "ReadString d s = (line, True, rest) \<Longrightarrow> length rest < length s"
  by (auto simp: ReadString_def Let_def split: if_splits)

lemma read_continuation_shorter: "read_continuation s = Some (t, r) \<Longrightarrow> length r < length s"
proof (induction s arbitrary: t r rule: read_continuation.induct)
  case (1 s)
  obtain line ok rest where l: "ReadString (CHR 0x0A) s = (line, ok, rest)" by (metis prod_cases3)
  show ?case
  proof (cases "ok \<and> HasSuffix line continued")
    case True
    then obtain t' where t: "read_continuation rest = Some (t', r)"
      using "1.prems" l by (subst (asm) read_continuation.simps) auto
    have "length r < length rest" by (rule "1.IH" [OF l [symmetric] refl _ _ t]) (use True in simp_all)
    then show ?thesis using ReadString_shorter [of _ s line rest] l True by fastforce
  next
    case False
    then show ?thesis
      using "1.prems" l ReadString_shorter [of _ s line rest] by (subst (asm) read_continuation.simps) (auto split: if_splits)
  qed
qed

lemma readACMILine_shorter: "readACMILine s = Some (line, rest) \<Longrightarrow> length rest < length s"
  by (auto simp: readACMILine_def split: if_splits prod.splits dest!: read_continuation_shorter ReadString_shorter)

function acmi_lines :: "string \<Rightarrow> string list" where
  "acmi_lines s = (case readACMILine s of None \<Rightarrow> [] | Some (line, rest) \<Rightarrow> line # acmi_lines rest)"
  by pat_completeness auto
termination by (relation "measure length") (auto dest: readACMILine_shorter)

declare acmi_lines.simps [simp del]

text \<open>\<open>handleLines\<close> on a stream that has an end, as that of a file, without ticks: the error it ends with,
  the client and what was sent.\<close>

fun handle_each ::
    "'o acmi_lib \<Rightarrow> int \<Rightarrow> string list \<Rightarrow> 'o streamingClient \<Rightarrow> string \<times> 'o streamingClient \<times> sim_event list" where
  "handle_each A now [] c = (''reached end of file: EOF'', c, [])"
| "handle_each A now (line # lines) c =
     (case handleLine A now line c of
        (Some e, c, events) \<Rightarrow> (''error reading ACMI stream: '' @ e, c, events)
      | (None, c, events) \<Rightarrow> (case handle_each A now lines c of (e, c, later) \<Rightarrow> (e, c, events @ later)))"

definition handleLines ::
    "'o acmi_lib \<Rightarrow> int \<Rightarrow> string \<Rightarrow> 'o streamingClient \<Rightarrow> string \<times> 'o streamingClient \<times> sim_event list" where
  "handleLines A now s c =
     (case handle_each A now (acmi_lines s) (reset_stream c) of (e, c, events) \<Rightarrow> (e, c, SimStarted # events))"

section \<open>Files\<close>

text \<open>Opening a file, or the first file in it with the right suffix if it is a ZIP archive. What the type
  of the content is, the files of the archive and the plain file come from the system, or errors.\<close>

definition openFile :: "string + bool \<Rightarrow> string + (string \<times> (string + 'f)) list \<Rightarrow> string + 'f \<Rightarrow> string + 'f" where
  "openFile zipped archive plain =
     (case zipped of Inl e \<Rightarrow> Inl e
      | Inr z \<Rightarrow> if \<not> z then plain
          else case archive of Inl e \<Rightarrow> Inl e
          | Inr files \<Rightarrow> (case find (\<lambda>(name, _). HasSuffix name ''.txt.acmi'') files of
              Some (_, f) \<Rightarrow> f
            | None \<Rightarrow> plain))"

record 'o FileReader = "'o streamingClient" +
  filePath :: string

definition NewFileClient :: "string \<Rightarrow> int \<Rightarrow> 'o FileReader" where
  "NewFileClient path interval = streamingClient.extend (newStreamingClient interval) \<lparr>filePath = path\<rparr>"

definition file_Run :: "'o acmi_lib \<Rightarrow> int \<Rightarrow> string + string \<Rightarrow> 'o streamingClient \<Rightarrow> string \<times> 'o streamingClient \<times> sim_event list" where
  "file_Run A now opened c =
     (case opened of Inl e \<Rightarrow> (e, c, [])
      | Inr content \<Rightarrow> (case handleLines A now content c of (e, c, events) \<Rightarrow> (''error reading data: '' @ e, c, events)))"

section \<open>Connections\<close>

record 'o RealTimeClient = "'o streamingClient" +
  address :: string
  hostname :: string
  rt_password :: string
  connectionTimeout :: int
  hashAlgorithm :: HashAlgorithm

definition NewRealTimeClient :: "string \<Rightarrow> string \<Rightarrow> string \<Rightarrow> int \<Rightarrow> int \<Rightarrow> 'o RealTimeClient" where
  "NewRealTimeClient addr clientHostname password timeout interval =
     streamingClient.extend (newStreamingClient interval)
       \<lparr>address = addr, hostname = clientHostname, rt_password = password, connectionTimeout = timeout,
        hashAlgorithm = CRC64WE\<rparr>"

text \<open>The handshake on what the host sends: a panic, or an error or else the packet to be written, with the
  client and the rest of the stream. Each attempt changes the algorithm for the password.\<close>

definition handshake :: "crc_lib \<Rightarrow> string \<Rightarrow> 'o RealTimeClient \<Rightarrow> ((string + string) \<times> 'o RealTimeClient \<times> string) option" where
  "handshake K input c =
     (case ReadString (CHR 0x00) input of (packet, ok, rest) \<Rightarrow>
        if \<not> ok then Some (Inl ''error reading host handshake: EOF'', c, rest)
        else case DecodeHostHandshake packet of None \<Rightarrow> None
        | Some _ \<Rightarrow>
            (let algorithm = (if hashAlgorithm c = CRC64WE then CRC32ISOHDLC else CRC64WE);
                 c = c\<lparr>hashAlgorithm := algorithm\<rparr>
             in Some (Inr (EncodeClient K algorithm (NewClientHandshake (hostname c) (rt_password c))), c, rest)))"

section \<open>What a client keeps\<close>

definition stream_ok :: "'o acmi_lib \<Rightarrow> 'o streamingClient \<Rightarrow> bool" where
  "stream_ok A c \<longleftrightarrow> gomap_ok (objects c) \<and> gomap_ok (bullseyesIdx c) \<and>
     gomap.holds (\<lambda>i x. object_ID A x = i) (objects c)"

text \<open>The lines that update an object.\<close>

definition updates_object :: "'o acmi_lib \<Rightarrow> u64 \<Rightarrow> string \<Rightarrow> bool" where
  "updates_object A i line \<longleftrightarrow> (\<exists>up. ParseObjectUpdate A (TrimSpace line) = Inr up \<and> update_ID up = i)"

lemma update_gomap_ok: "gomap_ok m \<Longrightarrow> gomap_ok (AList.update k v m)" "gomap_ok m \<Longrightarrow> gomap_ok (AList.delete k m)"
  by (simp_all add: gomap_ok_def distinct_update distinct_delete)

lemma updated_ID:
  assumes "keeps_IDs A" and "stream_ok A c"
    and "object_Update A up lon lat (case map_of (objects c) (update_ID up) of Some x \<Rightarrow> x | None \<Rightarrow> object_New A (update_ID up)) = (x, failed)"
  shows "object_ID A x = update_ID up"
  using assms unfolding keeps_IDs_def stream_ok_def gomap.holds_def
  by (metis (no_types, lifting) fst_conv option.case_eq_if option.collapse)

text \<open>What an update of an object does to the objects, and what it sends.\<close>

lemma applyObjectUpdate_objects:
  assumes "keeps_IDs A" and "stream_ok A c" and "applyObjectUpdate A up c = (e, c', fade)"
  shows "\<exists>x. object_ID A x = update_ID up \<and>
      objects c' = (if fade = None then AList.update (update_ID up) x (objects c)
        else AList.delete (update_ID up) (AList.update (update_ID up) x (objects c)))
    \<and> (fade = None \<or> fade = Some (update_ID up)) \<and> gomap_ok (bullseyesIdx c')"
proof -
  obtain x failed where x: "object_Update A up (fst (referencePoint c)) (snd (referencePoint c))
      (case map_of (objects c) (update_ID up) of Some x \<Rightarrow> x | None \<Rightarrow> object_New A (update_ID up)) = (x, failed)"
    by (metis surj_pair)
  note i = updated_ID [OF assms(1,2) x]
  have "gomap_ok (bullseyesIdx c)" using assms(2) by (simp add: stream_ok_def)
  then show ?thesis
    using assms(3) by (intro exI [of _ x])
      (auto simp: applyObjectUpdate_def Let_def x i update_gomap_ok split: option.splits sum.splits if_splits)
qed

lemma applyObjectUpdate_ok:
  assumes "keeps_IDs A" and "stream_ok A c" and "applyObjectUpdate A up c = (e, c', fade)"
  shows "stream_ok A c'"
proof -
  from applyObjectUpdate_objects [OF assms] obtain x where
    "object_ID A x = update_ID up" "gomap_ok (bullseyesIdx c')"
    "objects c' = (if fade = None then AList.update (update_ID up) x (objects c)
        else AList.delete (update_ID up) (AList.update (update_ID up) x (objects c)))" by blast
  then show ?thesis
    using assms(2) by (auto simp: stream_ok_def update_gomap_ok intro!: gomap.holds_put gomap.holds_del)
qed

lemma updateGlobalObject_objects:
  "objects (snd (updateGlobalObject A up c)) = objects c \<and> bullseyesIdx (snd (updateGlobalObject A up c)) = bullseyesIdx c"
  by (auto simp: updateGlobalObject_def and_then_def set_reference_time_def set_reference_longitude_def
    set_reference_latitude_def split: option.splits)

lemma handleTimeFrame_objects:
  "objects (snd (handleTimeFrame A line c)) = objects c \<and> bullseyesIdx (snd (handleTimeFrame A line c)) = bullseyesIdx c"
  by (auto simp: handleTimeFrame_def split: sum.splits)

text \<open>A line either is an update of an object, or it leaves the objects alone and sends nothing.\<close>

lemma handleLine_cases:
  assumes "handleLine A now line c = (e, c', events)"
  obtains (object) up e' c1 fade where "ParseObjectUpdate A (TrimSpace line) = Inr up" "applyObjectUpdate A up c = (e', c1, fade)"
      "objects c' = objects c1" "bullseyesIdx c' = bullseyesIdx c1"
      "events = (case fade of None \<Rightarrow> [] | Some i \<Rightarrow> [SimFaded i])"
  | (other) "objects c' = objects c" "bullseyesIdx c' = bullseyesIdx c" "events = []"
proof (cases "ParseObjectUpdate A (TrimSpace line)")
  case (Inl err)
  then show ?thesis
    using assms handleTimeFrame_objects [of A "TrimSpace line" c] other
    by (auto simp: handleLine_def Let_def split: if_splits prod.splits)
next
  case (Inr up)
  obtain e' c1 fade where u: "applyObjectUpdate A up c = (e', c1, fade)" by (metis prod_cases3)
  show ?thesis
  proof (cases "(e, c', events) = (case updateObject A up c of
                 (Some e, c, events) \<Rightarrow> (Some (''error updating object: '' @ e), c, events)
               | (None, c, events) \<Rightarrow> (None, c\<lparr>lastUpdateTime := now\<rparr>, events))")
    case True
    then show ?thesis using object [OF Inr u] u by (auto simp: updateObject_def split: option.splits)
  next
    case False
    then show ?thesis
      using assms Inr handleTimeFrame_objects [of A "TrimSpace line" c] updateGlobalObject_objects [of A up c] other
      by (auto simp: handleLine_def Let_def split: if_splits prod.splits option.splits)
  qed
qed

lemma handleLine_ok:
  assumes "keeps_IDs A" and "stream_ok A c" and "handleLine A now line c = (e, c', events)"
  shows "stream_ok A c'"
  using assms(3)
proof (cases rule: handleLine_cases)
  case (object up e' c1 fade)
  then show ?thesis using applyObjectUpdate_ok [OF assms(1,2) object(2)] by (simp add: stream_ok_def)
next
  case other
  then show ?thesis using assms(2) by (simp add: stream_ok_def)
qed

lemma reset_stream_ok: "stream_ok A (reset_stream c)"
  by (simp add: stream_ok_def reset_stream_def gomap.holds_def)

lemma stream_step_ok:
  "keeps_IDs A \<Longrightarrow> stream_ok A c \<Longrightarrow> stream_step A now i c = Some (e, c', events) \<Longrightarrow> stream_ok A c'"
  by (cases i) (auto simp: reset_stream_ok handleLine_ok)

lemma stream_run_ok:
  "keeps_IDs A \<Longrightarrow> stream_ok A c \<Longrightarrow> stream_run A inputs c = Some (c', events) \<Longrightarrow> stream_ok A c'"
  by (induction A inputs c arbitrary: c' events rule: stream_run.induct)
    (auto split: option.splits dest: stream_step_ok)

text \<open>From the creation of a client on, whatever is read, every object is stored under its own identifier, once.\<close>

theorem stream_invariant:
  assumes "keeps_IDs A" and "stream_run A inputs (newStreamingClient interval) = Some (c, events)"
  shows "gomap_ok (objects c) \<and> gomap_ok (bullseyesIdx c) \<and> (\<forall>i x. map_of (objects c) i = Some x \<longrightarrow> object_ID A x = i)"
proof -
  have "stream_ok A (newStreamingClient interval)" by (simp add: newStreamingClient_def reset_stream_ok)
  from stream_run_ok [OF assms(1) this assms(2)] show ?thesis by (simp add: stream_ok_def gomap.holds_def)
qed

section \<open>What the updates say\<close>

definition reportable :: "'o acmi_lib \<Rightarrow> 'o streamingClient \<Rightarrow> 'o \<Rightarrow> bool" where
  "reportable A c x \<longleftrightarrow>
     (case GetTypes A x of Inl _ \<Rightarrow> False | Inr taglist \<Rightarrow> isAircraft A taglist)
     \<and> GetProperty A x (prop_Name A) \<noteq> None
     \<and> (\<forall>e. GetCoordinates A x (fst (referencePoint c)) (snd (referencePoint c)) \<noteq> Inl e)
     \<and> GetProperty A x (prop_Coalition A) \<noteq> None"

lemma collect_object_some:
  assumes "collect_object A c x = Some u"
  shows "(case u of None \<Rightarrow> \<not> reportable A c x
    | Some (labels, f) \<Rightarrow> reportable A c x \<and> label_ID labels = object_ID A x \<and> frame_Time f = cursorTime c)"
  using assms by (auto simp: collect_object_def reportable_def Let_def split: option.splits sum.splits if_splits)

lemma collect_all_IDs:
  "collect_all A c xs = Some us \<Longrightarrow>
     map (\<lambda>(labels, f). label_ID labels) us = map (object_ID A) (filter (reportable A c) xs)
     \<and> (\<forall>(labels, f) \<in> set us. frame_Time f = cursorTime c)"
proof (induction xs arbitrary: us)
  case (Cons x xs)
  then obtain u us' where u: "collect_object A c x = Some u" "collect_all A c xs = Some us'"
    "us = (case u of None \<Rightarrow> us' | Some u \<Rightarrow> u # us')" by (auto split: option.splits)
  then show ?case using Cons.IH [OF u(2)] collect_object_some [OF u(1)] by (auto split: option.splits)
qed simp

lemma stream_objects_distinct:
  assumes "stream_ok A c"
  shows "map (object_ID A) (map snd (objects c)) = map fst (objects c)"
proof -
  have "object_ID A x = i" if "(i, x) \<in> set (objects c)" for i x
    using assms that by (auto simp: stream_ok_def gomap.holds_def gomap_ok_def)
  then show ?thesis by (auto simp: comp_def)
qed

lemma collected_IDs:
  assumes "stream_ok A c" and "collectUpdates A c = Some us"
  shows "distinct (map (\<lambda>(labels, f). label_ID labels) us)"
    and "i \<in> set (map (\<lambda>(labels, f). label_ID labels) us) \<longleftrightarrow> (\<exists>x. map_of (objects c) i = Some x \<and> reportable A c x)"
proof -
  have IDs: "map (\<lambda>(labels, f). label_ID labels) us = map (object_ID A) (filter (reportable A c) (map snd (objects c)))"
    using collect_all_IDs assms(2) by (auto simp: collectUpdates_def)
  have "distinct (map (object_ID A) (map snd (objects c)))"
    unfolding stream_objects_distinct [OF assms(1)] using assms(1) by (simp add: stream_ok_def gomap_ok_def)
  then show "distinct (map (\<lambda>(labels, f). label_ID labels) us)" unfolding IDs by (rule distinct_map_filter)
  have "i \<in> set (map (object_ID A) (filter (reportable A c) (map snd (objects c)))) \<longleftrightarrow>
      (\<exists>k x. (k, x) \<in> set (objects c) \<and> reportable A c x \<and> object_ID A x = i)" by force
  also have "\<dots> \<longleftrightarrow> (\<exists>x. map_of (objects c) i = Some x \<and> reportable A c x)"
    using assms(1) by (auto simp: stream_ok_def gomap.holds_def gomap_ok_def) (metis map_of_SomeD)+
  finally show "i \<in> set (map (\<lambda>(labels, f). label_ID labels) us) \<longleftrightarrow> (\<exists>x. map_of (objects c) i = Some x \<and> reportable A c x)"
    by (simp only: IDs)
qed

text \<open>The updates that a client sends are one for each of its aircraft that has a name, a coalition and
  coordinates, and for nothing else, each at the mission time.\<close>

theorem updates_of_aircraft:
  assumes "keeps_IDs A" and "stream_run A inputs (newStreamingClient interval) = Some (c, events)"
    and "collectUpdates A c = Some us"
  shows "distinct (map (\<lambda>(labels, f). label_ID labels) us) \<and>
    (\<forall>i. i \<in> set (map (\<lambda>(labels, f). label_ID labels) us) \<longleftrightarrow> (\<exists>x. map_of (objects c) i = Some x \<and> reportable A c x)) \<and>
    (\<forall>(labels, f) \<in> set us. frame_Time f = stream_Time c)"
proof -
  have ok: "stream_ok A c"
    by (rule stream_run_ok [OF assms(1) _ assms(2)]) (simp add: newStreamingClient_def reset_stream_ok)
  have "\<forall>(labels, f) \<in> set us. frame_Time f = cursorTime c"
    using collect_all_IDs [OF assms(3) [unfolded collectUpdates_def]] by blast
  then show ?thesis using collected_IDs [OF ok assms(3)] by (simp add: stream_Time_def)
qed

section \<open>A faded object is silent\<close>

lemma handleLine_absent:
  assumes "keeps_IDs A" and "stream_ok A c" and "handleLine A now line c = (e, c', events)"
    and "\<not> updates_object A i line" and "map_of (objects c) i = None"
  shows "map_of (objects c') i = None \<and> SimFaded i \<notin> set events"
  using assms(3)
proof (cases rule: handleLine_cases)
  case (object up e' c1 fade)
  then have "update_ID up \<noteq> i" using assms(4) by (auto simp: updates_object_def)
  then show ?thesis
    using applyObjectUpdate_objects [OF assms(1,2) object(2)] object(3,5) assms(5)
    by (auto simp: update_conv' delete_conv' split: if_splits)
qed (use assms(5) in simp)

lemma faded_absent:
  assumes "keeps_IDs A" and "stream_ok A c" and "handleLine A now line c = (e, c', events)" and "SimFaded i \<in> set events"
  shows "map_of (objects c') i = None"
  using assms(3)
proof (cases rule: handleLine_cases)
  case (object up e' c1 fade)
  then have "fade = Some i" using assms(4) by (auto split: option.splits)
  then show ?thesis
    using applyObjectUpdate_objects [OF assms(1,2) object(2)] object(3) by (auto simp: delete_conv')
qed (use assms(4) in simp)

lemma stream_step_absent:
  assumes "keeps_IDs A" and "stream_ok A c" and "stream_step A now inp c = Some (e, c', events)"
    and "\<forall>l. inp = Line l \<longrightarrow> \<not> updates_object A i l" and "map_of (objects c) i = None"
  shows "map_of (objects c') i = None \<and> SimFaded i \<notin> set events \<and> (\<forall>labels f. SimUpdated labels f \<in> set events \<longrightarrow> label_ID labels \<noteq> i)"
proof (cases inp)
  case (Line l)
  with assms(3) have l: "handleLine A now l c = (e, c', events)" by simp
  have "\<forall>labels f. SimUpdated labels f \<notin> set events"
    by (rule handleLine_cases [OF l]) (auto split: option.splits)
  then show ?thesis using handleLine_absent [OF assms(1,2) l _ assms(5)] assms(4) Line by blast
next
  case SendUpdates
  then obtain us where us: "collectUpdates A c = Some us" "events = map (\<lambda>(labels, f). SimUpdated labels f) us" "c' = c"
    using assms(3) by auto
  have "label_ID labels \<noteq> i" if "(labels, f) \<in> set us" for labels f
    using collected_IDs(2) [OF assms(2) us(1), of i] assms(5) that by force
  then show ?thesis using us assms(5) by auto
qed (use assms in \<open>auto simp: reset_stream_def\<close>)

lemma stream_run_absent:
  assumes "keeps_IDs A" and "stream_ok A c" and "stream_run A inputs c = Some (c', events)"
    and "\<forall>(t, inp) \<in> set inputs. \<forall>l. inp = Line l \<longrightarrow> \<not> updates_object A i l" and "map_of (objects c) i = None"
  shows "SimFaded i \<notin> set events \<and> (\<forall>labels f. SimUpdated labels f \<in> set events \<longrightarrow> label_ID labels \<noteq> i)"
  using assms(2-5)
proof (induction inputs arbitrary: c c' events)
  case (Cons x inputs)
  obtain now inp where x: "x = (now, inp)" by fastforce
  with Cons.prems(2) obtain e c1 ev later where step: "stream_step A now inp c = Some (e, c1, ev)"
    "stream_run A inputs c1 = Some (c', later)" "events = ev @ later" by (auto split: option.splits)
  have a: "map_of (objects c1) i = None \<and> SimFaded i \<notin> set ev \<and> (\<forall>labels f. SimUpdated labels f \<in> set ev \<longrightarrow> label_ID labels \<noteq> i)"
    by (rule stream_step_absent [OF assms(1) Cons.prems(1) step(1) _ Cons.prems(4)]) (use Cons.prems(3) x in auto)
  then show ?case
    using Cons.IH [OF stream_step_ok [OF assms(1) Cons.prems(1) step(1)] step(2)] Cons.prems(3) step(3) by auto
qed simp


text \<open>A small instance of the library: every object is the same red aircraft, a minus sign removes it.\<close>

definition demo_acmi :: "u64 acmi_lib" where
  "demo_acmi = \<lparr>ParseObjectUpdate = (\<lambda>line. Inr
       (if HasPrefix line ''0'' then \<lparr>update_ID = 0, IsRemoval = False, Properties = [''ReferenceTime'' \<mapsto> ''0001-01-01T00:00:00Z'']\<rparr>
        else \<lparr>update_ID = 7, IsRemoval = HasPrefix line ''-'', Properties = Map.empty\<rparr>)),
     ParseTimeFrame = (\<lambda>_. Inr 5), object_New = (\<lambda>i. i), object_ID = (\<lambda>x. x),
     object_Update = (\<lambda>up lon lat x. (x, None)), GetTypes = (\<lambda>_. Inr [''FixedWing'']),
     GetProperty = (\<lambda>_ p. Some (if p = ''Coalition'' then ''Allies'' else ''F-16'')),
     GetCoordinates = (\<lambda>_ lon lat. Inr \<lparr>coord_Longitude = Some 1, coord_Latitude = Some 2, coord_Altitude = None, coord_Heading = None\<rparr>),
     GetLength = (\<lambda>_ _. Inl ''no such property''), GlobalObjectID = 0, prop_FileType = ''FileType'',
     prop_ACMITacviewFileType = ''text/acmi/tacview'', prop_FileVersion = ''FileVersion'', prop_ReferenceTime = ''ReferenceTime'',
     prop_ReferenceLongitude = ''ReferenceLongitude'', prop_ReferenceLatitude = ''ReferenceLatitude'', prop_Name = ''Name'',
     prop_Pilot = ''Pilot'', prop_Coalition = ''Coalition'', prop_AGL = ''AGL'', tag_FixedWing = ''FixedWing'',
     tag_Rotorcraft = ''Rotorcraft'', tag_Bullseye = ''Bullseye'', acmi_Allies = ''Allies'', acmi_Enemies = ''Enemies''\<rparr>"

lemma demo_keeps_IDs: "keeps_IDs demo_acmi"
  by (simp add: keeps_IDs_def demo_acmi_def)

abbreviation demo_line :: "string \<Rightarrow> int \<times> stream_input" where
  "demo_line l \<equiv> (1, Line l)"

definition demo_streaming :: "u64 streamingClient" where
  "demo_streaming = (newStreamingClient 2)\<lparr>objects := [(7, 7)], lastUpdateTime := 1\<rparr>"

lemma demo_trim: "TrimSpace ''7'' = ''7''" "TrimSpace ''-7'' = ''-7''"
  by code_simp+

lemma demo_updated_stream: "stream_run demo_acmi [demo_line ''7''] (newStreamingClient 2) = Some (demo_streaming, [])"
  by (simp add: handleLine_def demo_trim updateObject_def applyObjectUpdate_def isBullseye_def demo_acmi_def HasPrefix_def
    demo_streaming_def newStreamingClient_def reset_stream_def Let_def)

lemma demo_collected:
  "collectUpdates demo_acmi demo_streaming = Some
     [(\<lparr>label_ID = 7, label_Name = ''F-16'', label_Coalition = Red, label_ACMIName = ''F-16''\<rparr>,
       \<lparr>frame_Time = 0, frame_Point = (1, 2), frame_Altitude = 0, frame_AGL = None, frame_Heading = 0\<rparr>)]"
  by (simp add: collectUpdates_def collect_object_def demo_streaming_def newStreamingClient_def reset_stream_def demo_acmi_def
    isAircraft_def propertyToCoalition_def)

lemma demo_removed:
  "handleLine demo_acmi 1 ''-7'' demo_streaming = (None, newStreamingClient 2 \<lparr>lastUpdateTime := 1\<rparr>, [SimFaded 7])"
  by (simp add: handleLine_def demo_trim updateObject_def applyObjectUpdate_def isBullseye_def demo_acmi_def HasPrefix_def
    demo_streaming_def newStreamingClient_def reset_stream_def Let_def)

theorem stream_invariant_witness:
  "map_of (objects demo_streaming) 7 = Some 7 \<longrightarrow> object_ID demo_acmi 7 = 7"
  using stream_invariant [OF demo_keeps_IDs demo_updated_stream] by blast

theorem updates_of_aircraft_witness:
  "\<exists>x. map_of (objects demo_streaming) 7 = Some x \<and> reportable demo_acmi demo_streaming x"
proof -
  have "7 \<in> set (map (\<lambda>(labels, f). label_ID labels)
     [(\<lparr>label_ID = 7, label_Name = ''F-16'', label_Coalition = Red, label_ACMIName = ''F-16''\<rparr>,
       \<lparr>frame_Time = 0, frame_Point = (1, 2), frame_Altitude = 0, frame_AGL = None, frame_Heading = 0\<rparr>)])" by simp
  then show ?thesis using updates_of_aircraft [OF demo_keeps_IDs demo_updated_stream demo_collected] by blast
qed


section \<open>Reading lines\<close>

lemma ReadString_line: "CHR 0x0A \<notin> set l \<Longrightarrow> ReadString (CHR 0x0A) (l @ newline @ rest) = (l @ newline, True, rest)"
proof -
  assume l: "CHR 0x0A \<notin> set l"
  then have "takeWhile (\<lambda>c. c \<noteq> CHR 0x0A) (l @ CHR 0x0A # rest) = l" by (simp add: takeWhile_tail) (auto simp: takeWhile_eq_all_conv)
  then show ?thesis by (simp add: ReadString_def newline_def Let_def)
qed

lemma ReadString_end: "CHR 0x0A \<notin> set l \<Longrightarrow> ReadString (CHR 0x0A) l = (l, False, [])"
proof -
  assume "CHR 0x0A \<notin> set l"
  then have all: "takeWhile (\<lambda>c. c \<noteq> CHR 0x0A) l = l" by (auto simp: takeWhile_eq_all_conv)
  show ?thesis unfolding ReadString_def Let_def all by simp
qed

lemma not_continued: "l = [] \<or> last l \<noteq> CHR 0x5C \<Longrightarrow> \<not> HasSuffix (l @ newline) continued"
  by (cases l rule: rev_cases) (auto simp: HasSuffix_def newline_def continued_def)

text \<open>The lines of a stream are read one after the other, with their newlines, if none ends in a
  backslash; what follows the last newline is not read.\<close>

theorem lines_read_in_order:
  assumes "\<forall>l \<in> set ls. CHR 0x0A \<notin> set l \<and> (l = [] \<or> last l \<noteq> CHR 0x5C)" and "CHR 0x0A \<notin> set partial"
  shows "acmi_lines (concat (map (\<lambda>l. l @ newline) ls) @ partial) = map (\<lambda>l. l @ newline) ls"
  using assms
proof (induction ls)
  case Nil
  then show ?case by (subst acmi_lines.simps) (simp add: readACMILine_def ReadString_end)
next
  case (Cons l ls)
  then show ?case
    using ReadString_line [of l "concat (map (\<lambda>l. l @ newline) ls) @ partial"] not_continued [of l]
    by (subst acmi_lines.simps) (simp add: readACMILine_def)
qed

theorem lines_read_in_order_witness:
  "acmi_lines (concat (map (\<lambda>l. l @ newline) [''0,Title=x'', ''#1'']) @ ''#2'') = [''0,Title=x'' @ newline, ''#1'' @ newline]"
  using lines_read_in_order [of "[''0,Title=x'', ''#1'']" "''#2''"] by simp

section \<open>Time\<close>

text \<open>Since the stream was reset, a time frame is an error until a reference time was read; from then on it
  sets the mission time to the reference plus its offset, also when the reference is Go's zero time.\<close>

theorem time_frames_follow_reference:
  assumes "updateGlobalObject A up c = (None, c1)" and "update_ID up = GlobalObjectID A"
    and "Properties up (prop_ReferenceTime A) = Some v"
    and "HasPrefix line ''#''" and "ParseTimeFrame A line = Inr offset"
  shows "(\<exists>t. parse_RFC3339 v = Some t \<and> handleTimeFrame A line c1 = (None, c1\<lparr>cursorTime := t + offset\<rparr>)) \<and>
    handleTimeFrame A line (reset_stream c) = (Some ''time frame received before reference time'', reset_stream c)"
proof -
  have "\<exists>t. parse_RFC3339 v = Some t \<and> referenceTimeSet c1 \<and> referenceTime c1 = t"
    using assms(1-3) by (auto simp: updateGlobalObject_def and_then_def set_reference_time_def set_reference_longitude_def
      set_reference_latitude_def split: option.splits)
  then show ?thesis using assms(4,5) by (auto simp: handleTimeFrame_def reset_stream_def)
qed

theorem time_frames_follow_reference_witness:
  "\<exists>c1. updateGlobalObject demo_acmi \<lparr>update_ID = 0, IsRemoval = False, Properties = [''ReferenceTime'' \<mapsto> ''0001-01-01T00:00:00Z'']\<rparr>
      (newStreamingClient 2) = (None, c1) \<and> handleTimeFrame demo_acmi ''#5'' c1 = (None, c1\<lparr>cursorTime := 5\<rparr>)"
proof -
  let ?up = "\<lparr>update_ID = 0, IsRemoval = False, Properties = [''ReferenceTime'' \<mapsto> ''0001-01-01T00:00:00Z'']\<rparr>"
  obtain c1 where c1: "updateGlobalObject demo_acmi ?up (newStreamingClient 2) = (None, c1)"
    by (simp add: updateGlobalObject_def and_then_def set_reference_time_def set_reference_longitude_def
      set_reference_latitude_def demo_acmi_def zero_time)
  have "HasPrefix ''#5'' ''#''" "ParseTimeFrame demo_acmi ''#5'' = Inr 5" "update_ID ?up = GlobalObjectID demo_acmi"
    "Properties ?up (prop_ReferenceTime demo_acmi) = Some ''0001-01-01T00:00:00Z''" by (simp_all add: HasPrefix_def demo_acmi_def)
  from time_frames_follow_reference [OF c1 this(3,4,1,2)] c1 show ?thesis by (simp add: zero_time)
qed

section \<open>The grace period\<close>

text \<open>A line that is no update of an object, the global one included.\<close>

definition no_update :: "'o acmi_lib \<Rightarrow> stream_input \<Rightarrow> bool" where
  "no_update A inp \<longleftrightarrow> (\<forall>l. inp = Line l \<longrightarrow> (\<forall>up. ParseObjectUpdate A (TrimSpace l) \<noteq> Inr up))"

lemma no_update_keeps_time:
  assumes "no_update A inp" and "stream_step A now inp c = Some (e, c', events)"
  shows "lastUpdateTime c' = lastUpdateTime c"
proof (cases inp)
  case (Line l)
  then obtain err where "ParseObjectUpdate A (TrimSpace l) = Inl err"
    using assms(1) by (cases "ParseObjectUpdate A (TrimSpace l)") (auto simp: no_update_def)
  then show ?thesis
    using assms(2) Line by (auto simp: handleLine_def handleTimeFrame_def Let_def split: if_splits sum.splits prod.splits)
qed (use assms(2) in \<open>auto simp: reset_stream_def\<close>)

lemma no_updates_keep_time:
  "\<forall>(t, inp) \<in> set inputs. no_update A inp \<Longrightarrow> stream_run A inputs c = Some (c', events) \<Longrightarrow> lastUpdateTime c' = lastUpdateTime c"
proof (induction inputs arbitrary: c c' events)
  case (Cons x inputs)
  obtain now inp where x: "x = (now, inp)" by fastforce
  with Cons.prems(2) obtain e c1 ev later where step: "stream_step A now inp c = Some (e, c1, ev)"
    "stream_run A inputs c1 = Some (c', later)" by (auto split: option.splits)
  have "lastUpdateTime c1 = lastUpdateTime c" by (rule no_update_keeps_time [OF _ step(1)]) (use Cons.prems(1) x in auto)
  then show ?case using Cons.IH [OF _ step(2)] Cons.prems(1) by auto
qed simp

text \<open>The ten minutes are not counted from the connection. A new client that has not read an update of an
  object when the first minute is over gives up its stream then, and one that connects again gives it up
  at its first tick unless its last update, on the old connection, is recent enough.\<close>

theorem grace_since_last_update:
  assumes "stream_run A ((t0, Restart) # inputs) c = Some (c', events)"
    and "\<forall>(t, inp) \<in> set inputs. no_update A inp"
    and "now > lastUpdateTime c + 10 * 60 * 1000000000"
  shows "stream_step A now GraceTick c' = Some (Some ''no updates received within grace period'', c', [])"
proof -
  have "no_update A Restart" by (simp add: no_update_def)
  with assms(2) have "\<forall>(t, inp) \<in> set ((t0, Restart) # inputs). no_update A inp" by auto
  from no_updates_keep_time [OF this assms(1)] assms(3) show ?thesis
    by (simp add: stream_stalled_def gracePeriod_def)
qed

theorem grace_since_last_update_witness:
  "stream_step demo_acmi 62757281371000000000 GraceTick (newStreamingClient 2) =
     Some (Some ''no updates received within grace period'', newStreamingClient 2, [])"
proof -
  have run: "stream_run demo_acmi [(62757281311000000000, Restart)] (newStreamingClient 2) = Some (newStreamingClient 2, [SimStarted])"
    by (simp add: newStreamingClient_def reset_stream_def)
  show ?thesis by (rule grace_since_last_update [OF run]) (simp_all add: newStreamingClient_def reset_stream_def)
qed

section \<open>Both passwords\<close>

text \<open>Of two successive handshakes that are answered, one sends the password with each algorithm.\<close>

theorem handshake_alternates:
  assumes "handshake K first c = Some (Inr packet1, c1, rest1)" and "handshake K second c1 = Some (Inr packet2, c2, rest2)"
  shows "{packet1, packet2} =
    (\<lambda>algorithm. EncodeClient K algorithm (NewClientHandshake (hostname c) (rt_password c))) ` {CRC64WE, CRC32ISOHDLC}"
proof -
  have "packet1 = EncodeClient K (hashAlgorithm c1) (NewClientHandshake (hostname c) (rt_password c))"
    "hostname c1 = hostname c" "rt_password c1 = rt_password c"
    using assms(1) by (auto simp: handshake_def Let_def split: prod.splits if_splits option.splits)
  moreover have "packet2 = EncodeClient K (hashAlgorithm c2) (NewClientHandshake (hostname c1) (rt_password c1))"
    "hashAlgorithm c2 = (if hashAlgorithm c1 = CRC64WE then CRC32ISOHDLC else CRC64WE)"
    using assms(2) by (auto simp: handshake_def Let_def split: prod.splits if_splits option.splits)
  ultimately show ?thesis by (cases "hashAlgorithm c1") auto
qed

definition demo_crc :: crc_lib where
  "demo_crc = \<lparr>crc_CRC64WE = (\<lambda>_. 1), crc_CRC32ISOHDLC = (\<lambda>_. 2)\<rparr>"

lemma demo_handshake: "\<exists>packet c'. handshake demo_crc terminator c = Some (Inr packet, c', [])" for c :: "u64 RealTimeClient"
proof -
  have "ReadString (CHR 0x00) terminator = (terminator, True, [])" by (simp add: ReadString_def terminator_def)
  moreover have "DecodeHostHandshake terminator \<noteq> None"
    by (simp add: DecodeHostHandshake_def Split_char_end newline_def terminator_def decode_host_line_def)
  ultimately show ?thesis by (auto simp: handshake_def Let_def)
qed

theorem handshake_alternates_witness:
  "\<exists>packet1 packet2 c1 c2. handshake demo_crc terminator (NewRealTimeClient [] ''Sky Eye'' [] 1 2 :: u64 RealTimeClient) = Some (Inr packet1, c1, []) \<and>
     handshake demo_crc terminator c1 = Some (Inr packet2, c2, []) \<and>
     {packet1, packet2} = (\<lambda>algorithm. EncodeClient demo_crc algorithm (NewClientHandshake ''Sky Eye'' [])) ` {CRC64WE, CRC32ISOHDLC}"
proof -
  let ?c = "NewRealTimeClient [] ''Sky Eye'' [] 1 2 :: u64 RealTimeClient"
  obtain packet1 c1 where 1: "handshake demo_crc terminator ?c = Some (Inr packet1, c1, [])" using demo_handshake by blast
  obtain packet2 c2 where 2: "handshake demo_crc terminator c1 = Some (Inr packet2, c2, [])" using demo_handshake by blast
  have "hostname ?c = ''Sky Eye''" "rt_password ?c = []"
    by (simp_all add: NewRealTimeClient_def streamingClient.extend_def)
  with handshake_alternates [OF 1 2] 1 2 show ?thesis by auto
qed

end
