(* ===== verification/Audio.thy ===== *)
theory Audio
  imports Prelude Bearings
begin

text \<open>
  Audio samples (\<open>pkg/pcm\<close>) and what a speech recognizer is given (\<open>pkg/recognizer\<close>): the prompt, the
  length limit of the local model, and the WAV file for the hosted ones. A \<open>float32\<close> sample is a real
  number, so rounding is outside the model; the number that four bytes stand for is a parameter.
\<close>

section \<open>Samples\<close>

type_synonym i16 = "16 word"

definition MaxInt16 :: int where "MaxInt16 = 32767"

definition F32ToS16 :: "real \<Rightarrow> i16" where
  "F32ToS16 f = word_of_int (go_trunc (f * of_int MaxInt16))"

definition S16ToF32 :: "i16 \<Rightarrow> real" where
  "S16ToF32 s = of_int (sint s) / of_int MaxInt16"

definition F32toS16LE :: "real list \<Rightarrow> i16 list" where
  "F32toS16LE samples = map F32ToS16 samples"

definition F32toS16LEBytes :: "real list \<Rightarrow> byte list" where
  "F32toS16LEBytes samples = fold (\<lambda>f out. out @ le_put 2 (F32ToS16 f)) samples []"

text \<open>\<open>None\<close> is the panic of a slice out of range: the bytes do not make up whole samples.\<close>

function F32LEBytesToS16LEBytes :: "(u32 \<Rightarrow> real) \<Rightarrow> byte list \<Rightarrow> byte list option" where
  "F32LEBytesToS16LEBytes float bytes =
     (if bytes = [] then Some []
      else if length bytes < 4 then None
      else map_option (\<lambda>out. le_put 2 (F32ToS16 (float (le_get (take 4 bytes)))) @ out)
             (F32LEBytesToS16LEBytes float (drop 4 bytes)))"
  by pat_completeness auto
termination by (relation "measure (\<lambda>(_, bytes). length bytes)") auto

definition S16LEToF32LE :: "i16 list \<Rightarrow> real list" where
  "S16LEToF32LE samples = map S16ToF32 samples"

function S16LEBytesToF32LE :: "byte list \<Rightarrow> real list option" where
  "S16LEBytesToF32LE bytes =
     (if bytes = [] then Some []
      else if length bytes < 2 then None
      else map_option (\<lambda>out. S16ToF32 (le_get (take 2 bytes)) # out) (S16LEBytesToF32LE (drop 2 bytes)))"
  by pat_completeness auto
termination by (relation "measure length") auto

definition F32AdjustVolume :: "real list \<Rightarrow> real \<Rightarrow> real list" where
  "F32AdjustVolume samples volume =
     (if volume = 1 then samples else map (\<lambda>sample. min 1 (max (- 1) (sample * volume))) samples)"

declare F32LEBytesToS16LEBytes.simps [simp del] S16LEBytesToF32LE.simps [simp del]

section \<open>Recognizers\<close>

datatype Recognizer =
    WhisperRecognizer string "string list"
  | OpenAIRecognizer string string string "string list"

definition NewWhisperAPIRecognizer :: "string \<Rightarrow> string \<Rightarrow> string list \<Rightarrow> Recognizer" where
  "NewWhisperAPIRecognizer apiKey callsign locations = OpenAIRecognizer apiKey ''whisper-1'' callsign locations"

definition NewGPT4oRecognizer :: "string \<Rightarrow> string \<Rightarrow> string list \<Rightarrow> Recognizer" where
  "NewGPT4oRecognizer apiKey callsign locations = OpenAIRecognizer apiKey ''gpt-4o-transcribe'' callsign locations"

definition NewGPT4oMiniRecognizer :: "string \<Rightarrow> string \<Rightarrow> string list \<Rightarrow> Recognizer" where
  "NewGPT4oMiniRecognizer apiKey callsign locations = OpenAIRecognizer apiKey ''gpt-4o-mini-transcribe'' callsign locations"

definition prompt :: "string \<Rightarrow> string list \<Rightarrow> string" where
  "prompt callsign locations =
     ''Either ANYFACE or '' @ callsign @ '', PILOT CALLSIGN, DIGITS, one of '' @ [CHR 0x27] @ ''RADIO'' @ [CHR 0x27] @ '' '' @
     [CHR 0x27] @ ''ALPHA'' @ [CHR 0x27] @ '' '' @ [CHR 0x27] @ ''BOGEY'' @ [CHR 0x27] @ '' '' @
     [CHR 0x27] @ ''PICTURE'' @ [CHR 0x27] @ '' '' @ [CHR 0x27] @ ''DECLARE'' @ [CHR 0x27] @ '' '' @
     [CHR 0x27] @ ''SNAPLOCK'' @ [CHR 0x27] @ '' '' @ [CHR 0x27] @ ''SPIKED'' @ [CHR 0x27] @
     '', ARGUMENTS such as BULLSEYE, BRAA, numbers or digits.'' @
     (if length locations > 0 then '' Locations: '' @ Join locations '', '' @ ''.'' else [])"

text \<open>The longest sample for the local model: 30 seconds at 16 kHz.\<close>

definition maxSize :: nat where "maxSize = 30 * 16000"

definition clamp_sample :: "real list \<Rightarrow> real list" where
  "clamp_sample sample = (if length sample > maxSize then take maxSize sample else sample)"

text \<open>The segments of the local model, joined up to the end, an error, or the cancellation of the context,
  which gives no error.\<close>

datatype segment = Segment string | SegmentError string | Cancelled

fun join_segments :: "string \<Rightarrow> segment list \<Rightarrow> string \<times> string option" where
  "join_segments acc [] = (acc, None)"
| "join_segments acc (Segment s # rest) = join_segments (acc @ s) rest"
| "join_segments acc (SegmentError e # rest) = (acc, Some (''error processing segment: '' @ e))"
| "join_segments acc (Cancelled # rest) = (acc, None)"

section \<open>WAV files\<close>

definition MaxInt32 :: nat where "MaxInt32 = 2147483647"

definition ascii :: "string \<Rightarrow> byte list" where
  "ascii s = map (\<lambda>c. word_of_nat (code_of c)) s"

definition put32 :: "nat \<Rightarrow> byte list" where
  "put32 n = le_put 4 (word_of_nat n :: u32)"

definition put16 :: "nat \<Rightarrow> byte list" where
  "put16 n = le_put 2 (word_of_nat n :: u16)"

definition sampleRate :: nat where "sampleRate = 16000"
definition channels :: nat where "channels = 1"
definition bitsPerSample :: nat where "bitsPerSample = 16"
definition bytesPerSample :: nat where "bytesPerSample = bitsPerSample div 8"
definition bytesPerBlock :: nat where "bytesPerBlock = channels * bitsPerSample div 8"
definition bytesPerSecond :: nat where "bytesPerSecond = sampleRate * bytesPerBlock"

lemmas wav_defs = sampleRate_def channels_def bitsPerSample_def bytesPerSample_def bytesPerBlock_def bytesPerSecond_def

text \<open>Writing to a buffer in memory does not fail.\<close>

definition createWAV :: "real list \<Rightarrow> string + byte list" where
  "createWAV sample =
     (let data = F32toS16LE sample;
          dataSize = length data * bytesPerSample
      in if dataSize > MaxInt32 then Inl ''data size is out of range''
         else let buf = ascii ''RIFF'' @ put32 0 @ ascii ''WAVE'' @ ascii ''fmt '' @ put32 16 @ put16 1 @
                  put16 channels @ put32 sampleRate @ put32 bytesPerSecond @ put16 bytesPerBlock @
                  put16 bitsPerSample @ ascii ''data'' @ put32 dataSize @ concat (map (le_put 2) data)
              in if length buf \<le> 8 \<or> length buf > MaxInt32 then Inl ''buffer length is out of range''
                 else Inr (take 4 buf @ put32 (length buf - 8) @ drop 8 buf))"

section \<open>Bytes and samples\<close>

lemma bytes_of_samples: "F32toS16LEBytes samples = concat (map (le_put 2) (F32toS16LE samples))"
proof -
  have "fold (\<lambda>f out. out @ le_put 2 (F32ToS16 f)) samples acc = acc @ concat (map (le_put 2) (map F32ToS16 samples))" for acc
    by (induction samples arbitrary: acc) simp_all
  then show ?thesis by (simp add: F32toS16LEBytes_def F32toS16LE_def)
qed

lemma samples_of_bytes: "S16LEBytesToF32LE (concat (map (le_put 2) ws)) = Some (map S16ToF32 ws)"
proof (induction ws)
  case Nil
  then show ?case by (simp add: S16LEBytesToF32LE.simps)
next
  case (Cons w ws)
  have "le_put 2 w \<noteq> []" using length_le_put [of 2 w] by (metis list.size(3) zero_neq_numeral)
  moreover have "le_get (le_put 2 w) = w" by (rule le_get_put) simp
  ultimately show ?case using Cons by (subst S16LEBytesToF32LE.simps) simp
qed

text \<open>C38. Audio that goes through bytes is the audio that goes through 16-bit numbers, and no sample between
  -1 and 1 changes by a whole quantization step.\<close>

theorem pcm_bytes_equivalent:
  "S16LEBytesToF32LE (F32toS16LEBytes samples) = Some (S16LEToF32LE (F32toS16LE samples)) \<and>
   (\<forall>i < length samples. \<bar>samples ! i\<bar> \<le> 1 \<longrightarrow>
      \<bar>S16LEToF32LE (F32toS16LE samples) ! i - samples ! i\<bar> < 1 / of_int MaxInt16)"
proof -
  have "\<bar>S16ToF32 (F32ToS16 f) - f\<bar> < 1 / of_int MaxInt16" if f: "\<bar>f\<bar> \<le> 1" for f
  proof -
    let ?t = "go_trunc (f * 32767)"
    have t: "\<bar>of_int ?t - f * 32767\<bar> < 1" by (simp add: go_trunc_def abs_if) linarith
    have "\<bar>f * 32767\<bar> \<le> 32767" using f by (simp add: abs_mult)
    then have "\<bar>?t\<bar> \<le> 32767" unfolding go_trunc_def by (auto simp: abs_if) linarith+
    then have "sint (word_of_int ?t :: i16) = ?t"
      unfolding sint_sbintrunc' by (intro signed_take_bit_int_eq_self) (simp_all add: abs_le_iff)
    then have d: "S16ToF32 (F32ToS16 f) - f = (of_int ?t - f * 32767) / 32767"
      by (simp add: S16ToF32_def F32ToS16_def MaxInt16_def field_simps)
    show ?thesis using t unfolding d MaxInt16_def by (simp add: abs_divide)
  qed
  then have "\<forall>i < length samples. \<bar>samples ! i\<bar> \<le> 1 \<longrightarrow>
      \<bar>S16LEToF32LE (F32toS16LE samples) ! i - samples ! i\<bar> < 1 / of_int MaxInt16"
    by (simp add: S16LEToF32LE_def F32toS16LE_def)
  moreover have "S16LEBytesToF32LE (F32toS16LEBytes samples) = Some (S16LEToF32LE (F32toS16LE samples))"
    unfolding bytes_of_samples samples_of_bytes S16LEToF32LE_def ..
  ultimately show ?thesis by blast
qed

theorem pcm_bytes_equivalent_witness:
  "\<bar>S16LEToF32LE (F32toS16LE [1 / 2]) ! 0 - 1 / 2\<bar> < 1 / of_int MaxInt16"
  using pcm_bytes_equivalent [of "[1 / 2]"] by simp

text \<open>Bytes that do not make up whole samples are a panic, not an error.\<close>

theorem pcm_partial_sample_panics:
  "(S16LEBytesToF32LE bytes = None \<longleftrightarrow> \<not> 2 dvd length bytes) \<and>
   (F32LEBytesToS16LEBytes float bytes = None \<longleftrightarrow> \<not> 4 dvd length bytes)"
proof
  show "S16LEBytesToF32LE bytes = None \<longleftrightarrow> \<not> 2 dvd length bytes"
  proof (induction bytes rule: S16LEBytesToF32LE.induct)
    case (1 bytes)
    have "bytes \<noteq> [] \<Longrightarrow> \<not> length bytes < 2 \<Longrightarrow> 2 dvd length (drop 2 bytes) \<longleftrightarrow> 2 dvd length bytes"
      by (simp add: dvd_minus_self)
    moreover have "bytes \<noteq> [] \<Longrightarrow> length bytes < 2 \<Longrightarrow> \<not> 2 dvd length bytes" by (auto dest: dvd_imp_le)
    ultimately show ?case using 1 by (subst S16LEBytesToF32LE.simps) auto
  qed
  show "F32LEBytesToS16LEBytes float bytes = None \<longleftrightarrow> \<not> 4 dvd length bytes"
  proof (induction float bytes rule: F32LEBytesToS16LEBytes.induct)
    case (1 float bytes)
    have "bytes \<noteq> [] \<Longrightarrow> \<not> length bytes < 4 \<Longrightarrow> 4 dvd length (drop 4 bytes) \<longleftrightarrow> 4 dvd length bytes"
      by (simp add: dvd_minus_self)
    moreover have "bytes \<noteq> [] \<Longrightarrow> length bytes < 4 \<Longrightarrow> \<not> 4 dvd length bytes" by (auto dest: dvd_imp_le)
    ultimately show ?case using 1 by (subst F32LEBytesToS16LEBytes.simps) auto
  qed
qed

section \<open>The WAV file\<close>

lemma wav_sizes: "length (put32 n) = 4" "length (put16 n) = 2" "length (ascii s) = length s"
  by (simp_all add: put32_def put16_def ascii_def)

lemma length_sample_bytes: "length (concat (map (le_put 2) ws)) = 2 * length ws"
  by (induction ws) simp_all

lemma get_put32: "n \<le> MaxInt32 \<Longrightarrow> unat (le_get (put32 n) :: u32) = n"
  unfolding put32_def MaxInt32_def by (subst le_get_put) (simp_all add: unsigned_of_nat take_bit_eq_mod)

definition wav_header :: "byte list" where
  "wav_header = ascii ''WAVE'' @ ascii ''fmt '' @ put32 16 @ put16 1 @
     put16 channels @ put32 sampleRate @ put32 bytesPerSecond @ put16 bytesPerBlock @ put16 bitsPerSample @ ascii ''data''"

lemma wav_header_length: "length wav_header = 32"
  by (simp add: wav_header_def wav_sizes)

text \<open>A WAV file is made exactly for samples that fit in its sizes. It says how long it is and how long its
  data are, and a reader of the data gets the samples.\<close>

theorem wav_describes_samples:
  "case createWAV sample of
     Inl _ \<Rightarrow> 44 + 2 * length sample > MaxInt32
   | Inr file \<Rightarrow> 44 + 2 * length sample \<le> MaxInt32 \<and>
       length file = 44 + 2 * length sample \<and>
       unat (le_get (take 4 (drop 4 file)) :: u32) = length file - 8 \<and>
       unat (le_get (take 4 (drop 40 file)) :: u32) = 2 * length sample \<and>
       S16LEBytesToF32LE (drop 44 file) = Some (S16LEToF32LE (F32toS16LE sample))"
proof -
  let ?n = "length sample" and ?data = "concat (map (le_put 2) (F32toS16LE sample))"
  have n: "length (F32toS16LE sample) = ?n" by (simp add: F32toS16LE_def)
  define rest where "rest = wav_header @ put32 (2 * ?n) @ ?data"
  have rest: "length rest = 36 + 2 * ?n" by (simp add: rest_def wav_header_length wav_sizes length_sample_bytes n)
  have wav: "createWAV sample =
      (if 2 * ?n > MaxInt32 then Inl ''data size is out of range''
       else if 44 + 2 * ?n > MaxInt32 then Inl ''buffer length is out of range''
       else Inr (ascii ''RIFF'' @ put32 (36 + 2 * ?n) @ rest))"
  proof -
    have "ascii ''RIFF'' @ put32 0 @ ascii ''WAVE'' @ ascii ''fmt '' @ put32 16 @ put16 1 @
        put16 channels @ put32 sampleRate @ put32 bytesPerSecond @ put16 bytesPerBlock @
        put16 bitsPerSample @ ascii ''data'' @ put32 (2 * ?n) @ ?data = ascii ''RIFF'' @ put32 0 @ rest"
      by (simp add: rest_def wav_header_def)
    moreover have "length (ascii ''RIFF'' @ put32 0 @ rest) = 44 + 2 * ?n"
      "take 4 (ascii ''RIFF'' @ put32 0 @ rest) = ascii ''RIFF''" "drop 8 (ascii ''RIFF'' @ put32 0 @ rest) = rest"
      by (simp_all add: wav_sizes rest)
    ultimately show ?thesis
      by (simp add: createWAV_def n wav_defs(4) bytesPerSample_def bitsPerSample_def mult.commute)
  qed
  show ?thesis
  proof (cases "44 + 2 * ?n \<le> MaxInt32")
    case True
    have "take 4 (drop 40 (ascii ''RIFF'' @ put32 (36 + 2 * ?n) @ rest)) = put32 (2 * ?n)"
      "drop 44 (ascii ''RIFF'' @ put32 (36 + 2 * ?n) @ rest) = ?data"
      by (simp_all add: wav_sizes rest_def wav_header_length)
    then show ?thesis
      using True by (simp add: wav wav_sizes rest get_put32 samples_of_bytes S16LEToF32LE_def)
  next
    case False
    then show ?thesis by (simp add: wav)
  qed
qed

theorem wav_describes_samples_witness:
  "\<exists>file. createWAV [0, 1] = Inr file \<and> length file = 48"
  using wav_describes_samples [of "[0, 1]"] by (auto simp: MaxInt32_def split: sum.splits)

end
