(* ===== verification/Commands.thy ===== *)
theory Commands
  imports Coalitions
begin

text \<open>
  Requests from the in-game chat (\<open>pkg/commands\<close>). The events and the list of players come from the
  DCS-gRPC services; what is received is an argument. The identifier of a new trace is random, so it is
  an argument too.
\<close>

datatype dcs_coalition = COALITION_RED | COALITION_BLUE | COALITION_OTHER nat

record ChatListener =
  listener_coalition :: dcs_coalition
  listener_callsign :: string

definition NewChatListener :: "Coalition \<Rightarrow> string \<Rightarrow> ChatListener" where
  "NewChatListener coalition callsign =
     \<lparr>listener_coalition = (if coalition = Red then COALITION_RED else COALITION_BLUE), listener_callsign = callsign\<rparr>"

record player =
  player_Id :: nat
  player_Name :: string
  player_Coalition :: dcs_coalition

record chat_event =
  chat_PlayerId :: nat
  chat_Message :: string

record chat_request =
  request_TraceID :: string
  request_PlayerName :: string
  request_Text :: string

definition find_player :: "nat \<Rightarrow> player list \<Rightarrow> player option" where
  "find_player i players = fold (\<lambda>p info. if player_Id p = i then Some p else info) players None"

text \<open>One event of the stream: an error, or the request that is passed on, if any.\<close>

definition receive_event ::
    "ChatListener \<Rightarrow> string \<Rightarrow> chat_event option \<Rightarrow> string + player list \<Rightarrow> string + chat_request option" where
  "receive_event l uuid event players =
     (case event of None \<Rightarrow> Inr None
      | Some e \<Rightarrow>
          if chat_Message e = [] then Inr None
          else case players of Inl err \<Rightarrow> Inl (''error getting players: '' @ err)
          | Inr ps \<Rightarrow> (case find_player (chat_PlayerId e) ps of None \<Rightarrow> Inr None
            | Some p \<Rightarrow>
                if player_Coalition p \<noteq> listener_coalition l then Inr None
                else Inr (Some \<lparr>request_TraceID = uuid, request_PlayerName = player_Name p, request_Text = chat_Message e\<rparr>)))"

text \<open>\<open>receive\<close>: the requests passed on up to the first error, which is that of the stream at its end.\<close>

fun receive_chat ::
    "ChatListener \<Rightarrow> (string \<times> chat_event option \<times> (string + player list)) list \<Rightarrow> string \<Rightarrow> chat_request list \<times> string" where
  "receive_chat l [] end_error = ([], ''event stream error: '' @ end_error)"
| "receive_chat l ((uuid, event, players) # events) end_error =
     (case receive_event l uuid event players of
        Inl err \<Rightarrow> ([], err)
      | Inr request \<Rightarrow> (case receive_chat l events end_error of (requests, err) \<Rightarrow>
          ((case request of None \<Rightarrow> requests | Some r \<Rightarrow> r # requests), err)))"

lemma find_player_Some: "find_player i players = Some p \<Longrightarrow> p \<in> set players \<and> player_Id p = i"
proof -
  have "fold (\<lambda>p info. if player_Id p = i then Some p else info) players info = Some p \<Longrightarrow>
      (p \<in> set players \<and> player_Id p = i) \<or> info = Some p" for info
    by (induction players arbitrary: info) (auto split: if_splits)
  then show "find_player i players = Some p \<Longrightarrow> p \<in> set players \<and> player_Id p = i"
    by (fastforce simp: find_player_def)
qed

text \<open>Only messages of players of the controller's own side become requests, each with the name of the
  player and the text of the message.\<close>

theorem chat_requests_of_own_side:
  assumes "r \<in> set (fst (receive_chat (NewChatListener coalition callsign) events end_error))"
  shows "\<exists>e ps p. (request_TraceID r, Some e, Inr ps) \<in> set events \<and> p \<in> set ps \<and> player_Id p = chat_PlayerId e \<and>
     request_PlayerName r = player_Name p \<and> request_Text r = chat_Message e \<and> request_Text r \<noteq> [] \<and>
     player_Coalition p = (if coalition = Red then COALITION_RED else COALITION_BLUE)"
  using assms
proof (induction "NewChatListener coalition callsign" events end_error rule: receive_chat.induct)
  case (2 uuid event players events end_error)
  show ?case
  proof (cases "receive_event (NewChatListener coalition callsign) uuid event players = Inr (Some r)")
    case True
    then show ?thesis
      by (auto simp: receive_event_def NewChatListener_def split: option.splits sum.splits if_splits dest!: find_player_Some) blast+
  next
    case False
    then have "r \<in> set (fst (receive_chat (NewChatListener coalition callsign) events end_error))"
      using "2.prems" by (auto split: sum.splits prod.splits option.splits)
    then show ?thesis using "2.hyps" False "2.prems" by (fastforce split: sum.splits)
  qed
qed simp

theorem chat_requests_of_own_side_witness:
  "\<exists>e ps p. (''t'', Some e, Inr ps) \<in> set [(''t'', Some \<lparr>chat_PlayerId = 1, chat_Message = ''Anyface, Eagle 1, picture''\<rparr>,
       Inr [\<lparr>player_Id = 1, player_Name = ''Eagle 1'', player_Coalition = COALITION_BLUE\<rparr>])] \<and>
     p \<in> set ps \<and> player_Coalition p = COALITION_BLUE"
proof -
  let ?events = "[(''t'', Some \<lparr>chat_PlayerId = 1, chat_Message = ''Anyface, Eagle 1, picture''\<rparr>,
       Inr [\<lparr>player_Id = 1, player_Name = ''Eagle 1'', player_Coalition = COALITION_BLUE\<rparr>])]"
  have "\<lparr>request_TraceID = ''t'', request_PlayerName = ''Eagle 1'', request_Text = ''Anyface, Eagle 1, picture''\<rparr>
      \<in> set (fst (receive_chat (NewChatListener Blue ''Sky Eye'') ?events []))"
    by (simp add: receive_event_def find_player_def NewChatListener_def)
  from chat_requests_of_own_side [OF this] show ?thesis by auto
qed

end
