(* ===== verification/Application.thy ===== *)
theory Application
  imports Spoken Traces SrsTransmit Broadcasts Telemetry Audio Commands
begin

text \<open>
  The application (\<open>internal/application\<close>): how it is put together from its configuration, and the way
  of a request through its stages, from the recognized text to the transmission of the answer. Each
  stage is a function from the message it receives to the message it sends on and the contexts it
  traces. What the stages get from outside (the recognizer, the speech synthesizer, file locks, the
  clock, random choices, the failure of a connection) are arguments.
\<close>

section \<open>Construction\<close>

text \<open>The part of \<open>conf.Configuration\<close> that decides about the modelled components; the rest are the settings
  of the speech libraries, addresses and time limits of connections.\<close>

record Configuration =
  conf_ACMIFile :: string
  conf_TelemetryAddress :: string
  conf_TelemetryConnectionTimeout :: int
  conf_TelemetryPassword :: string
  conf_SRSClientName :: string
  conf_SRSExternalAWACSModePassword :: string
  conf_SRSFrequencies :: "(real \<times> Modulation) list"
  conf_EnableGRPC :: bool
  conf_EnableTranscriptionLogging :: bool
  conf_Callsign :: string
  conf_Coalition :: Coalition
  conf_RadarSweepInterval :: int
  conf_Recognizer :: string
  conf_OpenAIAPIKey :: string
  conf_Mute :: bool
  conf_Volume :: real
  conf_EnableAutomaticPicture :: bool
  conf_PictureBroadcastInterval :: int
  conf_EnableThreatMonitoring :: bool
  conf_ThreatMonitoringInterval :: int
  conf_MandatoryThreatRadius :: real
  conf_ThreatBRAABearingSpread :: real
  conf_ThreatBRAARangeSpread :: real
  conf_ThreatMonitoringRequiresSRS :: bool
  conf_Locations :: "Location list"
  conf_CustomAircraft :: "Aircraft list"
  conf_EnableTracing :: bool
  conf_DiscordWebhookID :: string
  conf_DiscordWebhookToken :: string
  conf_ExitAfter :: int
  conf_EnableTerrainDetection :: bool

definition WhisperLocal :: string where "WhisperLocal = ''openai-whisper-local''"
definition WhisperAPI :: string where "WhisperAPI = ''openai-whisper-api''"
definition GPT4o :: string where "GPT4o = ''openai-gpt4o''"
definition GPT4oMini :: string where "GPT4oMini = ''openai-gpt4o-mini''"

lemmas recognizer_names = WhisperLocal_def WhisperAPI_def GPT4o_def GPT4oMini_def

definition speech_recognizer :: "Configuration \<Rightarrow> string list \<Rightarrow> Recognizer option" where
  "speech_recognizer config locations =
     (let name = conf_Recognizer config; key = conf_OpenAIAPIKey config; callsign = conf_Callsign config
      in if name = WhisperLocal then Some (WhisperRecognizer callsign locations)
         else if name = WhisperAPI then Some (NewWhisperAPIRecognizer key callsign locations)
         else if name = GPT4o then Some (NewGPT4oRecognizer key callsign locations)
         else if name = GPT4oMini then Some (NewGPT4oMiniRecognizer key callsign locations)
         else None)"

datatype 'o TelemetryClient = FileClient "'o FileReader" | NetworkClient "'o RealTimeClient"

definition telemetry_client :: "Configuration \<Rightarrow> 'o TelemetryClient" where
  "telemetry_client config =
     (if conf_ACMIFile config \<noteq> []
      then FileClient (NewFileClient (conf_ACMIFile config) (conf_RadarSweepInterval config))
      else NetworkClient (NewRealTimeClient (conf_TelemetryAddress config) (conf_Callsign config)
             (conf_TelemetryPassword config) (conf_TelemetryConnectionTimeout config) (conf_RadarSweepInterval config)))"

datatype Tracer = LogTracer | DiscordWebhook

record 'o Application =
  app_callsign :: string
  app_telemetryClient :: "'o TelemetryClient"
  app_recognizer :: Recognizer
  app_chatListener :: "ChatListener option"
  app_parser :: Parser
  app_controller :: Controller
  app_composer :: string
  app_volume :: real
  enableTranscriptionLogging :: bool
  tracers :: "Tracer list"
  app_exitAfter :: int

text \<open>What the construction meets outside: a random GUID, the clock, and the errors of the connections and
  of the libraries.\<close>

record environment =
  env_GUID :: GUID
  env_now :: int
  env_grpc_error :: "string option"
  env_srs_error :: "string option"
  env_speaker_error :: "string option"
  env_discord_error :: "string option"

definition or_fail :: "string option \<Rightarrow> string + 'a \<Rightarrow> string + 'a" where
  "or_fail e r = (case e of Some e \<Rightarrow> Inl e | None \<Rightarrow> r)"

definition srs_radios :: "(real \<times> Modulation) list \<Rightarrow> Radio list" where
  "srs_radios frequencies = map (\<lambda>(f, m). \<lparr>radio_Frequency = f, radio_Modulation = m, IsEncrypted = False, EncryptionKey = 0,
     GuardFrequency = 0, ShouldRetransmit = True\<rparr>) frequencies"

text \<open>The controller and the radar share one SRS client; the radar has it only when threat calls are
  restricted to pilots on frequency. The custom aircraft are added to the encyclopedia, which is the
  second result.\<close>

definition NewApplication ::
    "environment \<Rightarrow> Configuration \<Rightarrow> AircraftLUT \<Rightarrow> string + ('o Application \<times> AircraftLUT)" where
  "NewApplication env config lut =
     or_fail (if conf_EnableGRPC config then env_grpc_error env else None)
     (or_fail (env_srs_error env)
     (let chatListener = (if conf_EnableGRPC config then Some (NewChatListener (conf_Coalition config) (conf_Callsign config)) else None);
          srs = NewClient (env_GUID env) (env_now env) \<lparr>config_ClientName = conf_SRSClientName config,
            config_EAMPassword = conf_SRSExternalAWACSModePassword config, config_Coalition = conf_Coalition config,
            config_Radios = srs_radios (conf_SRSFrequencies config), config_Mute = conf_Mute config\<rparr>;
          locationNames = concat (map Names (conf_Locations config))
      in case speech_recognizer config locationNames of
           None \<Rightarrow> Inl ''failed to construct application: unrecognized recognizer''
         | Some recognizer \<Rightarrow>
             (let radarSRSClient = (if conf_ThreatMonitoringRequiresSRS config then Some srs else None);
                  rdr = NewRadar (conf_Coalition config) (conf_MandatoryThreatRadius config) (conf_ThreatBRAABearingSpread config)
                    (conf_ThreatBRAARangeSpread config) (conf_EnableTerrainDetection config) radarSRSClient;
                  webhook = conf_DiscordWebhookID config \<noteq> [] \<and> conf_DiscordWebhookToken config \<noteq> []
              in or_fail (env_speaker_error env)
                (or_fail (if conf_EnableTracing config \<and> webhook then env_discord_error env else None)
                (Inr (\<lparr>app_callsign = conf_Callsign config,
                  app_telemetryClient = telemetry_client config,
                  app_recognizer = recognizer,
                  app_chatListener = chatListener,
                  app_parser = NewParser (conf_Callsign config) locationNames,
                  app_controller = NewController (env_now env) rdr srs (conf_Coalition config) (conf_EnableAutomaticPicture config)
                    (conf_PictureBroadcastInterval config) (conf_EnableThreatMonitoring config)
                    (conf_ThreatMonitoringInterval config) (conf_ThreatMonitoringRequiresSRS config) (conf_Locations config),
                  app_composer = conf_Callsign config,
                  app_volume = conf_Volume config,
                  enableTranscriptionLogging = conf_EnableTranscriptionLogging config,
                  tracers = (if conf_EnableTracing config then [LogTracer] @ (if webhook then [DiscordWebhook] else []) else []),
                  app_exitAfter = conf_ExitAfter config\<rparr>,
                AddCustomAircraft (conf_CustomAircraft config) lut))))))"

lemma NewApplication_parts:
  assumes "NewApplication env config lut = Inr (a, lut')"
  shows "srsClient (scope (app_controller a)) =
      (if conf_ThreatMonitoringRequiresSRS config
       then Some (NewClient (env_GUID env) (env_now env) \<lparr>config_ClientName = conf_SRSClientName config,
            config_EAMPassword = conf_SRSExternalAWACSModePassword config, config_Coalition = conf_Coalition config,
            config_Radios = srs_radios (conf_SRSFrequencies config), config_Mute = conf_Mute config\<rparr>) else None)"
    and "app_parser a = NewParser (conf_Callsign config) (concat (map Names (conf_Locations config)))"
  using assms
  by (auto simp: NewApplication_def or_fail_def NewController_def NewRadar_def Let_def split: option.splits if_splits)

section \<open>Tracing\<close>

datatype published = Logged "(string \<times> log_value) list" | Posted string "embed_field list"

fun publish :: "units \<Rightarrow> Context \<Rightarrow> Tracer \<Rightarrow> published" where
  "publish u ctx LogTracer = Logged (log_fields ctx)"
| "publish u ctx DiscordWebhook = (case createReport u ctx of (title, fs) \<Rightarrow> Posted title fs)"

definition trace :: "units \<Rightarrow> 'o Application \<Rightarrow> Context \<Rightarrow> published list" where
  "trace u a ctx =
     (let ctx = (if \<not> enableTranscriptionLogging a then WithoutRequestText ctx else ctx)
      in map (publish u ctx) (tracers a))"

section \<open>The stages\<close>

text \<open>A transmission that was received becomes a context with its trace ID and client name. A file lock
  either is obtained or gives an error. When the recognizer runs out of time, that is traced last.\<close>

definition received :: "string \<Rightarrow> string \<Rightarrow> int \<Rightarrow> Context" where
  "received traceID clientName now = WithReceivedAt now (WithClientName clientName (WithTraceID traceID []))"

definition recognizeSample ::
    "units \<Rightarrow> 'o Application \<Rightarrow> Context \<Rightarrow> Context \<Rightarrow> int \<Rightarrow> string option \<Rightarrow> string + string \<Rightarrow> string option
     \<Rightarrow> published list \<times> (Context \<times> string) option" where
  "recognizeSample u a processCtx requestCtx now lockError recognized expired =
     (let late = (case expired of None \<Rightarrow> [] | Some e \<Rightarrow> trace u a (WithRequestError e requestCtx))
      in case lockError of
           Some e \<Rightarrow> (trace u a (WithRequestError (''unable to obtain recognizer lock: '' @ e) processCtx) @ late, None)
         | None \<Rightarrow> (case recognized of
             Inl e \<Rightarrow> (trace u a (WithRequestError e processCtx) @ late, None)
           | Inr text \<Rightarrow> (late, Some (WithRequestText text (WithRecognizedAt now requestCtx), text))))"

record parse_lib =
  pl_parser :: parser_lib
  pl_replacements :: "(string \<times> string) list"
  pl_order :: "(string \<times> ContactCategory) list"

definition parseText ::
    "units \<Rightarrow> parse_lib \<Rightarrow> 'o Application \<Rightarrow> int \<Rightarrow> Context \<Rightarrow> string \<Rightarrow> published list \<times> (Context \<times> Request) option" where
  "parseText u P a now ctx text =
     (let ctx = WithParsedAt now ctx
      in case Parse (pl_parser P) (pl_replacements P) (pl_order P) (app_parser a) text of
           Some request \<Rightarrow> ([], Some (WithRequest request ctx, request))
         | None \<Rightarrow> (trace u a ctx, None))"

text \<open>The routing of a request to its handler. \<open>None\<close> is a panic in the handler. The default branch of
  the code is for values that are no request.\<close>

fun handle :: "control_lib \<Rightarrow> int \<Rightarrow> Request \<Rightarrow> Controller \<Rightarrow> (Controller \<times> Call list) option" where
  "handle C now (AlphaCheckRequest callsign) c = Some (c, HandleAlphaCheck C c callsign)"
| "handle C now (BogeyDopeRequest callsign category) c = Some (c, HandleBogeyDope C c callsign category)"
| "handle C now (CheckInRequest callsign) c = Some (c, HandleCheckIn C c callsign)"
| "handle C now (Declare req) c = map_option (Pair c) (HandleDeclare C c req)"
| "handle C now (PictureRequest callsign) c = Some (HandlePicture C now c)"
| "handle C now (RadioCheckRequest callsign) c = Some (c, HandleRadioCheck C c callsign)"
| "handle C now (ShoppingRequest callsign) c = Some (c, HandleShopping C c callsign)"
| "handle C now (SnaplockRequest callsign bra) c = Some (c, HandleSnaplock C c callsign bra)"
| "handle C now (SpikedRequest callsign bearing) c = Some (c, HandleSpiked C c callsign bearing)"
| "handle C now (StrobeRequest callsign bearing) c = Some (c, HandleStrobe C c callsign bearing)"
| "handle C now (TripwireRequest callsign) c = Some (c, HandleTripwire C c callsign)"
| "handle C now (VectorRequest callsign location) c = Some (c, HandleVector C c callsign location)"
| "handle C now (UnableToUnderstandRequest callsign) c = Some (c, HandleUnableToUnderstand C c callsign)"

text \<open>Every handler sends its calls with the context of the request.\<close>

definition handleRequest ::
    "control_lib \<Rightarrow> int \<Rightarrow> Context \<Rightarrow> Request \<Rightarrow> 'o Application \<Rightarrow> ('o Application \<times> (Context \<times> Call) list) option" where
  "handleRequest C now ctx request a =
     map_option (\<lambda>(c, calls). (a\<lparr>app_controller := c\<rparr>, map (Pair ctx) calls)) (handle C now request (app_controller a))"

definition compose_message ::
    "radar_lib \<Rightarrow> 'o Application \<Rightarrow> nat \<Rightarrow> nat \<Rightarrow> int \<Rightarrow> int \<Rightarrow> Context \<Rightarrow> Call \<Rightarrow> (Context \<times> NaturalLanguageResponse) option" where
  "compose_message L a i j handledAt composedAt ctx call =
     map_option (\<lambda>response.
         (WithComposedAt composedAt (WithCallText (Subtitle response) (WithHandledAt handledAt ctx)), response))
       (composeCall L (app_composer a) i j call)"

definition synthesizeMessage ::
    "units \<Rightarrow> 'o Application \<Rightarrow> int \<Rightarrow> string option \<Rightarrow> (string \<Rightarrow> string + real list) \<Rightarrow> Context \<Rightarrow> NaturalLanguageResponse
     \<Rightarrow> published list \<times> (Context \<times> real list) option" where
  "synthesizeMessage u a now lockError say ctx response =
     (case lockError of
        Some e \<Rightarrow> (trace u a (WithRequestError (''unable to obtain speaker lock: '' @ e) ctx), None)
      | None \<Rightarrow> (case say (Speech response) of
          Inl e \<Rightarrow> (trace u a (WithRequestError e ctx), None)
        | Inr audio \<Rightarrow> ([], Some (WithSynthesizedAt now ctx, F32AdjustVolume audio (app_volume a)))))"

text \<open>The transmission, with the trace ID that goes with it, and the trace of the whole workflow.\<close>

definition transmitMessage :: "units \<Rightarrow> 'o Application \<Rightarrow> int \<Rightarrow> Context \<Rightarrow> real list \<Rightarrow> published list \<times> string \<times> Transmission" where
  "transmitMessage u a now ctx audio =
     (trace u a (WithSubmittedAt now ctx), GetTraceID ctx,
      \<lparr>ClientName = GetClientName ctx, Audio = audio\<rparr>)"

text \<open>A chat message enters at the parser, with its player's name.\<close>

definition chat_message :: "string \<Rightarrow> string \<Rightarrow> string \<Rightarrow> string \<Rightarrow> Context \<times> string" where
  "chat_message uuid traceID player text =
     (WithRequestText text (WithPlayerName player (WithTraceID traceID (NewRequestContext uuid))), text)"

section \<open>File locks and the end\<close>

text \<open>\<open>tryLock\<close>: without a lock there is nothing to wait for; otherwise the lock reports an error or
  whether it was obtained.\<close>

definition tryLock :: "(string + bool) option \<Rightarrow> string option" where
  "tryLock lock =
     (case lock of None \<Rightarrow> None
      | Some (Inl e) \<Rightarrow> Some e
      | Some (Inr ok) \<Rightarrow> if \<not> ok then Some ''unable to acquire lock'' else None)"

text \<open>A tick of the exit timer: whether the application stops.\<close>

definition exit_tick :: "int \<Rightarrow> int \<Rightarrow> 'o Application \<Rightarrow> Client \<Rightarrow> bool" where
  "exit_tick start now a srs \<longleftrightarrow> now - start \<ge> app_exitAfter a \<and> HumansOnFrequency srs = 0"

section \<open>Updates of the radar\<close>

definition updateMissionTime :: "int \<Rightarrow> Radar \<Rightarrow> Radar" where
  "updateMissionTime t r = SetMissionTime t r"

definition updateBullseyes :: "radar_lib \<Rightarrow> (Coalition \<Rightarrow> point option) \<Rightarrow> Radar \<Rightarrow> Radar" where
  "updateBullseyes L bullseye r =
     fold (\<lambda>coalition r. case bullseye coalition of None \<Rightarrow> r | Some p \<Rightarrow> SetBullseye L p coalition r) [Red, Blue] r"

text \<open>What the telemetry client sends goes to the radar; a panic of the radar is \<open>None\<close>.\<close>

fun radar_receive :: "radar_lib \<Rightarrow> int \<Rightarrow> sim_event \<Rightarrow> Radar \<Rightarrow> (Radar \<times> RadarEvent list) option" where
  "radar_receive L now SimStarted r = Some (handleStarted r)"
| "radar_receive L now (SimUpdated labels frame) r = map_option (\<lambda>r. (r, [])) (handleUpdate L labels frame r)"
| "radar_receive L now (SimFaded i) r = Some (receive_fade now i r, [])"

lemma radar_receive_step:
  "radar_receive L now e r = Some (r', events) \<Longrightarrow> radar_step L now r events r'"
  by (cases e) (auto intro: radar_step.intros)

end
