(* ===== verification/Answers.thy ===== *)
theory Answers
  imports Application
begin

text \<open>
  What the application answers: every request gets one call, addressed to its caller, and every call
  can be composed; a DECLARE says what is at the place it asks about; the answer is transmitted with
  the identity of the request, and nothing that is traced shows a text that must not be logged.
\<close>

section \<open>Calls that can be composed\<close>

fun composable :: "Call \<Rightarrow> bool" where
  "composable (AlphaCheckResponse callsign status location) \<longleftrightarrow> (status \<longrightarrow> location \<noteq> None)"
| "composable (BogeyDopeResponse callsign g) \<longleftrightarrow> (case g of None \<Rightarrow> True | Some g \<Rightarrow> g_braa g \<noteq> None)"
| "composable (DeclareResponse r) \<longleftrightarrow>
     report_Sour r \<or> report_Declaration r \<in> {Furball, Unable, Clean} \<or> report_Group r \<noteq> None"
| "composable (SnaplockResponse callsign declaration g) \<longleftrightarrow> (declaration \<in> {Hostile, Friendly} \<longrightarrow> g \<noteq> None)"
| "composable (SpikedResponseV2 callsign bearing status g) \<longleftrightarrow> (status \<longrightarrow> (case g of None \<Rightarrow> False | Some g \<Rightarrow> g_braa g \<noteq> None))"
| "composable (StrobeResponse callsign bearing status g) \<longleftrightarrow> (status \<longrightarrow> (case g of None \<Rightarrow> False | Some g \<Rightarrow> g_braa g \<noteq> None))"
| "composable (VectorResponse r) \<longleftrightarrow> (vector_Contact r \<and> vector_Status r \<longrightarrow> vector_BRA r \<noteq> None \<or> vector_Vector r \<noteq> None)"
| "composable _ \<longleftrightarrow> True"

lemma dropWhile_zeros_dot:
  assumes "list_all IsDigit ds"
  shows "\<exists>ds'. list_all IsDigit ds' \<and> length ds' \<le> length ds \<and>
    rev (dropWhile (\<lambda>c. c = CHR ''0'') (rev (a @ ''.'' @ ds))) = a @ ''.'' @ ds'"
  using assms
proof (induction ds rule: rev_induct)
  case Nil
  then show ?case by (intro exI [of _ "[]"]) simp
next
  case (snoc d ds)
  show ?case
  proof (cases "d = CHR ''0''")
    case True
    moreover have "list_all IsDigit ds" using snoc.prems by simp
    ultimately obtain ds' where "list_all IsDigit ds'" "length ds' \<le> length ds"
        "rev (dropWhile (\<lambda>c. c = CHR ''0'') (rev (a @ ''.'' @ ds))) = a @ ''.'' @ ds'"
      using snoc.IH by blast
    then show ?thesis using True by (intro exI [of _ ds']) simp
  next
    case False
    then show ?thesis using snoc.prems by (intro exI [of _ "ds @ [d]"]) simp
  qed
qed

lemma Index_no_dot: "list_all (\<lambda>c. c \<noteq> CHR ''.'') ds \<Longrightarrow> Index (ds @ ''.'' @ s) ''.'' = Some (length ds)"
  by (induction ds) (auto simp: HasPrefix_def)

lemma digit_no_dot: "IsDigit c \<Longrightarrow> c \<noteq> CHR ''.''" "\<not> IsDigit (CHR ''.'')"
  by (auto simp: IsDigit_def code_of_def)

text \<open>A number with places after the point, in general.\<close>

lemma length_Itoa_bound: "m < 10 ^ p \<Longrightarrow> 0 < p \<Longrightarrow> length (Itoa_nat m) \<le> p"
proof (induction m arbitrary: p rule: Itoa_nat.induct)
  case (1 m)
  show ?case
  proof (cases "m < 10")
    case True
    then show ?thesis using 1(3) by (simp add: length_Itoa_nat)
  next
    case False
    obtain q where "p = Suc q" using 1(3) by (cases p) auto
    moreover from this have "0 < q" using False 1(2) by (cases q) auto
    ultimately have q: "p = Suc q" "0 < q" by simp_all
    then have "m div 10 < 10 ^ q" using 1(2) by (simp add: less_mult_imp_div_less mult.commute)
    then show ?thesis using 1(1) [OF False] q False by (simp add: length_Itoa_nat [of m])
  qed
qed

lemma zero_padded_length: "m < 10 ^ p \<Longrightarrow> 0 < p \<Longrightarrow> length (zero_padded p m) = p"
  using length_Itoa_bound [of m p] by (simp add: zero_padded_def)

lemma format_fixed_shape:
  assumes "0 < p"
  shows "\<exists>a ds. format_fixed p f = a @ ''.'' @ ds \<and> list_all (\<lambda>c. c \<noteq> CHR ''.'') a \<and> list_all IsDigit ds \<and> length ds = p"
proof -
  let ?n = "nat (round_even (\<bar>f\<bar> * 10 ^ p))"
  have "list_all (\<lambda>c. c \<noteq> CHR ''.'') ((if f < 0 then ''-'' else []) @ Itoa_nat (?n div 10 ^ p))"
    using Itoa_nat_digits [of "?n div 10 ^ p"] digit_no_dot by (auto simp: list_all_iff)
  moreover have "list_all IsDigit (zero_padded p (?n mod 10 ^ p))" "length (zero_padded p (?n mod 10 ^ p)) = p"
    using zero_padded_digits [of p "?n mod 10 ^ p"] zero_padded_length [of "?n mod 10 ^ p" p] assms by simp_all
  moreover have "format_fixed p f = ((if f < 0 then ''-'' else []) @ Itoa_nat (?n div 10 ^ p)) @ ''.'' @ zero_padded p (?n mod 10 ^ p)"
    using assms by (simp add: format_fixed_def Let_def)
  ultimately show ?thesis by blast
qed

lemma decimal_value_bound: "list_all IsDigit ds \<Longrightarrow> decimal_value ds < 10 ^ length ds"
proof (induction ds rule: rev_induct)
  case (snoc d ds)
  have "digit_value d < 10" using snoc.prems by (auto simp: IsDigit_def digit_value_def)
  then show ?case using snoc by (simp add: decimal_value_def)
qed (simp add: decimal_value_def)

lemma pronounceDecimal_total:
  assumes "0 < p" "p \<le> 3"
  shows "pronounceDecimal f p s \<noteq> None"
proof -
  let ?x = "f - of_int (go_trunc f)"
  obtain a ds where f: "format_fixed p ?x = a @ ''.'' @ ds" "list_all (\<lambda>c. c \<noteq> CHR ''.'') a" "list_all IsDigit ds" "length ds = p"
    using format_fixed_shape [OF assms(1), of ?x] by blast
  have "Index (a @ ''.'' @ ds) ''.'' = Some (length a)" by (rule Index_no_dot [OF f(2)])
  then have c: "fst (snd (Cut (format_fixed p ?x) ''.'')) = ds" by (simp add: f(1) Cut_def)
  have "decimal_value ds < 10 ^ 3"
    using decimal_value_bound [OF f(3)] f(4) assms(2) power_increasing [of p 3 "10 :: nat"] by simp
  then have "Atoi ds \<noteq> None" using Atoi_digits [OF f(3)] f(4) assms(1) by auto
  moreover have "ds \<noteq> []" using f(4) assms(1) by auto
  ultimately show ?thesis by (auto simp: pronounceDecimal_def c Let_def split: option.splits)
qed

lemma frequency_decimal_split:
  "\<exists>a b. Split (frequency_decimal mhz) ''.'' = [a, b] \<and> 0 < length b \<and> length b \<le> 3"
proof -
  obtain a ds where f: "format_fixed 3 mhz = a @ ''.'' @ ds" "list_all (\<lambda>c. c \<noteq> CHR ''.'') a" "list_all IsDigit ds" "length ds = 3"
    using format_fixed_shape [of 3 mhz] by auto
  obtain ds' where d: "list_all IsDigit ds'" "length ds' \<le> 3"
      "rev (dropWhile (\<lambda>c. c = CHR ''0'') (rev (a @ ''.'' @ ds))) = a @ ''.'' @ ds'"
    using dropWhile_zeros_dot [OF f(3), of a] f(4) by auto
  let ?b = "if ds' = [] then ''0'' else ds'"
  have "HasSuffix (a @ ''.'' @ ds') ''.'' \<longleftrightarrow> ds' = []"
    using d(1) digit_no_dot by (cases ds' rule: rev_cases) (auto simp: HasSuffix_def)
  then have e: "frequency_decimal mhz = a @ ''.'' @ ?b"
    unfolding frequency_decimal_def f(1) d(3) by (simp add: Let_def)
  have b: "list_all (\<lambda>c. c \<noteq> CHR ''.'') ?b" using d(1) digit_no_dot by (auto simp: list_all_iff)
  have "Split (a @ CHR ''.'' # ?b) ''.'' = [a, ?b]"
    using Index_no_dot [OF f(2), of ?b] Index_absent [OF b]
    by (simp add: Split.simps [of "a @ CHR ''.'' # ?b" "''.''"] Split.simps [of ?b "''.''"])
  then show ?thesis using d(2) e by (intro exI [of _ a] exI [of _ ?b]) (auto simp: Suc_le_eq)
qed

lemma sunrise_total: "sunrise_frequencies fs message \<noteq> None"
proof (induction fs arbitrary: message)
  case (Cons f fs)
  obtain a b where s: "Split (frequency_decimal (Megahertz f)) ''.'' = [a, b]" "0 < length b" "length b \<le> 3"
    using frequency_decimal_split by blast
  obtain spoken where "pronounceDecimal (Megahertz f) (length b) ''point'' = Some spoken"
    using pronounceDecimal_total [OF s(2, 3)] by blast
  then show ?case using Cons.IH by (simp add: s(1) Let_def)
qed simp

lemma composeCall_total: "composable call \<Longrightarrow> composeCall L own i j call \<noteq> None"
  by (cases call)
    (auto simp: ComposeAlphaCheckResponse_def ComposeBogeyDopeResponse_def ComposeDeclareResponse_def
      ComposeSnaplockResponse_def ComposeSpikedResponse_def ComposeStrobeResponse_def composeCorrelation_def
      ComposeVectorResponse_def ComposeSunriseCall_def sunrise_total Let_def split: option.splits Declaration.splits)

section \<open>Every request is answered\<close>

text \<open>A DECLARE in the BRAA format has its bearing. The parser only makes such requests.\<close>

definition declare_ok :: "DeclareRequest \<Rightarrow> bool" where
  "declare_ok req \<longleftrightarrow> (\<not> declare_Sour req \<and> IsBRAA req \<longrightarrow> declare_Bearing req \<noteq> None)"

fun request_ok :: "Request \<Rightarrow> bool" where
  "request_ok (Declare req) \<longleftrightarrow> declare_ok req"
| "request_ok _ \<longleftrightarrow> True"

fun caller :: "Request \<Rightarrow> string" where
  "caller (Declare req) = declare_Callsign req"
| "caller r = request_Callsign r"

lemma declare_loop_ok: "declare_loop lib callsign s = Some req \<Longrightarrow> declare_ok req \<and> declare_Callsign req = callsign"
proof (induction lib callsign s rule: declare_loop.induct)
  case (1 lib callsign s)
  note IH = 1(1) [OF _ refl]
  from 1(2) show ?case
    unfolding declare_loop.simps [of lib callsign s] Let_def
    by (auto dest: IH simp: parseDeclareAsBRAA_def parseDeclareAsBullseye_def declare_ok_def
        split: if_splits prod.splits bool.splits option.splits)
qed

lemma parseDeclare_ok: "parseDeclare lib callsign s = Some req \<Longrightarrow> declare_ok req \<and> declare_Callsign req = callsign"
  by (auto simp: parseDeclare_def sour_declare_def declare_ok_def dest: declare_loop_ok split: if_splits)

lemma request_cases_ok:
  "parseBogeyDope order callsign s = r \<Longrightarrow> request_ok r"
  "parseSpiked lib callsign s = Some r \<Longrightarrow> request_ok r"
  "parseStrobe lib callsign s = Some r \<Longrightarrow> request_ok r"
  "parseSnaplock lib callsign s = Some r \<Longrightarrow> request_ok r"
  "parseVector lib locations callsign s = Some r \<Longrightarrow> request_ok r"
  by (auto simp: parseBogeyDope_def parseSpiked_def parseStrobe_def parseSnaplock_def parseVector_def Let_def
    split: prod.splits bool.splits option.splits)

lemma parseRequestWithArgs_ok: "request_ok (parseRequestWithArgs lib order p w callsign args)"
  using request_cases_ok parseDeclare_ok
  by (fastforce simp: parseRequestWithArgs_def Let_def split: option.splits if_splits)

lemma pilot_request_ok: "request_ok (pilot_request lib order p tx w args rest)"
  using parseRequestWithArgs_ok
  by (auto simp: pilot_request_def handleNoRequestWord_def Let_def split: prod.splits bool.splits option.splits)

lemma parsed_request_ok: "Parse lib rs order p tx = Some r \<Longrightarrow> request_ok r"
  using pilot_request_ok by (auto simp: Parse_def Let_def split: if_splits option.splits prod.splits)

lemma nearest_braa: "FindNearestGroupWithBRAA L r pt lo hi radius coalition category = Some g \<Longrightarrow> g_braa g \<noteq> None"
  by (auto simp: FindNearestGroupWithBRAA_def Let_def split: option.splits if_splits)

lemma sector_braa: "FindNearestGroupInSector L r pt lo hi len b arc coalition category = Some g \<Longrightarrow> g_braa g \<noteq> None"
  by (auto simp: FindNearestGroupInSector_def Let_def split: option.splits)

lemma fillInMergeDetails_braa [simp]: "g_braa (fillInMergeDetails c g) = g_braa g"
  by (simp add: fillInMergeDetails_def Let_def)

text \<open>The one to whom a call is addressed.\<close>

fun addressee :: "Call \<Rightarrow> string option" where
  "addressee (AlphaCheckResponse callsign _ _) = Some callsign"
| "addressee (NegativeRadarContactResponse callsign) = Some callsign"
| "addressee (BogeyDopeResponse callsign _) = Some callsign"
| "addressee (CheckInResponse callsign) = Some callsign"
| "addressee (DeclareResponse r) = Some (report_Callsign r)"
| "addressee (RadioCheckResponse callsign _) = Some callsign"
| "addressee (ShoppingResponse callsign) = Some callsign"
| "addressee (SnaplockResponse callsign _ _) = Some callsign"
| "addressee (SpikedResponseV2 callsign _ _ _) = Some callsign"
| "addressee (StrobeResponse callsign _ _ _) = Some callsign"
| "addressee (TripwireResponse callsign) = Some callsign"
| "addressee (VectorResponse r) = Some (vector_Callsign r)"
| "addressee (SayAgainResponse callsign) = Some callsign"
| "addressee _ = None"

text \<open>The names under which a pilot can be answered: the callsign as it was heard, the one of the contact
  that was found for it, and, when the request was not understood, "last caller".\<close>

definition answers_to :: "control_lib \<Rightarrow> Controller \<Rightarrow> Request \<Rightarrow> string set" where
  "answers_to C c r =
     {who. who = caller r \<or>
       (\<exists>t. FindCallsign (lib_fuzzy (ctl_radar C)) (caller r) (c_coalition c) (db (scope c)) = (who, Some t)) \<or>
       (who = LastCaller \<and> (\<exists>callsign. r = UnableToUnderstandRequest callsign))}"

lemma located_found:
  "located C c callsign = Some (who, t) \<Longrightarrow>
   FindCallsign (lib_fuzzy (ctl_radar C)) callsign (c_coalition c) (db (scope c)) = (who, Some t)"
  by (auto simp: located_def findCallsign_def split: prod.splits option.splits if_splits)

definition answered :: "control_lib \<Rightarrow> Controller \<Rightarrow> Request \<Rightarrow> Call list \<Rightarrow> bool" where
  "answered C c r calls \<longleftrightarrow>
     (\<exists>call. calls = [call] \<and> composable call \<and> (\<exists>who \<in> answers_to C c r. addressee call = Some who))"

lemma answered_known:
  "located C c (caller r) = Some (who, t) \<Longrightarrow> composable call \<Longrightarrow> addressee call = Some who \<Longrightarrow> answered C c r [call]"
  using located_found by (fastforce simp: answered_def answers_to_def)

lemma answered_unknown:
  "composable call \<Longrightarrow> addressee call = Some (caller r) \<Longrightarrow> answered C c r [call]"
  by (auto simp: answered_def answers_to_def)

lemmas answered_intros = answered_known answered_unknown

lemma answered_simple:
  "answered C c (AlphaCheckRequest callsign) (HandleAlphaCheck C c callsign)"
  "answered C c (CheckInRequest callsign) (HandleCheckIn C c callsign)"
  "answered C c (RadioCheckRequest callsign) (HandleRadioCheck C c callsign)"
  "answered C c (ShoppingRequest callsign) (HandleShopping C c callsign)"
  "answered C c (TripwireRequest callsign) (HandleTripwire C c callsign)"
  by (auto simp: HandleAlphaCheck_def HandleCheckIn_def HandleRadioCheck_def HandleShopping_def HandleTripwire_def Let_def
    intro: answered_intros split: option.split)

lemma answered_unable: "answered C c (UnableToUnderstandRequest callsign) (HandleUnableToUnderstand C c callsign)"
  by (auto simp: HandleUnableToUnderstand_def answered_def answers_to_def split: prod.splits option.split)

lemma answered_bogeydope: "answered C c (BogeyDopeRequest callsign category) (HandleBogeyDope C c callsign category)"
proof (cases "located C c callsign")
  case None
  then show ?thesis by (simp add: HandleBogeyDope_def answered_unknown)
next
  case (Some wt)
  obtain who t where wt: "wt = (who, t)" by fastforce
  have l: "located C c (caller (BogeyDopeRequest callsign category)) = Some (who, t)" using Some wt by simp
  show ?thesis
    using answered_known [OF l] Some by (auto simp: HandleBogeyDope_def wt dest: nearest_braa split: option.split)
qed

lemma answered_declare:
  assumes "declare_ok req"
  shows "\<exists>calls. HandleDeclare C c req = Some calls \<and> answered C c (Declare req) calls"
proof (cases "located C c (declare_Callsign req)")
  case None
  then show ?thesis by (simp add: HandleDeclare_def answered_unknown)
next
  case (Some wt)
  obtain who t where wt: "wt = (who, t)" by fastforce
  have l: "located C c (caller (Declare req)) = Some (who, t)" using Some wt by simp
  note k = answered_known [OF l]
  have g: "declaration_of fs hs \<in> {Furball, Unable, Clean} \<or> declare_group fs hs \<noteq> None" for fs hs
    by (auto simp: declaration_of_def declare_group_def)
  show ?thesis
  proof (cases "declare_Sour req")
    case True
    then show ?thesis using Some k by (simp add: HandleDeclare_def wt)
  next
    case False
    show ?thesis
    proof (cases "declare_point C c t req")
      case (Inl panic)
      then have "\<not> panic" using assms False by (auto simp: declare_point_def declare_ok_def Let_def split: if_splits option.splits)
      then show ?thesis using Some k False Inl by (simp add: HandleDeclare_def wt)
    next
      case (Inr p)
      then show ?thesis using Some k False g by (auto simp: HandleDeclare_def wt Let_def)
    qed
  qed
qed

lemma answered_snaplock: "answered C c (SnaplockRequest callsign bra) (HandleSnaplock C c callsign bra)"
proof (cases "located C c callsign")
  case None
  then show ?thesis by (simp add: HandleSnaplock_def answered_unknown)
next
  case (Some wt)
  obtain who t where wt: "wt = (who, t)" by fastforce
  have l: "located C c (caller (SnaplockRequest callsign bra)) = Some (who, t)" using Some wt by simp
  have "declaration_of fs hs \<in> {Hostile, Friendly} \<Longrightarrow> snaplock_group fs hs \<noteq> None" for fs hs
    by (auto simp: snaplock_group_def split: option.split)
  then show ?thesis using answered_known [OF l] Some by (auto simp: HandleSnaplock_def wt Let_def)
qed

lemma correlated:
  assumes "corr_Callsign (correlate C c callsign bearing) \<noteq> []"
  shows "\<exists>t. located C c callsign = Some (corr_Callsign (correlate C c callsign bearing), t)"
    and "corr_Group (correlate C c callsign bearing) = Some g \<Longrightarrow> g_braa g \<noteq> None"
  using assms by (auto simp: correlate_def Let_def dest!: sector_braa split: option.splits)

lemma answered_correlation:
  "answered C c (SpikedRequest callsign bearing) (HandleSpiked C c callsign bearing)"
  "answered C c (StrobeRequest callsign bearing) (HandleStrobe C c callsign bearing)"
proof -
  let ?corr = "correlate C c callsign bearing"
  have "answered C c (SpikedRequest callsign bearing) (HandleSpiked C c callsign bearing) \<and>
      answered C c (StrobeRequest callsign bearing) (HandleStrobe C c callsign bearing)"
  proof (cases "corr_Callsign ?corr = []")
    case True
    then show ?thesis by (simp add: HandleSpiked_def HandleStrobe_def answered_unknown)
  next
    case False
    from correlated(1) [OF this] obtain t where "located C c callsign = Some (corr_Callsign ?corr, t)" ..
    then have k: "composable call \<Longrightarrow> addressee call = Some (corr_Callsign ?corr) \<Longrightarrow> caller r = callsign \<Longrightarrow>
        answered C c r [call]" for r call
      using answered_known by blast
    have "corr_Group ?corr \<noteq> None \<Longrightarrow> (case corr_Group ?corr of None \<Rightarrow> False | Some g \<Rightarrow> g_braa g \<noteq> None)"
      using correlated(2) [OF False] by (auto split: option.split)
    then show ?thesis using False by (simp add: HandleSpiked_def HandleStrobe_def Let_def k)
  qed
  then show "answered C c (SpikedRequest callsign bearing) (HandleSpiked C c callsign bearing)"
    "answered C c (StrobeRequest callsign bearing) (HandleStrobe C c callsign bearing)" by simp_all
qed

lemma answered_vector: "answered C c (VectorRequest callsign location) (HandleVector C c callsign location)"
proof (cases "located C c callsign")
  case None
  then show ?thesis by (simp add: HandleVector_def answered_unknown)
next
  case (Some wt)
  obtain who t where wt: "wt = (who, t)" by fastforce
  have l: "located C c (caller (VectorRequest callsign location)) = Some (who, t)" using Some wt by simp
  show ?thesis
    using answered_known [OF l] Some
    by (auto simp: HandleVector_def handleTankerVector_def wt Let_def split: option.split)
qed

lemma answered_handle:
  assumes "request_ok r" "\<nexists>callsign. r = PictureRequest callsign"
  shows "\<exists>calls. handle C now r c = Some (c, calls) \<and> answered C c r calls"
  using assms answered_declare
  by (cases r) (auto simp: answered_simple answered_unable answered_bogeydope answered_snaplock answered_correlation answered_vector)

lemma handle_one:
  assumes "request_ok r"
  shows "\<exists>c' call. handle C now r c = Some (c', [call]) \<and> composable call"
proof (cases "\<exists>callsign. r = PictureRequest callsign")
  case True
  then show ?thesis by (auto simp: HandlePicture_def broadcastPicture_def Let_def prod.case_eq_if)
next
  case False
  then show ?thesis using answered_handle [OF assms, of C now c] by (auto simp: answered_def)
qed

text \<open>C1. Whatever the parser makes of a text, its request is answered: the handler does not panic and sends
  exactly one call, which can be composed. A PICTURE is answered to everybody and only restarts the
  clock of the automatic pictures. Any other answer is addressed to the pilot, by the callsign that
  was heard or that of the contact found for it, and leaves the controller as it was.\<close>

theorem request_answered:
  assumes "Parse lib rs order p tx = Some r"
  shows "\<exists>c' call. handle C now r c = Some (c', [call]) \<and> composeCall L own i j call \<noteq> None \<and>
    (if \<exists>callsign. r = PictureRequest callsign
     then (\<exists>n groups. call = PictureResponse n groups) \<and>
       c' = c\<lparr>pictureBroadcastDeadline := now + pictureBroadcastInterval c, wasLastPictureClean := wasLastPictureClean c'\<rparr>
     else c' = c \<and> (\<exists>who \<in> answers_to C c r. addressee call = Some who))"
proof (cases "\<exists>callsign. r = PictureRequest callsign")
  case True
  then show ?thesis
    by (auto simp: HandlePicture_def broadcastPicture_def Let_def prod.case_eq_if)
next
  case False
  from answered_handle [OF parsed_request_ok [OF assms], of C now c] False
  obtain calls where "handle C now r c = Some (c, calls)" "answered C c r calls" by blast
  then show ?thesis using False composeCall_total [of _ L own i j] by (auto simp: answered_def)
qed

theorem request_answered_witness:
  "\<exists>c' call. handle demo_control_lib 0 (PictureRequest ''eagle 1 1'') demo_controller = Some (c', [call]) \<and>
     composeCall demo_radar_lib ''anyface'' 0 0 call \<noteq> None"
  using request_answered [OF demo_parse, of demo_control_lib 0 demo_controller demo_radar_lib "''anyface''" 0 0] by blast

section \<open>Every call can be composed\<close>

lemma handle_event_composable: "call \<in> set (snd (handle_event C e c)) \<Longrightarrow> composable call"
  by (cases e) (auto simp: ctl_handleFaded_def Let_def split: if_splits)

lemma step_composable:
  assumes "control_step C now c e calls c'" "call \<in> set calls"
  shows "composable call"
  using assms
proof (cases rule: control_step.cases)
  case (radar events r')
  then have "call \<in> set (snd (run_each (handle_event C) events (c\<lparr>scope := r'\<rparr>)))" using assms(2) by simp
  from run_each_sent [OF this] show ?thesis using handle_event_composable by blast
qed (use assms(2) in \<open>auto simp: broadcastMerge_def broadcastThreat_def broadcastAutomaticPicture_def HandlePicture_def
    broadcastPicture_def Let_def prod.case_eq_if split: if_splits\<close>)

text \<open>Nothing the controller broadcasts by itself makes the composer dereference a missing group, bearing
  or location: it can compose every call of every step, and the sunrise call.\<close>

theorem broadcasts_compose:
  assumes "control_step C now c e calls c'"
  shows "\<forall>call \<in> set calls \<union> set (broadcastSunrise c). composeCall L own i j call \<noteq> None"
proof
  fix call assume "call \<in> set calls \<union> set (broadcastSunrise c)"
  then have "composable call" using step_composable [OF assms] by (auto simp: broadcastSunrise_def)
  then show "composeCall L own i j call \<noteq> None" by (rule composeCall_total)
qed

theorem broadcasts_compose_witness:
  "\<exists>calls c'. control_step demo_control_lib 0 demo_controller Tick calls c' \<and>
     (\<forall>call \<in> set calls. composeCall demo_radar_lib ''anyface'' 0 0 call \<noteq> None)"
proof -
  obtain c' calls where "HandlePicture demo_control_lib 0 demo_controller = (c', calls)" by fastforce
  then have s: "control_step demo_control_lib 0 demo_controller Tick calls c'" by (rule control_step.request)
  then show ?thesis using broadcasts_compose [OF s, of demo_radar_lib "''anyface''" 0 0] by blast
qed

section \<open>A DECLARE says what is there\<close>

text \<open>The contacts of a coalition in the place a DECLARE asks about, other than the caller.\<close>

definition declared :: "control_lib \<Rightarrow> Controller \<Rightarrow> Trackfile \<Rightarrow> DeclareRequest \<Rightarrow> point \<Rightarrow> Coalition \<Rightarrow> Trackfile \<Rightarrow> bool" where
  "declared C c t req p coalition u \<longleftrightarrow>
     u \<in> set (scope_values (ctl_radar C) (scope c) []) \<and> tf_ID u \<noteq> tf_ID t \<and>
     nearby_match (ctl_radar C) p (fst (declare_block (ctl_units C) (declare_Altitude req)))
       (Some (snd (declare_block (ctl_units C) (declare_Altitude req)))) (7 * NauticalMile (ctl_units C))
       coalition ContactCategory.Aircraft u"

lemma declare_groups_eq:
  "declare_groups C c t req p coalition =
     findNearbyGroups (ctl_radar C) (scope c) p (fst (declare_block (ctl_units C) (declare_Altitude req)))
       (Some (snd (declare_block (ctl_units C) (declare_Altitude req)))) (7 * NauticalMile (ctl_units C))
       coalition ContactCategory.Aircraft [tf_ID t]"
  by (simp add: declare_groups_def FindNearbyGroupsWithBullseye_def prod.case_eq_if)

lemma declare_groups_found:
  "g \<in> set (declare_groups C c t req p coalition) \<Longrightarrow>
     \<exists>u. declared C c t req p coalition u \<and> g = findGroupForAircraft (ctl_radar C) (scope c) u"
  "declare_groups C c t req p coalition \<noteq> [] \<longleftrightarrow> (\<exists>u. declared C c t req p coalition u)"
proof -
  show *: "g \<in> set (declare_groups C c t req p coalition) \<Longrightarrow>
     \<exists>u. declared C c t req p coalition u \<and> g = findGroupForAircraft (ctl_radar C) (scope c) u" for g
    unfolding declare_groups_eq declared_def using nearby_found(1) by fastforce
  show "declare_groups C c t req p coalition \<noteq> [] \<longleftrightarrow> (\<exists>u. declared C c t req p coalition u)"
  proof
    assume "declare_groups C c t req p coalition \<noteq> []"
    then show "\<exists>u. declared C c t req p coalition u" using * [of "hd (declare_groups C c t req p coalition)"] by auto
  next
    assume "\<exists>u. declared C c t req p coalition u"
    then obtain u where u: "declared C c t req p coalition u" ..
    then have "tf_ID u \<notin> set [tf_ID t]" by (simp add: declared_def)
    then show "declare_groups C c t req p coalition \<noteq> []"
      using nearby_found(2) u unfolding declare_groups_eq declared_def by (metis empty_iff list.set(1))
  qed
qed

text \<open>C9. The answer to a DECLARE that can be located: FURBALL when both a friendly and a hostile are in the
  place, FRIENDLY or HOSTILE when only one of them is, CLEAN when none is. The group of the answer is
  the group of a contact of that side in the place, and it is missing only with CLEAN or with a
  FURBALL of several hostile groups.\<close>

theorem declare_says_what_is_there:
  assumes "located C c (declare_Callsign req) = Some (who, t)" and "\<not> declare_Sour req"
    and "declare_point C c t req = Inr p"
  shows "\<exists>report. HandleDeclare C c req = Some [DeclareResponse report] \<and> report_Callsign report = who \<and>
    report_Declaration report =
      (let friend = (\<exists>u. declared C c t req p (c_coalition c) u);
           foe = (\<exists>u. declared C c t req p (Opposite (c_coalition c)) u)
       in if friend \<and> foe then Furball else if friend then Friendly else if foe then Hostile else Clean) \<and>
    (\<forall>g. report_Group report = Some g \<longrightarrow>
      (\<exists>u. declared C c t req p (if report_Declaration report = Friendly then c_coalition c else Opposite (c_coalition c)) u \<and>
        ObjectIDs g = ObjectIDs (findGroupForAircraft (ctl_radar C) (scope c) u))) \<and>
    (report_Group report = None \<longrightarrow> report_Declaration report \<in> {Clean, Furball})"
proof -
  let ?fs = "declare_groups C c t req p (c_coalition c)" and ?hs = "declare_groups C c t req p (Opposite (c_coalition c))"
  let ?d = "declaration_of ?fs ?hs"
  have d: "?d = (let friend = (\<exists>u. declared C c t req p (c_coalition c) u);
           foe = (\<exists>u. declared C c t req p (Opposite (c_coalition c)) u)
       in if friend \<and> foe then Furball else if friend then Friendly else if foe then Hostile else Clean)"
    unfolding declare_groups_found(2) [symmetric] by (auto simp: declaration_of_def)
  have g: "\<exists>u. declared C c t req p (if ?d = Friendly then c_coalition c else Opposite (c_coalition c)) u \<and>
      g = findGroupForAircraft (ctl_radar C) (scope c) u" if "declare_group ?fs ?hs = Some g" for g
  proof -
    have "g \<in> set (if ?d = Friendly then ?fs else ?hs)"
      using that by (auto simp: declare_group_def declaration_of_def split: if_splits)
    then show ?thesis using declare_groups_found(1) by (cases "?d = Friendly") simp_all
  qed
  have ids: "ObjectIDs (fillInMergeDetails c g) = ObjectIDs g" "ObjectIDs (g\<lparr>g_declaration := x\<rparr>) = ObjectIDs g" for g x
    by (simp_all add: fillInMergeDetails_def ObjectIDs_def g_contacts_def Let_def)
  have n: "declare_group ?fs ?hs = None \<Longrightarrow> ?d \<in> {Clean, Furball}"
    by (auto simp: declare_group_def declaration_of_def split: if_splits)
  show ?thesis
    using assms g n unfolding d [symmetric] by (auto simp: HandleDeclare_def Let_def ids dest: g)
qed

definition declare_scope :: Radar where
  "declare_scope = demo_fight\<lparr>db := (db demo_fight)\<lparr>callsignIdx := [(Blue, [(''Hitman 1-1'', 8)]), (Red, []), (Neutrals, [])]\<rparr>\<rparr>"

definition declare_controller :: Controller where
  "declare_controller = demo_controller\<lparr>scope := declare_scope\<rparr>"

definition demo_declare :: DeclareRequest where
  "demo_declare = \<lparr>declare_Callsign = ''hitman 1 1'', declare_Sour = False, IsBRAA = True, IsAmbiguous = False,
     declare_Bullseye = None, declare_Bearing = Some (NewMagneticBearing 180), declare_Range = 0, declare_Altitude = 0,
     declare_Track = UnknownDirection\<rparr>"

lemma declare_scope_values: "scope_values demo_radar_lib declare_scope [] = [demo_pilot, demo_bandit]"
  by (simp add: scope_values_def db_values_def declare_scope_def demo_fight_def demo_radar_def demo_pair_def
    demo_radar_lib_def)

lemma demo_located: "located demo_control_lib declare_controller ''hitman 1 1'' = Some (''hitman 1 1'', demo_pilot)"
proof -
  have k: "index_key ''Hitman 1-1'' = ''hitman 1 1''" by code_simp
  show ?thesis
    using demo_fight_contacts
    by (simp add: located_def findCallsign_def FindCallsign_def getByCallsignAndCoalititon_def declare_controller_def
      declare_scope_def coalition_index_def normalized_index_def k demo_fight_def demo_radar_def demo_pair_def)
qed

lemma demo_declared:
  "declared demo_control_lib declare_controller demo_pilot demo_declare p coalition u \<longleftrightarrow> u = demo_bandit \<and> coalition = Red"
proof -
  have a: "frame_Altitude (LastKnown demo_bandit) = 3000" by (simp add: demo_bandit_def demo_frame_def)
  have b: "lib_Bound demo_radar_lib c x q" for c x q by (simp add: demo_radar_lib_def)
  have h: "highestAltitude si_units = 30480"
    by (simp add: highestAltitude_def si_units_def)
  have "scope declare_controller = declare_scope" by (simp add: declare_controller_def)
  then show ?thesis
    using demo_fight_contacts
    by (auto simp: declared_def declare_scope_values nearby_match_def isMatch_def declare_block_def
      demo_declare_def lowestAltitude_def h a b)
qed

theorem declare_says_what_is_there_witness:
  "\<exists>report. HandleDeclare demo_control_lib declare_controller demo_declare = Some [DeclareResponse report] \<and>
     report_Declaration report = Hostile"
proof -
  have l: "located demo_control_lib declare_controller (declare_Callsign demo_declare) = Some (''hitman 1 1'', demo_pilot)"
    using demo_located by (simp add: demo_declare_def)
  have s: "\<not> declare_Sour demo_declare" by (simp add: demo_declare_def)
  obtain p where p: "declare_point demo_control_lib declare_controller demo_pilot demo_declare = Inr p"
    by (simp add: declare_point_def demo_declare_def Let_def)
  have "c_coalition declare_controller = Blue" by (simp add: declare_controller_def)
  then show ?thesis
    using declare_says_what_is_there [OF l s p] by (auto simp: demo_declared Opposite_def)
qed

section \<open>Threats are for those who listen\<close>

lemma collect_client: "collectFadedGroups L now fades r groups = (r', groups') \<Longrightarrow> srsClient r' = srsClient r"
  using collectFadedGroups_state by fastforce

lemma radar_step_client:
  assumes "radar_step L now r events r'"
  shows "srsClient r' = srsClient r"
  using assms
proof (cases rule: radar_step.cases)
  case ticked
  then show ?thesis
    by (auto simp: fade_tick_def handleFaded_def Let_def dest: collect_client split: if_splits prod.splits)
qed (auto simp: handleStarted_def handleUpdate_def receive_fade_def handleGarbageCollection_def
      collect_step_def updateCenterPoint_def SetMissionTime_def SetBullseye_def Let_def split: option.splits if_splits prod.splits)

lemma ctl_removes_scope: "scope (fold ctl_remove xs c) = scope c" "enableThreatMonitoring (fold ctl_remove xs c) = enableThreatMonitoring c"
  by (induction xs arbitrary: c) (simp_all add: ctl_remove_def)

lemma handle_event_scope: "scope (fst (handle_event C e c)) = scope c"
  by (cases e) (simp_all add: ctl_handleStarted_def ctl_handleFaded_def ctl_handleRemoved_def ctl_removes_scope
    ctl_remove_def Let_def)

lemma control_step_client:
  assumes "control_step C now c e calls c'"
  shows "srsClient (scope c') = srsClient (scope c)"
  using assms
proof (cases rule: control_step.cases)
  case (radar events r')
  have "scope (fst (run_each (handle_event C) events (c\<lparr>scope := r'\<rparr>))) = r'"
    by (rule run_each_induct [where P = "\<lambda>c. scope c = r'"]) (simp_all add: handle_event_scope)
  then show ?thesis using radar radar_step_client [OF radar(2)] by simp
qed (auto simp: broadcastMerge_def broadcastThreat_def HandlePicture_def Let_def prod.case_eq_if
      dest: picture_keeps automatic_picture_keeps split: if_splits)

text \<open>When threat calls are not restricted to pilots on frequency, no threat call is ever sent: the
  radar then has no SRS client, and without one it finds no receivers, against the comment in
  \<open>NewApplication\<close> that it treats every friendly as a receiver. This is so at every later time.\<close>

theorem threats_need_srs:
  assumes "\<not> conf_ThreatMonitoringRequiresSRS config" and "NewApplication env config lut = Inr (a, lut')"
    and "control_run C (app_controller a) steps c"
  shows "broadcastThreats C now c = (c, [])"
proof -
  have "srsClient (scope (app_controller a)) = None"
    using assms(1) NewApplication_parts(1) [OF assms(2)] by simp
  with assms(3) have "srsClient (scope c) = None"
    by (induction rule: control_run.induct) (simp_all add: control_step_client)
  then have "scope c = (scope c)\<lparr>srsClient := None\<rparr>" by simp
  then have "Threats (ctl_radar C) (scope c) x = []" for x using no_client_no_threats by metis
  then show ?thesis by (simp add: broadcastThreats_def permute_def)
qed

definition demo_configuration :: Configuration where
  "demo_configuration = \<lparr>conf_ACMIFile = [], conf_TelemetryAddress = ''localhost:42674'',
     conf_TelemetryConnectionTimeout = 10 * second, conf_TelemetryPassword = [], conf_SRSClientName = ''GCI Sky Eye [BOT]'',
     conf_SRSExternalAWACSModePassword = [], conf_SRSFrequencies = [(251000000, ModulationAM)], conf_EnableGRPC = False,
     conf_EnableTranscriptionLogging = False, conf_Callsign = ''Sky Eye'', conf_Coalition = Blue,
     conf_RadarSweepInterval = 2 * second, conf_Recognizer = WhisperLocal, conf_OpenAIAPIKey = [], conf_Mute = False,
     conf_Volume = 1 / 2, conf_EnableAutomaticPicture = True, conf_PictureBroadcastInterval = 120 * second,
     conf_EnableThreatMonitoring = True, conf_ThreatMonitoringInterval = 180 * second,
     conf_MandatoryThreatRadius = 46300, conf_ThreatBRAABearingSpread = 10, conf_ThreatBRAARangeSpread = 1852,
     conf_ThreatMonitoringRequiresSRS = False, conf_Locations = [], conf_CustomAircraft = [], conf_EnableTracing = True,
     conf_DiscordWebhookID = ''1'', conf_DiscordWebhookToken = ''2'', conf_ExitAfter = 3600 * second,
     conf_EnableTerrainDetection = True\<rparr>"

definition demo_environment :: environment where
  "demo_environment = \<lparr>env_GUID = replicate 22 1, env_now = 0, env_grpc_error = None, env_srs_error = None,
     env_speaker_error = None, env_discord_error = None\<rparr>"

lemma demo_constructed: "\<exists>a :: u64 Application. NewApplication demo_environment demo_configuration [] = Inr (a, [])"
  by (simp add: NewApplication_def or_fail_def speech_recognizer_def demo_environment_def demo_configuration_def AddCustomAircraft_def)

theorem threats_need_srs_witness:
  "\<exists>a :: u64 Application. NewApplication demo_environment demo_configuration [] = Inr (a, []) \<and>
     broadcastThreats demo_control_lib 5 (app_controller a) = (app_controller a, [])"
proof -
  obtain a :: "u64 Application" where a: "NewApplication demo_environment demo_configuration [] = Inr (a, [])"
    using demo_constructed by blast
  have "\<not> conf_ThreatMonitoringRequiresSRS demo_configuration" by (simp add: demo_configuration_def)
  from threats_need_srs [OF this a control_run.stop] a show ?thesis by blast
qed

section \<open>The way of an answer\<close>

lemma context_of_parse:
  "parseText u P a now ctx text = (ps, Some (ctx', r)) \<Longrightarrow>
   ps = [] \<and> ctx' = WithRequest r (WithParsedAt now ctx) \<and>
   Parse (pl_parser P) (pl_replacements P) (pl_order P) (app_parser a) text = Some r"
  by (auto simp: parseText_def Let_def split: option.splits)

text \<open>C2. From the text to the radio: a request that was parsed leads to exactly one composed response; once it
  is synthesized, it is transmitted with the trace ID and the client name that the transmission of the
  pilot came with, at a volume that does not clip.\<close>

theorem answer_transmitted:
  assumes "parseText u P a parsedAt ctx text = (ps, Some (ctx', r))"
  shows "\<exists>a' call ctxc response. handleRequest C now ctx' r a = Some (a', [(ctx', call)]) \<and>
    compose_message L a' i j handledAt composedAt ctx' call = Some (ctxc, response) \<and>
    (\<forall>say audio. say (Speech response) = Inr audio \<longrightarrow>
      (\<exists>ctxs samples. synthesizeMessage u a' now2 None say ctxc response = ([], Some (ctxs, samples)) \<and>
        snd (transmitMessage u a' now3 ctxs samples) = (GetTraceID ctx, \<lparr>ClientName = GetClientName ctx, Audio = samples\<rparr>) \<and>
        length samples = length audio \<and> ((\<forall>x \<in> set audio. \<bar>x\<bar> \<le> 1) \<longrightarrow> (\<forall>x \<in> set samples. \<bar>x\<bar> \<le> 1))))"
proof -
  note p = context_of_parse [OF assms]
  have "request_ok r" using p parsed_request_ok by blast
  from handle_one [OF this, of C now "app_controller a"]
  obtain c' call where h: "handle C now r (app_controller a) = Some (c', [call])" "composable call" by blast
  let ?a = "a\<lparr>app_controller := c'\<rparr>"
  obtain response where resp: "composeCall L (app_composer a) i j call = Some response"
    using composeCall_total [OF h(2)] by blast
  let ?ctxc = "WithComposedAt composedAt (WithCallText (Subtitle response) (WithHandledAt handledAt ctx'))"
  have ids: "GetTraceID (WithSynthesizedAt t ?ctxc) = GetTraceID ctx" "GetClientName (WithSynthesizedAt t ?ctxc) = GetClientName ctx" for t
    using p by (simp_all add: context_defs)
  have v: "(\<forall>x \<in> set audio. \<bar>x\<bar> \<le> 1) \<Longrightarrow> (\<forall>x \<in> set (F32AdjustVolume audio vol). \<bar>x\<bar> \<le> 1)"
    "length (F32AdjustVolume audio vol) = length audio" for audio vol
    by (auto simp: F32AdjustVolume_def min_def max_def)
  show ?thesis
    by (intro exI [of _ ?a] exI [of _ call] exI [of _ ?ctxc] exI [of _ response])
      (auto simp: handleRequest_def h compose_message_def resp synthesizeMessage_def transmitMessage_def ids v)
qed

definition demo_parse_lib :: parse_lib where
  "demo_parse_lib = \<lparr>pl_parser = demo_lib, pl_replacements = [], pl_order = bogeyFilterMap\<rparr>"

definition demo_application :: "u64 Application" where
  "demo_application = \<lparr>app_callsign = ''Anyface'', app_telemetryClient = telemetry_client demo_configuration,
     app_recognizer = WhisperRecognizer ''Sky Eye'' [], app_chatListener = None, app_parser = demo_parser,
     app_controller = demo_controller, app_composer = ''Sky Eye'', app_volume = 1 / 2, enableTranscriptionLogging = False,
     tracers = [LogTracer, DiscordWebhook], app_exitAfter = 3600 * second\<rparr>"

lemma demo_parsed:
  "parseText si_units demo_parse_lib demo_application 2 (received ''t1'' ''Eagle'' 1) ''Anyface, Eagle 1-1, picture'' =
     ([], Some (WithRequest (PictureRequest ''eagle 1 1'') (WithParsedAt 2 (received ''t1'' ''Eagle'' 1)), PictureRequest ''eagle 1 1''))"
  by (simp add: parseText_def demo_parse_lib_def demo_application_def demo_parse)

theorem answer_transmitted_witness:
  "\<exists>a' ctx call ctxc response. handleRequest demo_control_lib 0 ctx (PictureRequest ''eagle 1 1'') demo_application =
      Some (a', [(ctx, call)]) \<and>
     compose_message demo_radar_lib a' 0 0 3 4 ctx call = Some (ctxc, response)"
proof -
  obtain a' call ctxc response where
    "handleRequest demo_control_lib 0 (WithRequest (PictureRequest ''eagle 1 1'') (WithParsedAt 2 (received ''t1'' ''Eagle'' 1)))
       (PictureRequest ''eagle 1 1'') demo_application =
       Some (a', [(WithRequest (PictureRequest ''eagle 1 1'') (WithParsedAt 2 (received ''t1'' ''Eagle'' 1)), call)])"
    "compose_message demo_radar_lib a' 0 0 3 4
       (WithRequest (PictureRequest ''eagle 1 1'') (WithParsedAt 2 (received ''t1'' ''Eagle'' 1))) call = Some (ctxc, response)"
    using answer_transmitted [OF demo_parsed] by blast
  then show ?thesis by blast
qed

section \<open>What is traced\<close>

text \<open>C39. When transcriptions must not be logged, nothing that any tracer publishes depends on the text of the
  request: contexts that differ in it only are traced alike.\<close>

theorem trace_hides_text:
  assumes "\<not> enableTranscriptionLogging a"
    and "\<forall>k. k \<noteq> requestTextKey \<longrightarrow> ctx_Value k ctx = ctx_Value k ctx'"
  shows "trace u a ctx = trace u a ctx'"
proof -
  let ?c = "WithoutRequestText ctx" and ?c' = "WithoutRequestText ctx'"
  have e: "ctx_Value k ?c = ctx_Value k ?c'" for k using assms(2) by (simp add: WithoutRequestText_def)
  then have t: "get_text k ?c = get_text k ?c'" "get_time k ?c = get_time k ?c'" for k
    by (simp_all add: get_text_def get_time_def)
  have "timings_of ?c = timings_of ?c'"
    by (simp add: timings_of_def GetReceivedAt_def GetRecognizedAt_def GetParsedAt_def GetHandledAt_def
      GetComposedAt_def GetSynthesizedAt_def GetSubmittedAt_def t)
  then have f: "formatTimings ?c = formatTimings ?c'" by (simp add: formatTimings_def)
  have g: "GetClientName ?c = GetClientName ?c'" "GetPlayerName ?c = GetPlayerName ?c'" "GetRequestText ?c = GetRequestText ?c'"
    "GetTraceID ?c = GetTraceID ?c'" "GetCallText ?c = GetCallText ?c'" "GetRequest ?c = GetRequest ?c'"
    "GetRequestError ?c = GetRequestError ?c'"
    by (simp_all only: GetClientName_def GetPlayerName_def GetRequestText_def GetTraceID_def GetCallText_def
      GetRequest_def GetRequestError_def t e)
  then have "createReport u ?c = createReport u ?c'" "log_fields ?c = log_fields ?c'"
    by (simp_all only: createReport_def log_fields_def f g)
  then have "publish u ?c = publish u ?c'" by (intro ext) (rename_tac tracer, case_tac tracer, simp_all)
  then show ?thesis using assms(1) by (simp add: trace_def)
qed

theorem trace_hides_text_witness:
  "trace si_units demo_application (WithCallText ''Eagle 1 1, clean'' (WithRequestText ''secret'' (received ''t1'' ''Eagle'' 1))) =
   trace si_units demo_application (WithCallText ''Eagle 1 1, clean'' (received ''t1'' ''Eagle'' 1))"
  by (rule trace_hides_text)
    (simp_all add: demo_application_def WithCallText_def WithRequestText_def)

lemma addTiming_into: "stage \<in> S \<Longrightarrow> fst ` set ts \<subseteq> S \<Longrightarrow> fst ` set (addTiming stage t t' ts) \<subseteq> S"
  by (auto simp: addTiming_def Let_def split: if_splits)

lemma addTiming_zero [simp]: "addTiming stage 0 t ts = ts" "addTiming stage t 0 ts = ts"
  by (simp_all add: addTiming_def)

lemma timings_without_parsing:
  assumes "GetParsedAt ctx = 0"
  shows "fst ` set (timings_of ctx) \<subseteq> {''Submission'', ''Synthesis'', ''Composition'', ''Recognition''}"
  unfolding timings_of_def Let_def assms addTiming_zero
  by (intro addTiming_into) simp_all

text \<open>The time a request was parsed is put in the context under that time itself as key, not under the key
  it is read with. It is never read back, so the reports never show how long parsing and handling took.\<close>

theorem parsing_never_timed:
  assumes "parsedAtKey \<notin> fst ` set ctx"
  shows "GetParsedAt (WithParsedAt t ctx) = 0 \<and> GetHandledAt (WithHandledAt t (WithParsedAt t ctx)) = t \<and>
    {''Parsing'', ''Handling''} \<inter> fst ` set (timings_of (WithSubmittedAt s (WithHandledAt t (WithParsedAt t ctx)))) = {}"
proof -
  have "map_of ctx parsedAtKey = None" using assms by (simp add: map_of_eq_None_iff)
  then have "get_time parsedAtKey ctx = 0" by (simp add: get_time_def ctx_Value_def)
  then have "GetParsedAt (WithParsedAt t ctx) = 0" "GetHandledAt (WithHandledAt t (WithParsedAt t ctx)) = t"
    "GetParsedAt (WithSubmittedAt s (WithHandledAt t (WithParsedAt t ctx))) = 0"
    by (simp_all add: context_defs)
  moreover note sub = timings_without_parsing [OF this(3)]
  have "''Parsing'' \<notin> fst ` set (timings_of (WithSubmittedAt s (WithHandledAt t (WithParsedAt t ctx))))"
    "''Handling'' \<notin> fst ` set (timings_of (WithSubmittedAt s (WithHandledAt t (WithParsedAt t ctx))))"
    by (auto dest!: subsetD [OF sub])
  ultimately show ?thesis by simp
qed

theorem parsing_never_timed_witness:
  "GetParsedAt (WithParsedAt 7 (received ''t1'' ''Eagle'' 1)) = 0"
  using parsing_never_timed [of "received ''t1'' ''Eagle'' 1" 7 8] by (simp add: received_def context_defs WithValue_def)

end
