(* ===== verification/Setup.thy ===== *)
theory Setup
  imports Answers
begin

text \<open>
  From the command line to the configuration (\<open>cmd/skyeye/main.go\<close>, \<open>internal/cli\<close>), the notation of radio
  frequencies (\<open>pkg/simpleradio/frequency.go\<close>), and the autoscaler (\<open>cmd/skyeye-scaler/main.go\<close>). A fatal
  log message ends the program; it is an error. The flag and configuration libraries are not modelled:
  the model starts from the values of the flags, and random choices are arguments.
\<close>

section \<open>Frequencies\<close>

definition frequency_char :: "char \<Rightarrow> bool" where
  "frequency_char c \<longleftrightarrow> IsDigit c \<or> c = CHR ''.'' \<or> c = CHR ''-''"

definition ParseRadioFrequency :: "string \<Rightarrow> string + (real \<times> Modulation)" where
  "ParseRadioFrequency s =
     (let prefix = takeWhile frequency_char s; suffix = TrimSpace (dropWhile frequency_char s)
      in case ParseFloat prefix of
           None \<Rightarrow> Inl ''failed to parse frequency''
         | Some mhz \<Rightarrow>
             if mhz \<le> 0 then Inl ''frequency must be a real positive number''
             else Inr (mhz * 1000000,
               if suffix = ''FM'' then ModulationFM else if suffix = ''AM'' then ModulationAM else ModulationAM))"

definition IsSameFrequency :: "real \<times> Modulation \<Rightarrow> real \<times> Modulation \<Rightarrow> bool" where
  "IsSameFrequency f other \<longleftrightarrow> fst f = fst other \<and> snd f = snd other"

definition RadioFrequency_String :: "real \<times> Modulation \<Rightarrow> string" where
  "RadioFrequency_String f =
     format_fixed 3 (Megahertz (fst f)) @
     (if snd f = ModulationFM then ''FM'' else if snd f = ModulationAM then ''AM'' else [])"

fun LoadFrequencies :: "string list \<Rightarrow> string + (real \<times> Modulation) list" where
  "LoadFrequencies [] = Inr []"
| "LoadFrequencies (s # ss) =
     (case ParseRadioFrequency s of Inl e \<Rightarrow> Inl ''failed to parse SRS frequency''
      | Inr f \<Rightarrow> (case LoadFrequencies ss of Inl e \<Rightarrow> Inl e | Inr fs \<Rightarrow> Inr (f # fs)))"

section \<open>Flags\<close>

record Enum =
  enum_flag :: string
  enum_type :: string
  enum_options :: "string list"

text \<open>The variable that a flag updates is part of the flag; \<open>old\<close> is its value before.\<close>

definition NewEnum :: "string \<Rightarrow> string \<Rightarrow> string \<Rightarrow> string list \<Rightarrow> Enum" where
  "NewEnum old typ defaultValue options =
     (if defaultValue \<noteq> []
      then \<lparr>enum_flag = defaultValue, enum_type = typ, enum_options = [defaultValue] @ options\<rparr>
      else \<lparr>enum_flag = old, enum_type = typ, enum_options = options\<rparr>)"

definition Enum_Set :: "string \<Rightarrow> Enum \<Rightarrow> string option \<times> Enum" where
  "Enum_Set value e =
     (if value \<in> set (enum_options e) then (None, e\<lparr>enum_flag := value\<rparr>) else (Some (''invalid value '' @ value), e))"

definition coalitionFlag :: Enum where "coalitionFlag = NewEnum [] ''Coalition'' ''blue'' [''red'']"
definition recognizerFlag :: Enum where
  "recognizerFlag = NewEnum [] ''Recognizer'' WhisperLocal [WhisperAPI, GPT4o, GPT4oMini]"
definition voiceFlag :: Enum where "voiceFlag = NewEnum [] ''Voice'' [] [''feminine'', ''masculine'']"

definition loadCoalition :: "string \<Rightarrow> string + Coalition" where
  "loadCoalition name =
     (if name = ''blue'' then Inr Blue else if name = ''red'' then Inr Red
      else Inl ''GCI coalition must be either blue or red'')"

text \<open>The local model: \<open>load\<close> is whether the library loads it, \<open>avx2\<close> whether the processor can run it.\<close>

definition loadWhisperModel :: "bool \<Rightarrow> bool \<Rightarrow> string \<Rightarrow> string \<Rightarrow> string + bool" where
  "loadWhisperModel avx2 load recognizerName path =
     (if recognizerName \<noteq> WhisperLocal then Inr False
      else if path = [] then Inl (''whisper-model is required when recognizer is set to '' @ WhisperLocal)
      else if \<not> avx2 then Inl ''The CPU on this machine does not support AVX2 instructions.''
      else if \<not> load then Inl ''failed to load whisper model''
      else Inr True)"

definition random_seed :: "int \<Rightarrow> int \<Rightarrow> int" where
  "random_seed hour yearDay =
     (if 0 \<le> hour \<and> hour < 8 then yearDay + 1
      else if 8 \<le> hour \<and> hour < 16 then yearDay * 2
      else if 16 \<le> hour \<and> hour < 24 then yearDay - 3
      else yearDay)"

datatype Voice = FeminineVoice | MasculineVoice

definition voice_options :: "(string, Voice) gomap" where
  "voice_options = [(''feminine'', FeminineVoice), (''masculine'', MasculineVoice)]"

text \<open>A name that is not in the map gives the zero value, the feminine voice. The order of the keys is any
  order.\<close>

definition loadVoice :: "string list \<Rightarrow> (nat \<Rightarrow> nat) \<Rightarrow> string \<Rightarrow> Voice" where
  "loadVoice keys IntN voiceName =
     (let name = (if voiceName = [] then keys ! IntN (length keys) else voiceName)
      in case map_of voice_options name of Some v \<Rightarrow> v | None \<Rightarrow> FeminineVoice)"

definition DefaultCallsigns :: "string list" where
  "DefaultCallsigns = [''Sky Eye'', ''Thunderhead'', ''Eagle Eye'', ''Ghost Eye'', ''Sky Keeper'', ''Bandog'', ''Long Caster'', ''Galaxy'']"

definition loadCallsign :: "(nat \<Rightarrow> nat) \<Rightarrow> string \<Rightarrow> string list \<Rightarrow> string + string" where
  "loadCallsign IntN single several =
     (let options = (if single \<noteq> [] then [single] else []) @ several;
          options = (if length options = 0 then DefaultCallsigns else options);
          callsign = options ! IntN (length options)
      in if callsign = [] then Inl ''callsign is empty'' else Inr callsign)"

definition voiceVolumeMin :: real where "voiceVolumeMin = 0"
definition voiceVolumeDefault :: real where "voiceVolumeDefault = 1"

definition loadVoiceVolume :: "real \<Rightarrow> real" where
  "loadVoiceVolume voiceVolume = max voiceVolumeMin (min voiceVolume voiceVolumeDefault)"

text \<open>Without a file there is nothing to load; \<open>read\<close> is the content of the file, if it can be read.\<close>

definition loadLocations ::
    "('d \<Rightarrow> Location list option) \<Rightarrow> ('d \<Rightarrow> Location list option) \<Rightarrow> string \<Rightarrow> 'd option \<Rightarrow> string + Location list" where
  "loadLocations json yaml locationsFile read =
     (if locationsFile = [] then Inr []
      else case read of None \<Rightarrow> Inl ''failed to read locations file''
      | Some data \<Rightarrow> (case LoadLocations json yaml data of
          Inl _ \<Rightarrow> Inl ''failed to load locations file'' | Inr locs \<Rightarrow> Inr locs))"

definition loadAircraft ::
    "('d \<Rightarrow> serializedAircraft list option) \<Rightarrow> string \<Rightarrow> 'd option \<Rightarrow> string + Aircraft list" where
  "loadAircraft decode aircraftFile read =
     (if aircraftFile = [] then Inr []
      else case read of None \<Rightarrow> Inl ''failed to read aircraft file''
      | Some data \<Rightarrow> (case decode data of None \<Rightarrow> Inl ''failed to load aircraft file''
        | Some entries \<Rightarrow> (case LoadCustomAircraft entries of
            Inl _ \<Rightarrow> Inl ''failed to load aircraft file'' | Inr aircraft \<Rightarrow> Inr aircraft)))"

section \<open>The configuration\<close>

record flags =
  acmiFile :: string
  telemetryAddress :: string
  telemetryConnectionTimeout :: int
  telemetryPassword :: string
  srsExternalAWACSModePassword :: string
  srsFrequencies :: "string list"
  enableGRPC :: bool
  flag_enableTranscriptionLogging :: bool
  flag_controllerCallsign :: string
  flag_controllerCallsigns :: "string list"
  coalitionName :: string
  telemetryUpdateInterval :: int
  recognizerName :: string
  whisperModelPath :: string
  openAIAPIKey :: string
  mute_flag :: bool
  voiceVolume :: real
  enableAutomaticPicture :: bool
  automaticPictureInterval :: int
  flag_enableThreatMonitoring :: bool
  flag_threatMonitoringInterval :: int
  flag_threatMonitoringRequiresSRS :: bool
  mandatoryThreatRadiusNM :: real
  threatBRAABearingSpreadDeg :: real
  threatBRAARangeSpreadNM :: real
  enableTracing :: bool
  discordWebhookID :: string
  discordWebhookToken :: string
  exitAfter :: int
  flag_enableTerrainDetection :: bool
  locationsFile :: string
  aircraftFile :: string

text \<open>What \<open>run\<close> meets outside.\<close>

record 'd machine =
  mach_avx2 :: bool
  mach_whisper_loads :: bool
  mach_IntN :: "nat \<Rightarrow> nat"
  mach_json :: "'d \<Rightarrow> Location list option"
  mach_yaml :: "'d \<Rightarrow> Location list option"
  mach_aircraft :: "'d \<Rightarrow> serializedAircraft list option"
  mach_locations_file :: "'d option"
  mach_aircraft_file :: "'d option"

definition config_of_flags :: "units \<Rightarrow> 'd machine \<Rightarrow> flags \<Rightarrow> string + Configuration" where
  "config_of_flags u M f =
     (case loadCoalition (coalitionName f) of Inl e \<Rightarrow> Inl e | Inr coalition \<Rightarrow>
     (case loadWhisperModel (mach_avx2 M) (mach_whisper_loads M) (recognizerName f) (whisperModelPath f) of Inl e \<Rightarrow> Inl e | Inr _ \<Rightarrow>
     (case loadCallsign (mach_IntN M) (flag_controllerCallsign f) (flag_controllerCallsigns f) of Inl e \<Rightarrow> Inl e | Inr callsign \<Rightarrow>
     (case LoadFrequencies (srsFrequencies f) of Inl e \<Rightarrow> Inl e | Inr parsedSRSFrequencies \<Rightarrow>
     (case loadLocations (mach_json M) (mach_yaml M) (locationsFile f) (mach_locations_file M) of Inl e \<Rightarrow> Inl e | Inr locs \<Rightarrow>
     (case loadAircraft (mach_aircraft M) (aircraftFile f) (mach_aircraft_file M) of Inl e \<Rightarrow> Inl e | Inr customAircraft \<Rightarrow>
       Inr \<lparr>conf_ACMIFile = acmiFile f, conf_TelemetryAddress = telemetryAddress f,
         conf_TelemetryConnectionTimeout = telemetryConnectionTimeout f, conf_TelemetryPassword = telemetryPassword f,
         conf_SRSClientName = ''GCI '' @ callsign @ '' [BOT]'',
         conf_SRSExternalAWACSModePassword = srsExternalAWACSModePassword f, conf_SRSFrequencies = parsedSRSFrequencies,
         conf_EnableGRPC = enableGRPC f, conf_EnableTranscriptionLogging = flag_enableTranscriptionLogging f,
         conf_Callsign = callsign, conf_Coalition = coalition, conf_RadarSweepInterval = telemetryUpdateInterval f,
         conf_Recognizer = recognizerName f, conf_OpenAIAPIKey = openAIAPIKey f, conf_Mute = mute_flag f,
         conf_Volume = loadVoiceVolume (voiceVolume f), conf_EnableAutomaticPicture = enableAutomaticPicture f,
         conf_PictureBroadcastInterval = automaticPictureInterval f,
         conf_EnableThreatMonitoring = flag_enableThreatMonitoring f,
         conf_ThreatMonitoringInterval = flag_threatMonitoringInterval f,
         conf_MandatoryThreatRadius = mandatoryThreatRadiusNM f * NauticalMile u,
         conf_ThreatBRAABearingSpread = threatBRAABearingSpreadDeg f,
         conf_ThreatBRAARangeSpread = threatBRAARangeSpreadNM f * NauticalMile u,
         conf_ThreatMonitoringRequiresSRS = flag_threatMonitoringRequiresSRS f, conf_Locations = locs,
         conf_CustomAircraft = customAircraft, conf_EnableTracing = enableTracing f,
         conf_DiscordWebhookID = discordWebhookID f, conf_DiscordWebhookToken = discordWebhookToken f,
         conf_ExitAfter = exitAfter f, conf_EnableTerrainDetection = flag_enableTerrainDetection f\<rparr>))))))"

section \<open>The autoscaler\<close>

record Payload =
  payload_Action :: string
  Players :: nat
  Address :: string
  payload_Frequencies :: "string list"

record scaler =
  scaler_address :: string
  scaler_frequencies :: "string list"
  scaleInterval :: int
  stopDelay :: int
  playersSeenAt :: int

text \<open>The start of \<open>run\<close>: it checks the delays, and then connects.\<close>

definition scaler_refuses :: "scaler \<Rightarrow> bool" where
  "scaler_refuses s \<longleftrightarrow> stopDelay s > scaleInterval s"

definition scaler_client :: "scaler \<Rightarrow> string \<Rightarrow> string \<Rightarrow> GUID \<Rightarrow> int \<Rightarrow> string + Client" where
  "scaler_client s uuid password guid now =
     (case LoadFrequencies (scaler_frequencies s) of Inl e \<Rightarrow> Inl e
      | Inr parsed \<Rightarrow> Inr (NewClient guid now \<lparr>config_ClientName = ''SkyEye Scaler '' @ uuid @ '' [BOT]'',
          config_EAMPassword = password, config_Coalition = Blue, config_Radios = srs_radios parsed, config_Mute = False\<rparr>))"

text \<open>What is sent to the webhook, and the time players were last seen, which is zero at first.\<close>

definition callWebhook :: "int \<Rightarrow> Client \<Rightarrow> scaler \<Rightarrow> Payload \<times> scaler" where
  "callWebhook now c s =
     (let playerCount = HumansOnFrequency c;
          timeSincePlayersSeen = now - playersSeenAt s;
          (action, s) = (if playerCount > 0 then (''run'', s\<lparr>playersSeenAt := now\<rparr>)
             else if timeSincePlayersSeen > stopDelay s then (''stop'', s) else (''run'', s))
      in (\<lparr>payload_Action = action, Players = playerCount, Address = scaler_address s,
           payload_Frequencies = scaler_frequencies s\<rparr>, s))"

fun scaler_run :: "(int \<times> Client) list \<Rightarrow> scaler \<Rightarrow> Payload list" where
  "scaler_run [] s = []"
| "scaler_run ((now, c) # checks) s = (case callWebhook now c s of (p, s) \<Rightarrow> p # scaler_run checks s)"

definition default_scaler :: scaler where
  "default_scaler = \<lparr>scaler_address = ''localhost:5002'', scaler_frequencies = [''251.0AM'', ''133.0AM'', ''30.0FM''],
     scaleInterval = 1 * minute, stopDelay = 10 * minute, playersSeenAt = 0\<rparr>"

section \<open>The configuration is sound\<close>

lemma ParseRadioFrequency_ok: "ParseRadioFrequency s = Inr (hz, m) \<Longrightarrow> hz > 0 \<and> m \<in> {ModulationAM, ModulationFM}"
  by (auto simp: ParseRadioFrequency_def Let_def split: option.splits if_splits)

lemma LoadFrequencies_ok: "LoadFrequencies ss = Inr fs \<Longrightarrow> (hz, m) \<in> set fs \<Longrightarrow> hz > 0 \<and> m \<in> {ModulationAM, ModulationFM}"
  by (induction ss arbitrary: fs) (auto split: sum.splits dest!: ParseRadioFrequency_ok)

lemma LoadFrequencies_length: "LoadFrequencies ss = Inr fs \<Longrightarrow> length fs = length ss"
  by (induction ss arbitrary: fs) (auto split: sum.splits)

lemma loadVoiceVolume_range: "0 \<le> loadVoiceVolume v \<and> loadVoiceVolume v \<le> 1"
  by (simp add: loadVoiceVolume_def voiceVolumeMin_def voiceVolumeDefault_def)

lemma bot_suffix: "HasSuffix (s @ '' [BOT]'') ''[BOT]''"
  by (simp add: HasSuffix_def)


definition demo_flags :: flags where
  "demo_flags = \<lparr>acmiFile = [], telemetryAddress = ''localhost:42674'', telemetryConnectionTimeout = 10 * second,
     telemetryPassword = [], srsExternalAWACSModePassword = [], srsFrequencies = [''251.0AM''], enableGRPC = False,
     flag_enableTranscriptionLogging = True, flag_controllerCallsign = [], flag_controllerCallsigns = [], coalitionName = ''blue'',
     telemetryUpdateInterval = 2 * second, recognizerName = GPT4o, whisperModelPath = [], openAIAPIKey = ''key'',
     mute_flag = False, voiceVolume = 2, enableAutomaticPicture = True, automaticPictureInterval = 2 * minute,
     flag_enableThreatMonitoring = True, flag_threatMonitoringInterval = 3 * minute, flag_threatMonitoringRequiresSRS = True,
     mandatoryThreatRadiusNM = 25, threatBRAABearingSpreadDeg = 5, threatBRAARangeSpreadNM = 1, enableTracing = False,
     discordWebhookID = [], discordWebhookToken = [], exitAfter = 3600 * second, flag_enableTerrainDetection = False,
     locationsFile = [], aircraftFile = []\<rparr>"

definition demo_machine :: "unit machine" where
  "demo_machine = \<lparr>mach_avx2 = True, mach_whisper_loads = False, mach_IntN = (\<lambda>_. 1), mach_json = (\<lambda>_. None),
     mach_yaml = (\<lambda>_. None), mach_aircraft = (\<lambda>_. None), mach_locations_file = None, mach_aircraft_file = None\<rparr>"

section \<open>Frequencies are read as they are shown\<close>

lemma decimal_value_append: "decimal_value (a @ b) = decimal_value a * 10 ^ length b + decimal_value b"
proof -
  have "foldl (\<lambda>n c. 10 * n + digit_value c) x b = x * 10 ^ length b + foldl (\<lambda>n c. 10 * n + digit_value c) 0 b" for x
    by (induction b rule: rev_induct) (simp_all add: algebra_simps)
  then show ?thesis unfolding decimal_value_def foldl_append .
qed

lemma takeWhile_digits: "list_all P a \<Longrightarrow> \<not> P c \<Longrightarrow> takeWhile P (a @ c # b) = a \<and> dropWhile P (a @ c # b) = c # b"
  by (induction a) auto

lemma ParseFloat_point:
  assumes a: "a \<noteq> []" "list_all IsDigit a" and b: "list_all IsDigit b"
  shows "ParseFloat (a @ CHR ''.'' # b) = Some (real (decimal_value (a @ b)) / 10 ^ length b)"
proof -
  obtain c cs where c: "a = c # cs" "IsDigit c" using a by (cases a) auto
  have "c \<noteq> CHR ''-''" "c \<noteq> CHR ''+''" using c(2) by (auto simp: IsDigit_def code_of_def)
  then have sign: "go_sign (a @ CHR ''.'' # b) = (False, a @ CHR ''.'' # b)" by (simp add: go_sign_def c(1))
  have "\<not> IsDigit (CHR ''.'')" by (simp add: IsDigit_def code_of_def)
  note whole = takeWhile_digits [OF a(2) this, of b]
  have frac: "takeWhile IsDigit b = b" "dropWhile IsDigit b = []"
    using b by (simp_all add: takeWhile_eq_all_conv dropWhile_eq_Nil_conv list_all_iff)
  show ?thesis using a(1) by (simp add: ParseFloat_def sign whole frac Let_def)
qed

text \<open>The text of a frequency in whole kilohertz is read back as this frequency, with its modulation.\<close>

theorem frequency_roundtrip:
  assumes "0 < k" and "m \<in> {ModulationAM, ModulationFM}"
  shows "ParseRadioFrequency (RadioFrequency_String (of_nat k * 1000, m)) = Inr (of_nat k * 1000, m)"
proof -
  let ?a = "Itoa_nat (k div 1000)" and ?b = "zero_padded 3 (k mod 1000)"
  define suffix where "suffix = (if m = ModulationFM then ''FM'' else ''AM'')"
  have b: "list_all IsDigit ?b" "length ?b = 3" "decimal_value ?b = k mod 1000"
    using zero_padded_digits [of 3 "k mod 1000"] zero_padded_length [of "k mod 1000" 3] by simp_all
  have "real k = real (k div 1000 * 1000 + k mod 1000)" by simp
  then have "real k = 1000 * real (k div 1000) + real (k mod 1000)" by linarith
  then have "Megahertz (of_nat k * 1000) = of_nat (k div 1000) + of_nat (k mod 1000) / 10 ^ 3"
    by (simp add: Megahertz_def field_simps)
  then have shown: "RadioFrequency_String (of_nat k * 1000, m) = (?a @ CHR ''.'' # ?b) @ suffix"
    using format_fixed_exact [of "k mod 1000" 3 "k div 1000"] assms(2) by (auto simp: RadioFrequency_String_def suffix_def)
  have "\<not> frequency_char (CHR ''F'')" "\<not> frequency_char (CHR ''A'')" by (simp_all add: frequency_char_def IsDigit_def code_of_def)
  moreover have "list_all frequency_char (?a @ CHR ''.'' # ?b)"
    using Itoa_nat_digits [of "k div 1000"] b(1) by (auto simp: frequency_char_def list_all_iff)
  ultimately have split: "takeWhile frequency_char ((?a @ CHR ''.'' # ?b) @ suffix) = ?a @ CHR ''.'' # ?b"
    "dropWhile frequency_char ((?a @ CHR ''.'' # ?b) @ suffix) = suffix"
    using takeWhile_digits [of frequency_char "?a @ CHR ''.'' # ?b"] by (auto simp: suffix_def)
  have trim: "TrimSpace ''FM'' = ''FM''" "TrimSpace ''AM'' = ''AM''" by code_simp+
  have "ParseFloat (?a @ CHR ''.'' # ?b) = Some (real k / 1000)"
    using ParseFloat_point [of ?a ?b] Itoa_nat_digits [of "k div 1000"] b
    by (simp add: decimal_value_append decimal_value_Itoa_nat)
  then show ?thesis
    using assms unfolding shown ParseRadioFrequency_def split Let_def
    by (auto simp: suffix_def trim ModulationAM_def ModulationFM_def)
qed

theorem frequency_roundtrip_witness:
  "ParseRadioFrequency (RadioFrequency_String (of_nat 251000 * 1000, ModulationAM)) = Inr (of_nat 251000 * 1000, ModulationAM)"
  by (rule frequency_roundtrip) simp_all

lemma demo_flag_frequency: "\<exists>f. LoadFrequencies [''251.0AM''] = Inr f"
proof -
  have "takeWhile frequency_char ''251.0AM'' = ''251.'' @ ''0''" by code_simp
  moreover have "ParseFloat (''251'' @ CHR ''.'' # ''0'') = Some (real (decimal_value (''251'' @ ''0'')) / 10 ^ length ''0'')"
    by (rule ParseFloat_point) (simp_all add: IsDigit_def code_of_def)
  moreover have "decimal_value (''251'' @ ''0'') = 2510" by code_simp
  ultimately have "ParseFloat (takeWhile frequency_char ''251.0AM'') = Some 251" by simp
  then show ?thesis by (simp add: ParseRadioFrequency_def Let_def)
qed


section \<open>Flags with choices\<close>

text \<open>However a flag with choices and a default is set, its value is one of the choices; so the side and the
  speech recognizer that are read from such flags are always known.\<close>

theorem enum_flags_accepted:
  "(\<exists>coalition. loadCoalition (enum_flag (fold (\<lambda>v e. snd (Enum_Set v e)) vs coalitionFlag)) = Inr coalition) \<and>
   (conf_Recognizer config = enum_flag (fold (\<lambda>v e. snd (Enum_Set v e)) vs recognizerFlag) \<longrightarrow>
     speech_recognizer config locations \<noteq> None)"
proof -
  have keep: "enum_flag e \<in> set (enum_options e) \<Longrightarrow>
      enum_flag (fold (\<lambda>v e. snd (Enum_Set v e)) vs e) \<in> set (enum_options e)" for e
  proof (induction vs arbitrary: e)
    case (Cons v vs)
    have "enum_flag (snd (Enum_Set v e)) \<in> set (enum_options (snd (Enum_Set v e)))" "enum_options (snd (Enum_Set v e)) = enum_options e"
      using Cons.prems by (auto simp: Enum_Set_def)
    then show ?case using Cons.IH [of "snd (Enum_Set v e)"] by simp
  qed simp
  have "enum_flag (fold (\<lambda>v e. snd (Enum_Set v e)) vs coalitionFlag) \<in> {''blue'', ''red''}"
    using keep [of coalitionFlag] by (simp add: coalitionFlag_def NewEnum_def)
  moreover have "enum_flag (fold (\<lambda>v e. snd (Enum_Set v e)) vs recognizerFlag) \<in> {WhisperLocal, WhisperAPI, GPT4o, GPT4oMini}"
    using keep [of recognizerFlag] by (simp add: recognizerFlag_def NewEnum_def recognizer_names)
  ultimately show ?thesis
    by (auto simp: loadCoalition_def speech_recognizer_def Let_def split: if_splits)
qed

theorem enum_flags_accepted_witness:
  "\<exists>coalition. loadCoalition (enum_flag (fold (\<lambda>v e. snd (Enum_Set v e)) [''green'', ''red''] coalitionFlag)) = Inr coalition"
  by (rule conjunct1 [OF enum_flags_accepted])

section \<open>When the autoscaler stops\<close>

text \<open>The autoscaler asks for a stop exactly when no human is on frequency and the last time one was, at any
  of its checks so far, is longer ago than the stop delay. Bots do not count.\<close>

theorem scaler_stops_after_quiet:
  assumes "sorted (map fst checks)" and "\<forall>(t, c) \<in> set checks. playersSeenAt s \<le> t" and "i < length checks"
  shows "payload_Action (scaler_run checks s ! i) = ''stop'' \<longleftrightarrow>
    HumansOnFrequency (snd (checks ! i)) = 0 \<and> fst (checks ! i) - playersSeenAt s > stopDelay s \<and>
    (\<forall>j < i. HumansOnFrequency (snd (checks ! j)) > 0 \<longrightarrow> fst (checks ! i) - fst (checks ! j) > stopDelay s)"
  using assms
proof (induction checks arbitrary: s i)
  case (Cons check checks)
  obtain now c where check: "check = (now, c)" by fastforce
  show ?case
  proof (cases i)
    case 0
    then show ?thesis by (simp add: check callWebhook_def Let_def)
  next
    case (Suc k)
    let ?s = "snd (callWebhook now c s)"
    have run: "scaler_run (check # checks) s ! i = scaler_run checks ?s ! k"
      by (simp add: check Suc split: prod.split)
    have seen: "playersSeenAt ?s = (if HumansOnFrequency c > 0 then now else playersSeenAt s)" "stopDelay ?s = stopDelay s"
      by (auto simp: callWebhook_def Let_def)
    have later: "now \<le> fst (checks ! k)" using Cons.prems(1,3) by (simp add: check Suc)
    have "playersSeenAt s \<le> now" using Cons.prems(2) by (simp add: check)
    moreover have "\<forall>(t, c) \<in> set checks. playersSeenAt ?s \<le> t"
      using Cons.prems(1,2) by (auto simp: check seen)
    ultimately show ?thesis
      using Cons.IH [of ?s k] Cons.prems(1,3) later
      unfolding run unfolding Suc All_less_Suc2 seen by (cases "HumansOnFrequency c > 0") (auto simp: check)
  qed
qed simp

definition demo_scaler :: scaler where
  "demo_scaler = default_scaler\<lparr>stopDelay := 30 * second\<rparr>"

theorem scaler_stops_after_quiet_witness:
  "payload_Action (scaler_run [(10 * minute, demo_client), (11 * minute, demo_client)] demo_scaler ! 1) = ''stop'' \<longleftrightarrow>
     HumansOnFrequency demo_client = 0 \<and> 11 * minute - playersSeenAt demo_scaler > stopDelay demo_scaler \<and>
     (\<forall>j < 1. HumansOnFrequency (snd ([(10 * minute, demo_client), (11 * minute, demo_client)] ! j)) > 0 \<longrightarrow>
        11 * minute - fst ([(10 * minute, demo_client), (11 * minute, demo_client)] ! j) > stopDelay demo_scaler)"
  using scaler_stops_after_quiet [of "[(10 * minute, demo_client), (11 * minute, demo_client)]" demo_scaler 1]
  by (simp add: demo_scaler_def default_scaler_def minute_def second_def)

text \<open>The default delays are refused at the start. With delays that are accepted and not equal, the delay
  never delays anything: the first check without players, an interval after one with players, stops.\<close>

theorem scaler_delay_never_waits:
  assumes "\<not> scaler_refuses s" and "stopDelay s \<noteq> scaleInterval s"
    and "playersSeenAt s \<le> now" and "scaleInterval s \<le> later - now" and "HumansOnFrequency c' = 0"
  shows "scaler_refuses default_scaler \<and>
    payload_Action (fst (callWebhook later c' (snd (callWebhook now c s)))) = ''stop''"
proof -
  have "stopDelay s < scaleInterval s" using assms(1,2) by (simp add: scaler_refuses_def)
  then show ?thesis
    using assms(3-5) by (auto simp: callWebhook_def Let_def scaler_refuses_def default_scaler_def minute_def second_def)
qed

theorem scaler_delay_never_waits_witness:
  "scaler_refuses default_scaler \<and> payload_Action (fst (callWebhook (11 * minute) demo_client (snd (callWebhook (10 * minute) demo_client demo_scaler)))) = ''stop''"
  by (rule scaler_delay_never_waits)
    (simp_all add: scaler_refuses_def demo_scaler_def default_scaler_def minute_def second_def HumansOnFrequency_def demo_client_def NewClient_def)

end
