(* ===== verification/Synthesis.thy ===== *)
theory Synthesis
  imports Setup
begin

text \<open>
  Speech synthesis (\<open>pkg/synthesizer/speakers\<close>): what the engines, Piper and the \<open>say\<close> command of macOS, are
  given, and what is made of their sound. The engines and the resampler are parameters. As in \<open>Audio\<close>, a result \<open>None\<close> is
  a panic.
\<close>

section \<open>Resampling\<close>

text \<open>A resampler is made for two rates and a number of channels, and then is written to. Both can fail.\<close>

type_synonym resampler = "real \<Rightarrow> real \<Rightarrow> nat \<Rightarrow> string + (byte list \<Rightarrow> string + byte list)"

definition newRate :: real where "newRate = 16000"

definition downsample :: "resampler \<Rightarrow> byte list \<Rightarrow> real \<Rightarrow> string + byte list" where
  "downsample R sample rate =
     (case R rate newRate 1 of
        Inl err \<Rightarrow> Inl (''failed to create resampler: '' @ err)
      | Inr write \<Rightarrow> (case write sample of
          Inl err \<Rightarrow> Inl (''failed to resample synthesized audio: '' @ err)
        | Inr resampled \<Rightarrow> Inr resampled))"

text \<open>Its output consists of 16-bit samples.\<close>

definition whole_samples :: "resampler \<Rightarrow> bool" where
  "whole_samples R \<longleftrightarrow> (\<forall>old new n write sample out. R old new n = Inr write \<longrightarrow> write sample = Inr out \<longrightarrow> 2 dvd length out)"

section \<open>Piper\<close>

datatype asset = Alan | Jenny

record piperSynth =
  tts :: "string \<Rightarrow> real \<Rightarrow> real \<Rightarrow> string + byte list"
  speed :: real
  pauseLength :: int

definition NewPiperSpeaker ::
    "(asset \<Rightarrow> string + (string \<Rightarrow> real \<Rightarrow> real \<Rightarrow> string + byte list)) \<Rightarrow> Voice \<Rightarrow> real \<Rightarrow> int \<Rightarrow> string + piperSynth" where
  "NewPiperSpeaker piper v playbackSpeed playbackPause =
     (case piper (if v = MasculineVoice then Alan else Jenny) of
        Inl err \<Rightarrow> Inl (''failed to create speaker: '' @ err)
      | Inr engine \<Rightarrow> Inr \<lparr>tts = engine, speed = playbackSpeed, pauseLength = playbackPause\<rparr>)"

definition piper_Say :: "resampler \<Rightarrow> piperSynth \<Rightarrow> string \<Rightarrow> (string + real list) option" where
  "piper_Say R s text =
     (case tts s text (speed s) (of_int (pauseLength s) / 10 ^ 9) of
        Inl err \<Rightarrow> Some (Inl (''failed to synthesize text: '' @ err))
      | Inr synthesized \<Rightarrow> (case downsample R synthesized 22050 of
          Inl err \<Rightarrow> Some (Inl (''failed to downsample synthesized audio: '' @ err))
        | Inr downsampled \<Rightarrow> map_option Inr (S16LEBytesToF32LE downsampled)))"

section \<open>The say command of macOS\<close>

definition DefaultPlaybackSpeed :: real where "DefaultPlaybackSpeed = 1"

record macOSSynth =
  rate :: "real option"
  voice :: string

definition maxRate :: real where "maxRate = 300"
definition defaultRate :: real where "defaultRate = 180"
definition minRate :: real where "minRate = 120"

definition NewMacOSSpeaker :: "bool \<Rightarrow> real \<Rightarrow> macOSSynth" where
  "NewMacOSSpeaker useSystemVoice playbackSpeed =
     (if playbackSpeed \<noteq> DefaultPlaybackSpeed
      then \<lparr>rate = Some
              (if playbackSpeed < 0 then maxRate
               else if playbackSpeed > DefaultPlaybackSpeed then minRate
               else defaultRate +
                 (if playbackSpeed < DefaultPlaybackSpeed then playbackSpeed * (maxRate - defaultRate)
                  else 1 - playbackSpeed * (maxRate - defaultRate))),
            voice = (if \<not> useSystemVoice then ''Samantha'' else [])\<rparr>
      else \<lparr>rate = None, voice = []\<rparr>)"

definition say_args :: "macOSSynth \<Rightarrow> string \<Rightarrow> string \<Rightarrow> string list" where
  "say_args s outFile text =
     [''--output'', outFile] @ (if voice s \<noteq> [] then [''--voice'', voice s] else []) @
     (case rate s of None \<Rightarrow> [] | Some r \<Rightarrow> [''--rate'', format_fixed 1 r]) @ [text]"

text \<open>\<open>file\<close> is the temporary file, \<open>command\<close> the error of the command with these arguments, \<open>decoded\<close> the samples in the file after it and their
  rate.\<close>

definition macos_Say ::
    "resampler \<Rightarrow> string + string \<Rightarrow> (string list \<Rightarrow> string option) \<Rightarrow> string + real list \<times> real \<Rightarrow> macOSSynth \<Rightarrow> string
     \<Rightarrow> (string + real list) option" where
  "macos_Say R file command decoded s text =
     (case file of
        Inl err \<Rightarrow> Some (Inl (''failed to create temporary AIFF file: '' @ err))
      | Inr outFile \<Rightarrow> (case command (say_args s outFile text) of
          Some err \<Rightarrow> Some (Inl (''failed to execute '' @ [CHR 0x27] @ ''say'' @ [CHR 0x27] @ '' command: '' @ err))
        | None \<Rightarrow> (case decoded of
            Inl err \<Rightarrow> Some (Inl (''failed to decode AIFF file: '' @ err))
          | Inr (f32, sample_rate) \<Rightarrow> (case downsample R (F32toS16LEBytes f32) sample_rate of
              Inl err \<Rightarrow> Some (Inl (''failed to downsample audio: '' @ err))
            | Inr sample \<Rightarrow> map_option Inr (S16LEBytesToF32LE sample)))))"

section \<open>Speaking\<close>

lemma downsampled_whole: "whole_samples R \<Longrightarrow> downsample R sample sample_rate = Inr out \<Longrightarrow> 2 dvd length out"
  unfolding downsample_def whole_samples_def by (auto split: sum.splits)

lemma whole_samples_read: "2 dvd length b \<Longrightarrow> \<exists>audio. S16LEBytesToF32LE b = Some audio"
  using pcm_partial_sample_panics [of b] by (cases "S16LEBytesToF32LE b") auto

text \<open>With a resampler that gives whole samples, no text makes either speaker panic: there is an error or there is
  audio.\<close>

theorem speakers_total:
  assumes "whole_samples R"
  shows "piper_Say R s text \<noteq> None \<and> macos_Say R file command decoded m text \<noteq> None"
proof
  show "piper_Say R s text \<noteq> None"
    using downsampled_whole [OF assms] whole_samples_read by (fastforce simp: piper_Say_def split: sum.split)
  show "macos_Say R file command decoded m text \<noteq> None"
    using downsampled_whole [OF assms] whole_samples_read
    by (fastforce simp: macos_Say_def split: sum.split option.split prod.split)
qed

definition demo_resampler :: resampler where
  "demo_resampler old new n = Inr (\<lambda>sample. Inr (take (2 * (length sample div 2)) sample))"

lemma demo_resampler_whole: "whole_samples demo_resampler"
  by (auto simp: whole_samples_def demo_resampler_def)

theorem speakers_total_witness:
  "piper_Say demo_resampler \<lparr>tts = (\<lambda>text speed pause. Inr [1, 2, 3]), speed = 1, pauseLength = 200000000\<rparr> ''magic'' \<noteq> None \<and>
   macos_Say demo_resampler (Inr ''x.aiff'') (\<lambda>_. None) (Inr ([1 / 2], 22050)) (NewMacOSSpeaker False 1) ''magic'' \<noteq> None"
  by (rule speakers_total [OF demo_resampler_whole])

text \<open>The rate of the \<open>say\<close> command does not follow the setting, of which lower values are meant to be faster: below the
  default, a higher value speaks faster, and just below the default the rate is near its maximum, above it at its minimum.\<close>

theorem macos_rate_inverted:
  assumes "0 \<le> a" and "a < b" and "b < 1" and "1 < c"
  shows "\<exists>ra rb rc. rate (NewMacOSSpeaker system a) = Some ra \<and> rate (NewMacOSSpeaker system b) = Some rb \<and>
    rate (NewMacOSSpeaker system c) = Some rc \<and> ra < rb \<and> rc < ra"
  using assms by (simp add: NewMacOSSpeaker_def DefaultPlaybackSpeed_def maxRate_def defaultRate_def minRate_def)

theorem macos_rate_inverted_witness:
  "\<exists>ra rb rc. rate (NewMacOSSpeaker True 0) = Some ra \<and> rate (NewMacOSSpeaker True (1 / 2)) = Some rb \<and>
    rate (NewMacOSSpeaker True 2) = Some rc \<and> ra < rb \<and> rc < ra"
  by (rule macos_rate_inverted) simp_all

text \<open>At the default speed the voice of the system is used, whatever the setting.\<close>

theorem macos_voice_ignored: "NewMacOSSpeaker useSystemVoice 1 = NewMacOSSpeaker (\<not> useSystemVoice) 1"
  by (simp add: NewMacOSSpeaker_def DefaultPlaybackSpeed_def)

end
