(* ===== verification/CommandLine.thy ===== *)
theory CommandLine
  imports Setup
begin

text \<open>
  The command line (\<open>cmd/skyeye/main.go\<close>): the flags with their defaults, and the values they take from the configuration
  file and the environment. pflag and viper are parameters: what a flag makes of a value, and which value the file
  or the environment has for a name. Also the level of the logger (\<open>internal/cli/zerolog.go\<close>).
\<close>

section \<open>Defaults\<close>

text \<open>The flags the configuration is made of (\<open>flags\<close> of \<open>Setup\<close>), before anything is set. The other flags, of the logger, the voice, the locks
  and the addresses of SRS and gRPC, are not part of that record.\<close>

definition default_flags :: flags where
  "default_flags =
     \<lparr>acmiFile = [], telemetryAddress = ''localhost:42674'', telemetryConnectionTimeout = 10 * second,
      telemetryPassword = [], srsExternalAWACSModePassword = [],
      srsFrequencies = [''251.0AM'', ''133.0AM'', ''30.0FM''], enableGRPC = False,
      flag_enableTranscriptionLogging = True, flag_controllerCallsign = [], flag_controllerCallsigns = [],
      coalitionName = enum_flag coalitionFlag, telemetryUpdateInterval = 2 * second,
      recognizerName = enum_flag recognizerFlag, whisperModelPath = [], openAIAPIKey = [],
      mute_flag = False, voiceVolume = voiceVolumeDefault, enableAutomaticPicture = True,
      automaticPictureInterval = 2 * minute, flag_enableThreatMonitoring = True,
      flag_threatMonitoringInterval = 3 * minute, flag_threatMonitoringRequiresSRS = True,
      mandatoryThreatRadiusNM = 25, threatBRAABearingSpreadDeg = 5, threatBRAARangeSpreadNM = 1,
      enableTracing = False, discordWebhookID = [], discordWebhookToken = [],
      exitAfter = 20 * 365 * 24 * 60 * minute, flag_enableTerrainDetection = False,
      locationsFile = [], aircraftFile = []\<rparr>"

section \<open>The configuration file and the environment\<close>

record 'v cli_flag =
  flag_Name :: string
  Changed :: bool
  flag_value :: 'v

text \<open>A value of viper is applied to a flag that is not set; one the flag does not accept is dropped.\<close>

definition bind_flag :: "(string \<Rightarrow> string \<Rightarrow> 'v option) \<Rightarrow> (string \<Rightarrow> string option) \<Rightarrow> 'v cli_flag \<Rightarrow> 'v cli_flag" where
  "bind_flag accept viper f =
     (if Changed f then f
      else case viper (flag_Name f) of
          None \<Rightarrow> f
        | Some val \<Rightarrow> (case accept (flag_Name f) val of
            None \<Rightarrow> f
          | Some v \<Rightarrow> f\<lparr>flag_value := v, Changed := True\<rparr>))"

definition bindFlags :: "(string \<Rightarrow> string \<Rightarrow> 'v option) \<Rightarrow> (string \<Rightarrow> string option) \<Rightarrow> 'v cli_flag list \<Rightarrow> 'v cli_flag list" where
  "bindFlags accept viper fl = map (bind_flag accept viper) fl"

datatype config_file = ConfigRead | NotExist | ConfigError string

definition initializeConfig ::
    "(string \<Rightarrow> string \<Rightarrow> 'v option) \<Rightarrow> (string \<Rightarrow> string option) \<Rightarrow> config_file \<Rightarrow> 'v cli_flag list \<Rightarrow> string + 'v cli_flag list" where
  "initializeConfig accept viper file fl =
     (case file of ConfigError err \<Rightarrow> Inl err | _ \<Rightarrow> Inr (bindFlags accept viper fl))"

definition preRun ::
    "(string \<Rightarrow> string \<Rightarrow> 'v option) \<Rightarrow> (string \<Rightarrow> string option) \<Rightarrow> config_file \<Rightarrow> 'v cli_flag list \<Rightarrow> string + 'v cli_flag list" where
  "preRun accept viper file fl =
     (case initializeConfig accept viper file fl of
        Inl err \<Rightarrow> Inl (''failed to initialize config: '' @ err) | Inr fl \<Rightarrow> Inr fl)"

section \<open>Locks and the logger\<close>

definition loadLock :: "string \<Rightarrow> string option" where
  "loadLock path = (if path = [] then None else Some path)"

datatype Level = ErrorLevel | WarnLevel | InfoLevel | DebugLevel | TraceLevel

definition log_level :: "string \<Rightarrow> Level" where
  "log_level levelName =
     (let name = ToLower levelName in
      if name = ''error'' then ErrorLevel
      else if name = ''warn'' then WarnLevel
      else if name = ''info'' then InfoLevel
      else if name = ''debug'' then DebugLevel
      else if name = ''trace'' then TraceLevel
      else InfoLevel)"

section \<open>Precedence\<close>

lemma bind_flag_again: "bind_flag accept viper (bind_flag accept viper f) = bind_flag accept viper f"
  by (auto simp: bind_flag_def split: option.split)

text \<open>A flag of the command line keeps its value; another takes that of the file or the environment if there is one it
  accepts, or else keeps its default. No flag is lost, and binding again changes nothing.\<close>

theorem flags_precedence:
  assumes "preRun accept viper file fl = Inr fl'"
  shows "map flag_Name fl' = map flag_Name fl \<and> preRun accept viper file fl' = Inr fl' \<and>
    (\<forall>i < length fl. flag_value (fl' ! i) =
       (if Changed (fl ! i) then flag_value (fl ! i)
        else case Option.bind (viper (flag_Name (fl ! i))) (accept (flag_Name (fl ! i))) of
            None \<Rightarrow> flag_value (fl ! i) | Some v \<Rightarrow> v))"
proof -
  have fl': "fl' = map (bind_flag accept viper) fl" and ok: "\<And>xs. preRun accept viper file xs = Inr (map (bind_flag accept viper) xs)"
    using assms by (auto simp: preRun_def initializeConfig_def bindFlags_def split: config_file.splits)
  have "map flag_Name fl' = map flag_Name fl" by (simp add: fl' bind_flag_def split: option.split)
  moreover have "preRun accept viper file fl' = Inr fl'" by (simp add: ok fl' bind_flag_again)
  ultimately show ?thesis by (simp add: fl' bind_flag_def split: option.split)
qed

theorem flags_precedence_witness:
  "\<exists>fl'. preRun (\<lambda>_ v. if v = ''red'' then Some v else None) (\<lambda>_. Some ''red'') NotExist
      [\<lparr>flag_Name = ''coalition'', Changed = True, flag_value = ''blue''\<rparr>] = Inr fl' \<and> flag_value (fl' ! 0) = ''blue''"
proof -
  let ?fl = "[\<lparr>flag_Name = ''coalition'', Changed = True, flag_value = ''blue''\<rparr>]"
  let ?accept = "\<lambda>_ v. if v = ''red'' then Some v else None"
  have r: "preRun ?accept (\<lambda>_. Some ''red'') NotExist ?fl = Inr (bindFlags ?accept (\<lambda>_. Some ''red'') ?fl)"
    by (simp add: preRun_def initializeConfig_def)
  have "flag_value (bindFlags ?accept (\<lambda>_. Some ''red'') ?fl ! 0) = ''blue''" using flags_precedence [OF r] by simp
  with r show ?thesis by blast
qed

section \<open>What is needed to start\<close>

lemma frequency_read:
  assumes "takeWhile frequency_char s = a @ CHR ''.'' # b" and "a \<noteq> []" "list_all IsDigit a" "list_all IsDigit b"
  shows "ParseFloat (takeWhile frequency_char s) = Some (real (decimal_value (a @ b)) / 10 ^ length b)"
  unfolding assms(1) by (rule ParseFloat_point [OF assms(2-4)])

lemma default_frequencies: "\<exists>f. LoadFrequencies (srsFrequencies default_flags) = Inr f \<and> length f = 3"
proof -
  have "ParseFloat (takeWhile frequency_char ''251.0AM'') = Some (real (decimal_value (''251'' @ ''0'')) / 10 ^ length ''0'')"
    by (rule frequency_read, code_simp) (simp_all add: IsDigit_def code_of_def)
  moreover have "ParseFloat (takeWhile frequency_char ''133.0AM'') = Some (real (decimal_value (''133'' @ ''0'')) / 10 ^ length ''0'')"
    by (rule frequency_read, code_simp) (simp_all add: IsDigit_def code_of_def)
  moreover have "ParseFloat (takeWhile frequency_char ''30.0FM'') = Some (real (decimal_value (''30'' @ ''0'')) / 10 ^ length ''0'')"
    by (rule frequency_read, code_simp) (simp_all add: IsDigit_def code_of_def)
  moreover have "decimal_value (''251'' @ ''0'') = 2510" "decimal_value (''133'' @ ''0'') = 1330" "decimal_value (''30'' @ ''0'') = 300"
    by code_simp+
  ultimately have "ParseFloat (takeWhile frequency_char ''251.0AM'') = Some 251" "ParseFloat (takeWhile frequency_char ''133.0AM'') = Some 133"
    "ParseFloat (takeWhile frequency_char ''30.0FM'') = Some 30" by simp_all
  then show ?thesis by (simp add: default_flags_def ParseRadioFrequency_def Let_def)
qed

text \<open>The defaults alone do not start: the local recognizer needs a model. With the model, on a machine that can
  load it, they start, on the blue side, with three radios and full volume.\<close>

theorem defaults_need_model:
  assumes "mach_avx2 M" and "mach_whisper_loads M" and "path \<noteq> []" and "mach_IntN M (length DefaultCallsigns) < length DefaultCallsigns"
  shows "(\<exists>err. config_of_flags u M default_flags = Inl err) \<and>
    (\<exists>config. config_of_flags u M (default_flags\<lparr>whisperModelPath := path\<rparr>) = Inr config \<and>
       conf_Coalition config = Blue \<and> conf_Volume config = 1 \<and> length (conf_SRSFrequencies config) = 3)"
proof -
  obtain f where f: "LoadFrequencies (srsFrequencies default_flags) = Inr f" "length f = 3" using default_frequencies by blast
  have side: "loadCoalition (coalitionName default_flags) = Inr Blue"
    by (simp add: default_flags_def coalitionFlag_def NewEnum_def loadCoalition_def)
  have model: "recognizerName default_flags = WhisperLocal" "whisperModelPath default_flags = []"
    by (simp_all add: default_flags_def recognizerFlag_def NewEnum_def)
  have "list_all (\<lambda>c. c \<noteq> []) DefaultCallsigns" by (simp add: DefaultCallsigns_def)
  then have "DefaultCallsigns ! mach_IntN M (length DefaultCallsigns) \<noteq> []" using assms(4) by (simp add: list_all_length)
  then obtain callsign where callsign:
    "loadCallsign (mach_IntN M) (flag_controllerCallsign default_flags) (flag_controllerCallsigns default_flags) = Inr callsign"
    by (simp add: loadCallsign_def default_flags_def Let_def)
  have rest: "voiceVolume default_flags = 1" "locationsFile default_flags = []" "aircraftFile default_flags = []"
    by (simp_all add: default_flags_def voiceVolumeDefault_def)
  show ?thesis
    using assms(1-3) f
    by (simp add: config_of_flags_def side model callsign rest loadWhisperModel_def loadLocations_def loadAircraft_def
        loadVoiceVolume_def voiceVolumeMin_def voiceVolumeDefault_def)
qed

theorem defaults_need_model_witness:
  "(\<exists>err. config_of_flags si_units (demo_machine\<lparr>mach_whisper_loads := True\<rparr>) default_flags = Inl err) \<and>
   (\<exists>config. config_of_flags si_units (demo_machine\<lparr>mach_whisper_loads := True\<rparr>) (default_flags\<lparr>whisperModelPath := ''ggml''\<rparr>) = Inr config \<and>
     conf_Coalition config = Blue \<and> conf_Volume config = 1 \<and> length (conf_SRSFrequencies config) = 3)"
  by (rule defaults_need_model) (simp_all add: demo_machine_def DefaultCallsigns_def)

end
