(* ===== verification/OverTheAir.thy ===== *)
theory OverTheAir
  imports SrsTransmit Audio
begin

text \<open>
  Two SRS clients talking: what one sends of a recording (\<open>pkg/simpleradio/voice.go\<close>, \<open>frame.go\<close>,
  \<open>transmit.go\<close>) is what the other hands to its decoder (\<open>receive.go\<close>, \<open>voice.go\<close>), through the bytes
  of the datagrams. The Opus encoder gets 16-bit samples and a buffer, the decoder fills a frame. The theory also holds the loop that
  reads the messages of the server (\<open>net.go\<close>, \<open>receiveTCP\<close>).
\<close>

section \<open>Opus frames\<close>

definition encodingBufferSize :: nat where "encodingBufferSize = 1024"

definition encodeFrame :: "('e \<Rightarrow> i16 list \<Rightarrow> nat \<Rightarrow> 'e \<times> byte list option) \<Rightarrow> 'e encoder" where
  "encodeFrame opus e f32le =
     (case opus e (F32toS16LE f32le) encodingBufferSize of
        (e, None) \<Rightarrow> (e, None)
      | (e, Some b) \<Rightarrow> (e, Some (take encodingBufferSize b)))"

definition decodeFrame :: "('d \<Rightarrow> byte list \<Rightarrow> nat \<Rightarrow> 'd \<times> real list option) \<Rightarrow> 'd decoder" where
  "decodeFrame opus d b =
     (case opus d b frameSize of
        (d, None) \<Rightarrow> (d, None)
      | (d, Some f32le) \<Rightarrow> (d, Some (take (frameSize * channels) f32le)))"

lemma encodeFrame_bound: "case snd (encodeFrame opus e f) of None \<Rightarrow> True | Some b \<Rightarrow> length b \<le> 1024"
  by (simp add: encodeFrame_def encodingBufferSize_def split: prod.splits option.splits)

text \<open>What a transmission decodes to is as long as its packets last at most, 40 ms each.\<close>

lemma decoded_length: "length (decode_frames (decodeFrame opus) d ps) \<le> frameSize * length ps"
proof (induction ps arbitrary: d)
  case (Cons p ps)
  obtain d' r where r: "decodeFrame opus d (AudioBytes p) = (d', r)" by (cases "decodeFrame opus d (AudioBytes p)")
  have "length (case r of None \<Rightarrow> [] | Some pcm \<Rightarrow> pcm) \<le> frameSize"
    using r by (auto simp: decodeFrame_def channels_def split: prod.splits option.splits)
  then show ?case using Cons.IH [of d'] r by simp
qed simp

section \<open>The messages of the server\<close>

text \<open>A read is an error, after which the reader is made again, or a line, which may not be a message.\<close>

datatype tcp_read = ReadLine "byte list" | ReadError string

fun receiveTCP :: "(byte list \<Rightarrow> string + Message) \<Rightarrow> (Message \<Rightarrow> bool) \<Rightarrow> tcp_read list \<Rightarrow> Client \<Rightarrow> Client" where
  "receiveTCP unmarshal tcp [] c = c"
| "receiveTCP unmarshal tcp (ReadError err # reads) c = receiveTCP unmarshal tcp reads c"
| "receiveTCP unmarshal tcp (ReadLine line # reads) c =
     (case unmarshal line of
        Inl jsonErr \<Rightarrow> receiveTCP unmarshal tcp reads c
      | Inr message \<Rightarrow> receiveTCP unmarshal tcp reads (handleMessage tcp message c))"

text \<open>Errors and lines that are no message do not disturb the table of peers.\<close>

lemma receiveTCP_peers_ok [inv_intros]: "peers_ok c \<Longrightarrow> peers_ok (receiveTCP unmarshal tcp reads c)"
  by (induction unmarshal tcp reads c rule: receiveTCP.induct) (auto simp: handleMessage_peers_ok split: sum.split)

section \<open>From one client to the other\<close>

lemma write_packets_data:
  assumes "list_all wf_packet ps"
  shows "\<exists>ds. write_packets (\<lambda>_. Written) start now i ps = Some ds \<and> map snd ds = map (\<lambda>p. wire p 0) ps"
  using assms
proof (induction ps arbitrary: now i)
  case (Cons p ps)
  then obtain ds where "write_packets (\<lambda>_. Written) start (max now (start + int i * frameLength - frameLength div 2)) (i + 1) ps = Some ds"
    "map snd ds = map (\<lambda>p. wire p 0) ps" by fastforce
  then show ?case using Cons.prems by (simp add: Encode_wire Let_def)
qed simp

lemma deliver_blocked [simp]: "is_blocked p (deliver f64 t q c) = is_blocked p c"
  by (simp add: is_blocked_def deliver_def cong: option.case_cong)

lemma datagrams_delivered:
  assumes "list_all (\<lambda>p. wf_packet p \<and> length (wire p 0) \<le> 1500 \<and> \<not> is_blocked p c) ps" and "length arrivals = length ps"
  shows "fold (\<lambda>(t, b). voice_datagram f64 t (take 1500 b)) (zip arrivals (map (\<lambda>p. wire p 0) ps)) c =
    fold (\<lambda>(t, p). deliver f64 t p) (zip arrivals ps) c"
  using assms(2, 1)
proof (induction arrivals ps arbitrary: c rule: list_induct2)
  case (Cons t arrivals p ps)
  have "voice_datagram f64 t (take 1500 (wire p 0)) c = deliver f64 t p c"
    using Cons.prems by (simp add: voice_datagram_def Decode_wire)
  then show ?case using Cons.IH [of "deliver f64 t p c"] Cons.prems by simp
qed simp

text \<open>Numbers that do not wrap are in order.\<close>

lemma numbers_sorted:
  fixes n :: u64
  assumes "unat n + k \<le> 2 ^ 64"
  shows "sorted_wrt (<) (map (\<lambda>i. n + of_nat i) [0..<k])"
proof -
  have "n + of_nat i < n + (of_nat j :: u64)" if "i < j" "j < k" for i j
  proof -
    have u: "unat (n + of_nat m :: u64) = unat n + m" if "m < k" for m
    proof -
      have "unat (of_nat m :: u64) = m" using that assms by (simp add: unat_of_nat take_bit_nat_eq_self)
      then show ?thesis using that assms by (subst unat_add_lem [THEN iffD1]) simp_all
    qed
    show ?thesis using that u [of i] u [of j] by (simp add: word_less_nat_alt)
  qed
  then show ?thesis by (simp add: sorted_wrt_map sorted_wrt_iff_nth_less)
qed

lemma encode_frames_audio:
  assumes "encode_frames enc fl e fs c = (c', ps)"
    and "\<And>e f. case snd (enc e f) of None \<Rightarrow> True | Some b \<Rightarrow> length b \<le> 1024" and "length fl \<le> 1000"
  shows "list_all (\<lambda>p. length (AudioBytes p) \<le> 1024) ps"
  using assms(1)
proof (induction enc\<equiv>enc fl\<equiv>fl e fs c arbitrary: c' ps rule: encode_frames.induct)
  case (2 e frame rest c)
  obtain e' result where e: "enc e frame = (e', result)" by (cases "enc e frame")
  show ?case
  proof (cases result)
    case None
    then show ?thesis using 2(1) [OF e [symmetric] _ None] 2(3) e by simp
  next
    case (Some audioBytes)
    have "length audioBytes \<le> 1024" using assms(2) [of e frame] e Some by simp
    then show ?thesis using 2(2) [OF e [symmetric] _ Some] 2(3) e Some assms(3)
      by (auto simp: Let_def NewPacket_fields split: prod.splits)
  qed
qed simp

lemma encoded_packets:
  assumes "encodeVoice (encodeFrame opus) bits (Some e) audio a = (a', Some ps)"
    and "length (client_GUID (clientInfo a)) = GUIDLength"
    and "length (Radios (client_RadioInfo (clientInfo a))) \<le> 41"
  shows "list_all (\<lambda>p. wf_packet p \<and> length (wire p 0) \<le> 1500 \<and> OriginGUID p = client_GUID (clientInfo a) \<and>
      Frequencies p = frequency_list bits a) ps \<and>
    map PacketID ps = map (\<lambda>i. tx_packetNumber a + of_nat i) [0..<length ps]"
proof -
  have e: "encode_frames (encodeFrame opus) (frequency_list bits a) e (frames audio) a = (a', ps)"
    using assms(1) by (auto simp: encodeVoice_def split: prod.splits)
  have wire_size: "length (wire p 0) = 64 + length (AudioBytes p) + 10 * length (Frequencies p)" if "wf_packet p" for p
    using length_wire [OF that] that by (simp add: wf_packet_def)
  have l: "length (frequency_list bits a) \<le> 41" using assms(3) by (simp add: frequency_list_def)
  then have "list_all (\<lambda>p. wf_packet p \<and> OriginGUID p = client_GUID (clientInfo a) \<and> Frequencies p = frequency_list bits a) ps"
    by (intro encode_frames_packets [OF e encodeFrame_bound _ assms(2)]) simp
  moreover have "list_all (\<lambda>p. length (AudioBytes p) \<le> 1024) ps"
    by (rule encode_frames_audio [OF e encodeFrame_bound]) (use l in simp)
  ultimately have "list_all (\<lambda>p. wf_packet p \<and> length (wire p 0) \<le> 1500 \<and> OriginGUID p = client_GUID (clientInfo a) \<and>
      Frequencies p = frequency_list bits a) ps"
    using l wire_size by (fastforce simp: list_all_iff)
  then show ?thesis using encode_frames_ids [OF e] by simp
qed


section \<open>A transmission of 26 frames\<close>

lemma frames_silence: "length (frames (replicate (640 * n) 0)) = n"
proof (induction n)
  case (Suc n)
  have "replicate (640 * Suc n) (0 :: real) \<noteq> []" by simp
  moreover have "drop 640 (replicate (640 * Suc n) (0 :: real)) = replicate (640 * n) 0" by simp
  ultimately show ?case using Suc by (subst frames.simps) (simp add: Let_def)
qed (simp add: frames.simps)

definition demo_opus :: "unit \<Rightarrow> i16 list \<Rightarrow> nat \<Rightarrow> unit \<times> byte list option" where
  "demo_opus e samples n = (e, Some [1, 2])"

definition demo_opus_decoder :: "unit \<Rightarrow> byte list \<Rightarrow> nat \<Rightarrow> unit \<times> real list option" where
  "demo_opus_decoder d b n = (d, Some (replicate n 0))"

definition demo_sender :: Client where
  "demo_sender = NewClient (replicate 22 2) 0 \<lparr>config_ClientName = ''Hitman 1-1'', config_EAMPassword = [],
     config_Coalition = Blue, config_Radios = [demo_radio], config_Mute = False\<rparr>"

lemma encode_all: "length (snd (encode_frames (encodeFrame demo_opus) fl e fs c)) = length fs"
  by (induction fs arbitrary: e c) (auto simp: encodeFrame_def demo_opus_def Let_def split: prod.splits, metis snd_conv)


end
