(* ===== verification/Recognition.thy ===== *)
theory Recognition
  imports OverTheAir
begin

text \<open>
  Speech recognition (\<open>pkg/recognizer\<close>): what the two engines are given and what is made of their answers.
  The OpenAI service and whisper.cpp are parameters. What the SRS client receives fits both.
\<close>

section \<open>Recognizers\<close>

text \<open>The service is called with a key and the parameters of a request, and answers with an error or a text.\<close>

record transcription_params =
  param_File :: "byte list"
  param_Model :: string
  param_Language :: string
  param_Prompt :: string

definition openai_Recognize ::
    "(transcription_params \<Rightarrow> string + string) \<Rightarrow> string \<Rightarrow> string \<Rightarrow> string list \<Rightarrow> real list \<Rightarrow> string \<times> string option" where
  "openai_Recognize api model callsign locations sample =
     (case createWAV sample of
        Inl err \<Rightarrow> ([], Some (''error creating WAV: '' @ err))
      | Inr buf \<Rightarrow>
          (case api \<lparr>param_File = buf, param_Model = model, param_Language = ''en'', param_Prompt = prompt callsign locations\<rparr> of
             Inl err \<Rightarrow> ([], Some (''error transcribing audio: '' @ err))
           | Inr text \<Rightarrow> (text, None)))"

text \<open>The local model: an error when its context is made, whether it knows other languages than English, and what it does with
  a prompt, a language if one is set, and a sample, an error or segments.\<close>

record whisper_model =
  context_error :: "string option"
  IsMultilingual :: bool
  Process :: "string \<Rightarrow> string option \<Rightarrow> real list \<Rightarrow> string + segment list"

definition whisper_Recognize :: "whisper_model \<Rightarrow> string \<Rightarrow> string list \<Rightarrow> real list \<Rightarrow> string \<times> string option" where
  "whisper_Recognize m callsign locations sample =
     (let sample = clamp_sample sample in
      case context_error m of
        Some err \<Rightarrow> ([], Some (''error creating whisper context: '' @ err))
      | None \<Rightarrow>
          (case Process m (prompt callsign locations) (if IsMultilingual m then Some ''en'' else None) sample of
             Inl err \<Rightarrow> ([], Some (''error processing sample: '' @ err))
           | Inr segments \<Rightarrow> join_segments [] segments))"

definition Recognize ::
    "(string \<Rightarrow> transcription_params \<Rightarrow> string + string) \<Rightarrow> whisper_model \<Rightarrow> Recognizer \<Rightarrow> real list \<Rightarrow> string \<times> string option" where
  "Recognize api m r sample =
     (case r of
        OpenAIRecognizer apiKey model callsign locations \<Rightarrow> openai_Recognize (api apiKey) model callsign locations sample
      | WhisperRecognizer callsign locations \<Rightarrow> whisper_Recognize m callsign locations sample)"

section \<open>What is received fits the engines\<close>

lemma createWAV_short: "length sample \<le> 10 ^ 6 \<Longrightarrow> \<exists>file. createWAV sample = Inr file"
proof -
  assume "length sample \<le> 10 ^ 6"
  moreover have l: "length (F32toS16LE sample) = length sample" by (simp add: F32toS16LE_def)
  moreover have "length (concat (map (le_put 2) (F32toS16LE sample))) = 2 * length sample"
    unfolding length_sample_bytes l ..
  ultimately show ?thesis by (simp add: createWAV_def Let_def wav_defs wav_sizes MaxInt32_def)
qed

lemma published_length:
  assumes "srs_reachable f64 tcp (NewClient guid now config) s" and "ps \<in> set (rxVoice s)"
    and "decodeVoice (decodeFrame opus) (Some d) ps c = Some t"
  shows "0 < length (Audio t) \<and> length (Audio t) \<le> 480000"
proof -
  have "length ps \<le> 750" using srs_reachable_ok [OF assms(1)] assms(2) by (auto simp: srs_ok_def list_all_iff publishable_def one_speaker_def)
  moreover have "length (Audio t) \<le> 640 * length ps" "0 < length (Audio t)"
    using assms(3) decoded_length [of opus d ps] by (auto simp: decodeVoice_def Let_def split: if_splits)
  ultimately show ?thesis by linarith
qed

text \<open>C30. Whatever the SRS client receives, every transmission it publishes fits the recognizers: the local model gets it whole, not cut at
  30 seconds, a WAV file can be made of it, and recognition fails only if the engine does.\<close>

theorem transmissions_fit_recognizers:
  assumes "srs_reachable f64 tcp (NewClient guid now config) s" and "ps \<in> set (rxVoice s)"
    and "decodeVoice (decodeFrame opus) (Some d) ps c = Some t"
  shows "Audio t \<noteq> [] \<and> clamp_sample (Audio t) = Audio t \<and> (\<exists>wav. createWAV (Audio t) = Inr wav) \<and>
    (snd (Recognize api m r (Audio t)) = None \<longleftrightarrow>
       (case r of
          OpenAIRecognizer apiKey model callsign locations \<Rightarrow>
            (\<exists>wav text. createWAV (Audio t) = Inr wav \<and> api apiKey \<lparr>param_File = wav, param_Model = model,
               param_Language = ''en'', param_Prompt = prompt callsign locations\<rparr> = Inr text)
        | WhisperRecognizer callsign locations \<Rightarrow> context_error m = None \<and>
            (\<exists>segments. Process m (prompt callsign locations) (if IsMultilingual m then Some ''en'' else None) (Audio t) = Inr segments \<and>
               snd (join_segments [] segments) = None)))"
proof -
  note l = published_length [OF assms]
  have clamp: "clamp_sample (Audio t) = Audio t" using l by (simp add: clamp_sample_def maxSize_def)
  obtain wav where wav: "createWAV (Audio t) = Inr wav" using createWAV_short [of "Audio t"] l by auto
  show ?thesis
    using l clamp wav
    by (cases r) (auto simp: Recognize_def openai_Recognize_def whisper_Recognize_def split: sum.split option.split)
qed

section \<open>A transmission that is recognized\<close>

definition demo_whisper :: whisper_model where
  "demo_whisper = \<lparr>context_error = None, IsMultilingual = False, Process = (\<lambda>p l x. Inr [Segment ''picture''])\<rparr>"

theorem transmissions_fit_recognizers_witness:
  "\<exists>(s :: Srs) ps t. ps \<in> set (rxVoice s) \<and> decodeVoice (decodeFrame demo_opus_decoder) (Some ()) ps demo_client = Some t \<and>
     clamp_sample (Audio t) = Audio t \<and>
     snd (Recognize (\<lambda>_ _. Inl []) demo_whisper (WhisperRecognizer ''Magic'' []) (Audio t)) = None"
proof -
  let ?s = "\<lparr>client = demo_client, pingChan = [], voiceChan = [], rxVoice = [map snd demo_speech]\<rparr>"
  let ?c = "fold (\<lambda>(t, p). deliver demo_f64 t p) demo_speech demo_client"
  let ?s0 = "\<lparr>client = ?c, pingChan = [], voiceChan = [], rxVoice = []\<rparr>"
  let ?t1 = "?s0\<lparr>client := demo_client, rxVoice := rxVoice ?s0 @ [map snd demo_speech]\<rparr>"
  have r: "srs_reachable demo_f64 (\<lambda>_. True) demo_client ?t1"
    by (rule reach_step [OF demo_run step_tick [where now = "10 ^ 9"]]) (use demo_tick in simp_all)
  have in_s: "map snd demo_speech \<in> set (rxVoice ?t1)" by simp
  have "decode_frames (decodeFrame demo_opus_decoder) () ps = replicate (640 * length ps) 0" for ps
    by (induction ps) (simp_all add: decodeFrame_def demo_opus_decoder_def channels_def flip: replicate_add)
  then obtain t where t: "decodeVoice (decodeFrame demo_opus_decoder) (Some ()) (map snd demo_speech) demo_client = Some t"
    using demo_speech_ok(3) by (simp add: decodeVoice_def)
  note fits = transmissions_fit_recognizers [OF r [unfolded demo_client_def] in_s [unfolded demo_client_def] t,
    of "\<lambda>_ _. Inl []" demo_whisper "WhisperRecognizer ''Magic'' []"]
  show ?thesis
  proof (intro exI conjI)
    show "clamp_sample (Audio t) = Audio t" using fits by simp
    show "snd (Recognize (\<lambda>_ _. Inl []) demo_whisper (WhisperRecognizer ''Magic'' []) (Audio t)) = None"
      using fits by (simp add: demo_whisper_def)
  qed (rule in_s, rule t)
qed

end
