(* ===== verification/Feed.thy ===== *)
theory Feed
  imports Application
begin

text \<open>
  How the telemetry client, the radar and the controller work together (\<open>internal/application/app.go\<close>,
  \<open>pkg/radar\<close>, \<open>pkg/controller\<close>): what the client sends is fed to the radar, whose goroutines run in
  between, and the start of a mission reaches the controller through the radar's callback.
\<close>

section \<open>The radar never panics on telemetry\<close>

definition known_side :: "sim_event \<Rightarrow> bool" where
  "known_side e \<longleftrightarrow> (\<forall>labels f. e = SimUpdated labels f \<longrightarrow> label_Coalition labels \<in> set all_coalitions)"

lemma collected_sides:
  "collect_all A c xs = Some us \<Longrightarrow> (labels, f) \<in> set us \<Longrightarrow> label_Coalition labels \<in> set all_coalitions"
proof (induction xs arbitrary: us)
  case (Cons x xs)
  then obtain u us' where u: "collect_object A c x = Some u" "collect_all A c xs = Some us'"
    "us = (case u of None \<Rightarrow> us' | Some u \<Rightarrow> u # us')" by (auto split: option.splits)
  have "u = Some (labels, f) \<Longrightarrow> label_Coalition labels \<in> set all_coalitions"
    using u(1) by (auto simp: collect_object_def Let_def propertyToCoalition_def all_coalitions_def split: option.splits sum.splits if_splits)
  then show ?case using Cons.IH [OF u(2)] Cons.prems(2) u(3) by (auto split: option.splits)
qed simp

lemma stream_step_sides: "stream_step A now i c = Some (e, c', events) \<Longrightarrow> \<forall>ev \<in> set events. known_side ev"
proof (cases i)
  case (Line l)
  assume "stream_step A now i c = Some (e, c', events)"
  then have "handleLine A now l c = (e, c', events)" using Line by simp
  then show ?thesis by (cases rule: handleLine_cases) (auto simp: known_side_def split: option.splits)
next
  case SendUpdates
  assume "stream_step A now i c = Some (e, c', events)"
  then show ?thesis using SendUpdates collected_sides by (fastforce simp: known_side_def collectUpdates_def)
qed (auto simp: known_side_def)

lemma stream_run_sides: "stream_run A inputs c = Some (c', events) \<Longrightarrow> \<forall>ev \<in> set events. known_side ev"
proof (induction inputs arbitrary: c events)
  case (Cons x inputs)
  obtain now inp where "x = (now, inp)" by fastforce
  with Cons.prems obtain e c1 ev later where "stream_step A now inp c = Some (e, c1, ev)"
    "stream_run A inputs c1 = Some (c', later)" "events = ev @ later" by (auto split: option.splits)
  then show ?case using Cons.IH stream_step_sides by fastforce
qed simp

lemma radar_receive_some:
  assumes "radar_ok r" and "counting_push (lib_push L)" and "known_side e"
  shows "\<exists>r' events. radar_receive L now e r = Some (r', events) \<and> radar_ok r'"
proof (cases e)
  case SimStarted
  then show ?thesis using handleStarted_ok [OF assms(1)] by (auto simp: prod_eq_iff)
next
  case (SimUpdated labels frame)
  have "\<exists>r'. handleUpdate L labels frame r = Some r'"
    using assms(1,3) db_set_some [of "db r" "NewTrackfile labels"]
    by (auto simp: SimUpdated handleUpdate_def known_side_def radar_ok_def NewTrackfile_def split: option.split)
  then show ?thesis using handleUpdate_ok [OF assms(1,2)] SimUpdated by auto
next
  case (SimFaded i)
  then show ?thesis using receive_fade_ok [OF assms(1)] by simp
qed

text \<open>The feed of a list of events, without what else the radar does.\<close>

fun radar_feed :: "radar_lib \<Rightarrow> int \<Rightarrow> sim_event list \<Rightarrow> Radar \<Rightarrow> Radar option" where
  "radar_feed L now [] r = Some r"
| "radar_feed L now (e # es) r = (case radar_receive L now e r of None \<Rightarrow> None | Some (r', _) \<Rightarrow> radar_feed L now es r')"

lemma radar_feed_ok:
  assumes "\<forall>ev \<in> set events. known_side ev" and "radar_ok r" and "counting_push (lib_push L)"
  shows "\<exists>r'. radar_feed L now events r = Some r' \<and> radar_ok r'"
  using assms(1,2)
proof (induction events arbitrary: r)
  case (Cons e es)
  obtain r' out where "radar_receive L now e r = Some (r', out)" "radar_ok r'"
    using radar_receive_some [OF Cons.prems(2) assms(3)] Cons.prems(1) by (meson list.set_intros(1))
  then show ?case using Cons.IH Cons.prems(1) by simp
qed simp

text \<open>Whatever lines a telemetry client reads, and however its updates and restarts fall between them, the
  radar takes everything the client sends without a panic and stays well formed.\<close>

theorem radar_accepts_telemetry:
  assumes "stream_run A inputs c = Some (c', events)" and "radar_ok r" and "counting_push (lib_push L)"
  shows "\<exists>r'. radar_feed L now events r = Some r' \<and> radar_ok r'"
  using radar_feed_ok stream_run_sides [OF assms(1)] assms(2,3) by blast

section \<open>Where contacts come from\<close>

text \<open>The radar of an application: the events it was fed with so far, and its state, with the other steps of
  its goroutines in between.\<close>

inductive fed :: "radar_lib \<Rightarrow> sim_event list \<Rightarrow> Radar \<Rightarrow> bool" for L where
  new: "fed L [] (NewRadar coalition mandatory bearing_spread range_spread detection srs)"
| event: "fed L es r \<Longrightarrow> radar_receive L now e r = Some (r', events) \<Longrightarrow> fed L (es @ [e]) r'"
| ticked: "fed L es r \<Longrightarrow> fade_tick L now r = (r', events) \<Longrightarrow> fed L es r'"
| collected: "fed L es r \<Longrightarrow> handleGarbageCollection L r = (r', events) \<Longrightarrow> fed L es r'"
| centered: "fed L es r \<Longrightarrow> fed L es (updateCenterPoint L r)"
| mission_time: "fed L es r \<Longrightarrow> fed L es (SetMissionTime t r)"
| bullseye: "fed L es r \<Longrightarrow> fed L es (SetBullseye L pt coalition r)"
| callbacks: "fed L es r \<Longrightarrow> fed L es (r\<lparr>startedCallback := s, fadedCallback := f, removalCallback := m\<rparr>)"

definition explained :: "sim_event list \<Rightarrow> u64 \<Rightarrow> Labels \<Rightarrow> bool" where
  "explained es i labels \<longleftrightarrow>
     (\<exists>before f after. es = before @ SimUpdated labels f # after \<and> SimStarted \<notin> set after) \<and> label_ID labels = i"

lemma explained_snoc: "explained es i labels \<Longrightarrow> e \<noteq> SimStarted \<Longrightarrow> explained (es @ [e]) i labels"
  by (force simp: explained_def)

lemma gc_keeps: "getByID i (db (fst (handleGarbageCollection L r))) = Some t \<Longrightarrow> getByID i (db r) = Some t"
proof -
  have "map_of (contacts (fst (fold (collect_step now) ts s))) i = Some t \<Longrightarrow> map_of (contacts (fst s)) i = Some t" for now ts s
  proof (induction ts arbitrary: s)
    case (Cons u ts)
    then have "map_of (contacts (fst (collect_step now u s))) i = Some t" by simp
    moreover obtain d removed where "s = (d, removed)" by (cases s)
    ultimately show ?case
      using db_delete_contacts [of "tf_ID u" d]
      by (cases "db_delete (tf_ID u) d") (auto simp: collect_step_def Let_def split: if_splits)
  qed simp
  note keeps = this
  assume h: "getByID i (db (fst (handleGarbageCollection L r))) = Some t"
  obtain d removed where f: "fold (collect_step (missionTime r)) (scope_values L r []) (db r, []) = (d, removed)" by fastforce
  show "getByID i (db r) = Some t"
    using h keeps [of "missionTime r" "scope_values L r []" "(db r, [])"]
    by (cases "length (pendingFades r) > 0") (simp_all add: handleGarbageCollection_def getByID_def f)
qed

lemma receive_fade_db: "db (receive_fade now j r) = db r"
  by (simp add: receive_fade_def Let_def split: option.split)

lemma update_explained:
  assumes "\<And>i t. getByID i (db r) = Some t \<Longrightarrow> explained es i (Contact t)"
    and up: "handleUpdate L labels frame r = Some r'" and "getByID i (db r') = Some t"
  shows "explained (es @ [SimUpdated labels frame]) i (Contact t)"
proof -
  have new_contact: "explained (es @ [SimUpdated labels frame]) (label_ID labels) labels"
    by (force simp: explained_def)
  show ?thesis
  proof (cases "getByID (label_ID labels) (db r)")
    case None
    then obtain d where d: "db_set (NewTrackfile labels) (db r) = Some d" "r' = r\<lparr>db := d\<rparr>"
      using up by (auto simp: handleUpdate_def)
    show ?thesis
      using assms(3) assms(1) [of i t] new_contact explained_snoc [of es i "Contact t"] db_set_contacts [OF d(1)]
      by (auto simp: d(2) getByID_def NewTrackfile_def split: if_splits)
  next
    case (Some old)
    then have r': "r' = r\<lparr>db := db_modify (label_ID labels) (Update (lib_push L) frame) (db r)\<rparr>"
      using up by (simp add: handleUpdate_def)
    show ?thesis
      using assms(3) assms(1) [of i] explained_snoc [of es i]
      by (auto simp: r' getByID_def db_modify_contacts Update_Contact split: if_splits)
  qed
qed

lemma event_explained:
  assumes "\<And>i t. getByID i (db r) = Some t \<Longrightarrow> explained es i (Contact t)"
    and "radar_receive L now e r = Some (r', events)" and "getByID i (db r') = Some t"
  shows "explained (es @ [e]) i (Contact t)"
proof (cases e)
  case SimStarted
  then show ?thesis using assms(2,3) by (auto simp: handleStarted_def db_reset_def getByID_def)
next
  case (SimFaded j)
  then have "getByID i (db r) = Some t" using assms(2,3) by (auto simp: receive_fade_db)
  then show ?thesis using assms(1) explained_snoc SimFaded by blast
next
  case (SimUpdated labels frame)
  have "handleUpdate L labels frame r = Some r'" using assms(2) SimUpdated by auto
  from update_explained [OF assms(1) this assms(3)] show ?thesis by (simp add: SimUpdated)
qed

lemma fed_explained: "fed L es r \<Longrightarrow> getByID i (db r) = Some t \<Longrightarrow> explained es i (Contact t)"
proof (induction arbitrary: i t rule: fed.induct)
  case (new coalition mandatory bearing_spread range_spread detection srs)
  then show ?case by (simp add: NewRadar_def newContactDatabase_def db_reset_def getByID_def)
next
  case (event es r now e r' events)
  show ?case by (rule event_explained [OF event.IH event.hyps(2) event.prems])
next
  case (ticked es r now r' events)
  then show ?case using fade_tick_contacts [of i L now r] by (auto split: if_splits)
next
  case (collected es r r' events)
  then show ?case using gc_keeps [of i L r t] by simp
qed (auto simp: updateCenterPoint_def SetMissionTime_def SetBullseye_def Let_def split: if_splits prod.splits)

text \<open>Every contact of the radar was reported by the telemetry since the last start of a mission, under its
  identifier, and has the labels of such a report.\<close>

theorem contacts_from_telemetry:
  assumes "fed L es r" and "getByID i (db r) = Some t"
  shows "\<exists>before f after. es = before @ SimUpdated (Contact t) f # after \<and> SimStarted \<notin> set after \<and> label_ID (Contact t) = i"
  using fed_explained [OF assms] by (auto simp: explained_def)

lemma demo_coalition_known: "known_side (SimUpdated \<lparr>label_ID = 7, label_Name = ''F-16'', label_Coalition = Red, label_ACMIName = ''F-16''\<rparr> f)"
  by (simp add: known_side_def all_coalitions_def)

lemma demo_stream_sent:
  "\<exists>labels f. stream_run demo_acmi [demo_line ''7'', (2, SendUpdates)] (newStreamingClient 2) = Some (demo_streaming, [SimUpdated labels f])"
proof -
  obtain e where "stream_step demo_acmi 1 (Line ''7'') (newStreamingClient 2) = Some (e, demo_streaming, [])"
    using demo_updated_stream by (auto split: option.splits prod.splits)
  then show ?thesis by (simp add: demo_collected)
qed

theorem radar_accepts_telemetry_witness:
  "\<exists>labels f r'. radar_feed demo_radar_lib 5 [SimUpdated labels f] (NewRadar Blue 1 2 3 False None) = Some r' \<and> radar_ok r'"
proof -
  obtain labels f where s: "stream_run demo_acmi [demo_line ''7'', (2, SendUpdates)] (newStreamingClient 2) = Some (demo_streaming, [SimUpdated labels f])"
    using demo_stream_sent by blast
  have "radar_ok (NewRadar Blue 1 2 3 False None)" using reachable_ok [OF radar_reachable.new demo_push_lib] .
  from radar_accepts_telemetry [OF s this demo_push_lib] show ?thesis by blast
qed

theorem contacts_from_telemetry_witness:
  "\<exists>labels f r t. fed demo_radar_lib [SimUpdated labels f] r \<and> getByID 7 (db r) = Some t \<and> label_ID (Contact t) = 7"
proof -
  let ?labels = "\<lparr>label_ID = 7, label_Name = ''F-16'', label_Coalition = Red, label_ACMIName = ''F-16''\<rparr>"
  let ?r = "NewRadar Blue 1 2 3 False None"
  have ok: "radar_ok ?r" using reachable_ok [OF radar_reachable.new demo_push_lib] .
  obtain r events where r: "radar_receive demo_radar_lib 5 (SimUpdated ?labels f) ?r = Some (r, events)"
    using radar_receive_some [OF ok demo_push_lib demo_coalition_known] by blast
  then have fed: "fed demo_radar_lib ([] @ [SimUpdated ?labels f]) r" by (rule fed.event [OF fed.new])
  have "getByID 7 (db ?r) = None" by (simp add: NewRadar_def newContactDatabase_def db_reset_def getByID_def)
  then have "getByID 7 (db r) = Some (NewTrackfile ?labels)"
    using r db_set_contacts by (fastforce simp: handleUpdate_def getByID_def NewTrackfile_def)
  with contacts_from_telemetry [OF fed this] fed show ?thesis by auto
qed

section \<open>A new mission\<close>

text \<open>C27. When the telemetry reports the start of a mission, nothing of the last one is left: no contact on the
  radar, no merge and no cooldown in the controller, and nothing is said.\<close>

theorem new_mission_forgets:
  assumes "startedCallback (scope c)" and "radar_receive (ctl_radar C) now SimStarted (scope c) = Some (r', events)"
    and "run_each (handle_event C) events (c\<lparr>scope := r'\<rparr>) = (c', calls)"
  shows "control_step C now c (Scope events) calls c' \<and> calls = [] \<and>
    getByID i (db (scope c')) = None \<and> pendingFades (scope c') = [] \<and> \<not> isMerged h f (merges c') \<and>
    \<not> isOnCooldown t i (threatCooldowns c') \<and> \<not> isOnCooldown t i (mergeCooldowns c') \<and> \<not> wasLastPictureClean c'"
proof -
  have "control_step C now c (Scope events) calls c'"
    by (rule control_step.radar [OF radar_receive_step [OF assms(2)] assms(3)])
  moreover have "c' = ctl_handleStarted (c\<lparr>scope := r'\<rparr>)" "calls = []" "r' = (scope c)\<lparr>db := db_reset, pendingFades := [], completedFades := []\<rparr>"
    using assms by (auto simp: handleStarted_def)
  ultimately show ?thesis
    by (simp add: ctl_handleStarted_def getByID_def db_reset_def isMerged_def merge_reset_def)
qed

theorem new_mission_forgets_witness:
  "\<exists>c'. control_step demo_control_lib 1 (demo_controller\<lparr>scope := demo_fight\<lparr>startedCallback := True\<rparr>\<rparr>) (Scope [StartedEvent]) [] c' \<and>
     getByID 7 (db (scope c')) = None"
proof -
  let ?c = "demo_controller\<lparr>scope := demo_fight\<lparr>startedCallback := True\<rparr>\<rparr>"
  obtain r' where r: "radar_receive (ctl_radar demo_control_lib) 1 SimStarted (scope ?c) = Some (r', [StartedEvent])"
    by (simp add: handleStarted_def)
  obtain c' calls where c: "run_each (handle_event demo_control_lib) [StartedEvent] (?c\<lparr>scope := r'\<rparr>) = (c', calls)" by fastforce
  have "startedCallback (scope ?c)" by simp
  from new_mission_forgets [OF this r c] show ?thesis by blast
qed

end
