(* ===== verification/Connections.thy ===== *)
theory Connections
  imports Feed Commands "HOL-Library.Sublist"
begin

text \<open>
  Clients that connect again: the real-time telemetry client (\<open>pkg/telemetry/telemetry.go\<close>, \<open>Run\<close> and \<open>read\<close>)
  and the chat listener (\<open>pkg/commands/chat.go\<close>, \<open>Run\<close>). What a connection brings is given: it is
  refused, or fails after some input. Across all its connections a telemetry client does
  nothing but the steps of its stream, so that what is proved of those holds of it.
\<close>

section \<open>One connection\<close>

text \<open>The fields are the error of dialling, the data of the host up to its handshake, the error of writing the answer, when
  \<open>handleLines\<close> starts, what its loop then meets, the error of the reader at the end (none if the context was canceled), and the updates that
  are sent until the next connection.\<close>

record connection =
  dial_error :: "string option"
  host_data :: string
  write_error :: "string option"
  opened_at :: int
  lines_and_ticks :: "(int \<times> stream_input) list"
  read_error :: "string option"
  pause_ticks :: "int list"

text \<open>The loop of \<open>handleLines\<close>: up to the first error.\<close>

fun handle_inputs ::
    "'o acmi_lib \<Rightarrow> (int \<times> stream_input) list \<Rightarrow> string option \<Rightarrow> 'o streamingClient
     \<Rightarrow> (string option \<times> 'o streamingClient \<times> sim_event list) option" where
  "handle_inputs A [] final c = Some (final, c, [])"
| "handle_inputs A ((now, i) # inputs) final c =
     (case stream_step A now i c of None \<Rightarrow> None
      | Some (Some e, c, events) \<Rightarrow> Some (Some e, c, events)
      | Some (None, c, events) \<Rightarrow>
          map_option (\<lambda>(e, c, later). (e, c, events @ later)) (handle_inputs A inputs final c))"

definition with_stream :: "'o streamingClient \<Rightarrow> 'o RealTimeClient \<Rightarrow> 'o RealTimeClient" where
  "with_stream s c = streamingClient.extend s
     \<lparr>address = address c, hostname = hostname c, rt_password = rt_password c,
      connectionTimeout = connectionTimeout c, hashAlgorithm = hashAlgorithm c\<rparr>"

definition realtime_read ::
    "crc_lib \<Rightarrow> 'o acmi_lib \<Rightarrow> connection \<Rightarrow> 'o RealTimeClient \<Rightarrow> (string option \<times> 'o RealTimeClient \<times> sim_event list) option" where
  "realtime_read K A conn c =
     (case dial_error conn of
        Some e \<Rightarrow> Some (Some (''error connecting to telemetry service: '' @ e), c, [])
      | None \<Rightarrow> (case handshake K (host_data conn) c of
          None \<Rightarrow> None
        | Some (Inl e, c, _) \<Rightarrow> Some (Some (''error during client handhake: '' @ e), c, [])
        | Some (Inr packet, c, _) \<Rightarrow> (case write_error conn of
            Some e \<Rightarrow> Some (Some (''error during client handhake: error sending client handshake: '' @ e), c, [])
          | None \<Rightarrow> map_option (\<lambda>(e, s, events). (map_option (\<lambda>e. ''error reading updates: '' @ e) e, with_stream s c, events))
              (handle_inputs A ((opened_at conn, Restart) # lines_and_ticks conn) (read_error conn) (streamingClient.truncate c)))))"

section \<open>One connection after the other\<close>

text \<open>\<open>Run\<close>: after an error the client waits, while its updates are still sent, and reads again; without
  an error the context was canceled, and it stops.\<close>

fun realtime_Run ::
    "crc_lib \<Rightarrow> 'o acmi_lib \<Rightarrow> connection list \<Rightarrow> 'o RealTimeClient \<Rightarrow> ('o RealTimeClient \<times> sim_event list) option" where
  "realtime_Run K A [] c = Some (c, [])"
| "realtime_Run K A (conn # conns) c =
     (case realtime_read K A conn c of None \<Rightarrow> None
      | Some (None, c, events) \<Rightarrow> Some (c, events)
      | Some (Some e, c, events) \<Rightarrow>
          (case stream_run A (map (\<lambda>t. (t, SendUpdates)) (pause_ticks conn)) (streamingClient.truncate c) of
             None \<Rightarrow> None
           | Some (_, waiting) \<Rightarrow>
               map_option (\<lambda>(c, later). (c, events @ waiting @ later)) (realtime_Run K A conns c)))"

text \<open>The times at which the connections of a run are tried, given how long each takes: the next one at once, but not before the interval is over.\<close>

fun attempt_times :: "int \<Rightarrow> int \<Rightarrow> int list \<Rightarrow> int list" where
  "attempt_times interval start [] = [start]"
| "attempt_times interval start (d # ds) = start # attempt_times interval (max (start + d) (start + interval)) ds"

text \<open>The chat listener: an attempt is an error of the service, or a stream of events up to its error, and after
  either there is the next. Canceling the context ends the attempts.\<close>

fun chat_Run ::
    "ChatListener \<Rightarrow> (string + (string \<times> chat_event option \<times> (string + player list)) list \<times> string) list \<Rightarrow> chat_request list" where
  "chat_Run l [] = []"
| "chat_Run l (Inl err # attempts) = chat_Run l attempts"
| "chat_Run l (Inr (events, end_error) # attempts) = fst (receive_chat l events end_error) @ chat_Run l attempts"

definition retryInterval :: int where "retryInterval = 10 * 1000000000"
definition chatRetryInterval :: int where "chatRetryInterval = 5 * 1000000000"

lemma attempt_times_first [simp]: "attempt_times interval start ds ! 0 = start"
  by (cases ds) simp_all

lemma attempt_times_spaced:
  "Suc k < length (attempt_times interval start ds) \<Longrightarrow>
     attempt_times interval start ds ! k + interval \<le> attempt_times interval start ds ! Suc k"
proof (induction ds arbitrary: start k)
  case (Cons d ds)
  show ?case
  proof (cases k)
    case 0
    then show ?thesis by simp
  next
    case (Suc k')
    then show ?thesis using Cons by simp
  qed
qed simp

section \<open>The steps of a client\<close>

lemma truncate_extend [simp]: "streamingClient.truncate (with_stream s c) = s"
  by (cases s) (simp add: with_stream_def streamingClient.defs)

lemma handshake_truncate:
  "handshake K input c = Some (r, c', rest) \<Longrightarrow> streamingClient.truncate c' = streamingClient.truncate c"
  by (auto simp: handshake_def Let_def streamingClient.defs split: prod.splits if_splits option.splits)

lemma stream_run_append:
  "stream_run A (xs @ ys) c = (case stream_run A xs c of None \<Rightarrow> None
     | Some (c1, events) \<Rightarrow> map_option (\<lambda>(c2, later). (c2, events @ later)) (stream_run A ys c1))"
proof (induction A xs c rule: stream_run.induct)
  case (1 A c)
  show ?case by (cases "stream_run A ys c") auto
next
  case (2 A now i inputs c)
  show ?case
  proof (cases "stream_step A now i c")
    case (Some step)
    obtain e c1 ev where step: "step = (e, c1, ev)" by (cases step)
    show ?thesis
      using "2.IH" [OF Some step [symmetric] refl] Some step
      by (auto simp: option.map_comp comp_def case_prod_beta' split: option.split)
  qed simp
qed

text \<open>What the loop did is a run, of a part of its input.\<close>

lemma handle_inputs_run:
  "handle_inputs A inputs final c = Some (e, c', events) \<Longrightarrow> \<exists>n. stream_run A (take n inputs) c = Some (c', events)"
proof (induction A inputs final c arbitrary: e c' events rule: handle_inputs.induct)
  case (2 A now i inputs final c)
  obtain e1 c1 ev1 where s: "stream_step A now i c = Some (e1, c1, ev1)" using "2.prems" by (auto split: option.splits)
  show ?case
  proof (cases e1)
    case None
    then obtain later where "handle_inputs A inputs final c1 = Some (e, c', later)" "events = ev1 @ later"
      using "2.prems" s by auto
    moreover from this(1) obtain n where "stream_run A (take n inputs) c1 = Some (c', later)"
      using "2.IH" [OF s refl None refl] by auto
    ultimately show ?thesis using s by (intro exI [of _ "Suc n"]) simp
  next
    case (Some err)
    then show ?thesis using "2.prems" s by (intro exI [of _ 1]) simp
  qed
qed simp

lemma only_updates: "stream_run A (map (\<lambda>t. (t, SendUpdates)) ts) c = Some (c', events) \<Longrightarrow> c' = c"
  by (induction ts arbitrary: events) (auto split: option.splits)

text \<open>What a connection and the wait after it offer to the stream.\<close>

definition offered :: "connection \<Rightarrow> (int \<times> stream_input) list" where
  "offered conn = (opened_at conn, Restart) # lines_and_ticks conn @ map (\<lambda>t. (t, SendUpdates)) (pause_ticks conn)"

lemma realtime_read_run:
  assumes "realtime_read K A conn c = Some (e, c', events)"
  shows "\<exists>n. stream_run A (take n ((opened_at conn, Restart) # lines_and_ticks conn)) (streamingClient.truncate c) =
    Some (streamingClient.truncate c', events)"
proof (cases "dial_error conn")
  case None
  then obtain r c1 rest where h: "handshake K (host_data conn) c = Some (r, c1, rest)"
    using assms by (auto simp: realtime_read_def split: option.splits)
  note t = handshake_truncate [OF h]
  show ?thesis
  proof (cases "(\<exists>err. r = Inl err) \<or> write_error conn \<noteq> None")
    case True
    then have "events = []" "streamingClient.truncate c' = streamingClient.truncate c"
      using assms None h t by (auto simp: realtime_read_def split: sum.splits)
    then show ?thesis by (intro exI [of _ 0]) simp
  next
    case False
    then obtain packet where r: "r = Inr packet" "write_error conn = None" by (cases r) auto
    let ?lines = "handle_inputs A ((opened_at conn, Restart) # lines_and_ticks conn) (read_error conn) (streamingClient.truncate c1)"
    have m: "map_option (\<lambda>(e, s, events). (map_option (\<lambda>e. ''error reading updates: '' @ e) e, with_stream s c1, events)) ?lines
        = Some (e, c', events)"
      using assms unfolding realtime_read_def None h r option.case sum.case prod.case .
    obtain e1 s ev where l: "?lines = Some (e1, s, ev)" using m by (cases ?lines) auto
    have i: "?lines = Some (e1, s, events)" "c' = with_stream s c1"
      using m unfolding l option.map prod.case option.inject prod.inject by simp_all
    from handle_inputs_run [OF i(1)] show ?thesis using i(2) t by auto
  qed
next
  case (Some err)
  then show ?thesis using assms by (intro exI [of _ 0]) (simp add: realtime_read_def)
qed

text \<open>Across all its connections, refused, broken or canceled, the telemetry client does nothing but steps of
  its stream, and sends what these send: there is a run of the stream on a part of what the connections
  offer, in that order, from the state of the client before to its state after.\<close>

theorem realtime_refines_stream:
  assumes "realtime_Run K A conns c = Some (c', events)"
  shows "\<exists>inputs. subseq inputs (concat (map offered conns)) \<and>
    stream_run A inputs (streamingClient.truncate c) = Some (streamingClient.truncate c', events)"
  using assms
proof (induction K A conns c arbitrary: c' events rule: realtime_Run.induct)
  case (1 K A c)
  then show ?case by (intro exI [of _ "[]"]) simp
next
  case (2 K A conn conns c)
  obtain e c1 ev where r: "realtime_read K A conn c = Some (e, c1, ev)" using "2.prems" by (auto split: option.splits)
  obtain n where first: "stream_run A (take n ((opened_at conn, Restart) # lines_and_ticks conn)) (streamingClient.truncate c) =
      Some (streamingClient.truncate c1, ev)" using realtime_read_run [OF r] by blast
  let ?first = "take n ((opened_at conn, Restart) # lines_and_ticks conn)"
  have part: "subseq ?first ((opened_at conn, Restart) # lines_and_ticks conn)" by (rule prefix_imp_subseq [OF take_is_prefix])
  show ?case
  proof (cases e)
    case None
    then have "c' = c1" "events = ev" using "2.prems" r by auto
    moreover have "subseq ?first (concat (map offered (conn # conns)))"
      using subseq_rev_drop_many [OF part] by (simp add: offered_def)
    ultimately show ?thesis using first by blast
  next
    case (Some err)
    let ?pause = "map (\<lambda>t. (t, SendUpdates)) (pause_ticks conn)"
    obtain s waiting where w: "stream_run A ?pause (streamingClient.truncate c1) = Some (s, waiting)"
      using "2.prems" r Some by (auto split: option.splits)
    have s: "s = streamingClient.truncate c1" by (rule only_updates [OF w])
    obtain later where l: "realtime_Run K A conns c1 = Some (c', later)" "events = ev @ waiting @ later"
      using "2.prems" r Some w by auto
    obtain inputs where i: "subseq inputs (concat (map offered conns))"
      "stream_run A inputs (streamingClient.truncate c1) = Some (streamingClient.truncate c', later)"
      using "2.IH" [OF r refl Some refl w refl l(1)] by auto
    have "stream_run A (?first @ ?pause @ inputs) (streamingClient.truncate c) = Some (streamingClient.truncate c', events)"
      using first i(2) w s l(2) by (simp only: stream_run_append option.case prod.case option.map)
    moreover have "subseq (?first @ ?pause @ inputs) (((opened_at conn, Restart) # lines_and_ticks conn) @ ?pause @ concat (map offered conns))"
      using part i(1) by (intro list_emb_append_mono subseq_order.refl)
    moreover have "concat (map offered (conn # conns)) = ((opened_at conn, Restart) # lines_and_ticks conn) @ ?pause @ concat (map offered conns)"
      by (simp add: offered_def)
    ultimately show ?thesis by (intro exI [of _ "?first @ ?pause @ inputs"]) simp
  qed
qed

definition demo_connection :: connection where
  "demo_connection = \<lparr>dial_error = None, host_data = terminator, write_error = None, opened_at = 5,
     lines_and_ticks = [(6, SendUpdates)], read_error = None, pause_ticks = []\<rparr>"

definition demo_refused :: connection where
  "demo_refused = demo_connection\<lparr>dial_error := Some ''refused'', pause_ticks := [3]\<rparr>"

abbreviation demo_realtime :: "u64 RealTimeClient" where
  "demo_realtime \<equiv> NewRealTimeClient [] ''Sky Eye'' [] 1 2"

lemma demo_realtime_stream: "streamingClient.truncate demo_realtime = newStreamingClient 2"
  by (simp add: NewRealTimeClient_def streamingClient.defs)

lemma demo_realtime_Run:
  "\<exists>c'. realtime_Run demo_crc demo_acmi [demo_refused, demo_connection] demo_realtime = Some (c', [SimStarted])"
proof -
  have none: "collectUpdates demo_acmi (reset_stream c) = Some []" for c :: "u64 streamingClient"
    by (simp add: collectUpdates_def reset_stream_def)
  have new: "reset_stream (newStreamingClient 2) = (newStreamingClient 2 :: u64 streamingClient)"
    by (simp add: newStreamingClient_def reset_stream_def)
  obtain packet c1 where h: "handshake demo_crc terminator demo_realtime = Some (Inr packet, c1, [])"
    using demo_handshake by blast
  have i: "handle_inputs demo_acmi [(5, Restart), (6, SendUpdates)] None (streamingClient.truncate c1) =
      Some (None, reset_stream (streamingClient.truncate c1), [SimStarted])" by (simp add: none)
  have "realtime_read demo_crc demo_acmi demo_connection demo_realtime =
      Some (None, with_stream (reset_stream (streamingClient.truncate c1)) c1, [SimStarted])"
    unfolding realtime_read_def by (simp add: demo_connection_def h i del: handle_inputs.simps)
  moreover have "collectUpdates demo_acmi (newStreamingClient 2 :: u64 streamingClient) = Some []"
    using none [of "newStreamingClient 2"] by (simp only: new)
  moreover have "\<exists>e. realtime_read demo_crc demo_acmi demo_refused demo_realtime = Some (Some e, demo_realtime, [])"
    by (simp add: realtime_read_def demo_refused_def)
  ultimately show ?thesis by (auto simp: demo_realtime_stream demo_refused_def)
qed

theorem realtime_refines_stream_witness:
  "\<exists>c' inputs. subseq inputs (concat (map offered [demo_refused, demo_connection])) \<and>
     stream_run demo_acmi inputs (newStreamingClient 2) = Some (c', [SimStarted])"
  using demo_realtime_Run realtime_refines_stream unfolding demo_realtime_stream [symmetric] by blast

section \<open>The chat over all connections\<close>

text \<open>Across all its connections the chat listener passes on only messages of players of its own side, and a stream that
  breaks loses none that was passed on before.\<close>

theorem chat_Run_own_side:
  assumes "r \<in> set (chat_Run (NewChatListener coalition callsign) attempts)"
  shows "\<exists>events end_error e ps p. Inr (events, end_error) \<in> set attempts \<and> (request_TraceID r, Some e, Inr ps) \<in> set events \<and>
     p \<in> set ps \<and> player_Id p = chat_PlayerId e \<and> request_PlayerName r = player_Name p \<and> request_Text r = chat_Message e \<and>
     player_Coalition p = (if coalition = Red then COALITION_RED else COALITION_BLUE)"
proof -
  obtain events end_error where a: "Inr (events, end_error) \<in> set attempts"
    "r \<in> set (fst (receive_chat (NewChatListener coalition callsign) events end_error))"
    using assms by (induction "NewChatListener coalition callsign" attempts rule: chat_Run.induct) auto
  then show ?thesis using chat_requests_of_own_side [OF a(2)] by blast
qed

definition demo_chat :: "(string \<times> chat_event option \<times> (string + player list)) list" where
  "demo_chat = [(''t'', Some \<lparr>chat_PlayerId = 1, chat_Message = ''Anyface, Eagle 1, picture''\<rparr>,
     Inr [\<lparr>player_Id = 1, player_Name = ''Eagle 1'', player_Coalition = COALITION_BLUE\<rparr>])]"

theorem chat_Run_own_side_witness:
  "\<exists>events end_error e ps p. Inr (events, end_error) \<in> set [Inl ''refused'', Inr (demo_chat, ''EOF'')] \<and>
     (''t'', Some e, Inr ps) \<in> set events \<and> p \<in> set ps \<and> player_Coalition p = COALITION_BLUE"
proof -
  let ?r = "\<lparr>request_TraceID = ''t'', request_PlayerName = ''Eagle 1'', request_Text = ''Anyface, Eagle 1, picture''\<rparr>"
  have r: "?r \<in> set (chat_Run (NewChatListener Blue ''Sky Eye'') [Inl ''refused'', Inr (demo_chat, ''EOF'')])"
    by (simp add: receive_event_def find_player_def NewChatListener_def demo_chat_def)
  have side: "(if Blue = Red then COALITION_RED else COALITION_BLUE) = COALITION_BLUE" by simp
  show ?thesis
    using chat_Run_own_side [OF r] unfolding side chat_request.select_convs
    by (elim exE conjE) (intro exI conjI, assumption+)
qed

section \<open>From the connections to the radar\<close>

lemma radar_feed_fed: "fed L es r \<Longrightarrow> radar_feed L now events r = Some r' \<Longrightarrow> fed L (es @ events) r'"
proof (induction events arbitrary: es r)
  case (Cons e events)
  then obtain r1 out where "radar_receive L now e r = Some (r1, out)" "radar_feed L now events r1 = Some r'"
    by (auto split: option.splits)
  then show ?case using Cons.IH [OF fed.event [OF Cons.prems(1)]] by fastforce
qed simp

text \<open>C26. Whatever the connections of a new telemetry client bring, in refusals, handshakes, lines and errors, the radar takes
  everything the client sends without a panic and stays well formed, and each contact it then has was
  reported with these labels since the client last started a mission.\<close>

theorem realtime_feeds_radar:
  assumes "realtime_Run K A conns (NewRealTimeClient addr host password timeout interval) = Some (c', events)"
    and "counting_push (lib_push L)"
  shows "\<exists>r. radar_feed L now events (NewRadar coalition mandatory bearing_spread range_spread detection srs) = Some r \<and> radar_ok r \<and>
    (\<forall>i t. getByID i (db r) = Some t \<longrightarrow>
      (\<exists>before f after. events = before @ SimUpdated (Contact t) f # after \<and> SimStarted \<notin> set after \<and> label_ID (Contact t) = i))"
proof -
  let ?r = "NewRadar coalition mandatory bearing_spread range_spread detection srs"
  have "\<forall>ev \<in> set events. known_side ev" using realtime_refines_stream [OF assms(1)] stream_run_sides by blast
  moreover have "radar_ok ?r" by (rule reachable_ok [OF radar_reachable.intros(1) assms(2)])
  ultimately obtain r where r: "radar_feed L now events ?r = Some r" "radar_ok r"
    using radar_feed_ok assms(2) by blast
  have "fed L ([] @ events) r" by (rule radar_feed_fed [OF fed.new r(1)])
  then show ?thesis using r fed_explained by (fastforce simp: explained_def)
qed

theorem realtime_feeds_radar_witness:
  "\<exists>c' r. realtime_Run demo_crc demo_acmi [demo_refused, demo_connection] demo_realtime = Some (c', [SimStarted]) \<and>
     radar_feed demo_radar_lib 0 [SimStarted] (NewRadar Blue 0 0 0 True None) = Some r \<and> radar_ok r"
proof -
  obtain c' where c': "realtime_Run demo_crc demo_acmi [demo_refused, demo_connection] demo_realtime = Some (c', [SimStarted])"
    using demo_realtime_Run by blast
  obtain r where "radar_feed demo_radar_lib 0 [SimStarted] (NewRadar Blue 0 0 0 True None) = Some r" "radar_ok r"
    using realtime_feeds_radar [OF c' demo_push_lib, of 0 Blue 0 0 0 True None] by (elim exE conjE)
  with c' show ?thesis by (intro exI conjI)
qed

end
