(* ===== verification/Pipeline.thy ===== *)
theory Pipeline
  imports Answers "HOL-Library.Sublist"
begin

text \<open>
  The application at work (\<open>internal/application/app.go\<close>, \<open>Run\<close>): the routines that recognize, parse, control,
  compose, synthesize and transmit, connected by channels. Each routine takes the next message of its channel when it
  has passed on the last. What is on its way between two routines is a list here, so that a routine may
  run ahead; the code's channels hold less. What the controller sends by itself comes from other
  goroutines: each of these is a list of calls of its own, from which the composer takes calls in
  between the answers.
\<close>

section \<open>The routines\<close>

text \<open>Besides the messages under way there is a history: the trace IDs and client names of the texts that
  entered, in that order, and the trace IDs given to broadcasts.\<close>

record 'o pipeline =
  pipe_app :: "'o Application"
  rxText :: "(Context \<times> string) list"
  requests :: "(Context \<times> Request) list"
  answers :: "(Context \<times> Call) list"
  broadcasts :: "(Context \<times> Call) list list"
  txText :: "(Context \<times> NaturalLanguageResponse) list"
  txAudio :: "(Context \<times> real list) list"
  submitted :: "(string \<times> Transmission) list"
  entered :: "(string \<times> string) list"
  announced :: "string set"

definition identity :: "Context \<Rightarrow> string \<times> string" where
  "identity ctx = (GetTraceID ctx, GetClientName ctx)"

text \<open>At the start the controller sends its sunrise call.\<close>

definition start_pipeline :: "'o Application \<Rightarrow> string \<Rightarrow> 'o pipeline" where
  "start_pipeline a uuid =
     \<lparr>pipe_app = a, rxText = [], requests = [], answers = [],
      broadcasts = [map (Pair (NewRequestContext uuid)) (broadcastSunrise (app_controller a))],
      txText = [], txAudio = [], submitted = [], entered = [], announced = {uuid}\<rparr>"

definition enter :: "Context \<times> string \<Rightarrow> 'o pipeline \<Rightarrow> 'o pipeline" where
  "enter m s = s\<lparr>rxText := rxText s @ [m], entered := entered s @ [identity (fst m)]\<rparr>"

text \<open>A message is taken from its channel and dealt with; what is traced on the way is left out. \<open>L\<close> and \<open>C\<close> are the libraries.\<close>

inductive process :: "control_lib \<Rightarrow> parse_lib \<Rightarrow> 'o pipeline \<Rightarrow> 'o pipeline \<Rightarrow> bool" for C P where
  parse: "rxText s = (ctx, heard) # rest \<Longrightarrow> parseText (ctl_units C) P (pipe_app s) now ctx heard = (published, r) \<Longrightarrow>
    process C P s (s\<lparr>rxText := rest, requests := requests s @ (case r of None \<Rightarrow> [] | Some m \<Rightarrow> [m])\<rparr>)"
| control: "requests s = (ctx, r) # rest \<Longrightarrow> handleRequest C now ctx r (pipe_app s) = Some (a, calls) \<Longrightarrow>
    process C P s (s\<lparr>pipe_app := a, requests := rest, answers := answers s @ calls\<rparr>)"
| compose: "answers s = (ctx, call) # rest \<Longrightarrow>
    compose_message (ctl_radar C) (pipe_app s) i j handledAt composedAt ctx call = Some m \<Longrightarrow>
    process C P s (s\<lparr>answers := rest, txText := txText s @ [m]\<rparr>)"
| compose_broadcast: "broadcasts s = before @ ((ctx, call) # rest) # after \<Longrightarrow>
    compose_message (ctl_radar C) (pipe_app s) i j handledAt composedAt ctx call = Some m \<Longrightarrow>
    process C P s (s\<lparr>broadcasts := before @ rest # after, txText := txText s @ [m]\<rparr>)"
| synthesize: "txText s = (ctx, response) # rest \<Longrightarrow>
    synthesizeMessage (ctl_units C) (pipe_app s) now lockError say ctx response = (published, r) \<Longrightarrow>
    process C P s (s\<lparr>txText := rest, txAudio := txAudio s @ (case r of None \<Rightarrow> [] | Some m \<Rightarrow> [m])\<rparr>)"
| transmit: "txAudio s = (ctx, audio) # rest \<Longrightarrow>
    transmitMessage (ctl_units C) (pipe_app s) now ctx audio = (published, transmission) \<Longrightarrow>
    process C P s (s\<lparr>txAudio := rest, submitted := submitted s @ [transmission]\<rparr>)"

text \<open>The sources: a transmission is heard and recognized, a chat message arrives, or the controller does
  something by itself, the radar included, for which every call has a new trace ID or that of its tick.\<close>

inductive pipe_step :: "control_lib \<Rightarrow> parse_lib \<Rightarrow> 'o pipeline \<Rightarrow> 'o pipeline \<Rightarrow> bool" for C P where
  hear: "recognizeSample (ctl_units C) (pipe_app s) processCtx (received traceID clientName now) later lockError recognized expired
      = (published, Some m) \<Longrightarrow> pipe_step C P s (enter m s)"
| chat: "pipe_step C P s (enter (chat_message uuid traceID player heard) s)"
| broadcast: "control_step C now (app_controller (pipe_app s)) e calls c' \<Longrightarrow> length uuids = length calls \<Longrightarrow>
    pipe_step C P s (s\<lparr>pipe_app := (pipe_app s)\<lparr>app_controller := c'\<rparr>,
      broadcasts := broadcasts s @ [zip (map NewRequestContext uuids) calls], announced := announced s \<union> set uuids\<rparr>)"
| work: "process C P s s' \<Longrightarrow> pipe_step C P s s'"

inductive pipe_reachable :: "control_lib \<Rightarrow> parse_lib \<Rightarrow> 'o Application \<Rightarrow> 'o pipeline \<Rightarrow> bool" for C P a where
  start: "pipe_reachable C P a (start_pipeline a uuid)"
| step: "pipe_reachable C P a s \<Longrightarrow> pipe_step C P s s' \<Longrightarrow> pipe_reachable C P a s'"

section \<open>Answers keep their identity and their order\<close>

lemma identity_With [simp]:
  "identity (WithParsedAt t ctx) = identity ctx" "identity (WithRequest r ctx) = identity ctx"
  "identity (WithComposedAt t ctx) = identity ctx" "identity (WithCallText w ctx) = identity ctx"
  "identity (WithHandledAt t ctx) = identity ctx" "identity (WithSynthesizedAt t ctx) = identity ctx"
  "identity (NewRequestContext uuid) = (uuid, [])"
  by (simp_all add: identity_def context_defs NewRequestContext_def get_text_def ctx_Value_def WithValue_def)

text \<open>The identities of what has passed a stage, in the order in which it leaves the pipeline, without the broadcasts.\<close>

definition flow :: "'o pipeline \<Rightarrow> (string \<times> string) list" where
  "flow s = map (\<lambda>(i, t). (i, ClientName t)) (submitted s) @ map (identity \<circ> fst) (txAudio s) @
     map (identity \<circ> fst) (txText s) @ map (identity \<circ> fst) (answers s) @ map (identity \<circ> fst) (requests s) @
     map (identity \<circ> fst) (rxText s)"

definition replies :: "'o pipeline \<Rightarrow> (string \<times> string) list \<Rightarrow> (string \<times> string) list" where
  "replies s = filter (\<lambda>x. fst x \<notin> announced s)"

lemma replies_append [simp]: "replies s (xs @ ys) = replies s xs @ replies s ys"
  by (simp add: replies_def)

definition pipe_ok :: "'o pipeline \<Rightarrow> bool" where
  "pipe_ok s \<longleftrightarrow> subseq (replies s (flow s)) (entered s) \<and>
     (\<forall>(ctx, r) \<in> set (requests s). request_ok r) \<and> (\<forall>(ctx, call) \<in> set (answers s). composable call) \<and>
     (\<forall>cs \<in> set (broadcasts s). \<forall>(ctx, call) \<in> set cs. composable call \<and> fst (identity ctx) \<in> announced s)"

lemma composed_identity:
  "compose_message L a i j handledAt composedAt ctx call = Some (ctx', response) \<Longrightarrow> identity ctx' = identity ctx"
  by (auto simp: compose_message_def)

lemma synthesized_identity:
  "synthesizeMessage u a now lockError say ctx response = (published, Some (ctx', audio)) \<Longrightarrow> identity ctx' = identity ctx"
  by (auto simp: synthesizeMessage_def split: option.splits sum.splits)

lemma dropped_replies:
  assumes "pipe_ok s" and "subseq (flow s') (flow s)" and "announced s' = announced s" and "entered s' = entered s"
  shows "subseq (replies s' (flow s')) (entered s')"
proof -
  have "subseq (replies s' (flow s')) (replies s (flow s))" using assms(2,3) by (simp add: replies_def)
  then show ?thesis using assms(1,4) subseq_order.trans by (auto simp: pipe_ok_def)
qed

lemma process_ok: "process C P s s' \<Longrightarrow> pipe_ok s \<Longrightarrow> pipe_ok s'"
proof (induction rule: process.induct)
  case (parse s ctx heard rest now published r)
  have r: "\<forall>m. r = Some m \<longrightarrow> identity (fst m) = identity ctx \<and> request_ok (snd m)"
    using parse(2) parsed_request_ok by (auto dest!: context_of_parse)
  show ?case
  proof (cases r)
    case None
    let ?s = "s\<lparr>rxText := rest, requests := requests s @ (case r of None \<Rightarrow> [] | Some m \<Rightarrow> [m])\<rparr>"
    have "subseq (flow ?s) (flow s)" using None parse(1) by (simp add: flow_def subseq_append' list_emb_Cons)
    then show ?thesis using None parse(3) dropped_replies [of s ?s] by (simp add: pipe_ok_def)
  next
    case (Some m)
    then show ?thesis using parse(1,3) r by (auto simp: pipe_ok_def flow_def replies_def)
  qed
next
  case (control s ctx r rest now a calls)
  have "request_ok r" using control(1,3) by (simp add: pipe_ok_def)
  then obtain call where "calls = [(ctx, call)]" "composable call"
    using handle_one [of r C now "app_controller (pipe_app s)"] control(2) by (auto simp: handleRequest_def)
  then show ?case using control(1,3) by (auto simp: pipe_ok_def flow_def replies_def)
next
  case (compose s ctx call rest i j handledAt composedAt m)
  obtain ctx' response where "m = (ctx', response)" "identity ctx' = identity ctx"
    using compose(2) composed_identity by (metis surj_pair)
  then show ?case using compose(1,3) by (auto simp: pipe_ok_def flow_def replies_def)
next
  case (compose_broadcast s before ctx call rest after i j handledAt composedAt m)
  obtain ctx' response where m: "m = (ctx', response)" "identity ctx' = identity ctx"
    using compose_broadcast(2) composed_identity by (metis surj_pair)
  have "fst (identity ctx) \<in> announced s" using compose_broadcast(1,3) by (auto simp: pipe_ok_def)
  then show ?case using compose_broadcast(1,3) m
    by (cases "identity ctx") (auto simp: pipe_ok_def flow_def replies_def)
next
  case (synthesize s ctx response rest now lockError say published r)
  show ?case
  proof (cases r)
    case None
    let ?s = "s\<lparr>txText := rest, txAudio := txAudio s @ (case r of None \<Rightarrow> [] | Some m \<Rightarrow> [m])\<rparr>"
    have "subseq (flow ?s) (flow s)" using None synthesize(1) by (simp add: flow_def subseq_append' list_emb_Cons)
    then show ?thesis using None synthesize(3) dropped_replies [of s ?s] by (simp add: pipe_ok_def)
  next
    case (Some m)
    then have "identity (fst m) = identity ctx" using synthesize(2) synthesized_identity by (cases m) auto
    then show ?thesis using Some synthesize(1,3) by (auto simp: pipe_ok_def flow_def replies_def)
  qed
next
  case (transmit s ctx audio rest now published transmission)
  then show ?case by (auto simp: pipe_ok_def flow_def replies_def transmitMessage_def identity_def)
qed

lemma enter_ok: "pipe_ok s \<Longrightarrow> pipe_ok (enter m s)"
proof -
  assume ok: "pipe_ok s"
  have "replies (enter m s) (flow (enter m s)) = replies s (flow s) @ replies s [identity (fst m)]"
    by (simp add: enter_def flow_def replies_def)
  moreover have "subseq (replies s (flow s) @ replies s [identity (fst m)]) (entered s @ [identity (fst m)])"
    using ok by (intro list_emb_append_mono) (simp_all add: pipe_ok_def replies_def)
  ultimately show ?thesis using ok by (simp add: pipe_ok_def enter_def)
qed

lemma pipe_step_ok: "pipe_step C P s s' \<Longrightarrow> pipe_ok s \<Longrightarrow> pipe_ok s'"
proof (induction rule: pipe_step.induct)
  case (broadcast now s e calls c' uuids)
  let ?s = "s\<lparr>pipe_app := (pipe_app s)\<lparr>app_controller := c'\<rparr>,
      broadcasts := broadcasts s @ [zip (map NewRequestContext uuids) calls], announced := announced s \<union> set uuids\<rparr>"
  have "replies ?s (flow ?s) = filter (\<lambda>x. fst x \<notin> set uuids) (replies s (flow s))"
    by (simp add: replies_def flow_def)
  moreover have "subseq (filter (\<lambda>x. fst x \<notin> set uuids) (replies s (flow s))) (entered s)"
    using broadcast(3) subseq_order.trans [OF subseq_filter_left] by (auto simp: pipe_ok_def)
  moreover have "\<forall>(ctx, call) \<in> set (zip (map NewRequestContext uuids) calls). composable call \<and> fst (identity ctx) \<in> set uuids"
    using step_composable [OF broadcast(1)] by (auto simp: zip_map1 dest: set_zip_leftD set_zip_rightD)
  ultimately show ?case using broadcast(3) by (auto simp: pipe_ok_def)
next
  case (work s s')
  then show ?case by (rule process_ok)
qed (simp_all add: enter_ok)

lemma pipe_reachable_ok: "pipe_reachable C P a s \<Longrightarrow> pipe_ok s"
proof (induction rule: pipe_reachable.induct)
  case (start uuid)
  show ?case by (simp add: start_pipeline_def pipe_ok_def flow_def replies_def broadcastSunrise_def)
qed (rule pipe_step_ok)

text \<open>Answers are transmitted in the order in which the pilots' texts entered, each at most once, with the
  trace ID and the client name of its text: without the broadcasts, which have trace IDs of their own, what was
  transmitted is a subsequence of what entered.\<close>

theorem answers_in_order:
  assumes "pipe_reachable C P a s"
  shows "subseq (filter (\<lambda>x. fst x \<notin> announced s) (map (\<lambda>(i, t). (i, ClientName t)) (submitted s))) (entered s)"
proof -
  have "subseq (map (\<lambda>(i, t). (i, ClientName t)) (submitted s)) (flow s)" by (simp add: flow_def subseq_rev_drop_many)
  then have "subseq (replies s (map (\<lambda>(i, t). (i, ClientName t)) (submitted s))) (replies s (flow s))"
    by (simp add: replies_def)
  with pipe_reachable_ok [OF assms] show ?thesis
    using subseq_order.trans by (auto simp: pipe_ok_def replies_def)
qed

section \<open>Nothing gets stuck\<close>

definition load :: "'o pipeline \<Rightarrow> nat" where
  "load s = 5 * length (rxText s) + 4 * length (requests s) + 3 * length (answers s) +
     3 * length (concat (broadcasts s)) + 2 * length (txText s) + length (txAudio s)"

lemma process_load: "process C P s s' \<Longrightarrow> pipe_ok s \<Longrightarrow> load s' < load s"
proof (induction rule: process.induct)
  case (control s ctx r rest now a calls)
  have "request_ok r" using control(1,3) by (simp add: pipe_ok_def)
  then have "length calls = 1"
    using handle_one [of r C now "app_controller (pipe_app s)"] control(2) by (auto simp: handleRequest_def)
  then show ?case using control(1) by (simp add: load_def)
qed (auto simp: load_def split: option.splits)

lemma process_next:
  assumes "pipe_ok s" and "load s > 0"
  shows "\<exists>s'. process C P s s'"
proof -
  have composed: "\<exists>m. compose_message (ctl_radar C) (pipe_app s) 0 0 0 0 ctx call = Some m" if "composable call" for ctx call
    using composeCall_total [OF that, of "ctl_radar C" "app_composer (pipe_app s)" 0 0] by (auto simp: compose_message_def)
  consider (heard) ctx heard rest where "rxText s = (ctx, heard) # rest"
    | (request) ctx r rest where "requests s = (ctx, r) # rest"
    | (answer) ctx call rest where "answers s = (ctx, call) # rest"
    | (broadcast) cs where "cs \<in> set (broadcasts s)" "cs \<noteq> []"
    | (response) ctx response rest where "txText s = (ctx, response) # rest"
    | (audio) ctx audio rest where "txAudio s = (ctx, audio) # rest"
    using assms(2) by (auto simp: load_def neq_Nil_conv)
  then show ?thesis
  proof cases
    case heard
    then show ?thesis by (metis process.parse surj_pair)
  next
    case request
    then have "request_ok r" using assms(1) by (simp add: pipe_ok_def)
    then have "\<exists>a calls. handleRequest C 0 ctx r (pipe_app s) = Some (a, calls)"
      using handle_one [of r C 0 "app_controller (pipe_app s)"] by (auto simp: handleRequest_def)
    then show ?thesis using request process.control by metis
  next
    case answer
    then have "composable call" using assms(1) by (simp add: pipe_ok_def)
    then show ?thesis using answer composed process.compose by metis
  next
    case broadcast
    obtain ctx call rest where cs: "cs = (ctx, call) # rest" using broadcast(2) by (cases cs) auto
    obtain before after where "broadcasts s = before @ cs # after" using broadcast(1) split_list by metis
    moreover have "composable call" using assms(1) broadcast(1) by (auto simp: pipe_ok_def cs)
    ultimately show ?thesis using composed process.compose_broadcast cs by metis
  next
    case response
    then show ?thesis by (metis process.synthesize surj_pair)
  next
    case audio
    then show ?thesis by (metis process.transmit surj_pair)
  qed
qed

text \<open>Nothing gets stuck on its way. As long as anything is under way some routine can go on, so that no message waits
  for one that has panicked, and left to themselves the routines have finished everything after at most \<open>load\<close> steps.\<close>

theorem pipeline_drains:
  assumes "pipe_reachable C P a s"
  shows "(load s > 0 \<longrightarrow> (\<exists>s'. process C P s s')) \<and> (\<forall>n s'. (process C P ^^ n) s s' \<longrightarrow> n + load s' \<le> load s) \<and>
    (\<exists>s'. (process C P)\<^sup>*\<^sup>* s s' \<and> load s' = 0)"
proof -
  have run: "(process C P ^^ n) s s' \<Longrightarrow> pipe_ok s' \<and> n + load s' \<le> load s" for n s'
  proof (induction n arbitrary: s')
    case 0
    then show ?case using pipe_reachable_ok [OF assms] by simp
  next
    case (Suc n)
    then obtain t where t: "(process C P ^^ n) s t" "process C P t s'" by auto
    then show ?case using Suc.IH [OF t(1)] process_load [OF t(2)] process_ok [OF t(2)] by linarith
  qed
  have "pipe_ok s \<Longrightarrow> \<exists>s'. (process C P)\<^sup>*\<^sup>* s s' \<and> load s' = 0" for s :: "'a pipeline"
  proof (induction "load s" arbitrary: s rule: less_induct)
    case less
    show ?case
    proof (cases "load s = 0")
      case False
      then obtain t where t: "process C P s t" using process_next less.prems by blast
      show ?thesis
        using less.hyps [OF process_load [OF t less.prems] process_ok [OF t less.prems]] t
        by (meson converse_rtranclp_into_rtranclp)
    qed blast
  qed
  then show ?thesis using run process_next pipe_reachable_ok [OF assms] by blast
qed

section \<open>The end of the program\<close>

text \<open>After \<open>exitAfter\<close> it is tested every five seconds how many humans are on frequency. The program is
  canceled at the first test that finds none. The arguments are the start and the counts found.\<close>

fun exit_ticks :: "int \<Rightarrow> nat list \<Rightarrow> int option" where
  "exit_ticks since [] = None"
| "exit_ticks since (humans # tests) =
     (let now = since + 5 * second in if humans = 0 then Some now else exit_ticks now tests)"

definition exit_timer :: "int \<Rightarrow> int \<Rightarrow> nat list \<Rightarrow> int option" where
  "exit_timer exitAfter start tests = exit_ticks (start + exitAfter) tests"

lemma exit_ticks_Some:
  "exit_ticks since tests = Some t \<longleftrightarrow>
     (\<exists>k < length tests. tests ! k = 0 \<and> (\<forall>j < k. tests ! j > 0) \<and> t = since + 5 * second * (int k + 1))"
proof (induction tests arbitrary: since)
  case (Cons humans tests)
  show ?case
  proof (cases "humans = 0")
    case True
    then show ?thesis by (auto simp: nth_Cons' algebra_simps intro: exI [of _ 0])
  next
    case False
    have "(\<exists>k < length (humans # tests). (humans # tests) ! k = 0 \<and> (\<forall>j < k. (humans # tests) ! j > 0) \<and> t = since + 5 * second * (int k + 1))
      \<longleftrightarrow> (\<exists>k < length tests. tests ! k = 0 \<and> (\<forall>j < k. tests ! j > 0) \<and> t = since + 5 * second + 5 * second * (int k + 1))"
      (is "?l \<longleftrightarrow> ?r")
    proof
      assume ?l
      then obtain k where k: "k < length (humans # tests)" "(humans # tests) ! k = 0" "\<forall>j < k. (humans # tests) ! j > 0"
        "t = since + 5 * second * (int k + 1)" by blast
      then obtain k' where "k = Suc k'" using False by (cases k) auto
      with k show ?r by (intro exI [of _ k']) (auto simp: algebra_simps dest: spec [of _ "Suc _"])
    next
      assume ?r
      then obtain k where k: "k < length tests" "tests ! k = 0" "\<forall>j < k. tests ! j > 0"
        "t = since + 5 * second + 5 * second * (int k + 1)" by blast
      with False show ?l by (intro exI [of _ "Suc k"]) (auto simp: algebra_simps less_Suc_eq_0_disj)
    qed
    then show ?thesis using False Cons.IH [of "since + 5 * second"] by (simp add: Let_def)
  qed
qed simp

text \<open>The program never ends by itself before its time, nor while a human is on frequency, and it ends at
  the first test without one.\<close>

theorem exits_when_quiet:
  "exit_timer exitAfter start tests = Some t \<longleftrightarrow>
     (\<exists>k < length tests. tests ! k = 0 \<and> (\<forall>j < k. tests ! j > 0) \<and> t = start + exitAfter + 5 * second * (int k + 1))"
  by (simp add: exit_timer_def exit_ticks_Some)

section \<open>A run\<close>

lemma pipe_process: "pipe_reachable C P a s \<Longrightarrow> process C P s s' \<Longrightarrow> pipe_reachable C P a s'"
  by (rule pipe_reachable.step [OF _ pipe_step.work])

text \<open>A pilot asks for a picture and hears it: what each stage makes of it.\<close>

abbreviation demo_said :: string where "demo_said \<equiv> ''Anyface, Eagle 1-1, picture''"

abbreviation demo_heard :: Context where
  "demo_heard \<equiv> WithRequestText demo_said (WithRecognizedAt 2 (received ''t1'' ''Eagle'' 1))"

abbreviation demo_asked :: Context where
  "demo_asked \<equiv> WithRequest (PictureRequest ''eagle 1 1'') (WithParsedAt 3 demo_heard)"

lemma demo_stages:
  obtains c call ctx response ctx' audio published where
    "recognizeSample (ctl_units demo_control_lib) demo_application [] (received ''t1'' ''Eagle'' 1) 2 None (Inr demo_said) None
       = ([], Some (demo_heard, demo_said))"
    "parseText (ctl_units demo_control_lib) demo_parse_lib demo_application 3 demo_heard demo_said
       = ([], Some (demo_asked, PictureRequest ''eagle 1 1''))"
    "handleRequest demo_control_lib 4 demo_asked (PictureRequest ''eagle 1 1'') demo_application
       = Some (demo_application\<lparr>app_controller := c\<rparr>, [(demo_asked, call)])"
    "compose_message (ctl_radar demo_control_lib) (demo_application\<lparr>app_controller := c\<rparr>) 0 0 5 6 demo_asked call = Some (ctx, response)"
    "synthesizeMessage (ctl_units demo_control_lib) (demo_application\<lparr>app_controller := c\<rparr>) 7 None (\<lambda>_. Inr [1]) ctx response
       = ([], Some (ctx', audio))"
    "transmitMessage (ctl_units demo_control_lib) (demo_application\<lparr>app_controller := c\<rparr>) 8 ctx' audio
       = (published, (''t1'', \<lparr>ClientName = ''Eagle'', Audio = audio\<rparr>))"
    "identity demo_heard = (''t1'', ''Eagle'')"
proof -
  let ?C = demo_control_lib and ?a = demo_application and ?r = "PictureRequest ''eagle 1 1''"
  have heard: "identity demo_heard = (''t1'', ''Eagle'')"
    by (simp add: identity_def received_def context_defs get_text_def ctx_Value_def WithValue_def)
  obtain c call where h: "handle ?C 4 ?r (app_controller ?a) = Some (c, [call])" "composable call"
    using handle_one [of ?r ?C 4 "app_controller ?a"] by auto
  let ?a' = "?a\<lparr>app_controller := c\<rparr>"
  obtain ctx response where m: "compose_message (ctl_radar ?C) ?a' 0 0 5 6 demo_asked call = Some (ctx, response)"
    using composeCall_total [OF h(2), of "ctl_radar ?C" "app_composer ?a'" 0 0] by (auto simp: compose_message_def)
  have ctx: "identity ctx = (''t1'', ''Eagle'')" using composed_identity [OF m] heard by simp
  let ?audio = "F32AdjustVolume [1] (app_volume ?a')" and ?ctx' = "WithSynthesizedAt 7 ctx"
  show thesis
  proof (rule that)
    show "recognizeSample (ctl_units ?C) ?a [] (received ''t1'' ''Eagle'' 1) 2 None (Inr demo_said) None = ([], Some (demo_heard, demo_said))"
      by (simp add: recognizeSample_def)
    show "parseText (ctl_units ?C) demo_parse_lib ?a 3 demo_heard demo_said = ([], Some (demo_asked, ?r))"
      by (simp add: parseText_def demo_parse_lib_def demo_application_def demo_parse)
    show "handleRequest ?C 4 demo_asked ?r ?a = Some (?a', [(demo_asked, call)])" using h(1) by (simp add: handleRequest_def)
    show "compose_message (ctl_radar ?C) ?a' 0 0 5 6 demo_asked call = Some (ctx, response)" by (rule m)
    show "synthesizeMessage (ctl_units ?C) ?a' 7 None (\<lambda>_. Inr [1]) ctx response = ([], Some (?ctx', ?audio))"
      by (simp add: synthesizeMessage_def)
    have "identity ?ctx' = (''t1'', ''Eagle'')" using ctx by simp
    then show "transmitMessage (ctl_units ?C) ?a' 8 ?ctx' ?audio =
        (trace (ctl_units ?C) ?a' (WithSubmittedAt 8 ?ctx'), (''t1'', \<lparr>ClientName = ''Eagle'', Audio = ?audio\<rparr>))"
      by (simp add: transmitMessage_def identity_def)
    show "identity demo_heard = (''t1'', ''Eagle'')" by (rule heard)
  qed
qed

lemma demo_pipeline:
  "\<exists>s. pipe_reachable demo_control_lib demo_parse_lib demo_application s \<and> load s > 0 \<and> announced s = {''b''} \<and>
     entered s = [(''t1'', ''Eagle'')] \<and> map (\<lambda>(i, t). (i, ClientName t)) (submitted s) = [(''t1'', ''Eagle'')]"
proof -
  obtain c call ctx response ctx' audio published where stage:
    "recognizeSample (ctl_units demo_control_lib) demo_application [] (received ''t1'' ''Eagle'' 1) 2 None (Inr demo_said) None
       = ([], Some (demo_heard, demo_said))"
    "parseText (ctl_units demo_control_lib) demo_parse_lib demo_application 3 demo_heard demo_said
       = ([], Some (demo_asked, PictureRequest ''eagle 1 1''))"
    "handleRequest demo_control_lib 4 demo_asked (PictureRequest ''eagle 1 1'') demo_application
       = Some (demo_application\<lparr>app_controller := c\<rparr>, [(demo_asked, call)])"
    "compose_message (ctl_radar demo_control_lib) (demo_application\<lparr>app_controller := c\<rparr>) 0 0 5 6 demo_asked call = Some (ctx, response)"
    "synthesizeMessage (ctl_units demo_control_lib) (demo_application\<lparr>app_controller := c\<rparr>) 7 None (\<lambda>_. Inr [1]) ctx response
       = ([], Some (ctx', audio))"
    "transmitMessage (ctl_units demo_control_lib) (demo_application\<lparr>app_controller := c\<rparr>) 8 ctx' audio
       = (published, (''t1'', \<lparr>ClientName = ''Eagle'', Audio = audio\<rparr>))"
    "identity demo_heard = (''t1'', ''Eagle'')"
    by (rule demo_stages)
  let ?C = demo_control_lib and ?P = demo_parse_lib and ?a = demo_application
  let ?s0 = "start_pipeline ?a ''b''" and ?a' = "?a\<lparr>app_controller := c\<rparr>"
  have 1: "pipe_reachable ?C ?P ?a (enter (demo_heard, demo_said) ?s0)"
    by (rule pipe_reachable.step [OF pipe_reachable.start pipe_step.hear])
      (use stage(1) in \<open>simp only: start_pipeline_def pipeline.select_convs\<close>)
  let ?s1 = "(enter (demo_heard, demo_said) ?s0)\<lparr>rxText := [], requests := [(demo_asked, PictureRequest ''eagle 1 1'')]\<rparr>"
  have 2: "pipe_reachable ?C ?P ?a ?s1"
    using pipe_process [OF 1 process.parse, of demo_heard demo_said "[]" 3] stage(2) by (simp add: enter_def start_pipeline_def)
  let ?s2 = "?s1\<lparr>pipe_app := ?a', requests := [], answers := [(demo_asked, call)]\<rparr>"
  have 3: "pipe_reachable ?C ?P ?a ?s2"
    using pipe_process [OF 2 process.control, of demo_asked "PictureRequest ''eagle 1 1''" "[]" 4 ?a' "[(demo_asked, call)]"] stage(3)
    by (simp add: enter_def start_pipeline_def)
  let ?s3 = "?s2\<lparr>answers := [], txText := [(ctx, response)]\<rparr>"
  have 4: "pipe_reachable ?C ?P ?a ?s3"
    using pipe_process [OF 3 process.compose, of demo_asked call "[]" 0 0 5 6 "(ctx, response)"] stage(4)
    by (simp add: enter_def start_pipeline_def)
  let ?s4 = "?s3\<lparr>txText := [], txAudio := [(ctx', audio)]\<rparr>"
  have 5: "pipe_reachable ?C ?P ?a ?s4"
    using pipe_process [OF 4 process.synthesize, of ctx response "[]" 7 None "\<lambda>_. Inr [1]"] stage(5)
    by (simp add: enter_def start_pipeline_def)
  let ?s5 = "?s4\<lparr>txAudio := [], submitted := [(''t1'', \<lparr>ClientName = ''Eagle'', Audio = audio\<rparr>)]\<rparr>"
  have 6: "pipe_reachable ?C ?P ?a ?s5"
    using pipe_process [OF 5 process.transmit, of ctx' audio "[]" 8] stage(6) by (simp add: enter_def start_pipeline_def)
  show ?thesis
    by (rule exI [of _ ?s5]) (use 6 stage(7) in \<open>simp add: enter_def start_pipeline_def load_def broadcastSunrise_def\<close>)
qed

theorem answers_in_order_witness:
  "\<exists>s. pipe_reachable demo_control_lib demo_parse_lib demo_application s \<and> entered s = [(''t1'', ''Eagle'')] \<and>
     subseq (filter (\<lambda>x. fst x \<notin> {''b''}) [(''t1'', ''Eagle'')]) (entered s)"
proof -
  obtain s where s: "pipe_reachable demo_control_lib demo_parse_lib demo_application s" "announced s = {''b''}"
    "entered s = [(''t1'', ''Eagle'')]" "map (\<lambda>(i, t). (i, ClientName t)) (submitted s) = [(''t1'', ''Eagle'')]"
    using demo_pipeline by (elim exE conjE) (rule that)
  have "subseq (filter (\<lambda>x. fst x \<notin> {''b''}) [(''t1'', ''Eagle'')]) (entered s)"
    using answers_in_order [OF s(1)] unfolding s(2,4) .
  with s(1,3) show ?thesis by (intro exI [of _ s] conjI)
qed

theorem pipeline_drains_witness:
  "\<exists>(s :: u64 pipeline) s'. load s > 0 \<and> map (\<lambda>(i, t). (i, ClientName t)) (submitted s) = [(''t1'', ''Eagle'')] \<and>
     (process demo_control_lib demo_parse_lib)\<^sup>*\<^sup>* s s' \<and> load s' = 0"
proof -
  obtain s where s: "pipe_reachable demo_control_lib demo_parse_lib demo_application s" "load s > 0"
    "map (\<lambda>(i, t). (i, ClientName t)) (submitted s) = [(''t1'', ''Eagle'')]"
    using demo_pipeline by (elim exE conjE) (rule that)
  obtain s' where "(process demo_control_lib demo_parse_lib)\<^sup>*\<^sup>* s s'" "load s' = 0"
    using pipeline_drains [OF s(1)] by auto
  with s(2,3) show ?thesis by - (rule exI [of _ s], rule exI [of _ s'], intro conjI)
qed

end
