(* ===== verification/Channels.thy ===== *)
theory Channels
  imports Pipeline
begin

text \<open>
  The application at work with the channels the code has (\<open>internal/application/app.go\<close>, \<open>Run\<close>, and
  \<open>pkg/simpleradio\<close>, \<open>client.go\<close> and \<open>voice.go\<close>). A channel without capacity is a meeting: a routine that has a message to
  send keeps it, and takes no other, until the next routine takes it. Only the channel of encoded transmissions holds some, three.
  \<open>Pipeline\<close>, whose channels hold any number, is the specification of this theory.
\<close>

section \<open>The routines\<close>

text \<open>What each routine keeps for the next: the recognizer and the chat a text, the parser a request, the controller the
  answers of its handler, and its own loop and the callbacks of the radar the calls of a tick or of a
  fade, the composer a response, the synthesizer audio, the radio routine a transmission, and its
  encoder another. History are the texts that were parsed, the trace IDs of the controller's own calls, and
  what was handed to the radio and went on the air.\<close>

record 'o routines =
  rt_app :: "'o Application"
  recognized :: "(Context \<times> string) option"
  chatted :: "(Context \<times> string) option"
  parsed :: "(Context \<times> Request) option"
  answering :: "(Context \<times> Call) list"
  ticking :: "(Context \<times> Call) list"
  fading :: "(Context \<times> Call) list"
  composed :: "(Context \<times> NaturalLanguageResponse) option"
  spoken :: "(Context \<times> real list) option"
  transmitting :: "(string \<times> Transmission) option"
  encoding :: "(string \<times> Transmission) option"
  voicePacketsTxChan :: "(string \<times> Transmission) list"
  texts :: "(string \<times> string) list"
  own_calls :: "string set"
  handed :: "(string \<times> Transmission) list"
  on_air :: "(string \<times> Transmission) list"

definition packetCapacity :: nat where "packetCapacity = 3"

definition start_routines :: "'o Application \<Rightarrow> string \<Rightarrow> 'o routines" where
  "start_routines a uuid =
     \<lparr>rt_app = a, recognized = None, chatted = None, parsed = None, answering = [],
      ticking = map (Pair (NewRequestContext uuid)) (broadcastSunrise (app_controller a)), fading = [],
      composed = None, spoken = None, transmitting = None, encoding = None, voicePacketsTxChan = [],
      texts = [], own_calls = {uuid}, handed = [], on_air = []\<rparr>"

text \<open>The goroutines: speech recognition, chat, parsing, the routing of requests, the loop of the controller, the radar's own for
  fades and its other ones, composition, speech synthesis, the radio routine, and the encoder and the sender of the radio.\<close>

datatype Routine =
  R_recognize | R_chat | R_parse | R_control | R_run | R_fades | R_radar | R_compose | R_synthesize | R_transmit | R_encode | R_packets

text \<open>A routine that keeps nothing takes a message from another, and deals with it; the relation names the one that acts. The encoder may fail for a
  transmission, which is then dropped.\<close>

inductive handover :: "control_lib \<Rightarrow> parse_lib \<Rightarrow> Routine \<Rightarrow> 'o routines \<Rightarrow> 'o routines \<Rightarrow> bool" for C P where
  parse_recognized: "recognized s = Some (ctx, heard) \<Longrightarrow> parsed s = None \<Longrightarrow>
    parseText (ctl_units C) P (rt_app s) now ctx heard = (published, r) \<Longrightarrow>
    handover C P R_parse s (s\<lparr>recognized := None, parsed := r, texts := texts s @ [identity ctx]\<rparr>)"
| parse_chatted: "chatted s = Some (ctx, heard) \<Longrightarrow> parsed s = None \<Longrightarrow>
    parseText (ctl_units C) P (rt_app s) now ctx heard = (published, r) \<Longrightarrow>
    handover C P R_parse s (s\<lparr>chatted := None, parsed := r, texts := texts s @ [identity ctx]\<rparr>)"
| control: "parsed s = Some (ctx, r) \<Longrightarrow> answering s = [] \<Longrightarrow> handleRequest C now ctx r (rt_app s) = Some (a, calls) \<Longrightarrow>
    handover C P R_control s (s\<lparr>rt_app := a, parsed := None, answering := calls\<rparr>)"
| compose_answer: "answering s = (ctx, call) # rest \<Longrightarrow> composed s = None \<Longrightarrow>
    compose_message (ctl_radar C) (rt_app s) i j handledAt composedAt ctx call = Some m \<Longrightarrow>
    handover C P R_compose s (s\<lparr>answering := rest, composed := Some m\<rparr>)"
| compose_tick: "ticking s = (ctx, call) # rest \<Longrightarrow> composed s = None \<Longrightarrow>
    compose_message (ctl_radar C) (rt_app s) i j handledAt composedAt ctx call = Some m \<Longrightarrow>
    handover C P R_compose s (s\<lparr>ticking := rest, composed := Some m\<rparr>)"
| compose_fade: "fading s = (ctx, call) # rest \<Longrightarrow> composed s = None \<Longrightarrow>
    compose_message (ctl_radar C) (rt_app s) i j handledAt composedAt ctx call = Some m \<Longrightarrow>
    handover C P R_compose s (s\<lparr>fading := rest, composed := Some m\<rparr>)"
| synthesize: "composed s = Some (ctx, response) \<Longrightarrow> spoken s = None \<Longrightarrow>
    synthesizeMessage (ctl_units C) (rt_app s) now lockError say ctx response = (published, r) \<Longrightarrow>
    handover C P R_synthesize s (s\<lparr>composed := None, spoken := r\<rparr>)"
| transmit: "spoken s = Some (ctx, audio) \<Longrightarrow> transmitting s = None \<Longrightarrow>
    transmitMessage (ctl_units C) (rt_app s) now ctx audio = (published, t) \<Longrightarrow>
    handover C P R_transmit s (s\<lparr>spoken := None, transmitting := Some t, handed := handed s @ [t]\<rparr>)"
| encode: "transmitting s = Some t \<Longrightarrow> encoding s = None \<Longrightarrow>
    handover C P R_encode s (s\<lparr>transmitting := None, encoding := Some t\<rparr>)"
| encode_fails: "transmitting s = Some t \<Longrightarrow> encoding s = None \<Longrightarrow> handover C P R_encode s (s\<lparr>transmitting := None\<rparr>)"
| enqueue: "encoding s = Some t \<Longrightarrow> length (voicePacketsTxChan s) < packetCapacity \<Longrightarrow>
    handover C P R_encode s (s\<lparr>encoding := None, voicePacketsTxChan := voicePacketsTxChan s @ [t]\<rparr>)"
| air: "voicePacketsTxChan s = t # rest \<Longrightarrow>
    handover C P R_packets s (s\<lparr>voicePacketsTxChan := rest, on_air := on_air s @ [t]\<rparr>)"

abbreviation hands_over :: "control_lib \<Rightarrow> parse_lib \<Rightarrow> 'o routines \<Rightarrow> 'o routines \<Rightarrow> bool" where
  "hands_over C P s s' \<equiv> \<exists>r. handover C P r s s'"

text \<open>The sources take something new only when they keep nothing. While the radar waits with a call it may change, but
  it has no further call.\<close>

inductive routines_step :: "control_lib \<Rightarrow> parse_lib \<Rightarrow> Routine \<Rightarrow> 'o routines \<Rightarrow> 'o routines \<Rightarrow> bool" for C P where
  hear: "recognized s = None \<Longrightarrow>
    recognizeSample (ctl_units C) (rt_app s) processCtx (received traceID clientName now) later lockError heard expired
      = (published, m) \<Longrightarrow> routines_step C P R_recognize s (s\<lparr>recognized := m\<rparr>)"
| chat: "chatted s = None \<Longrightarrow> routines_step C P R_chat s (s\<lparr>chatted := Some (chat_message uuid traceID player heard)\<rparr>)"
| tick: "ticking s = [] \<Longrightarrow> control_step C now (app_controller (rt_app s)) Tick calls c' \<Longrightarrow> length uuids = length calls \<Longrightarrow>
    routines_step C P R_run s (s\<lparr>rt_app := (rt_app s)\<lparr>app_controller := c'\<rparr>,
      ticking := zip (map NewRequestContext uuids) calls, own_calls := own_calls s \<union> set uuids\<rparr>)"
| scope: "r = R_radar \<and> calls = [] \<or> r = R_fades \<and> fading s = [] \<Longrightarrow> control_step C now (app_controller (rt_app s)) (Scope events) calls c' \<Longrightarrow>
    length uuids = length calls \<Longrightarrow>
    routines_step C P r s (s\<lparr>rt_app := (rt_app s)\<lparr>app_controller := c'\<rparr>,
      fading := fading s @ zip (map NewRequestContext uuids) calls, own_calls := own_calls s \<union> set uuids\<rparr>)"
| hand: "handover C P r s s' \<Longrightarrow> routines_step C P r s s'"

inductive routines_reachable :: "control_lib \<Rightarrow> parse_lib \<Rightarrow> 'o Application \<Rightarrow> 'o routines \<Rightarrow> bool" for C P a where
  start: "routines_reachable C P a (start_routines a uuid)"
| step: "routines_reachable C P a s \<Longrightarrow> routines_step C P r s s' \<Longrightarrow> routines_reachable C P a s'"

section \<open>The routines refine the pipeline\<close>

definition as_list :: "'a option \<Rightarrow> 'a list" where
  "as_list x = (case x of None \<Rightarrow> [] | Some m \<Rightarrow> [m])"

lemma as_list_simps [simp]: "as_list None = []" "as_list (Some m) = [m]"
  by (simp_all add: as_list_def)

lemma as_list_empty [simp]: "as_list x = [] \<longleftrightarrow> x = None"
  by (cases x) simp_all

definition live :: "'a list list \<Rightarrow> 'a list multiset" where
  "live css = mset (filter (\<lambda>cs. cs \<noteq> []) css)"

lemma live_simps [simp]:
  "live [] = {#}" "live (cs # css) = (if cs = [] then live css else add_mset cs (live css))"
  "live (xs @ ys) = live xs + live ys"
  by (simp_all add: live_def)

definition refines :: "'o routines \<Rightarrow> 'o pipeline \<Rightarrow> bool" where
  "refines s p \<longleftrightarrow> pipe_app p = rt_app s \<and> rxText p = [] \<and> requests p = as_list (parsed s) \<and> answers p = answering s \<and>
     live (broadcasts p) = live [ticking s, fading s] \<and> txText p = as_list (composed s) \<and> txAudio p = as_list (spoken s) \<and>
     submitted p = handed s \<and> entered p = texts s \<and> announced p = own_calls s"

text \<open>What the sources keep is a text as they make it, and what is on its way through the radio was handed to it, in this order.\<close>

definition routines_ok :: "'o routines \<Rightarrow> bool" where
  "routines_ok s \<longleftrightarrow>
     (\<forall>m. recognized s = Some m \<longrightarrow> (\<exists>i n t later text. m = (WithRequestText text (WithRecognizedAt later (received i n t)), text))) \<and>
     (\<forall>m. chatted s = Some m \<longrightarrow> (\<exists>uuid i n text. m = chat_message uuid i n text)) \<and>
     subseq (on_air s @ voicePacketsTxChan s @ as_list (encoding s) @ as_list (transmitting s)) (handed s) \<and>
     length (voicePacketsTxChan s) \<le> packetCapacity"

lemma take_live:
  assumes "live css = live [m # rest, other]"
  obtains before after where "css = before @ (m # rest) # after" "live (before @ rest # after) = live [rest, other]"
proof -
  have "m # rest \<in># live css" using assms by simp
  then have "m # rest \<in> set css" by (simp add: live_def)
  then obtain before after where css: "css = before @ (m # rest) # after" by (meson split_list)
  with assms have "live before + live after = live [other]" by (simp add: add.commute split: if_splits)
  then have "live (before @ rest # after) = live [rest, other]" by (auto simp: add.commute split: if_splits)
  with css show thesis by (rule that)
qed

lemma live_more: "xs \<noteq> [] \<longrightarrow> ys = [] \<Longrightarrow> live [zs, ys @ xs] = live [zs, ys] + live [xs]" by (cases xs) auto

lemma live_swap: "live [xs, ys] = live [ys, xs]" by simp

lemma broadcast_composed:
  assumes p: "pipe_app p = a" "live (broadcasts p) = live [(ctx, call) # rest, other]" "txText p = []"
    and m: "compose_message (ctl_radar C) a i j handledAt composedAt ctx call = Some m"
  shows "\<exists>bs. pipe_step C P p (p\<lparr>broadcasts := bs, txText := [m]\<rparr>) \<and> live bs = live [rest, other]"
proof -
  obtain before after where b: "broadcasts p = before @ ((ctx, call) # rest) # after"
    "live (before @ rest # after) = live [rest, other]" using p(2) by (rule take_live)
  have "process C P p (p\<lparr>broadcasts := before @ rest # after, txText := txText p @ [m]\<rparr>)"
    by (rule process.compose_broadcast [OF b(1)]) (use m p(1) in simp)
  then show ?thesis using b(2) p(3) pipe_step.work by fastforce
qed

lemma enter_parsed:
  assumes "refines s p" and "parsed s = None" and "pipe_step C P p (enter (ctx, heard) p)"
    and "parseText (ctl_units C) P (rt_app s) now ctx heard = (published, r)"
  shows "\<exists>p'. (pipe_step C P)\<^sup>*\<^sup>* p p' \<and> refines (s\<lparr>parsed := r, texts := texts s @ [identity ctx]\<rparr>) p'"
proof -
  let ?e = "enter (ctx, heard) p" and ?out = "case r of None \<Rightarrow> [] | Some m \<Rightarrow> [m]"
  have p: "pipe_app p = rt_app s" "rxText p = []" "requests p = []" using assms(1,2) by (simp_all add: refines_def)
  have "process C P ?e (?e\<lparr>rxText := [], requests := requests ?e @ ?out\<rparr>)"
    by (rule process.parse) (use p assms(4) in \<open>simp_all add: enter_def\<close>)
  then have "(pipe_step C P)\<^sup>*\<^sup>* p (?e\<lparr>rxText := [], requests := requests ?e @ ?out\<rparr>)"
    using assms(3) pipe_step.work by (meson converse_rtranclp_into_rtranclp r_into_rtranclp)
  moreover have "refines (s\<lparr>parsed := r, texts := texts s @ [identity ctx]\<rparr>) (?e\<lparr>rxText := [], requests := requests ?e @ ?out\<rparr>)"
    using assms(1) p by (simp add: refines_def enter_def as_list_def)
  ultimately show ?thesis by blast
qed

lemma refines_sources [simp]:
  "refines (s\<lparr>recognized := x\<rparr>) p = refines s p" "refines (s\<lparr>chatted := y\<rparr>) p = refines s p"
  "refines (s\<lparr>transmitting := t\<rparr>) p = refines s p" "refines (s\<lparr>encoding := t\<rparr>) p = refines s p"
  "refines (s\<lparr>voicePacketsTxChan := ts\<rparr>) p = refines s p" "refines (s\<lparr>on_air := ts\<rparr>) p = refines s p"
  by (simp_all add: refines_def)

text \<open>Each handover is no step, one step, or, where a text is parsed, two steps of the pipeline.\<close>

lemma handover_simulated:
  assumes "handover C P r s s'" and "refines s p" and "routines_ok s"
  shows "\<exists>p'. (pipe_step C P)\<^sup>*\<^sup>* p p' \<and> refines s' p'"
  using assms
proof (induction rule: handover.induct)
  case (parse_recognized s ctx heard now published r)
  obtain i n t later said where m: "(ctx, heard) = (WithRequestText said (WithRecognizedAt later (received i n t)), said)"
    using parse_recognized(1,5) by (auto simp: routines_ok_def)
  have "recognizeSample (ctl_units C) (pipe_app p) [] (received i n t) later None (Inr said) None = ([], Some (ctx, heard))"
    unfolding m by (simp add: recognizeSample_def)
  then have "pipe_step C P p (enter (ctx, heard) p)" by (rule pipe_step.hear)
  then obtain p' where "(pipe_step C P)\<^sup>*\<^sup>* p p'" "refines (s\<lparr>parsed := r, texts := texts s @ [identity ctx]\<rparr>) p'"
    using enter_parsed [OF parse_recognized(4,2) _ parse_recognized(3)] by blast
  then show ?case by (auto simp: refines_def)
next
  case (parse_chatted s ctx heard now published r)
  obtain uuid i n said where m: "(ctx, heard) = chat_message uuid i n said"
    using parse_chatted(1,5) by (auto simp: routines_ok_def)
  have "pipe_step C P p (enter (ctx, heard) p)" unfolding m by (rule pipe_step.chat)
  then obtain p' where "(pipe_step C P)\<^sup>*\<^sup>* p p'" "refines (s\<lparr>parsed := r, texts := texts s @ [identity ctx]\<rparr>) p'"
    using enter_parsed [OF parse_chatted(4,2) _ parse_chatted(3)] by blast
  then show ?case by (auto simp: refines_def)
next
  case (control s ctx r now a calls)
  have "process C P p (p\<lparr>pipe_app := a, requests := [], answers := answers p @ calls\<rparr>)"
    by (rule process.control) (use control in \<open>simp_all add: refines_def\<close>)
  moreover have "refines (s\<lparr>rt_app := a, parsed := None, answering := calls\<rparr>) (p\<lparr>pipe_app := a, requests := [], answers := answers p @ calls\<rparr>)"
    using control(2,4) by (simp add: refines_def)
  ultimately show ?case using pipe_step.work r_into_rtranclp by metis
next
  case (compose_answer s ctx call rest i j handledAt composedAt m)
  have "process C P p (p\<lparr>answers := rest, txText := txText p @ [m]\<rparr>)"
    by (rule process.compose) (use compose_answer in \<open>simp_all add: refines_def\<close>)
  moreover have "refines (s\<lparr>answering := rest, composed := Some m\<rparr>) (p\<lparr>answers := rest, txText := txText p @ [m]\<rparr>)"
    using compose_answer(2,4) by (simp add: refines_def)
  ultimately show ?case using pipe_step.work r_into_rtranclp by metis
next
  case (compose_tick s ctx call rest i j handledAt composedAt m)
  have p: "pipe_app p = rt_app s" "live (broadcasts p) = live [(ctx, call) # rest, fading s]" "txText p = []"
    using compose_tick(1,2,4) by (simp_all add: refines_def)
  obtain bs where b: "pipe_step C P p (p\<lparr>broadcasts := bs, txText := [m]\<rparr>)" "live bs = live [rest, fading s]"
    using broadcast_composed [OF p compose_tick(3)] by blast
  have "refines (s\<lparr>ticking := rest, composed := Some m\<rparr>) (p\<lparr>broadcasts := bs, txText := [m]\<rparr>)"
    using compose_tick(4) b(2) by (simp add: refines_def)
  then show ?case using b(1) by blast
next
  case (compose_fade s ctx call rest i j handledAt composedAt m)
  have p: "pipe_app p = rt_app s" "live (broadcasts p) = live [(ctx, call) # rest, ticking s]" "txText p = []"
    using compose_fade(1,2,4) by (auto simp: refines_def)
  obtain bs where b: "pipe_step C P p (p\<lparr>broadcasts := bs, txText := [m]\<rparr>)" "live bs = live [rest, ticking s]"
    using broadcast_composed [OF p compose_fade(3)] by blast
  have "refines (s\<lparr>fading := rest, composed := Some m\<rparr>) (p\<lparr>broadcasts := bs, txText := [m]\<rparr>)"
    using compose_fade(4) b(2) by (auto simp: refines_def)
  then show ?case using b(1) by blast
next
  case (synthesize s ctx response now lockError say published r)
  let ?p = "p\<lparr>txText := [], txAudio := txAudio p @ (case r of None \<Rightarrow> [] | Some m \<Rightarrow> [m])\<rparr>"
  have "process C P p ?p" by (rule process.synthesize) (use synthesize in \<open>simp_all add: refines_def\<close>)
  moreover have "refines (s\<lparr>composed := None, spoken := r\<rparr>) ?p" using synthesize(2,4) by (simp add: refines_def as_list_def)
  ultimately show ?case using pipe_step.work r_into_rtranclp by metis
next
  case (transmit s ctx audio now published t)
  let ?p = "p\<lparr>txAudio := [], submitted := submitted p @ [t]\<rparr>"
  have "process C P p ?p" by (rule process.transmit) (use transmit in \<open>simp_all add: refines_def\<close>)
  moreover have "refines (s\<lparr>spoken := None, transmitting := Some t, handed := handed s @ [t]\<rparr>) ?p"
    using transmit(2,4) by (simp add: refines_def)
  ultimately show ?case using pipe_step.work r_into_rtranclp by metis
next
  case (encode s t)
  then show ?case by (intro exI [of _ p]) simp
next
  case (encode_fails s t)
  then show ?case by (intro exI [of _ p]) simp
next
  case (enqueue s t)
  then show ?case by (intro exI [of _ p]) simp
next
  case (air s t rest)
  then show ?case by (intro exI [of _ p]) simp
qed

lemma source_steps_simulated:
  assumes "control_step C now (app_controller (rt_app s)) e calls c'" and "length uuids = length calls"
    and "refines s p" and "xs = zip (map NewRequestContext uuids) calls"
    and "live [ticking s', fading s'] = live [ticking s, fading s] + live [xs]"
    and "s' = s\<lparr>rt_app := (rt_app s)\<lparr>app_controller := c'\<rparr>, ticking := ticking s', fading := fading s', own_calls := own_calls s \<union> set uuids\<rparr>"
  shows "\<exists>p'. (pipe_step C P)\<^sup>*\<^sup>* p p' \<and> refines s' p'"
proof -
  let ?p = "p\<lparr>pipe_app := (pipe_app p)\<lparr>app_controller := c'\<rparr>, broadcasts := broadcasts p @ [xs],
      announced := announced p \<union> set uuids\<rparr>"
  have "control_step C now (app_controller (pipe_app p)) e calls c'" using assms(1,3) by (simp add: refines_def)
  then have "pipe_step C P p ?p" using assms(2,4) by (simp only: pipe_step.broadcast)
  moreover have "refines s' ?p"
    using assms(3,5) by (subst assms(6)) (simp add: refines_def)
  ultimately show ?thesis by blast
qed

lemma routines_step_simulated:
  assumes "routines_step C P r s s'" and "refines s p" and "routines_ok s"
  shows "\<exists>p'. (pipe_step C P)\<^sup>*\<^sup>* p p' \<and> refines s' p'"
  using assms
proof (induction rule: routines_step.induct)
  case (tick s now calls c' uuids)
  let ?xs = "zip (map NewRequestContext uuids) calls"
  let ?t = "s\<lparr>rt_app := (rt_app s)\<lparr>app_controller := c'\<rparr>, ticking := ?xs, own_calls := own_calls s \<union> set uuids\<rparr>"
  have "live [ticking ?t, fading ?t] = live [ticking s, fading s] + live [?xs]"
    using live_more [of ?xs "[]" "fading s"] tick(1) by (simp add: live_swap [of ?xs] live_swap [of "[]"] del: live_simps)
  then show ?case by (rule source_steps_simulated [OF tick(2-4) refl]) simp
next
  case (scope r calls s now events c' uuids)
  let ?xs = "zip (map NewRequestContext uuids) calls"
  let ?t = "s\<lparr>rt_app := (rt_app s)\<lparr>app_controller := c'\<rparr>, fading := fading s @ ?xs, own_calls := own_calls s \<union> set uuids\<rparr>"
  have "live [ticking ?t, fading ?t] = live [ticking s, fading s] + live [?xs]"
    using live_more [of ?xs "fading s" "ticking s"] scope(1) by (cases calls) (auto simp del: live_simps)
  then show ?case by (rule source_steps_simulated [OF scope(2-4) refl]) simp
next
  case (hand r s s')
  then show ?case by (rule handover_simulated)
next
  case (hear s processCtx traceID clientName now later lockError heard expired published m)
  then show ?case by (intro exI [of _ p]) simp
next
  case (chat s uuid traceID player heard)
  then show ?case by (intro exI [of _ p]) simp
qed

text \<open>What the sources keep, and the way through the radio.\<close>

lemma handover_ok: "handover C P r s s' \<Longrightarrow> routines_ok s \<Longrightarrow> routines_ok s'"
proof (induction rule: handover.induct)
  case (transmit s ctx audio now published t)
  then have "subseq (on_air s @ voicePacketsTxChan s @ as_list (encoding s)) (handed s)" by (simp add: routines_ok_def)
  then have "subseq ((on_air s @ voicePacketsTxChan s @ as_list (encoding s)) @ [t]) (handed s @ [t])"
    by (intro list_emb_append_mono) simp_all
  then show ?case using transmit(4) by (simp add: routines_ok_def)
next
  case (encode_fails s t)
  then have "subseq ((on_air s @ voicePacketsTxChan s) @ [t]) (handed s)" by (simp add: routines_ok_def)
  moreover have "subseq (on_air s @ voicePacketsTxChan s) ((on_air s @ voicePacketsTxChan s) @ [t])"
    by (intro prefix_imp_subseq) simp
  ultimately have "subseq (on_air s @ voicePacketsTxChan s) (handed s)" using subseq_order.trans by blast
  then show ?case using encode_fails by (simp add: routines_ok_def)
qed (auto simp: routines_ok_def packetCapacity_def)

lemma routines_step_ok: "routines_step C P r s s' \<Longrightarrow> routines_ok s \<Longrightarrow> routines_ok s'"
proof (induction rule: routines_step.induct)
  case (hear s processCtx traceID clientName now later lockError heard expired published m)
  have "\<forall>x. m = Some x \<longrightarrow> (\<exists>i n t later said. x = (WithRequestText said (WithRecognizedAt later (received i n t)), said))"
    using hear(2) by (auto simp: recognizeSample_def Let_def split: option.splits sum.splits)
  then show ?case using hear(3) by (simp add: routines_ok_def)
next
  case (hand r s s')
  then show ?case by (rule handover_ok)
qed (auto simp: routines_ok_def)

lemma routines_simulated:
  assumes "routines_reachable C P a s"
  shows "routines_ok s \<and> (\<exists>p. pipe_reachable C P a p \<and> refines s p)"
  using assms
proof (induction rule: routines_reachable.induct)
  case (start uuid)
  have "refines (start_routines a uuid) (start_pipeline a uuid)"
    by (simp add: refines_def start_routines_def start_pipeline_def)
  moreover have "routines_ok (start_routines a uuid)" by (simp add: routines_ok_def start_routines_def)
  ultimately show ?case using pipe_reachable.start by blast
next
  case (step s r s')
  then obtain p p' where "pipe_reachable C P a p" "(pipe_step C P)\<^sup>*\<^sup>* p p'" "refines s' p'"
    using routines_step_simulated by meson
  moreover have "pipe_reachable C P a p'" using calculation(2,1) by (induction rule: rtranclp_induct) (auto intro: pipe_reachable.step)
  ultimately show ?case using step routines_step_ok by blast
qed

text \<open>C5. The routines with the channels of the code implement the pipeline: for each state they reach there is a reachable state of the
  pipeline with the same application, the same history, and the messages under way that the routines keep.\<close>

theorem routines_refine_pipeline:
  assumes "routines_reachable C P a s"
  shows "\<exists>p. pipe_reachable C P a p \<and> pipe_app p = rt_app s \<and> submitted p = handed s \<and> entered p = texts s \<and>
    announced p = own_calls s \<and> rxText p = [] \<and> requests p = as_list (parsed s) \<and> answers p = answering s \<and>
    mset (concat (broadcasts p)) = mset (ticking s @ fading s) \<and> txText p = as_list (composed s) \<and> txAudio p = as_list (spoken s)"
proof -
  obtain p where p: "pipe_reachable C P a p" "refines s p" using routines_simulated [OF assms] by blast
  have "mset (concat css) = \<Sum>\<^sub># (image_mset mset (live css))" for css :: "(Context \<times> Call) list list"
    by (induction css) auto
  then have "mset (concat (broadcasts p)) = mset (ticking s @ fading s)" using p(2) by (simp add: refines_def)
  then show ?thesis using p by (auto simp: refines_def)
qed

section \<open>On the air\<close>

text \<open>C3. What goes on the air keeps its order and its identity through all channels: without the controller's own calls,
  the transmissions on the air are a subsequence of the texts that were parsed, with their trace IDs and client names, and never
  do more than three encoded transmissions wait.\<close>

theorem on_air_in_order:
  assumes "routines_reachable C P a s"
  shows "subseq (filter (\<lambda>x. fst x \<notin> own_calls s) (map (\<lambda>(i, t). (i, ClientName t)) (on_air s))) (texts s) \<and>
    length (voicePacketsTxChan s) \<le> 3"
proof -
  let ?id = "\<lambda>(i, t). (i :: string, ClientName t)" and ?own = "\<lambda>x. fst x \<notin> own_calls s"
  obtain p where p: "routines_ok s" "pipe_ok p" "refines s p"
    using routines_simulated [OF assms] pipe_reachable_ok by blast
  have "subseq (on_air s) (on_air s @ voicePacketsTxChan s @ as_list (encoding s) @ as_list (transmitting s))"
    by (intro prefix_imp_subseq) simp
  then have "subseq (on_air s) (handed s)" using p(1) subseq_order.trans by (auto simp: routines_ok_def)
  then have "subseq (filter ?own (map ?id (on_air s))) (filter ?own (map ?id (handed s)))" by (intro subseq_filter subseq_map)
  moreover have "subseq (filter ?own (map ?id (handed s))) (filter ?own (flow p))"
    using p(3) by (intro subseq_filter) (simp add: flow_def refines_def subseq_rev_drop_many)
  moreover have "subseq (filter ?own (flow p)) (texts s)"
    using p(2,3) by (simp add: pipe_ok_def replies_def refines_def)
  ultimately show ?thesis using p(1) subseq_order.trans by (auto simp: routines_ok_def packetCapacity_def)
qed

section \<open>No routine waits for ever\<close>

text \<open>A bound on the handovers that are still to come.\<close>

definition remaining :: "'o routines \<Rightarrow> nat" where
  "remaining s = 8 * length (as_list (recognized s)) + 8 * length (as_list (chatted s)) + 7 * length (as_list (parsed s)) +
     6 * (length (answering s) + length (ticking s) + length (fading s)) + 5 * length (as_list (composed s)) +
     4 * length (as_list (spoken s)) + 3 * length (as_list (transmitting s)) + 2 * length (as_list (encoding s)) +
     length (voicePacketsTxChan s)"

lemma handover_remaining: "handover C P r s s' \<Longrightarrow> refines s p \<Longrightarrow> pipe_ok p \<Longrightarrow> remaining s' < remaining s"
proof (induction rule: handover.induct)
  case (control s ctx r now a calls)
  have "request_ok r" using control(1,4,5) by (auto simp: pipe_ok_def refines_def)
  then have "length calls = 1"
    using handle_one [of r C now "app_controller (rt_app s)"] control(3) by (auto simp: handleRequest_def)
  then show ?case using control(1,2) by (simp add: remaining_def)
next
  case (parse_recognized s ctx heard now published r)
  then show ?case by (cases r) (simp_all add: remaining_def)
next
  case (parse_chatted s ctx heard now published r)
  then show ?case by (cases r) (simp_all add: remaining_def)
next
  case (synthesize s ctx response now lockError say published r)
  then show ?case by (cases r) (simp_all add: remaining_def)
qed (simp_all add: remaining_def)

lemma kept_composable:
  assumes "refines s p" and "pipe_ok p" and "(ctx, call) \<in> set (answering s) \<union> set (ticking s) \<union> set (fading s)"
  shows "composable call"
proof -
  have own: "composable call" if "(ctx, call) \<in> set cs" "cs \<in># live [ticking s, fading s]" for cs
  proof -
    have "cs \<in># live (broadcasts p)" using that(2) assms(1) by (simp add: refines_def)
    then have "cs \<in> set (broadcasts p)" by (simp add: live_def)
    then show ?thesis using that(1) assms(2) by (auto simp: pipe_ok_def)
  qed
  have "(ctx, call) \<in> set (ticking s) \<Longrightarrow> ticking s \<in># live [ticking s, fading s]" by auto
  moreover have "(ctx, call) \<in> set (fading s) \<Longrightarrow> fading s \<in># live [ticking s, fading s]" by auto
  moreover have "(ctx, call) \<in> set (answering s) \<Longrightarrow> composable call" using assms(1,2) by (auto simp: pipe_ok_def refines_def)
  ultimately show ?thesis using assms(3) own by blast
qed

text \<open>The routine that is farthest down the way and keeps something can hand it over.\<close>

lemma handover_next:
  assumes "refines s p" and "pipe_ok p" and "remaining s > 0"
  shows "\<exists>r s'. handover C P r s s'"
proof -
  note composable = kept_composable [OF assms(1,2)]
  have response: "\<exists>m. compose_message (ctl_radar C) (rt_app s) 0 0 0 0 ctx call = Some m" if "composable call" for ctx call
    using composeCall_total [OF that, of "ctl_radar C" "app_composer (rt_app s)" 0 0] by (auto simp: compose_message_def)
  have "voicePacketsTxChan s \<noteq> [] \<or> encoding s \<noteq> None \<or> transmitting s \<noteq> None \<or> spoken s \<noteq> None \<or> composed s \<noteq> None \<or>
      answering s \<noteq> [] \<or> ticking s \<noteq> [] \<or> fading s \<noteq> [] \<or> parsed s \<noteq> None \<or> recognized s \<noteq> None \<or> chatted s \<noteq> None"
    using assms(3) by (auto simp: remaining_def simp del: not_None_eq)
  then consider (air) "voicePacketsTxChan s \<noteq> []"
    | (enqueue) "encoding s \<noteq> None" "voicePacketsTxChan s = []"
    | (encode) "transmitting s \<noteq> None" "encoding s = None"
    | (transmit) "spoken s \<noteq> None" "transmitting s = None"
    | (synthesize) "composed s \<noteq> None" "spoken s = None"
    | (answer) "answering s \<noteq> []" "composed s = None"
    | (tick) "ticking s \<noteq> []" "composed s = None"
    | (fade) "fading s \<noteq> []" "composed s = None"
    | (control) "parsed s \<noteq> None" "answering s = []"
    | (recognized) "recognized s \<noteq> None" "parsed s = None"
    | (chatted) "chatted s \<noteq> None" "parsed s = None"
    by argo
  then show ?thesis
  proof cases
    case air
    then obtain t rest where e: "voicePacketsTxChan s = t # rest" by (auto simp: neq_Nil_conv)
    then show ?thesis using handover.air by blast
  next
    case enqueue
    then obtain t where e: "encoding s = Some t" by auto
    have "length (voicePacketsTxChan s) < packetCapacity" using enqueue(2) by (simp add: packetCapacity_def)
    with e show ?thesis using handover.enqueue by blast
  next
    case encode
    then obtain t where e: "transmitting s = Some t" by auto
    with encode(2) show ?thesis using handover.encode by blast
  next
    case transmit
    then obtain ctx audio where e: "spoken s = Some (ctx, audio)" by auto
    then show ?thesis using transmit(2) by (metis handover.transmit surj_pair)
  next
    case synthesize
    then obtain ctx response where e: "composed s = Some (ctx, response)" by auto
    then show ?thesis using synthesize(2) by (metis handover.synthesize surj_pair)
  next
    case answer
    then obtain ctx call rest where e: "answering s = (ctx, call) # rest" by (auto simp: neq_Nil_conv)
    then have "composable call" using composable [of ctx call] by simp
    then show ?thesis using e answer(2) response handover.compose_answer by metis
  next
    case tick
    then obtain ctx call rest where e: "ticking s = (ctx, call) # rest" by (auto simp: neq_Nil_conv)
    then have "composable call" using composable [of ctx call] by simp
    then show ?thesis using e tick(2) response handover.compose_tick by metis
  next
    case fade
    then obtain ctx call rest where e: "fading s = (ctx, call) # rest" by (auto simp: neq_Nil_conv)
    then have "composable call" using composable [of ctx call] by simp
    then show ?thesis using e fade(2) response handover.compose_fade by metis
  next
    case control
    then obtain ctx r where e: "parsed s = Some (ctx, r)" by auto
    then have "request_ok r" using assms(1,2) by (auto simp: pipe_ok_def refines_def)
    then have "\<exists>a calls. handleRequest C 0 ctx r (rt_app s) = Some (a, calls)"
      using handle_one [of r C 0 "app_controller (rt_app s)"] by (auto simp: handleRequest_def)
    then show ?thesis using e control(2) handover.control by metis
  next
    case recognized
    then obtain ctx heard where e: "recognized s = Some (ctx, heard)" by auto
    then show ?thesis using recognized(2) by (metis handover.parse_recognized surj_pair)
  next
    case chatted
    then obtain ctx heard where e: "chatted s = Some (ctx, heard)" by auto
    then show ?thesis using chatted(2) by (metis handover.parse_chatted surj_pair)
  qed
qed


section \<open>A run\<close>

lemma routines_hand: "routines_reachable C P a s \<Longrightarrow> handover C P r s s' \<Longrightarrow> routines_reachable C P a s'"
  by (rule routines_reachable.step [OF _ routines_step.hand])

text \<open>A pilot asks for a picture, and the answer goes on the air while the sunrise call still waits.\<close>

lemma demo_routines:
  "\<exists>s. routines_reachable demo_control_lib demo_parse_lib demo_application s \<and> remaining s > 0 \<and> own_calls s = {''b''} \<and>
     texts s = [(''t1'', ''Eagle'')] \<and> map (\<lambda>(i, t). (i, ClientName t)) (on_air s) = [(''t1'', ''Eagle'')]"
proof -
  obtain c call ctx response ctx' audio published where stage:
    "recognizeSample (ctl_units demo_control_lib) demo_application [] (received ''t1'' ''Eagle'' 1) 2 None (Inr demo_said) None
       = ([], Some (demo_heard, demo_said))"
    "parseText (ctl_units demo_control_lib) demo_parse_lib demo_application 3 demo_heard demo_said
       = ([], Some (demo_asked, PictureRequest ''eagle 1 1''))"
    "handleRequest demo_control_lib 4 demo_asked (PictureRequest ''eagle 1 1'') demo_application
       = Some (demo_application\<lparr>app_controller := c\<rparr>, [(demo_asked, call)])"
    "compose_message (ctl_radar demo_control_lib) (demo_application\<lparr>app_controller := c\<rparr>) 0 0 5 6 demo_asked call = Some (ctx, response)"
    "synthesizeMessage (ctl_units demo_control_lib) (demo_application\<lparr>app_controller := c\<rparr>) 7 None (\<lambda>_. Inr [1]) ctx response
       = ([], Some (ctx', audio))"
    "transmitMessage (ctl_units demo_control_lib) (demo_application\<lparr>app_controller := c\<rparr>) 8 ctx' audio
       = (published, (''t1'', \<lparr>ClientName = ''Eagle'', Audio = audio\<rparr>))"
    "identity demo_heard = (''t1'', ''Eagle'')"
    by (rule demo_stages)
  let ?C = demo_control_lib and ?P = demo_parse_lib and ?a = demo_application
  let ?s0 = "start_routines ?a ''b''" and ?a' = "?a\<lparr>app_controller := c\<rparr>" and ?r = "PictureRequest ''eagle 1 1''"
  note start = start_routines_def as_list_def
  let ?s1 = "?s0\<lparr>recognized := Some (demo_heard, demo_said)\<rparr>"
  have 1: "routines_reachable ?C ?P ?a ?s1"
    by (rule routines_reachable.step [OF routines_reachable.start routines_step.hear])
      (use stage(1) in \<open>simp_all only: start_routines_def routines.select_convs\<close>)
  let ?s2 = "?s1\<lparr>recognized := None, parsed := Some (demo_asked, ?r), texts := texts ?s1 @ [identity demo_heard]\<rparr>"
  have 2: "routines_reachable ?C ?P ?a ?s2"
    by (rule routines_hand [OF 1 handover.parse_recognized]) (use stage(2) in \<open>simp_all add: start\<close>)
  let ?s3 = "?s2\<lparr>rt_app := ?a', parsed := None, answering := [(demo_asked, call)]\<rparr>"
  have 3: "routines_reachable ?C ?P ?a ?s3"
    by (rule routines_hand [OF 2 handover.control]) (use stage(3) in \<open>simp_all add: start\<close>)
  let ?s4 = "?s3\<lparr>answering := [], composed := Some (ctx, response)\<rparr>"
  have 4: "routines_reachable ?C ?P ?a ?s4"
    by (rule routines_hand [OF 3 handover.compose_answer]) (use stage(4) in \<open>simp_all add: start\<close>)
  let ?s5 = "?s4\<lparr>composed := None, spoken := Some (ctx', audio)\<rparr>"
  have 5: "routines_reachable ?C ?P ?a ?s5"
    by (rule routines_hand [OF 4 handover.synthesize]) (use stage(5) in \<open>simp_all add: start\<close>)
  let ?t = "(''t1'', \<lparr>ClientName = ''Eagle'', Audio = audio\<rparr>)"
  let ?s6 = "?s5\<lparr>spoken := None, transmitting := Some ?t, handed := handed ?s5 @ [?t]\<rparr>"
  have 6: "routines_reachable ?C ?P ?a ?s6"
    by (rule routines_hand [OF 5 handover.transmit]) (use stage(6) in \<open>simp_all add: start\<close>)
  let ?s7 = "?s6\<lparr>transmitting := None, encoding := Some ?t\<rparr>"
  have 7: "routines_reachable ?C ?P ?a ?s7"
    by (rule routines_hand [OF 6 handover.encode]) (simp_all add: start)
  let ?s8 = "?s7\<lparr>encoding := None, voicePacketsTxChan := voicePacketsTxChan ?s7 @ [?t]\<rparr>"
  have 8: "routines_reachable ?C ?P ?a ?s8"
    by (rule routines_hand [OF 7 handover.enqueue]) (simp_all add: start packetCapacity_def)
  let ?s9 = "?s8\<lparr>voicePacketsTxChan := [], on_air := on_air ?s8 @ [?t]\<rparr>"
  have 9: "routines_reachable ?C ?P ?a ?s9"
    by (rule routines_hand [OF 8 handover.air]) (simp_all add: start)
  show ?thesis
    by (rule exI [of _ ?s9]) (use 9 stage(7) in \<open>simp add: start remaining_def broadcastSunrise_def\<close>)
qed

theorem routines_refine_pipeline_witness:
  "\<exists>(s :: u64 routines) p. map (\<lambda>(i, t). (i, ClientName t)) (on_air s) = [(''t1'', ''Eagle'')] \<and>
     pipe_reachable demo_control_lib demo_parse_lib demo_application p \<and> submitted p = handed s \<and> entered p = texts s"
proof -
  obtain s where s: "routines_reachable demo_control_lib demo_parse_lib demo_application s"
    "map (\<lambda>(i, t). (i, ClientName t)) (on_air s) = [(''t1'', ''Eagle'')]"
    using demo_routines by (elim exE conjE) (rule that)
  obtain p where "pipe_reachable demo_control_lib demo_parse_lib demo_application p" "submitted p = handed s" "entered p = texts s"
    using routines_refine_pipeline [OF s(1)] by (elim exE conjE) (rule that)
  with s(2) show ?thesis by - (rule exI [of _ s], rule exI [of _ p], intro conjI)
qed

theorem on_air_in_order_witness:
  "\<exists>s. routines_reachable demo_control_lib demo_parse_lib demo_application s \<and> texts s = [(''t1'', ''Eagle'')] \<and>
     subseq (filter (\<lambda>x. fst x \<notin> {''b''}) [(''t1'', ''Eagle'')]) (texts s)"
proof -
  obtain s where s: "routines_reachable demo_control_lib demo_parse_lib demo_application s" "own_calls s = {''b''}"
    "texts s = [(''t1'', ''Eagle'')]" "map (\<lambda>(i, t). (i, ClientName t)) (on_air s) = [(''t1'', ''Eagle'')]"
    using demo_routines by (elim exE conjE) (rule that)
  have "subseq (filter (\<lambda>x. fst x \<notin> {''b''}) [(''t1'', ''Eagle'')]) (texts s)"
    using conjunct1 [OF on_air_in_order [OF s(1)]] unfolding s(2,4) .
  with s(1,3) show ?thesis by (intro exI [of _ s] conjI)
qed


end
