(* ===== verification/Shutdown.thy ===== *)
theory Shutdown
  imports Channels
begin

text \<open>
  How the program stops (\<open>cmd/skyeye/main.go\<close>, \<open>run\<close>, and \<open>internal/application/app.go\<close>, \<open>Run\<close>). A signal, an error of a
  client or the exit timer cancels the context of all goroutines. A goroutine sees that only where it waits for its next
  message: what it keeps it still sends, and it waits until that is taken. The program ends when all goroutines have returned, or
  ten seconds after the cancellation.
\<close>

section \<open>Routines that return\<close>

text \<open>Whether a routine keeps something that it sends, who takes it, and how far down the way the routine is.\<close>

fun keeps :: "'o routines \<Rightarrow> Routine \<Rightarrow> bool" where
  "keeps s R_recognize = (recognized s \<noteq> None)"
| "keeps s R_chat = (chatted s \<noteq> None)"
| "keeps s R_parse = (parsed s \<noteq> None)"
| "keeps s R_control = (answering s \<noteq> [])"
| "keeps s R_run = (ticking s \<noteq> [])"
| "keeps s R_fades = (fading s \<noteq> [])"
| "keeps s R_radar = False"
| "keeps s R_compose = (composed s \<noteq> None)"
| "keeps s R_synthesize = (spoken s \<noteq> None)"
| "keeps s R_transmit = (transmitting s \<noteq> None)"
| "keeps s R_encode = (encoding s \<noteq> None)"
| "keeps s R_packets = False"

fun taker :: "Routine \<Rightarrow> Routine" where
  "taker R_recognize = R_parse" | "taker R_chat = R_parse" | "taker R_parse = R_control"
| "taker R_control = R_compose" | "taker R_run = R_compose" | "taker R_fades = R_compose"
| "taker R_compose = R_synthesize" | "taker R_synthesize = R_transmit" | "taker R_transmit = R_encode"
| "taker R_encode = R_packets" | "taker R_packets = R_packets" | "taker R_radar = R_radar"

fun stage :: "Routine \<Rightarrow> nat" where
  "stage R_recognize = 0" | "stage R_chat = 0" | "stage R_radar = 0" | "stage R_parse = 1"
| "stage R_control = 2" | "stage R_run = 2" | "stage R_fades = 2" | "stage R_compose = 3"
| "stage R_synthesize = 4" | "stage R_transmit = 5" | "stage R_encode = 6" | "stage R_packets = 7"

record 'o program =
  working :: "'o routines"
  ended :: "Routine set"
  cancelled :: bool

definition start_program :: "'o Application \<Rightarrow> string \<Rightarrow> 'o program" where
  "start_program a uuid = \<lparr>working = start_routines a uuid, ended = {}, cancelled = False\<rparr>"

datatype RunError = Canceled | RunFailed string

text \<open>A client whose \<open>Run\<close> returns an error cancels, unless the error is the cancellation itself.\<close>

definition client_returned :: "RunError option \<Rightarrow> 'o program \<Rightarrow> 'o program" where
  "client_returned err p = (case err of Some (RunFailed e) \<Rightarrow> p\<lparr>cancelled := True\<rparr> | _ \<Rightarrow> p)"

definition interrupted :: "'o program \<Rightarrow> 'o program" where
  "interrupted p = p\<lparr>cancelled := True\<rparr>"

text \<open>Before it returns the controller detaches its callbacks, which needs the lock that the radar holds while a call of a fade
  waits. What the radar does afterwards still changes the controller of the model, but nobody asks it any more.\<close>

inductive program_step :: "control_lib \<Rightarrow> parse_lib \<Rightarrow> 'o program \<Rightarrow> 'o program \<Rightarrow> bool" for C P where
  act: "r \<notin> ended p \<Longrightarrow> routines_step C P r (working p) s \<Longrightarrow> program_step C P p (p\<lparr>working := s\<rparr>)"
| signal: "program_step C P p (interrupted p)"
| client_error: "program_step C P p (client_returned err p)"
| exit_time: "exit_timer (app_exitAfter (rt_app (working p))) started tests = Some t \<Longrightarrow> program_step C P p (p\<lparr>cancelled := True\<rparr>)"
| leave: "cancelled p \<Longrightarrow> r \<notin> ended p \<Longrightarrow> \<not> keeps (working p) r \<Longrightarrow> (r = R_run \<longrightarrow> fading (working p) = []) \<Longrightarrow>
    program_step C P p (p\<lparr>ended := insert r (ended p)\<rparr>)"

inductive program_reachable :: "control_lib \<Rightarrow> parse_lib \<Rightarrow> 'o Application \<Rightarrow> 'o program \<Rightarrow> bool" for C P a where
  start: "program_reachable C P a (start_program a uuid)"
| step: "program_reachable C P a p \<Longrightarrow> program_step C P p p' \<Longrightarrow> program_reachable C P a p'"

definition all_routines :: "Routine list" where
  "all_routines = [R_recognize, R_chat, R_parse, R_control, R_run, R_fades, R_radar, R_compose, R_synthesize, R_transmit,
     R_encode, R_packets]"

text \<open>The status the process exits with, some time after the cancellation; \<open>None\<close> while it runs. The first argument
  says whether the other goroutines, those of the telemetry and of the reception of the radio, have returned.\<close>

definition exit_status :: "bool \<Rightarrow> int \<Rightarrow> 'o program \<Rightarrow> int option" where
  "exit_status others waited p =
     (if others \<and> list_all (\<lambda>r. r \<in> ended p) all_routines then Some 0
      else if cancelled p \<and> 10 * second \<le> waited then Some 1
      else None)"

section \<open>What a step can change\<close>

lemma all_routines_UNIV: "set all_routines = UNIV"
proof -
  have "r \<in> set all_routines" for r by (cases r) (simp_all add: all_routines_def)
  then show ?thesis by blast
qed

lemma exit_status_all:
  "exit_status others waited p =
     (if others \<and> ended p = UNIV then Some 0 else if cancelled p \<and> 10 * second \<le> waited then Some 1 else None)"
proof -
  have "list_all (\<lambda>r. r \<in> R) all_routines \<longleftrightarrow> R = UNIV" for R
    unfolding list_all_iff all_routines_UNIV by blast
  then show ?thesis by (simp add: exit_status_def)
qed

text \<open>Only the routine that acts can come to keep something; it took that from one before it.\<close>

lemma step_keeps: "routines_step C P x s s' \<Longrightarrow> keeps s' q \<Longrightarrow> keeps s q \<or> q = x"
proof (induction rule: routines_step.induct)
  case (hand r s s')
  then show ?case by (induction rule: handover.induct) (cases q; simp)+
qed (cases q; auto)+

lemma handover_upstream: "handover C P x s s' \<Longrightarrow> keeps s q \<Longrightarrow> \<exists>r. keeps s r \<and> (x = r \<or> stage r < stage x)"
proof (induction rule: handover.induct)
  case (air s t rest)
  then show ?case by (intro exI [of _ q]) (cases q; simp)
next
  case parse_chatted then show ?case by (intro exI [of _ R_chat]) simp
next
  case parse_recognized then show ?case by (intro exI [of _ R_recognize]) simp
next
  case control then show ?case by (intro exI [of _ R_parse]) simp
next
  case compose_answer then show ?case by (intro exI [of _ R_control]) simp
next
  case compose_tick then show ?case by (intro exI [of _ R_run]) simp
next
  case compose_fade then show ?case by (intro exI [of _ R_fades]) simp
next
  case synthesize then show ?case by (intro exI [of _ R_compose]) simp
next
  case transmit then show ?case by (intro exI [of _ R_synthesize]) simp
next
  case enqueue then show ?case by (intro exI [of _ R_encode]) simp
qed (intro exI [of _ R_transmit], simp)+

lemma handover_air: "handover C P x s s' \<Longrightarrow> (\<forall>q. \<not> keeps s q) \<Longrightarrow> x = R_packets"
  by (induction rule: handover.induct) (metis keeps.simps option.simps(3) list.simps(3))+

text \<open>What nobody can take is kept.\<close>

definition stuck :: "'o program \<Rightarrow> Routine \<Rightarrow> bool" where
  "stuck p r \<longleftrightarrow> keeps (working p) r \<and> taker r \<in> ended p \<and>
     (r = R_encode \<longrightarrow> packetCapacity \<le> length (voicePacketsTxChan (working p)))"

lemma step_blocked:
  assumes "routines_step C P x s s'" and "keeps s r" and "x \<noteq> taker r"
    and "r = R_encode \<longrightarrow> packetCapacity \<le> length (voicePacketsTxChan s)"
  shows "keeps s' r \<and> (r = R_encode \<longrightarrow> packetCapacity \<le> length (voicePacketsTxChan s'))"
  using assms
proof (induction rule: routines_step.induct)
  case (hand x s s')
  then show ?case by (induction rule: handover.induct) (cases r; simp)+
qed (cases r; auto)+

section \<open>What a shutdown leaves\<close>

definition program_ok :: "control_lib \<Rightarrow> parse_lib \<Rightarrow> 'o Application \<Rightarrow> 'o program \<Rightarrow> bool" where
  "program_ok C P a p \<longleftrightarrow> routines_reachable C P a (working p) \<and> (\<forall>r \<in> ended p. \<not> keeps (working p) r) \<and>
     (ended p \<noteq> {} \<longrightarrow> cancelled p)"

lemma program_step_ok: "program_step C P p p' \<Longrightarrow> program_ok C P a p \<Longrightarrow> program_ok C P a p'"
proof (induction rule: program_step.induct)
  case (act r p s)
  then show ?case using step_keeps [OF act(2)] routines_reachable.step by (fastforce simp: program_ok_def)
next
  case (client_error p err)
  then show ?case by (simp add: program_ok_def client_returned_def split: option.split RunError.split)
qed (auto simp: program_ok_def interrupted_def)

lemma program_reachable_ok: "program_reachable C P a p \<Longrightarrow> program_ok C P a p"
proof (induction rule: program_reachable.induct)
  case (start uuid)
  then show ?case by (simp add: program_ok_def start_program_def routines_reachable.start)
next
  case (step p p')
  then show ?case using program_step_ok by blast
qed

lemma program_step_cancelled: "program_step C P p p' \<Longrightarrow> cancelled p \<Longrightarrow> cancelled p'"
proof (induction rule: program_step.induct)
  case (client_error p err)
  then show ?case by (simp add: client_returned_def split: option.split RunError.split)
qed (auto simp: interrupted_def)

lemma program_step_stuck: "program_step C P p p' \<Longrightarrow> program_ok C P a p \<Longrightarrow> stuck p r \<Longrightarrow> stuck p' r"
proof (induction rule: program_step.induct)
  case (act x p s)
  then have "x \<noteq> taker r" by (auto simp: stuck_def)
  then show ?case using act(4) step_blocked [OF act(2), of r] by (simp add: stuck_def)
next
  case (client_error p err)
  then show ?case by (simp add: stuck_def client_returned_def split: option.split RunError.split)
qed (auto simp: stuck_def interrupted_def)

text \<open>C7. A routine that keeps a message for one that has returned waits for ever: whatever happens, it does not return, and
  the program ends ten seconds after the cancellation and not before, with status 1.\<close>

theorem shutdown_forced:
  assumes "program_reachable C P a p" and "stuck p r" and "(program_step C P)\<^sup>*\<^sup>* p p'"
  shows "stuck p' r \<and> r \<notin> ended p' \<and> exit_status others waited p' = (if 10 * second \<le> waited then Some 1 else None)"
proof -
  have "program_ok C P a p' \<and> stuck p' r"
    using assms(3) program_reachable_ok [OF assms(1)] assms(2)
    by (induction rule: rtranclp_induct) (auto intro: program_step_ok program_step_stuck)
  then have "stuck p' r" "r \<notin> ended p'" "cancelled p'" by (auto simp: program_ok_def stuck_def)
  then show ?thesis by (auto simp: exit_status_all)
qed

text \<open>No routine after one that keeps something has returned.\<close>

definition orderly :: "'o program \<Rightarrow> bool" where
  "orderly p \<longleftrightarrow> (\<forall>r q. keeps (working p) r \<and> stage r < stage q \<longrightarrow> q \<notin> ended p)"

lemma keeps_remaining: "remaining s = 0 \<Longrightarrow> \<not> keeps s r"
  by (cases r) (simp_all add: remaining_def)

lemma orderly_next:
  assumes "program_ok C P a p" and "orderly p" and "handover C P x (working p) s" and "R_packets \<notin> ended p"
  shows "x \<notin> ended p \<and> orderly (p\<lparr>working := s\<rparr>)"
proof -
  have before: "\<exists>r. keeps (working p) r \<and> (x = r \<or> stage r < stage x)" if "x \<noteq> R_packets"
    using handover_air [OF assms(3)] handover_upstream [OF assms(3)] that by blast
  then have "x \<notin> ended p" using assms(1,2,4) by (cases "x = R_packets") (auto simp: orderly_def program_ok_def)
  moreover have "q \<notin> ended p" if keeps: "keeps s r" "stage r < stage q" for r q
  proof (cases "keeps (working p) r")
    case True
    then show ?thesis using that(2) assms(2) by (auto simp: orderly_def)
  next
    case False
    then have "r = x" using step_keeps [OF routines_step.hand [OF assms(3)] keeps(1)] by blast
    moreover have "x \<noteq> R_packets" using calculation keeps(1) by auto
    ultimately obtain r' where "keeps (working p) r'" "r = r' \<or> stage r' < stage r" using before by blast
    then have "keeps (working p) r' \<and> stage r' < stage q" using keeps(2) by auto
    then show ?thesis using assms(2) unfolding orderly_def by blast
  qed
  ultimately show ?thesis by (auto simp: orderly_def)
qed

lemma program_drains:
  "program_ok C P a p \<Longrightarrow> orderly p \<Longrightarrow> R_packets \<notin> ended p \<Longrightarrow>
     \<exists>s. (program_step C P)\<^sup>*\<^sup>* p (p\<lparr>working := s\<rparr>) \<and> remaining s = 0"
proof (induction "remaining (working p)" arbitrary: p rule: less_induct)
  case less
  show ?case
  proof (cases "remaining (working p) = 0")
    case True
    then show ?thesis by (intro exI [of _ "working p"]) simp
  next
    case False
    obtain q where q: "refines (working p) q" "pipe_ok q"
      using less.prems(1) routines_simulated pipe_reachable_ok unfolding program_ok_def by blast
    obtain x s where s: "handover C P x (working p) s" using handover_next [OF q] False by blast
    let ?p = "p\<lparr>working := s\<rparr>"
    have x: "x \<notin> ended p" "orderly ?p" using orderly_next [OF less.prems(1,2) s less.prems(3)] by simp_all
    have step: "program_step C P p ?p" by (rule program_step.act [OF x(1) routines_step.hand [OF s]])
    have "remaining (working ?p) < remaining (working p)" using handover_remaining [OF s q] by simp
    then obtain s' where "(program_step C P)\<^sup>*\<^sup>* ?p (?p\<lparr>working := s'\<rparr>)" "remaining s' = 0"
      using less.hyps [OF _ program_step_ok [OF step less.prems(1)] x(2)] less.prems(3) by auto
    then show ?thesis using step by (auto intro: converse_rtranclp_into_rtranclp)
  qed
qed

lemma program_leaves:
  assumes "cancelled p" and "\<forall>r. \<not> keeps (working p) r"
  shows "(program_step C P)\<^sup>*\<^sup>* p (p\<lparr>ended := ended p \<union> set rs\<rparr>)"
proof (induction rs)
  case (Cons r rs)
  let ?p = "p\<lparr>ended := ended p \<union> set rs\<rparr>"
  show ?case
  proof (cases "r \<in> ended ?p")
    case True
    then have "ended p \<union> set (r # rs) = ended p \<union> set rs" by auto
    then show ?thesis using Cons by simp
  next
    case False
    then have "program_step C P ?p (?p\<lparr>ended := insert r (ended ?p)\<rparr>)"
      using assms keeps.simps(6) [of "working p"] by (intro program_step.leave) (simp_all del: keeps.simps)
    then show ?thesis using Cons by (simp add: rtranclp.rtrancl_into_rtrancl)
  qed
qed simp


section \<open>Two shutdowns\<close>

text \<open>A signal comes while the controller still has its sunrise call to hand over. Either the composer returns first, or speech
  recognition.\<close>

definition demo_shutdown :: "Routine \<Rightarrow> u64 program" where
  "demo_shutdown r = (interrupted (start_program demo_application ''b''))\<lparr>ended := {r}\<rparr>"

lemma demo_waiting: "keeps (working (demo_shutdown x)) r \<longleftrightarrow> r = R_run"
  by (cases r) (simp_all add: demo_shutdown_def interrupted_def start_program_def start_routines_def broadcastSunrise_def)

lemma demo_shutdown_simps:
  "ended (demo_shutdown x) = {x}" "cancelled (demo_shutdown x)"
  by (simp_all add: demo_shutdown_def interrupted_def)

lemma demo_shutdown_reachable:
  assumes "r \<noteq> R_run"
  shows "program_reachable C P demo_application (demo_shutdown r)"
proof -
  let ?p = "interrupted (start_program demo_application ''b'')"
  have "program_reachable C P demo_application ?p"
    by (rule program_reachable.step [OF program_reachable.start program_step.signal])
  moreover have "program_step C P ?p (?p\<lparr>ended := insert r (ended ?p)\<rparr>)"
    by (rule program_step.leave) (use demo_waiting [of r r] assms in \<open>auto simp: demo_shutdown_def interrupted_def start_program_def\<close>)
  ultimately show ?thesis
    using program_reachable.step by (simp add: demo_shutdown_def interrupted_def start_program_def)
qed

theorem shutdown_forced_witness:
  "exit_status True (9 * second) (demo_shutdown R_compose) = None \<and> exit_status True (10 * second) (demo_shutdown R_compose) = Some 1"
proof -
  have "stuck (demo_shutdown R_compose) R_run" by (simp add: stuck_def demo_waiting demo_shutdown_simps del: keeps.simps)
  then have "exit_status True w (demo_shutdown R_compose) = (if 10 * second \<le> w then Some 1 else None)" for w
    using shutdown_forced [OF demo_shutdown_reachable [of R_compose demo_control_lib demo_parse_lib], of R_run] by blast
  then show ?thesis by (simp add: second_def)
qed


end
