(* ===== verification/Locks.thy ===== *)
theory Locks
  imports Prelude
begin

text \<open>
  The locks of the radar, its database of contacts, the trackfiles, the trackers of the controller and the table of peers
  (\<open>pkg/radar\<close>, \<open>pkg/trackfiles\<close>, \<open>pkg/controller\<close>, \<open>pkg/simpleradio\<close>). The other theories take an operation
  under a lock as one step. Here an operation is what it locks and unlocks, in the order of its code, with
  its branches and what depends on the data as arguments; goroutines execute such operations side by side.
\<close>

section \<open>Mutexes of Go\<close>

datatype mutex =
  M_pendingFades | M_center | M_completedFades | M_callback | M_missionTime | M_projection | M_contacts | M_trackfile u64 |
  M_merges | M_threatCooldowns | M_mergeCooldowns | M_pictureDeadline | M_clients

datatype lock_action = Lock mutex | Unlock mutex | RLock mutex | RUnlock mutex

text \<open>A goroutine holds mutexes, for writing where the flag is set, and has actions to come.\<close>

record thread =
  holds :: "(mutex \<times> bool) list"
  todo :: "lock_action list"

fun after :: "lock_action \<Rightarrow> (mutex \<times> bool) list \<Rightarrow> (mutex \<times> bool) list" where
  "after (Lock m) hs = (m, True) # hs"
| "after (RLock m) hs = (m, False) # hs"
| "after (Unlock m) hs = remove1 (m, True) hs"
| "after (RUnlock m) hs = remove1 (m, False) hs"

text \<open>A mutex is locked for writing when nobody holds it, and for reading when nobody holds it for writing. That also
  excludes the goroutine itself: a mutex cannot be locked twice.\<close>

fun granted :: "thread list \<Rightarrow> lock_action \<Rightarrow> bool" where
  "granted ts (Lock m) = list_all (\<lambda>t. (m, True) \<notin> set (holds t) \<and> (m, False) \<notin> set (holds t)) ts"
| "granted ts (RLock m) = list_all (\<lambda>t. (m, True) \<notin> set (holds t)) ts"
| "granted ts _ = True"

inductive lock_step :: "thread list \<Rightarrow> thread list \<Rightarrow> bool" where
  "i < length ts \<Longrightarrow> todo (ts ! i) = a # as \<Longrightarrow> granted ts a \<Longrightarrow>
    lock_step ts (ts[i := \<lparr>holds = after a (holds (ts ! i)), todo = as\<rparr>])"

text \<open>Go makes readers wait when a writer waits already, so that a reader surely goes on only if none does.\<close>

fun writes_next :: "mutex \<Rightarrow> thread \<Rightarrow> bool" where
  "writes_next m t = (case todo t of Lock m' # _ \<Rightarrow> m' = m | _ \<Rightarrow> False)"

definition goes_on :: "thread list \<Rightarrow> nat \<Rightarrow> bool" where
  "goes_on ts i \<longleftrightarrow> i < length ts \<and>
     (case todo (ts ! i) of
        [] \<Rightarrow> False
      | a # _ \<Rightarrow> granted ts a \<and> (case a of RLock m \<Rightarrow> \<not> list_ex (writes_next m) ts | _ \<Rightarrow> True))"

section \<open>A discipline without deadlock\<close>

text \<open>Every mutex has a rank, and a goroutine only locks one above those it holds.\<close>

fun rank :: "mutex \<Rightarrow> nat" where
  "rank M_pendingFades = 0" | "rank M_center = 0" | "rank M_completedFades = 1" | "rank M_callback = 2"
| "rank M_missionTime = 3" | "rank _ = 4"

fun disciplined :: "(mutex \<times> bool) list \<Rightarrow> lock_action list \<Rightarrow> bool" where
  "disciplined hs [] = (hs = [])"
| "disciplined hs (a # as) =
     ((case a of
         Lock m \<Rightarrow> list_all (\<lambda>h. rank (fst h) < rank m) hs
       | RLock m \<Rightarrow> list_all (\<lambda>h. rank (fst h) < rank m) hs
       | Unlock m \<Rightarrow> (m, True) \<in> set hs
       | RUnlock m \<Rightarrow> (m, False) \<in> set hs) \<and> disciplined (after a hs) as)"

definition all_disciplined :: "thread list \<Rightarrow> bool" where
  "all_disciplined ts \<longleftrightarrow> (\<forall>t \<in> set ts. disciplined (holds t) (todo t))"

lemma lock_step_disciplined: "lock_step ts ts' \<Longrightarrow> all_disciplined ts \<Longrightarrow> all_disciplined ts'"
proof (induction rule: lock_step.induct)
  case (1 i ts a as)
  then have "disciplined (after a (holds (ts ! i))) as"
    by (metis all_disciplined_def disciplined.simps(2) nth_mem)
  then show ?case using 1 by (auto simp: all_disciplined_def dest!: set_update_subset_insert [THEN subsetD])
qed

definition actions :: "thread list \<Rightarrow> nat" where
  "actions ts = sum_list (map (length \<circ> todo) ts)"

lemma lock_step_actions: "lock_step ts ts' \<Longrightarrow> Suc (actions ts') = actions ts"
proof (induction rule: lock_step.induct)
  case (1 i ts a as)
  have "length (todo (ts ! i)) \<le> actions ts"
    using 1(1) unfolding actions_def by (metis comp_apply elem_le_sum_list length_map nth_map)
  then show ?case using 1(1,2)
    by (simp add: actions_def map_update sum_list_update del: map_map)
qed

text \<open>The mutex somebody waits for, and that he waits only if somebody holds it.\<close>

fun wants :: "lock_action list \<Rightarrow> mutex option" where
  "wants (Lock m # _) = Some m"
| "wants (RLock m # _) = Some m"
| "wants _ = None"

lemma waits_for_holder:
  assumes "i < length ts" and "todo (ts ! i) \<noteq> []" and "\<forall>j. \<not> goes_on ts j"
  shows "\<exists>m w. wants (todo (ts ! i)) = Some m \<and> (\<exists>t \<in> set ts. (m, w) \<in> set (holds t))"
proof -
  have blocked: "\<exists>t \<in> set ts. (m, True) \<in> set (holds t) \<or> (m, False) \<in> set (holds t)"
    if "j < length ts" "todo (ts ! j) = Lock m # as" for j m as
    using assms(3)[rule_format, of j] that by (auto simp: goes_on_def list_all_iff)
  obtain a as where a: "todo (ts ! i) = a # as" using assms(2) by (cases "todo (ts ! i)") auto
  show ?thesis
  proof (cases a)
    case (Lock m)
    then show ?thesis using blocked [OF assms(1)] a by auto
  next
    case (RLock m)
    then consider t where "t \<in> set ts" "(m, True) \<in> set (holds t)" | t where "t \<in> set ts" "writes_next m t"
      using assms(1) assms(3)[rule_format, of i] a by (auto simp: goes_on_def list_all_iff list_ex_iff)
    then show ?thesis
    proof cases
      case 1
      then show ?thesis using a RLock by auto
    next
      case 2
      then obtain j as' where "j < length ts" "todo (ts ! j) = Lock m # as'"
        by (auto simp: in_set_conv_nth split: list.splits lock_action.splits)
      then show ?thesis using blocked a RLock by (metis wants.simps(2))
    qed
  qed (use assms(1) assms(3)[rule_format, of i] a in \<open>auto simp: goes_on_def\<close>)
qed

lemma disciplined_progress:
  assumes "all_disciplined ts" and "\<exists>t \<in> set ts. todo t \<noteq> []"
  shows "\<exists>i. goes_on ts i"
proof (rule ccontr)
  assume "\<not> ?thesis"
  then have stuck: "\<forall>j. \<not> goes_on ts j" by blast
  let ?waiting = "\<lambda>i. i < length ts \<and> todo (ts ! i) \<noteq> []"
  let ?rank = "\<lambda>i. rank (the (wants (todo (ts ! i))))"
  obtain k where k: "?waiting k" using assms(2) by (auto simp: in_set_conv_nth)
  moreover have "\<forall>i. ?waiting i \<longrightarrow> ?rank i < 5"
  proof -
    have "rank m < 5" for m by (cases m) simp_all
    then show ?thesis by blast
  qed
  ultimately obtain i where i: "?waiting i" "\<forall>j. ?waiting j \<longrightarrow> ?rank j \<le> ?rank i"
    using ex_has_greatest_nat [of ?waiting k ?rank 5] by blast
  obtain m w t where m: "wants (todo (ts ! i)) = Some m" "t \<in> set ts" "(m, w) \<in> set (holds t)"
    using waits_for_holder [OF conjunct1 [OF i(1)] conjunct2 [OF i(1)] stuck] by blast
  obtain j where j: "j < length ts" "ts ! j = t" using m(2) by (auto simp: in_set_conv_nth)
  have d: "disciplined (holds t) (todo t)" using assms(1) m(2) by (simp add: all_disciplined_def)
  with m(3) have t: "todo t \<noteq> []" by auto
  obtain m' where m': "wants (todo t) = Some m'" using waits_for_holder [of j ts] j t stuck by blast
  have "rank m < rank m'" using d m' m(3)
    by (cases "todo t" rule: wants.cases) (auto simp: list_all_iff)
  moreover have "?rank j \<le> ?rank i" using i(2) j t by blast
  ultimately show False using m(1) m' j by simp
qed

section \<open>Sections\<close>

text \<open>\<open>Lock\<close> with a deferred \<open>Unlock\<close>, and the same for reading.\<close>

definition locked :: "mutex \<Rightarrow> lock_action list \<Rightarrow> lock_action list" where
  "locked m body = Lock m # body @ [Unlock m]"

definition rlocked :: "mutex \<Rightarrow> lock_action list \<Rightarrow> lock_action list" where
  "rlocked m body = RLock m # body @ [RUnlock m]"

text \<open>Code that can run wherever the mutexes that are held have ranks below a bound, and leaves them held.\<close>

definition lockable :: "nat \<Rightarrow> lock_action list \<Rightarrow> bool" where
  "lockable n as \<longleftrightarrow> (\<forall>hs rest. list_all (\<lambda>h. rank (fst h) < n) hs \<longrightarrow> disciplined hs rest \<longrightarrow> disciplined hs (as @ rest))"

named_theorems lock_intros

lemma lockable_Nil [lock_intros, simp]: "lockable n []"
  by (simp add: lockable_def)

lemma lockable_append [lock_intros]: "lockable n as \<Longrightarrow> lockable n bs \<Longrightarrow> lockable n (as @ bs)"
  by (simp add: lockable_def)

lemma lockable_concat [lock_intros]: "(\<And>as. as \<in> set ass \<Longrightarrow> lockable n as) \<Longrightarrow> lockable n (concat ass)"
  by (induction ass) (auto intro: lock_intros)

lemma lockable_mono: "lockable m as \<Longrightarrow> n \<le> m \<Longrightarrow> lockable n as"
  unfolding lockable_def by (metis (mono_tags, lifting) list.pred_mono_strong order_less_le_trans)

lemma lockable_locked:
  assumes "n \<le> rank m" and "lockable (Suc (rank m)) body"
  shows "lockable n (locked m body)"
proof -
  have "disciplined ((m, True) # hs) (body @ Unlock m # rest)"
    if "list_all (\<lambda>h. rank (fst h) < n) hs" "disciplined hs rest" for hs rest
  proof -
    have "list_all (\<lambda>h. rank (fst h) < Suc (rank m)) ((m, True) # hs)" using that(1) assms(1) by (auto simp: list_all_iff)
    moreover have "disciplined ((m, True) # hs) (Unlock m # rest)" using that(2) by simp
    ultimately show ?thesis using assms(2) unfolding lockable_def by blast
  qed
  then show ?thesis using assms(1) by (auto simp: lockable_def locked_def list_all_iff)
qed

lemma lockable_rlocked:
  assumes "n \<le> rank m" and "lockable (Suc (rank m)) body"
  shows "lockable n (rlocked m body)"
proof -
  have "disciplined ((m, False) # hs) (body @ RUnlock m # rest)"
    if "list_all (\<lambda>h. rank (fst h) < n) hs" "disciplined hs rest" for hs rest
  proof -
    have "list_all (\<lambda>h. rank (fst h) < Suc (rank m)) ((m, False) # hs)" using that(1) assms(1) by (auto simp: list_all_iff)
    moreover have "disciplined ((m, False) # hs) (RUnlock m # rest)" using that(2) by simp
    ultimately show ?thesis using assms(2) unfolding lockable_def by blast
  qed
  then show ?thesis using assms(1) by (auto simp: lockable_def rlocked_def list_all_iff)
qed

lemma lockable_if [lock_intros]: "(b \<Longrightarrow> lockable n as) \<Longrightarrow> (\<not> b \<Longrightarrow> lockable n bs) \<Longrightarrow> lockable n (if b then as else bs)"
  by simp

section \<open>The operations of the code\<close>

text \<open>The database of contacts, a trackfile, the table of peers, and the small operations of the radar.\<close>

definition getByID_locks :: "lock_action list" where "getByID_locks = rlocked M_contacts []"
definition values_locks :: "lock_action list" where "values_locks = rlocked M_contacts []"
definition set_locks :: "lock_action list" where "set_locks = locked M_contacts []"
definition delete_locks :: "lock_action list" where "delete_locks = locked M_contacts []"
definition reset_locks :: "lock_action list" where "reset_locks = locked M_contacts []"
definition Update_locks :: "u64 \<Rightarrow> lock_action list" where "Update_locks i = locked (M_trackfile i) []"
definition LastKnown_locks :: "u64 \<Rightarrow> lock_action list" where "LastKnown_locks i = rlocked (M_trackfile i) []"
definition OnFrequency_locks :: "lock_action list" where "OnFrequency_locks = rlocked M_clients []"
definition Projection_locks :: "lock_action list" where "Projection_locks = rlocked M_projection []"
definition Declination_locks :: "lock_action list" where "Declination_locks = rlocked M_missionTime []"
definition SetMissionTime_locks :: "lock_action list" where "SetMissionTime_locks = locked M_missionTime []"
definition SetCallback_locks :: "lock_action list" where "SetCallback_locks = locked M_callback []"
definition areFadesPending_locks :: "lock_action list" where "areFadesPending_locks = rlocked M_pendingFades []"

definition SetBullseye_locks :: "bool \<Rightarrow> bool \<Rightarrow> lock_action list" where
  "SetBullseye_locks moved detect = (if moved \<and> detect then locked M_projection [] else [])"

text \<open>A search of the radar reads contacts, trackfiles, the declination, the projection and the table of peers; in which
  order and how often depends on the data and is an argument.\<close>

datatype reading = Read_contacts | Read_trackfile u64 | Read_declination | Read_projection | Read_peers

fun reading_locks :: "reading \<Rightarrow> lock_action list" where
  "reading_locks Read_contacts = values_locks"
| "reading_locks (Read_trackfile i) = LastKnown_locks i"
| "reading_locks Read_declination = Declination_locks"
| "reading_locks Read_projection = Projection_locks"
| "reading_locks Read_peers = OnFrequency_locks"

definition search_locks :: "reading list \<Rightarrow> lock_action list" where
  "search_locks rs = concat (map reading_locks rs)"

definition updateCenterPoint_locks :: "reading list \<Rightarrow> lock_action list" where
  "updateCenterPoint_locks rs = locked M_center (search_locks rs)"

definition Picture_locks :: "reading list \<Rightarrow> lock_action list" where
  "Picture_locks rs = rlocked M_center (search_locks rs)"

text \<open>The trackers of the controller, and what it does in the callbacks of the radar.\<close>

datatype tracker = Merges | ThreatCooldowns | MergeCooldowns

fun tracker_mutex :: "tracker \<Rightarrow> mutex" where
  "tracker_mutex Merges = M_merges"
| "tracker_mutex ThreatCooldowns = M_threatCooldowns"
| "tracker_mutex MergeCooldowns = M_mergeCooldowns"

definition tracker_locks :: "tracker \<Rightarrow> bool \<Rightarrow> lock_action list" where
  "tracker_locks t writes = (if writes then locked else rlocked) (tracker_mutex t) []"

definition ctl_handleStarted_locks :: "lock_action list" where
  "ctl_handleStarted_locks = tracker_locks Merges True @ tracker_locks ThreatCooldowns True @ tracker_locks MergeCooldowns True"

definition ctl_remove_locks :: "lock_action list" where
  "ctl_remove_locks = tracker_locks ThreatCooldowns True @ tracker_locks MergeCooldowns True @ tracker_locks Merges True"

definition ctl_handleFaded_locks :: "nat \<times> reading list \<Rightarrow> lock_action list" where
  "ctl_handleFaded_locks = (\<lambda>(ids, rs). concat (replicate ids ctl_remove_locks) @ OnFrequency_locks @ search_locks rs)"

text \<open>Updates, fades, mission starts and the collection of garbage. A fade was handled recently or not; it has a contact or
  not, whose group is then searched. The callbacks are attached or not.\<close>

definition handleUpdate_locks :: "u64 \<Rightarrow> bool \<Rightarrow> lock_action list" where
  "handleUpdate_locks i known = getByID_locks @ (if known then Update_locks i else set_locks)"

definition receive_fade_locks :: "bool \<Rightarrow> lock_action list" where
  "receive_fade_locks known = getByID_locks @ (if known then locked M_pendingFades [] else [])"

datatype fade_path = Recent | Unknown_contact | Searched "reading list"

fun collect_fade_locks :: "fade_path \<Rightarrow> lock_action list" where
  "collect_fade_locks Recent = rlocked M_completedFades []"
| "collect_fade_locks Unknown_contact = rlocked M_completedFades [] @ locked M_completedFades [] @ getByID_locks"
| "collect_fade_locks (Searched rs) =
     rlocked M_completedFades [] @ locked M_completedFades [] @ getByID_locks @ search_locks rs"

definition rdr_handleFaded_locks :: "fade_path list \<Rightarrow> (nat \<times> reading list) list option \<Rightarrow> lock_action list" where
  "rdr_handleFaded_locks fades groups = concat (map collect_fade_locks fades) @ concat (map (\<lambda>_. delete_locks) fades) @
     rlocked M_callback (case groups of None \<Rightarrow> [] | Some gs \<Rightarrow> concat (map ctl_handleFaded_locks gs))"

definition fade_tick_locks :: "bool \<Rightarrow> fade_path list \<Rightarrow> (nat \<times> reading list) list option \<Rightarrow> lock_action list" where
  "fade_tick_locks due fades groups =
     locked M_pendingFades (if due then rdr_handleFaded_locks fades groups else []) @ locked M_completedFades []"

definition rdr_handleStarted_locks :: "bool \<Rightarrow> lock_action list" where
  "rdr_handleStarted_locks attached = reset_locks @
     locked M_pendingFades (locked M_completedFades (rlocked M_callback (if attached then ctl_handleStarted_locks else [])))"

definition handleGarbageCollection_locks :: "(u64 \<times> bool) list option \<Rightarrow> lock_action list" where
  "handleGarbageCollection_locks contacts = rlocked M_pendingFades (rlocked M_missionTime
     (case contacts of None \<Rightarrow> []
      | Some cs \<Rightarrow> values_locks @ concat (map (\<lambda>(i, old). LastKnown_locks i @ (if old then delete_locks else [])) cs)))"

definition removal_locks :: "bool \<Rightarrow> lock_action list" where
  "removal_locks attached = rlocked M_callback (if attached then ctl_remove_locks else [])"

text \<open>A handler or a broadcast of the controller searches, uses the trackers and the deadline of the picture, and waits for fades.\<close>

datatype controller_part = Search "reading list" | Show_picture "reading list" | Track tracker bool | Picture_deadline | Wait_for_fades

fun controller_part_locks :: "controller_part \<Rightarrow> lock_action list" where
  "controller_part_locks (Search rs) = search_locks rs"
| "controller_part_locks (Show_picture rs) = Picture_locks rs"
| "controller_part_locks (Track t writes) = tracker_locks t writes"
| "controller_part_locks Picture_deadline = locked M_pictureDeadline []"
| "controller_part_locks Wait_for_fades = areFadesPending_locks"

datatype locking =
  Handle_update u64 bool | Receive_fade bool | Fade_tick bool "fade_path list" "(nat \<times> reading list) list option" |
  Handle_started bool | Collect_garbage "(u64 \<times> bool) list option" | Removal bool | Update_center "reading list" |
  Controller_work "controller_part list" | Set_mission_time | Set_bullseye bool bool | Set_callback | Synchronize_peers

fun locking_actions :: "locking \<Rightarrow> lock_action list" where
  "locking_actions (Handle_update i known) = handleUpdate_locks i known"
| "locking_actions (Receive_fade known) = receive_fade_locks known"
| "locking_actions (Fade_tick due fades groups) = fade_tick_locks due fades groups"
| "locking_actions (Handle_started attached) = rdr_handleStarted_locks attached"
| "locking_actions (Collect_garbage contacts) = handleGarbageCollection_locks contacts"
| "locking_actions (Removal attached) = removal_locks attached"
| "locking_actions (Update_center rs) = updateCenterPoint_locks rs"
| "locking_actions (Controller_work parts) = concat (map controller_part_locks parts)"
| "locking_actions Set_mission_time = SetMissionTime_locks"
| "locking_actions (Set_bullseye moved detect) = SetBullseye_locks moved detect"
| "locking_actions Set_callback = SetCallback_locks"
| "locking_actions Synchronize_peers = locked M_clients []"

definition goroutines :: "locking list list \<Rightarrow> thread list" where
  "goroutines jobs = map (\<lambda>ops. \<lparr>holds = [], todo = concat (map locking_actions ops)\<rparr>) jobs"

section \<open>The operations keep the discipline\<close>

text \<open>The short sections, which lock one mutex and nothing inside.\<close>

lemma short_locked [lock_intros]: "n \<le> rank m \<Longrightarrow> lockable n (locked m [])" "n \<le> rank m \<Longrightarrow> lockable n (rlocked m [])"
  by (simp_all add: lockable_locked lockable_rlocked)

lemmas short_sections = getByID_locks_def values_locks_def set_locks_def delete_locks_def reset_locks_def Update_locks_def
  LastKnown_locks_def OnFrequency_locks_def Projection_locks_def Declination_locks_def SetMissionTime_locks_def
  SetCallback_locks_def areFadesPending_locks_def SetBullseye_locks_def tracker_locks_def

lemma tracker_lockable [lock_intros]: "n \<le> 4 \<Longrightarrow> lockable n (tracker_locks t w)"
  by (cases t) (auto simp: tracker_locks_def intro!: lock_intros)

lemma search_lockable [lock_intros]: "n \<le> 3 \<Longrightarrow> lockable n (search_locks rs)"
proof -
  assume "n \<le> 3"
  then have "lockable n (reading_locks r)" for r by (cases r) (auto simp: short_sections intro!: lock_intros)
  then show ?thesis unfolding search_locks_def by (intro lock_intros) auto
qed

lemma nested_locked:
  assumes "lockable k body" and "n \<le> rank m" and "rank m < k"
  shows "lockable n (locked m body)" "lockable n (rlocked m body)"
  using assms lockable_mono [OF assms(1), of "Suc (rank m)"] by (simp_all add: lockable_locked lockable_rlocked)

lemma remove_lockable [lock_intros]: "n \<le> 4 \<Longrightarrow> lockable n ctl_remove_locks" "n \<le> 4 \<Longrightarrow> lockable n ctl_handleStarted_locks"
  by (auto simp: ctl_remove_locks_def ctl_handleStarted_locks_def intro!: lock_intros)

lemma ctl_handleFaded_lockable [lock_intros]: "n \<le> 3 \<Longrightarrow> lockable n (ctl_handleFaded_locks g)"
  by (cases g) (auto simp: ctl_handleFaded_locks_def OnFrequency_locks_def intro!: lock_intros)

lemma collect_fade_lockable [lock_intros]: "n \<le> 1 \<Longrightarrow> lockable n (collect_fade_locks f)"
  by (cases f) (auto simp: getByID_locks_def intro!: lock_intros)

lemma rdr_handleFaded_lockable [lock_intros]: "lockable 1 (rdr_handleFaded_locks fades groups)"
proof -
  have "lockable 3 (case groups of None \<Rightarrow> [] | Some gs \<Rightarrow> concat (map ctl_handleFaded_locks gs))"
    by (cases groups) (auto intro!: lock_intros)
  then have "lockable 1 (rlocked M_callback (case groups of None \<Rightarrow> [] | Some gs \<Rightarrow> concat (map ctl_handleFaded_locks gs)))"
    by (rule nested_locked) simp_all
  moreover have "lockable 1 (concat (map collect_fade_locks fades))"
    by (intro lockable_concat) (auto intro!: collect_fade_lockable)
  moreover have "lockable 1 (concat (map (\<lambda>_. delete_locks) fades))"
    by (intro lockable_concat) (auto simp: delete_locks_def intro!: short_locked)
  ultimately show ?thesis unfolding rdr_handleFaded_locks_def by (intro lockable_append)
qed

lemma fade_tick_lockable: "lockable 0 (fade_tick_locks due fades groups)"
proof -
  have "lockable 1 (if due then rdr_handleFaded_locks fades groups else [])" by (intro lockable_if rdr_handleFaded_lockable lockable_Nil)
  then have "lockable 0 (locked M_pendingFades (if due then rdr_handleFaded_locks fades groups else []))"
    by (rule nested_locked) simp_all
  then show ?thesis unfolding fade_tick_locks_def by (intro lock_intros) simp_all
qed

lemma handleStarted_lockable: "lockable 0 (rdr_handleStarted_locks attached)"
proof -
  have "lockable 3 (if attached then ctl_handleStarted_locks else [])" by (auto intro!: lock_intros)
  then have "lockable 2 (rlocked M_callback (if attached then ctl_handleStarted_locks else []))" (is "lockable 2 ?c")
    by (rule nested_locked) simp_all
  then have "lockable 1 (locked M_completedFades ?c)" by (rule nested_locked) simp_all
  then have "lockable 0 (locked M_pendingFades (locked M_completedFades ?c))" by (rule nested_locked) simp_all
  then show ?thesis unfolding rdr_handleStarted_locks_def reset_locks_def by (intro lock_intros) simp_all
qed

lemma handleGarbageCollection_lockable: "lockable 0 (handleGarbageCollection_locks contacts)"
proof -
  have each: "lockable 4 (case c of (i, old) \<Rightarrow> LastKnown_locks i @ (if old then delete_locks else []))" for c
    by (cases c) (auto simp: LastKnown_locks_def delete_locks_def intro!: lock_intros)
  have "lockable 4 (case contacts of None \<Rightarrow> [] | Some cs \<Rightarrow>
      values_locks @ concat (map (\<lambda>(i, old). LastKnown_locks i @ (if old then delete_locks else [])) cs))" (is "lockable 4 ?b")
  proof (cases contacts)
    case (Some cs)
    have "lockable 4 (concat (map (\<lambda>(i, old). LastKnown_locks i @ (if old then delete_locks else [])) cs))"
      by (rule lockable_concat) (use each in auto)
    then show ?thesis by (auto simp: Some values_locks_def intro!: lockable_append short_locked)
  qed simp
  then have "lockable 1 (rlocked M_missionTime ?b)" by (rule nested_locked) simp_all
  then show ?thesis unfolding handleGarbageCollection_locks_def by (rule nested_locked) simp_all
qed

lemma center_lockable [lock_intros]: "lockable 0 (updateCenterPoint_locks rs)" "lockable 0 (Picture_locks rs)"
  using search_lockable [of 3 rs] by (simp_all add: updateCenterPoint_locks_def Picture_locks_def nested_locked)

lemma controller_part_lockable [lock_intros]: "lockable 0 (controller_part_locks p)"
  by (cases p) (auto simp: areFadesPending_locks_def intro!: lock_intros)

lemma locking_lockable: "lockable 0 (locking_actions l)"
proof (cases l)
  case (Fade_tick due fades groups)
  then show ?thesis by (simp add: fade_tick_lockable)
next
  case (Handle_started attached)
  then show ?thesis by (simp add: handleStarted_lockable)
next
  case (Collect_garbage contacts)
  then show ?thesis by (simp add: handleGarbageCollection_lockable)
next
  case (Removal attached)
  have "lockable 3 (if attached then ctl_remove_locks else [])" by (auto intro!: lock_intros)
  then show ?thesis unfolding Removal locking_actions.simps removal_locks_def by (rule nested_locked) simp_all
next
  case (Update_center rs)
  then show ?thesis by (auto intro: lock_intros)
next
  case (Controller_work parts)
  then show ?thesis by (auto intro!: lock_intros)
qed (auto simp: handleUpdate_locks_def receive_fade_locks_def short_sections intro!: lock_intros)

lemma goroutines_disciplined: "all_disciplined (goroutines jobs)"
proof -
  have "lockable 0 (concat (map locking_actions ops))" for ops
    by (intro lock_intros) (auto simp: locking_lockable)
  then have "disciplined [] (concat (map locking_actions ops) @ [])" for ops
    using disciplined.simps(1) unfolding lockable_def by (metis list.pred_inject(1))
  then show ?thesis by (auto simp: all_disciplined_def goroutines_def)
qed

text \<open>C8. Goroutines that execute any operations of the radar and the controller never wait for each other in a circle,
  nor for themselves: as long as one has something to do, one can go on, also with Go's preference of waiting
  writers. Every run is finite, and at its end every goroutine has done its work and released all it held.\<close>

theorem locks_never_deadlock:
  assumes "lock_step\<^sup>*\<^sup>* (goroutines jobs) ts"
  shows "((\<exists>t \<in> set ts. todo t \<noteq> []) \<longrightarrow> (\<exists>i. goes_on ts i)) \<and>
    (\<forall>n ts'. (lock_step ^^ n) ts ts' \<longrightarrow> n + actions ts' = actions ts) \<and>
    ((\<nexists>ts'. lock_step ts ts') \<longrightarrow> (\<forall>t \<in> set ts. todo t = [] \<and> holds t = []))"
proof (intro conjI allI impI)
  have ok: "all_disciplined ts"
    using assms goroutines_disciplined by (induction rule: rtranclp_induct) (auto intro: lock_step_disciplined)
  show next': "\<exists>i. goes_on ts i" if "\<exists>t \<in> set ts. todo t \<noteq> []"
    by (rule disciplined_progress [OF ok that])
  show "n + actions ts' = actions ts" if "(lock_step ^^ n) ts ts'" for n ts'
    using that
  proof (induction n arbitrary: ts')
    case (Suc n)
    then obtain t where "(lock_step ^^ n) ts t" "lock_step t ts'" by auto
    then show ?case using Suc.IH [of t] lock_step_actions [of t ts'] by simp
  qed simp
  assume final: "\<nexists>ts'. lock_step ts ts'"
  have "\<not> goes_on ts i" for i
    using final lock_step.intros [of i ts] by (auto simp: goes_on_def split: list.splits)
  then have "\<forall>t \<in> set ts. todo t = []" using next' by blast
  then show "\<forall>t \<in> set ts. todo t = [] \<and> holds t = []" using ok by (force simp: all_disciplined_def)
qed

text \<open>A fade is handled while garbage is collected, and a new mission has begun: the collection has the lock of the pending fades and
  the other two wait.\<close>

definition demo_jobs :: "locking list list" where
  "demo_jobs = [[Collect_garbage (Some [(7, True)])], [Fade_tick True [Searched [Read_declination]] (Some [(1, [Read_contacts])])],
     [Handle_started True]]"

theorem locks_never_deadlock_witness:
  "\<exists>ts i. lock_step\<^sup>*\<^sup>* (goroutines demo_jobs) ts \<and> (M_pendingFades, False) \<in> set (holds (ts ! 0)) \<and>
     \<not> goes_on ts 1 \<and> goes_on ts i"
proof -
  let ?ts = "(goroutines demo_jobs)[0 := \<lparr>holds = [(M_pendingFades, False)], todo = tl (todo (goroutines demo_jobs ! 0))\<rparr>]"
  have step: "lock_step (goroutines demo_jobs) ?ts"
    using lock_step.intros [of 0 "goroutines demo_jobs" "RLock M_pendingFades"]
    by (simp add: goroutines_def demo_jobs_def handleGarbageCollection_locks_def rlocked_def)
  moreover have "\<not> goes_on ?ts 1"
    by (simp add: goes_on_def goroutines_def demo_jobs_def fade_tick_locks_def locked_def)
  moreover have "\<exists>i. goes_on ?ts i"
    using conjunct1 [OF locks_never_deadlock [OF r_into_rtranclp [of lock_step, OF step]]]
    by (simp add: goroutines_def demo_jobs_def fade_tick_locks_def locked_def)
  moreover have "(M_pendingFades, False) \<in> set (holds (?ts ! 0))" by (simp add: goroutines_def demo_jobs_def)
  ultimately show ?thesis by blast
qed

end
