(* ===== verification/Spec2Isabelle.thy ===== *)
theory Spec2Isabelle
  imports Synthesis CommandLine Recognition Connections Shutdown Locks
begin

text \<open>
  A verification development of SkyEye, a bot that plays the controller of a ground-controlled
  interception (GCI) in the flight simulator DCS World. SkyEye is a Go program; the files named below
  are those of its repository.

  \<^bold>\<open>The program.\<close> A telemetry client (\<open>pkg/telemetry\<close>) reads a stream of ACMI lines about the
  objects of the simulation and sends starts of missions, positions of aircraft and removals of objects. The radar (\<open>pkg/radar\<close>)
  keeps them as trackfiles (\<open>pkg/trackfiles\<close>) in a database of contacts, forms groups, and answers the searches
  of the controller. A client of Simple Radio Standalone, SRS (\<open>pkg/simpleradio\<close>), receives what
  pilots say; the pipeline of the application (\<open>internal/application\<close>) recognizes the speech, parses it into a request
  (\<open>pkg/parser\<close>), has the controller (\<open>pkg/controller\<close>) answer it with calls, composes each call as
  text (\<open>pkg/composer\<close>), has it spoken, and hands the audio to the SRS client, which transmits it. The controller
  also broadcasts by itself: threats, merges, fades, pictures and a call at the start of a mission. Every request carries a context whose
  values a tracer reports (\<open>pkg/traces\<close>).

  \<^bold>\<open>Conventions.\<close> The definitions have the names of the code, with a prefix or suffix where such a name is one of
  the library or is used twice. Structs are records; a method takes its receiver as
  an argument and returns it updated. A result \<open>None\<close> of an operation is a panic of the code where its theory says so, an error
  is \<open>Inl\<close>. Times are nanoseconds as integers, with 0 for Go's zero time, and are arguments of the operations
  that read the clock. IDs, counters and bytes are words of their width. Strings are lists of
  bytes; functions on runes are modelled for ASCII text. Floating-point numbers are real
  numbers, so that rounding is not modelled; where Go would compute an infinite value or one that is not a number, the definitions have
  that case as \<open>None\<close>. The bits of the voice packets' frequencies are kept as words. A Go map is an association list
  with distinct keys, and the order in which it is ranged over is a parameter: what is proved holds
  for every order. Operations under a lock are one step; goroutines are steps of an inductive relation, in any order.

  \<^bold>\<open>Parameters.\<close> What is not in the repository is an argument, with named hypotheses where something is
  relied on: constants of units (\<open>units\<close>), geometry and the magnetic model (\<open>geo_lib\<close>), number words and
  similarity of words (\<open>parser_lib\<close>), fuzzy search, bounded queues and orders of maps (\<open>radar_lib\<close>,
  \<open>control_lib\<close>), ACMI parsing and objects (\<open>acmi_lib\<close>), CRC functions (\<open>crc_lib\<close>), Opus, the recognizers and the
  synthesizer. Each property with such a hypothesis has a witness with a concrete instance.
\<close>

section \<open>The theories\<close>

text \<open>
  \<^item> \<open>Prelude\<close>: bytes, slices with their bounds, little-endian encoding; the collections \<open>go_simps\<close> and
    \<open>inv_intros\<close>. \<open>GoStrings\<close>, \<open>GoParsing\<close>: what is used of the packages \<open>strings\<close>, \<open>strconv\<close> and \<open>time\<close>. \<open>Store\<close>:
    the contract of a keyed table (locales \<open>keyed_store\<close>, \<open>listed_store\<close>) and Go's map as its provider.

  \<^item> Radio. \<open>VoicePacket\<close> (\<open>simpleradio/voice/packet.go\<close>): encoding and decoding are inverse, what is accepted
    is exactly the wire format, and which packets make \<open>NewPacket\<close> panic. \<open>SrsTypes\<close> (\<open>simpleradio/types\<close>). \<open>SrsClient\<close>
    (\<open>client.go\<close>, \<open>message.go\<close>, \<open>sync.go\<close>, \<open>frequency.go\<close>): the table of peers stays sound under every message of the server.
    \<open>SrsReceiver\<close> (\<open>receive.go\<close>, \<open>net.go\<close>, \<open>ping.go\<close>): the first speaker wins, what is published is
    a complete transmission of one speaker, and each such transmission is published; the loop uses the buffers through the locale
    \<open>transmission_buffer\<close>. \<open>SrsTransmit\<close> (\<open>transmit.go\<close>, \<open>voice.go\<close>): frames lose
    nothing, packets are paced, and after waiting the channel is clear. \<open>OverTheAir\<close> (with \<open>frame.go\<close>): what one client sends another hands
    to its decoder. \<open>Recognition\<close> (\<open>pkg/recognizer\<close>): what is received fits the recognizers.

  \<^item> Language. \<open>Normalize\<close> (\<open>internal/normalize\<close>, \<open>pkg/callsigns\<close>), \<open>TokenStream\<close> (\<open>internal/parser/token\<close>, locale
    \<open>cursor\<close>), \<open>Replacements\<close> and \<open>Parser\<close> (\<open>pkg/parser\<close>): normal forms of callsigns, the stream reads every word once, the
    parser answers exactly the texts that address the controller. \<open>Composer\<close> (\<open>pkg/composer\<close>) and \<open>Spoken\<close>:
    a bearing that is spoken is parsed back.

  \<^item> Vocabulary and data. \<open>Bearings\<close>, \<open>Brevity\<close>, \<open>Coalitions\<close>, \<open>Spatial\<close>, \<open>Locations\<close>, \<open>Encyclopedia\<close>
    (the packages of these names, and \<open>pkg/encyclopedia/terrains\<close>, \<open>pkg/spatial/projections\<close>): bearings are normal,
    stacks partition the contacts, the nearest terrain is found, every aircraft of the encyclopedia is well-formed, also with custom ones.

  \<^item> Radar. \<open>Trackfile\<close>, \<open>Contacts\<close> (\<open>contacts.go\<close>), \<open>ContactGroups\<close> (\<open>group.go\<close>, \<open>grouping.go\<close>),
    \<open>Radar\<close> (\<open>radar.go\<close>, \<open>faded.go\<close>, \<open>center.go\<close>, \<open>started.go\<close>; relations \<open>radar_step\<close> and
    \<open>radar_reachable\<close>), \<open>Searches\<close> (\<open>nearest.go\<close>, \<open>nearby.go\<close>, \<open>merged.go\<close>, \<open>threat.go\<close>, \<open>picture.go\<close>) and \<open>Awareness\<close>,
    which holds what the searches guarantee: the state invariant in all reachable states, why contacts are removed, a
    group as a closure of nearness, soundness and completeness of every search.

  \<^item> Controller. \<open>Trackers\<close> (\<open>merged.go\<close>, \<open>threat.go\<close>; the merge tracker refines a relation, locale \<open>pair_tracker\<close>), \<open>Collation\<close>
    (\<open>callsigns.go\<close>), \<open>Controller\<close> (every handler and broadcast; relations \<open>control_step\<close>, \<open>control_run\<close>) and
    \<open>Broadcasts\<close>: merges with hysteresis, cooldowns along every run, what a fade forgets, the invariant.

  \<^item> Telemetry. \<open>Handshake\<close> (\<open>handshake.go\<close>) and \<open>Telemetry\<close> (\<open>streamer.go\<close>, \<open>file.go\<close>, \<open>telemetry.go\<close>; \<open>stream_step\<close>,
    \<open>stream_run\<close>): lines are read in order, updates are those of aircraft, a faded object is silent.

  \<^item> Application. \<open>Traces\<close> (\<open>pkg/traces\<close>), \<open>Audio\<close> (\<open>pkg/pcm\<close>, \<open>pkg/recognizer\<close>), \<open>Commands\<close> (\<open>pkg/commands\<close>), \<open>Application\<close>
    (\<open>internal/application\<close>: construction and all stages), \<open>Answers\<close>: every parsed
    request gets exactly one call that can be composed, and it is transmitted with the identity of the request; what a tracer must not
    show. \<open>Pipeline\<close>: the routines of \<open>Run\<close> and their channels; answers keep their order and nothing gets stuck. \<open>Channels\<close>: the same
    routines with the channels as the code makes them, meetings and one of capacity three, refine it; what goes on the air keeps the
    order of the texts, and no deadlock is possible. \<open>Shutdown\<close>: when the
    program ends after a cancellation, and with which status. \<open>Locks\<close>: the locks of the radar and of the controller are taken in an
    order that excludes deadlock.
    \<open>Feed\<close>: telemetry, radar and controller composed. \<open>Connections\<close>: the clients that connect again after an error; over all its
    connections a telemetry client refines one stream. \<open>Setup\<close> (\<open>cmd/skyeye\<close>, \<open>cmd/skyeye-scaler\<close>,
    \<open>internal/cli\<close>): a configuration the program starts with is sound. \<open>CommandLine\<close>: which value a flag takes. \<open>Synthesis\<close>
    (\<open>pkg/synthesizer\<close>): speaking ends with audio or an error.

  Where a theory ends with \<open>demo_\<close> definitions, they are the inputs of its witnesses.
\<close>

section \<open>Bounds, fuel and termination\<close>

text \<open>
  No definition has fuel. Loops are structural recursion or functions with a measure: the length of what is left to
  read, the number of unread tokens, or, where a group grows from aircraft to aircraft (\<open>addNearby\<close>), the number of contacts that
  are not in it yet. Bounds of the code are kept as they are: segments of at most \<open>2 ^ 16 - 1\<close>
  bytes, transmissions of at most 750 packets, texts of at most 1000 characters, callsigns of three digits, four frames of a trackfile.
  Loops that wait for an event or a tick are step relations and never a function.
\<close>

section \<open>What is not modelled\<close>

text \<open>
  \<^item> Sockets, files, HTTP, gRPC and the formats JSON and YAML: the values read or written are arguments and results.

  \<^item> The starting of goroutines, and their joining except for those of \<open>Shutdown\<close>: the bodies of the goroutines are the
    steps of the relations, and that a channel has a capacity is a bound only in \<open>Channels\<close> and \<open>Shutdown\<close>. That each operation under its locks is one
    step is taken for granted; \<open>Locks\<close> has the order of the locks of the radar and the controller only. That \<open>receiveVoice\<close> reads
    the table of peers without a lock is not visible in the model.

  \<^item> The parsing of the command line (cobra, pflag) and of the configuration file (viper): the values found are arguments.

  \<^item> The engines of speech recognition and synthesis, and Opus; the writing of the log.

  \<^item> The rounding and the range of floating-point numbers; text that is not ASCII; the formatting of values for the log.
\<close>

end
